(* ===== verification/Prelude.thy ===== *)
theory Prelude
  imports Main "HOL-Library.Monad_Syntax"
begin

text \<open>
  Shared vocabulary of the development: run-time panics of Go as values, a fold that stops at
  the first error, decimal printing and the byte-string operations of the \<open>strings\<close> package
  that the sources use, and generic facts on lists, maps and options.

  Strings are byte strings, as in Go: a \<open>char\<close> is one byte.  \<open>TrimSpace\<close> and \<open>ToLower\<close> are
  given on the ASCII range; the multi-byte white space and letters of Unicode are left alone.
\<close>

named_theorems go_simps \<open>unfolding rules of the small helpers shared by the components\<close>
named_theorems inv_intros \<open>preservation of the components' invariants\<close>

subsection \<open>Panics and fallible folds\<close>

datatype go_panic =
    IndexOutOfRange
  | SliceOutOfRange
  | MakeSliceOutOfRange
  | NilDereference
  | TypeAssertion

fun foldE :: "('s \<Rightarrow> 'a \<Rightarrow> 'e + 's) \<Rightarrow> 's \<Rightarrow> 'a list \<Rightarrow> 'e + 's" where
  "foldE f s [] = Inr s"
| "foldE f s (x # xs) = (case f s x of Inl e \<Rightarrow> Inl e | Inr s' \<Rightarrow> foldE f s' xs)"

lemma foldE_append:
  "foldE f s (xs @ ys) = (case foldE f s xs of Inl e \<Rightarrow> Inl e | Inr s' \<Rightarrow> foldE f s' ys)"
  by (induction xs arbitrary: s) (auto split: sum.splits)

lemma foldE_inv:
  assumes "foldE f s xs = Inr s'" and "P s"
    and "\<And>s x s'. P s \<Longrightarrow> f s x = Inr s' \<Longrightarrow> P s'"
  shows "P s'"
  using assms(1,2) by (induction xs arbitrary: s) (auto split: sum.splits dest: assms(3))

definition is_ok :: "'e + 'a \<Rightarrow> bool" where
  "is_ok r = (case r of Inl _ \<Rightarrow> False | Inr _ \<Rightarrow> True)"

lemma is_ok_simps [simp]: "is_ok (Inr x)" "\<not> is_ok (Inl e)"
  by (simp_all add: is_ok_def)

lemma is_ok_iff: "is_ok r \<longleftrightarrow> (\<exists>x. r = Inr x)"
  by (cases r) auto

subsection \<open>Lists\<close>

text \<open>The last \<open>n\<close> elements of a list.\<close>

definition last_n :: "nat \<Rightarrow> 'a list \<Rightarrow> 'a list" where
  "last_n n xs = drop (length xs - n) xs"

lemma length_last_n [simp]: "length (last_n n xs) = min n (length xs)"
  by (simp add: last_n_def)

lemma last_n_all: "length xs \<le> n \<Longrightarrow> last_n n xs = xs"
  by (simp add: last_n_def)

lemma set_last_n: "set (last_n n xs) \<subseteq> set xs"
  by (simp add: last_n_def set_drop_subset)

lemma last_n_append: "length ys \<le> n \<Longrightarrow> last_n n (xs @ ys) = last_n (n - length ys) xs @ ys"
  by (simp add: last_n_def)

lemma last_n_last_n_append: "last_n n (last_n n xs @ ys) = last_n n (xs @ ys)"
  by (cases "n \<le> length xs") (simp_all add: last_n_def add.commute)

subsection \<open>Finite maps with an explicit visiting order\<close>

text \<open>
  The concurrent map \<open>xsync.Map\<close> visits its entries in an unspecified order.  A loop over it is
  modelled as a fold over a list of keys; \<open>enumerates ks m\<close> says that the list visits every
  entry exactly once.
\<close>

definition enumerates :: "'k list \<Rightarrow> ('k \<rightharpoonup> 'v) \<Rightarrow> bool" where
  "enumerates ks m \<longleftrightarrow> distinct ks \<and> set ks = dom m"

definition delete_where :: "('k \<Rightarrow> 'v \<Rightarrow> bool) \<Rightarrow> ('k \<rightharpoonup> 'v) \<Rightarrow> ('k \<rightharpoonup> 'v)" where
  "delete_where P m = (\<lambda>k. case m k of None \<Rightarrow> None | Some v \<Rightarrow> if P k v then None else Some v)"

lemma delete_where_Some: "delete_where P m k = Some v \<longleftrightarrow> m k = Some v \<and> \<not> P k v"
  by (auto simp: delete_where_def split: option.splits)

lemma dom_delete_where: "dom (delete_where P m) \<subseteq> dom m"
  by (auto simp: delete_where_Some dom_def)

subsection \<open>Byte strings\<close>

definition is_space :: "char \<Rightarrow> bool" where
  "is_space c \<longleftrightarrow> c \<in> {CHR '' '', CHR 0x09, CHR 0x0A, CHR 0x0B, CHR 0x0C, CHR 0x0D}"

definition TrimLeft_space :: "string \<Rightarrow> string" where
  "TrimLeft_space s = dropWhile is_space s"

definition TrimSpace :: "string \<Rightarrow> string" where
  "TrimSpace s = rev (dropWhile is_space (rev (dropWhile is_space s)))"

definition char_to_lower :: "char \<Rightarrow> char" where
  "char_to_lower c =
     (let n = (of_char c :: nat) in if 65 \<le> n \<and> n \<le> 90 then char_of (n + 32) else c)"

definition ToLower :: "string \<Rightarrow> string" where
  "ToLower s = map char_to_lower s"

text \<open>\<open>strings.Split\<close> on a one-byte separator, \<open>strings.Join\<close> and \<open>strings.Index\<close> of one byte.\<close>

fun split_on :: "char \<Rightarrow> string \<Rightarrow> string list" where
  "split_on d [] = [[]]"
| "split_on d (c # cs) =
     (if c = d then [] # split_on d cs
      else case split_on d cs of [] \<Rightarrow> [[c]] | w # ws \<Rightarrow> (c # w) # ws)"

fun str_join :: "string \<Rightarrow> string list \<Rightarrow> string" where
  "str_join sep [] = []"
| "str_join sep [w] = w"
| "str_join sep (w # ws) = w @ sep @ str_join sep ws"

fun index_byte :: "char \<Rightarrow> string \<Rightarrow> nat option" where
  "index_byte d [] = None"
| "index_byte d (c # cs) = (if c = d then Some 0 else map_option Suc (index_byte d cs))"

lemma split_on_nonempty [simp]: "split_on d s \<noteq> []"
  by (cases s) (auto split: list.splits)

lemma split_on_plain: "d \<notin> set w \<Longrightarrow> split_on d w = [w]"
  by (induction w) auto

lemma split_on_append: "d \<notin> set w \<Longrightarrow> split_on d (w @ d # s) = w # split_on d s"
  by (induction w) auto

lemma split_on_join:
  "ws \<noteq> [] \<Longrightarrow> \<forall>w\<in>set ws. d \<notin> set w \<Longrightarrow> split_on d (str_join [d] ws) = ws"
  by (induction "[d]" ws rule: str_join.induct) (simp_all add: split_on_plain split_on_append)

lemma str_join_split: "str_join [d] (split_on d s) = s"
proof (induction s)
  case (Cons c cs)
  then show ?case by (cases "split_on d cs" rule: list.exhaust; cases "tl (split_on d cs)") auto
qed simp

lemma split_on_no_sep: "w \<in> set (split_on d s) \<Longrightarrow> d \<notin> set w"
proof (induction s arbitrary: w)
  case (Cons c cs)
  then show ?case by (cases "split_on d cs") (auto split: if_splits)
qed simp

lemma index_byte_append [simp]: "d \<notin> set w \<Longrightarrow> index_byte d (w @ d # s) = Some (length w)"
  by (induction w) auto

lemma index_byte_None: "index_byte d s = None \<longleftrightarrow> d \<notin> set s"
  by (induction s) auto

lemma index_byte_Some:
  "index_byte d s = Some n \<Longrightarrow> s = take n s @ d # drop (n + 1) s \<and> d \<notin> set (take n s)"
  by (induction s arbitrary: n) (auto split: if_splits)

text \<open>\<open>strings.HasPrefix\<close> and \<open>strings.Contains\<close>.\<close>

definition has_prefix :: "string \<Rightarrow> string \<Rightarrow> bool" where
  "has_prefix p s \<longleftrightarrow> take (length p) s = p"

fun str_contains :: "string \<Rightarrow> string \<Rightarrow> bool" where
  "str_contains sub [] = (sub = [])"
| "str_contains sub (c # cs) = (has_prefix sub (c # cs) \<or> str_contains sub cs)"

lemma has_prefix_append [simp]: "has_prefix p (p @ s)"
  by (simp add: has_prefix_def)

lemma has_prefix_iff: "has_prefix p s \<longleftrightarrow> (\<exists>t. s = p @ t)"
  by (metis append_take_drop_id has_prefix_append has_prefix_def)

lemma str_contains_iff: "str_contains sub s \<longleftrightarrow> (\<exists>a b. s = a @ sub @ b)"
proof (induction s)
  case (Cons c cs)
  have "(\<exists>a b. c # cs = a @ sub @ b) \<longleftrightarrow> has_prefix sub (c # cs) \<or> (\<exists>a b. cs = a @ sub @ b)"
    by (auto simp: has_prefix_iff Cons_eq_append_conv)
  then show ?case using Cons by simp
qed auto

text \<open>\<open>fmt.Sprintf("%d", n)\<close> and its inverse \<open>strconv.Atoi\<close> on its output.\<close>

definition digit_char :: "nat \<Rightarrow> char" where
  "digit_char d = ''0123456789'' ! (d mod 10)"

fun show_nat :: "nat \<Rightarrow> string" where
  "show_nat n = (if n < 10 then [digit_char n] else show_nat (n div 10) @ [digit_char n])"

declare show_nat.simps [simp del]

definition show_int :: "int \<Rightarrow> string" where
  "show_int n = (if n < 0 then CHR ''-'' # show_nat (nat (- n)) else show_nat (nat n))"

lemma TrimSpace_Nil [simp]: "TrimSpace [] = []"
  by (simp add: TrimSpace_def)

lemma length_TrimSpace: "length (TrimSpace s) \<le> length s"
  by (metis TrimSpace_def length_dropWhile_le length_rev order_trans)

lemma dropWhile_idem_hd: "xs = [] \<or> \<not> P (hd xs) \<Longrightarrow> dropWhile P xs = xs"
  by (cases xs) auto

lemma TrimSpace_idem: "TrimSpace (TrimSpace s) = TrimSpace s"
proof -
  define t where "t = dropWhile is_space s"
  define u where "u = dropWhile is_space (rev t)"
  have t: "TrimSpace s = rev u" by (simp add: TrimSpace_def t_def u_def)
  obtain p where p: "rev t = p @ u"
    unfolding u_def by (metis takeWhile_dropWhile_id)
  have ht: "t = [] \<or> \<not> is_space (hd t)"
    unfolding t_def using hd_dropWhile by blast
  have hu: "u = [] \<or> \<not> is_space (hd u)"
    unfolding u_def using hd_dropWhile by blast
  have tu: "t = rev u @ rev p" using p by (metis rev_append rev_rev_ident)
  have "dropWhile is_space (rev u) = rev u"
  proof (rule dropWhile_idem_hd)
    show "rev u = [] \<or> \<not> is_space (hd (rev u))"
      using ht tu by (cases "rev u") auto
  qed
  moreover have "dropWhile is_space u = u" using hu by (rule dropWhile_idem_hd)
  ultimately show ?thesis by (simp add: t) (simp add: TrimSpace_def)
qed

lemma digit_char_not_colon: "digit_char d \<noteq> CHR '':''" "digit_char d \<noteq> CHR ''-''"
proof -
  have r: "d mod 10 \<in> {0, 1, 2, 3, 4, 5, 6, 7, 8, 9}"
    using mod_less_divisor [of 10 d] by (auto simp del: mod_less_divisor)
  show "digit_char d \<noteq> CHR '':''" "digit_char d \<noteq> CHR ''-''"
    using r by (auto simp: digit_char_def simp del: mod_less_divisor)
qed

lemma map_filter_append: "List.map_filter f (xs @ ys) = List.map_filter f xs @ List.map_filter f ys"
  by (simp add: List.map_filter_def)

lemma fold_inv: "(\<And>x s. x \<in> set xs \<Longrightarrow> P s \<Longrightarrow> P (f x s)) \<Longrightarrow> P s \<Longrightarrow> P (fold f xs s)"
  by (induction xs arbitrary: s) auto

end
