(* ===== verification/RingBuf.thy ===== *)
theory RingBuf
  imports Prelude
begin

text \<open>
  The generic ring buffer of \<open>internal/utils/ring_buffer.go\<close>: the backing slice, the index of
  the oldest element and the fixed size.  Every method runs under the buffer's mutex, so each is
  one atomic step of the model.  Indexing and slicing out of range are panics.  The slice that
  \<open>Data\<close> returns is modelled by its value at that moment; it may share its backing array with
  the buffer, which later pushes overwrite.
\<close>

record 'a ring_buffer =
  Size :: int
  rb_data :: "'a list"
  rb_start :: nat

definition NewRingBuffer :: "int \<Rightarrow> go_panic + 'a ring_buffer" where
  "NewRingBuffer n =
     (if n < 0 then Inl MakeSliceOutOfRange
      else Inr \<lparr>Size = n, rb_data = [], rb_start = 0\<rparr>)"

definition RingBufferFrom :: "int \<Rightarrow> 'a list \<Rightarrow> go_panic + 'a ring_buffer" where
  "RingBufferFrom n data =
     (if data = [] then NewRingBuffer n
      else if int (length data) > n then
        (if n < 0 then Inl SliceOutOfRange
         else Inr \<lparr>Size = n, rb_data = drop (nat (int (length data) - n)) data, rb_start = 0\<rparr>)
      else Inr \<lparr>Size = n, rb_data = data, rb_start = 0\<rparr>)"

definition Push :: "'a ring_buffer \<Rightarrow> 'a \<Rightarrow> go_panic + 'a ring_buffer" where
  "Push r x =
     (if int (length (rb_data r)) = Size r then
        (if rb_start r < length (rb_data r) then
           Inr (r\<lparr>rb_data := (rb_data r)[rb_start r := x],
                  rb_start := (rb_start r + 1) mod nat (Size r)\<rparr>)
         else Inl IndexOutOfRange)
      else Inr (r\<lparr>rb_data := rb_data r @ [x]\<rparr>))"

definition Len :: "'a ring_buffer \<Rightarrow> nat" where
  "Len r = length (rb_data r)"

definition Clear :: "'a ring_buffer \<Rightarrow> 'a ring_buffer" where
  "Clear r = r\<lparr>rb_data := [], rb_start := 0\<rparr>"

definition Data :: "'a ring_buffer \<Rightarrow> go_panic + 'a list" where
  "Data r =
     (if int (length (rb_data r)) = Size r then
        (if rb_start r \<le> length (rb_data r)
         then Inr (drop (rb_start r) (rb_data r) @ take (rb_start r) (rb_data r))
         else Inl SliceOutOfRange)
      else Inr (rb_data r))"

subsection \<open>Representation invariant and abstraction\<close>

text \<open>
  The invariant the methods rely on: the slice never grows past the size, and the start index
  moves only once the slice is full.
\<close>

definition rb_wf :: "'a ring_buffer \<Rightarrow> bool" where
  "rb_wf r \<longleftrightarrow> 0 \<le> Size r \<and> int (length (rb_data r)) \<le> Size r
     \<and> (if int (length (rb_data r)) = Size r \<and> rb_data r \<noteq> []
        then rb_start r < length (rb_data r) else rb_start r = 0)"

text \<open>The contents, oldest first, of a well-formed buffer.\<close>

definition rb_contents :: "'a ring_buffer \<Rightarrow> 'a list" where
  "rb_contents r = drop (rb_start r) (rb_data r) @ take (rb_start r) (rb_data r)"

definition rb_cap :: "'a ring_buffer \<Rightarrow> nat" where
  "rb_cap r = nat (Size r)"

lemma length_rb_contents [simp]: "length (rb_contents r) = Len r"
  by (simp add: rb_contents_def Len_def)

lemma Data_contents: "rb_wf r \<Longrightarrow> Data r = Inr (rb_contents r)"
  by (auto simp: Data_def rb_wf_def rb_contents_def split: if_splits)

lemma Len_le_cap: "rb_wf r \<Longrightarrow> Len r \<le> rb_cap r"
  by (auto simp: rb_wf_def Len_def rb_cap_def le_nat_iff)

lemma NewRingBuffer_ok:
  "0 \<le> n \<Longrightarrow> NewRingBuffer n = Inr r \<Longrightarrow> rb_wf r \<and> rb_contents r = [] \<and> rb_cap r = nat n"
  by (auto simp: NewRingBuffer_def rb_wf_def rb_contents_def rb_cap_def split: if_splits)

lemma RingBufferFrom_ok:
  "0 \<le> n \<Longrightarrow> RingBufferFrom n xs = Inr r \<Longrightarrow>
    rb_wf r \<and> rb_contents r = last_n (nat n) xs \<and> rb_cap r = nat n"
  by (auto simp: RingBufferFrom_def NewRingBuffer_def rb_wf_def rb_contents_def rb_cap_def last_n_def
      nat_diff_distrib split: if_splits)

lemma Clear_ok: "rb_wf r \<Longrightarrow> rb_wf (Clear r) \<and> rb_contents (Clear r) = [] \<and> rb_cap (Clear r) = rb_cap r"
  by (auto simp: Clear_def rb_wf_def rb_contents_def rb_cap_def)

text \<open>Overwriting the oldest slot and advancing the start drops the head and appends.\<close>

lemma rotate_overwrite:
  assumes "s < length xs"
  shows "drop (Suc s mod length xs) (xs[s := x]) @ take (Suc s mod length xs) (xs[s := x])
       = tl (drop s xs @ take s xs) @ [x]"
proof (cases "Suc s = length xs")
  case True
  then have "drop s xs = [xs ! s]" using assms
    by (metis Cons_nth_drop_Suc drop_all order_refl)
  moreover have "take s xs @ [x] = xs[s := x]"
    using assms True by (simp add: upd_conv_take_nth_drop)
  ultimately show ?thesis using True by simp
next
  case False
  with assms have m: "Suc s mod length xs = Suc s" by simp
  have "tl (drop s xs) = drop (Suc s) xs" by (simp add: drop_Suc tl_drop)
  moreover have "drop s xs \<noteq> []" using assms by simp
  moreover have "take (Suc s) (xs[s := x]) = take s xs @ [x]"
    using assms by (simp add: take_Suc_conv_app_nth)
  ultimately show ?thesis by (simp add: m)
qed

lemma Push_full:
  assumes "rb_wf r" and "0 < rb_cap r" and "Len r = rb_cap r"
  shows "\<exists>r'. Push r x = Inr r' \<and> rb_wf r' \<and> rb_cap r' = rb_cap r
    \<and> rb_contents r' = tl (rb_contents r) @ [x]"
proof -
  let ?n = "length (rb_data r)"
  from assms have len: "int ?n = Size r" and n: "0 < ?n" and s: "rb_start r < ?n"
    by (auto simp: rb_wf_def Len_def rb_cap_def split: if_splits)
  have sz: "nat (Size r) = ?n" using len by simp
  let ?r' = "r\<lparr>rb_data := (rb_data r)[rb_start r := x], rb_start := Suc (rb_start r) mod ?n\<rparr>"
  have "Push r x = Inr ?r'" using len s sz by (simp add: Push_def)
  moreover have "rb_wf ?r'" using len n by (auto simp: rb_wf_def)
  moreover have "rb_contents ?r' = tl (rb_contents r) @ [x]"
    using rotate_overwrite [OF s] by (simp add: rb_contents_def)
  ultimately show ?thesis by (auto simp: rb_cap_def)
qed

lemma Push_room:
  assumes "rb_wf r" and "Len r < rb_cap r"
  shows "\<exists>r'. Push r x = Inr r' \<and> rb_wf r' \<and> rb_cap r' = rb_cap r
    \<and> rb_contents r' = rb_contents r @ [x]"
proof -
  from assms have "int (length (rb_data r)) < Size r" and st: "rb_start r = 0"
    by (auto simp: rb_wf_def Len_def rb_cap_def split: if_splits)
  then show ?thesis
    by (auto simp: Push_def rb_wf_def rb_cap_def rb_contents_def)
qed

subsection \<open>The interface: a bounded window over a stream\<close>

text \<open>
  What the clients of the buffer (metric sample windows, container statistics) rely on: pushing
  never fails on a well-formed buffer of positive capacity, and the contents are the most recent
  elements of everything pushed so far.
\<close>

locale bounded_window =
  fixes push :: "'r \<Rightarrow> 'a \<Rightarrow> go_panic + 'r"
    and contents :: "'r \<Rightarrow> 'a list"
    and cap :: "'r \<Rightarrow> nat"
    and wf :: "'r \<Rightarrow> bool"
  assumes push_step: "wf r \<Longrightarrow> 0 < cap r \<Longrightarrow>
      \<exists>r'. push r x = Inr r' \<and> wf r' \<and> cap r' = cap r \<and> contents r' = last_n (cap r) (contents r @ [x])"
    and contents_bound: "wf r \<Longrightarrow> length (contents r) \<le> cap r"
begin

lemma push_all:
  assumes "wf r" and "0 < cap r"
  shows "\<exists>r'. foldE push r xs = Inr r' \<and> wf r' \<and> cap r' = cap r
    \<and> contents r' = last_n (cap r) (contents r @ xs)"
  using assms
proof (induction xs arbitrary: r)
  case Nil
  then show ?case using contents_bound [of r] by (simp add: last_n_all)
next
  case (Cons x xs)
  obtain r1 where r1: "push r x = Inr r1" "wf r1" "cap r1 = cap r"
    "contents r1 = last_n (cap r) (contents r @ [x])"
    using push_step [OF Cons.prems, of x] by blast
  with Cons.prems obtain r' where "foldE push r1 xs = Inr r'" "wf r'" "cap r' = cap r"
    "contents r' = last_n (cap r) (contents r1 @ xs)"
    using Cons.IH [of r1] by auto
  with r1 show ?case by (auto simp: last_n_last_n_append)
qed

lemma push_last:
  assumes "wf r" and "0 < cap r" and "push r x = Inr r'"
  shows "wf r'" and "cap r' = cap r" and "contents r' = last_n (cap r) (contents r @ [x])"
    and "last (contents r') = x"
proof -
  from push_step [OF assms(1,2), of x] assms(3)
  show 1: "wf r'" "cap r' = cap r" "contents r' = last_n (cap r) (contents r @ [x])" by auto
  then show "last (contents r') = x" using assms(2)
    by (simp add: last_n_append)
qed

end

interpretation ring: bounded_window Push rb_contents rb_cap rb_wf
proof
  fix r :: "'a ring_buffer" and x :: 'a
  assume wf: "rb_wf r" and cap: "0 < rb_cap r"
  show "\<exists>r'. Push r x = Inr r' \<and> rb_wf r' \<and> rb_cap r' = rb_cap r
      \<and> rb_contents r' = last_n (rb_cap r) (rb_contents r @ [x])"
  proof (cases "Len r = rb_cap r")
    case True
    then have "tl (rb_contents r) @ [x] = last_n (rb_cap r) (rb_contents r @ [x])"
      using cap by (simp add: last_n_def drop_Suc flip: drop_tl)
    then show ?thesis using Push_full [OF wf cap True, of x] by auto
  next
    case False
    then have "Len r < rb_cap r" using Len_le_cap [OF wf] by simp
    then show ?thesis using Push_room [OF wf, of x] by (auto simp: last_n_all)
  qed
next
  fix r :: "'a ring_buffer"
  assume "rb_wf r"
  then show "length (rb_contents r) \<le> rb_cap r" by (simp add: Len_le_cap)
qed

subsection \<open>The buffer as its clients see it\<close>

text \<open>A buffer of positive size, created empty or from a slice, never panics on \<open>Push\<close>:
after any sequence of pushes \<open>Data\<close> returns exactly the most recent \<open>Size\<close> elements of the
initial slice followed by everything pushed, oldest first.\<close>

theorem ring_buffer_keeps_latest:
  assumes "0 < n"
  shows "\<exists>r0 r. RingBufferFrom n init = Inr r0 \<and> foldE Push r0 xs = Inr r
    \<and> Data r = Inr (last_n (nat n) (init @ xs)) \<and> Len r = min (nat n) (length (init @ xs))"
proof -
  have "is_ok (RingBufferFrom n init)"
    using assms by (simp add: RingBufferFrom_def NewRingBuffer_def)
  then obtain r0 where r0: "RingBufferFrom n init = Inr r0" by (auto simp: is_ok_iff)
  have ok: "rb_wf r0" "rb_contents r0 = last_n (nat n) init" "rb_cap r0 = nat n"
    using RingBufferFrom_ok [OF _ r0] assms by auto
  obtain r where r: "foldE Push r0 xs = Inr r" "rb_wf r"
    "rb_contents r = last_n (nat n) (last_n (nat n) init @ xs)"
    using ring.push_all [of r0 xs] ok assms by auto
  then have "rb_contents r = last_n (nat n) (init @ xs)" by (simp add: last_n_last_n_append)
  then show ?thesis
    using r0 r(1) Data_contents [OF r(2)] length_rb_contents [of r] by auto
qed

theorem ring_buffer_keeps_latest_witness:
  "\<exists>r0 r. RingBufferFrom 2 [1::int] = Inr r0 \<and> foldE Push r0 [2, 3] = Inr r
    \<and> Data r = Inr [2, 3] \<and> Len r = 2"
  using ring_buffer_keeps_latest [of 2 "[1::int]" "[2, 3]"] by (simp add: last_n_def numeral_2_eq_2)

end
