(* ===== verification/LogFmt.thy ===== *)
theory LogFmt
  imports Prelude
begin

text \<open>
  The logfmt parser of \<open>internal/container/logfmt.go\<close>: one left-to-right pass over the bytes of
  the line with the local variables of \<open>ParseLogFmt\<close> as a record.  The result is an ordered map,
  a list of key-value pairs in insertion order in which setting an existing key keeps its place.
\<close>

type_synonym ordered_map = "(string \<times> string) list"

fun om_Set :: "string \<Rightarrow> string \<Rightarrow> ordered_map \<Rightarrow> ordered_map" where
  "om_Set k v [] = [(k, v)]"
| "om_Set k v ((k', v') # kvs) = (if k' = k then (k, v) # kvs else (k', v') # om_Set k v kvs)"

datatype logfmt_error =
    KeyIsEmpty
  | UnexpectedSpaceInKey
  | UnclosedQuotes
  | UnexpectedKeyWithoutValue
  | SlicePanic

record lf_state =
  lf_result :: ordered_map
  lf_key :: string
  inQuotes :: bool
  escaping :: bool
  isKey :: bool
  lf_start :: nat

definition lf_init :: lf_state where
  "lf_init = \<lparr>lf_result = [], lf_key = [], inQuotes = False, escaping = False, isKey = True,
              lf_start = 0\<rparr>"

text \<open>The slice \<open>log[lo:hi]\<close>; out-of-range bounds panic.\<close>

definition str_slice :: "string \<Rightarrow> nat \<Rightarrow> nat \<Rightarrow> logfmt_error + string" where
  "str_slice s lo hi =
     (if lo \<le> hi \<and> hi \<le> length s then Inr (take (hi - lo) (drop lo s)) else Inl SlicePanic)"

definition lf_emit :: "string \<Rightarrow> nat \<Rightarrow> lf_state \<Rightarrow> logfmt_error + lf_state" where
  "lf_emit log i st =
     (case str_slice log (lf_start st) i of
        Inl e \<Rightarrow> Inl e
      | Inr v \<Rightarrow> Inr (st\<lparr>lf_result := om_Set (lf_key st) v (lf_result st)\<rparr>))"

text \<open>One iteration of the loop, at index \<open>i\<close> with \<open>char = log[i]\<close>.\<close>

definition lf_step :: "string \<Rightarrow> nat \<Rightarrow> char \<Rightarrow> lf_state \<Rightarrow> logfmt_error + lf_state" where
  "lf_step log i c st =
     (if isKey st then
        (if c = CHR ''='' then
           (if i \<le> lf_start st then Inl KeyIsEmpty
            else case str_slice log (lf_start st) i of
                   Inl e \<Rightarrow> Inl e
                 | Inr k \<Rightarrow> Inr (st\<lparr>lf_key := k, isKey := False, lf_start := i + 1\<rparr>))
         else if c = CHR '' '' then
           (if lf_start st < i then Inl UnexpectedSpaceInKey else Inr st)
         else Inr st)
      else if inQuotes st then
        (if escaping st then Inr (st\<lparr>escaping := False\<rparr>)
         else if c = CHR 0x5C then Inr (st\<lparr>escaping := True\<rparr>)
         else if c = CHR 0x22 then
           (case lf_emit log i st of
              Inl e \<Rightarrow> Inl e
            | Inr st' \<Rightarrow> Inr (st'\<lparr>inQuotes := False, isKey := True, lf_start := i + 2\<rparr>))
         else Inr st)
      else
        (if c = CHR 0x22 then Inr (st\<lparr>inQuotes := True, lf_start := i + 1\<rparr>)
         else if c = CHR '' '' then
           (case lf_emit log i st of
              Inl e \<Rightarrow> Inl e
            | Inr st' \<Rightarrow> Inr (st'\<lparr>isKey := True, lf_start := i + 1\<rparr>))
         else Inr st))"

fun lf_loop :: "string \<Rightarrow> nat \<Rightarrow> string \<Rightarrow> lf_state \<Rightarrow> logfmt_error + lf_state" where
  "lf_loop log i [] st = Inr st"
| "lf_loop log i (c # cs) st =
     (case lf_step log i c st of Inl e \<Rightarrow> Inl e | Inr st' \<Rightarrow> lf_loop log (i + 1) cs st')"

text \<open>The two blocks after the loop, in the order of the source.\<close>

definition lf_last_pair :: "string \<Rightarrow> lf_state \<Rightarrow> logfmt_error + lf_state" where
  "lf_last_pair log st =
     (if \<not> isKey st \<and> lf_start st < length log then
        (if inQuotes st then Inl UnclosedQuotes else lf_emit log (length log) st)
      else if isKey st \<and> lf_start st < length log then Inl UnexpectedKeyWithoutValue
      else Inr st)"

definition lf_finish :: "string \<Rightarrow> lf_state \<Rightarrow> logfmt_error + lf_state" where
  "lf_finish log st =
     (if \<not> isKey st then
        (if inQuotes st then Inl UnclosedQuotes else lf_emit log (length log) st)
      else Inr st)"

definition lf_after :: "string \<Rightarrow> lf_state \<Rightarrow> logfmt_error + ordered_map" where
  "lf_after log st =
     (case lf_last_pair log st of
        Inl e \<Rightarrow> Inl e
      | Inr st' \<Rightarrow>
          (case lf_finish log st' of Inl e \<Rightarrow> Inl e | Inr st'' \<Rightarrow> Inr (lf_result st'')))"

definition lf_run :: "string \<Rightarrow> nat \<Rightarrow> string \<Rightarrow> lf_state \<Rightarrow> logfmt_error + ordered_map" where
  "lf_run log i cs st =
     (case lf_loop log i cs st of Inl e \<Rightarrow> Inl e | Inr st' \<Rightarrow> lf_after log st')"

definition ParseLogFmt :: "string \<Rightarrow> logfmt_error + ordered_map" where
  "ParseLogFmt log = lf_run log 0 log lf_init"

lemmas lf_defs = lf_step_def lf_emit_def str_slice_def

subsection \<open>The slices are always in range\<close>

text \<open>Before index \<open>i\<close> is read, a value being scanned starts at or before \<open>i\<close>.\<close>

definition lf_inv :: "nat \<Rightarrow> lf_state \<Rightarrow> bool" where
  "lf_inv i st \<longleftrightarrow> (\<not> isKey st \<longrightarrow> lf_start st \<le> i)"

lemma lf_step_safe:
  assumes "lf_inv i st" and "i < length log"
  shows "lf_step log i c st \<noteq> Inl SlicePanic"
    and "lf_step log i c st = Inr st' \<Longrightarrow> lf_inv (i + 1) st'"
  using assms by (auto simp: lf_defs lf_inv_def split: if_splits)

lemma lf_loop_safe:
  assumes "lf_inv i st" and "i + length cs = length log"
  shows "lf_loop log i cs st \<noteq> Inl SlicePanic
    \<and> (\<forall>st'. lf_loop log i cs st = Inr st' \<longrightarrow> lf_inv (length log) st')"
  using assms
proof (induction cs arbitrary: i st)
  case Nil
  then show ?case by simp
next
  case (Cons c cs)
  from Cons.prems have i: "i < length log" by simp
  note step = lf_step_safe [OF Cons.prems(1) i, of c]
  show ?case
  proof (cases "lf_step log i c st")
    case (Inl e)
    then show ?thesis using step(1) by auto
  next
    case (Inr st')
    then show ?thesis using step(2) Cons.IH [of "i + 1" st'] Cons.prems(2) by simp
  qed
qed

lemma lf_emit_end_safe: "lf_inv (length log) st \<Longrightarrow> \<not> isKey st \<Longrightarrow>
    lf_emit log (length log) st
      = Inr (st\<lparr>lf_result := om_Set (lf_key st) (drop (lf_start st) log) (lf_result st)\<rparr>)"
  by (simp add: lf_defs lf_inv_def)

lemma lf_inv_init [simp]: "lf_inv 0 lf_init"
  by (simp add: lf_inv_def lf_init_def)

text \<open>The parser never slices the line out of range: every line is either parsed or refused
with one of the four errors of the source, never with a panic.\<close>

theorem ParseLogFmt_safe: "ParseLogFmt log \<noteq> Inl SlicePanic"
proof (cases "lf_loop log 0 log lf_init")
  case (Inl e)
  then show ?thesis
    using lf_loop_safe [of 0 lf_init log log] by (auto simp: ParseLogFmt_def lf_run_def)
next
  case (Inr st)
  then have inv: "lf_inv (length log) st"
    using lf_loop_safe [of 0 lf_init log log] by auto
  then show ?thesis
    using Inr lf_emit_end_safe [OF inv]
    by (auto simp: ParseLogFmt_def lf_run_def lf_after_def lf_last_pair_def lf_finish_def
        lf_inv_def lf_defs)
qed

subsection \<open>Reading back a rendered line\<close>

text \<open>
  The lines the parser is meant for: pairs \<open>key=value\<close> separated by one space, a value either bare
  or in double quotes.  Between quotes the parser keeps the bytes as they are, so a quoted value
  is any text in which every quote is escaped by a backslash.
\<close>

datatype lf_value = Bare string | Quoted string

fun esc_ok :: "string \<Rightarrow> bool" where
  "esc_ok [] = True"
| "esc_ok [c] = (c \<noteq> CHR 0x5C \<and> c \<noteq> CHR 0x22)"
| "esc_ok (c # d # cs) = (if c = CHR 0x5C then esc_ok cs else c \<noteq> CHR 0x22 \<and> esc_ok (d # cs))"

fun lf_value_ok :: "lf_value \<Rightarrow> bool" where
  "lf_value_ok (Bare v) = (CHR '' '' \<notin> set v \<and> CHR 0x22 \<notin> set v)"
| "lf_value_ok (Quoted v) = esc_ok v"

fun lf_text :: "lf_value \<Rightarrow> string" where
  "lf_text (Bare v) = v"
| "lf_text (Quoted v) = v"

fun lf_render_value :: "lf_value \<Rightarrow> string" where
  "lf_render_value (Bare v) = v"
| "lf_render_value (Quoted v) = CHR 0x22 # v @ [CHR 0x22]"

definition lf_key_ok :: "string \<Rightarrow> bool" where
  "lf_key_ok k \<longleftrightarrow> k \<noteq> [] \<and> CHR ''='' \<notin> set k \<and> CHR '' '' \<notin> set k"

fun lf_render :: "(string \<times> lf_value) list \<Rightarrow> string" where
  "lf_render [] = []"
| "lf_render [(k, v)] = k @ CHR ''='' # lf_render_value v"
| "lf_render ((k, v) # kvs) = k @ CHR ''='' # lf_render_value v @ CHR '' '' # lf_render kvs"

definition lf_pair_ok :: "string \<times> lf_value \<Rightarrow> bool" where
  "lf_pair_ok kv \<longleftrightarrow> lf_key_ok (fst kv) \<and> lf_value_ok (snd kv)"

lemma lf_loop_append:
  "lf_loop log i (xs @ ys) st =
    (case lf_loop log i xs st of Inl e \<Rightarrow> Inl e | Inr st' \<Rightarrow> lf_loop log (i + length xs) ys st')"
  by (induction xs arbitrary: i st) (auto split: sum.splits)

lemma lf_loop_key:
  "isKey st \<Longrightarrow> CHR ''='' \<notin> set k \<Longrightarrow> CHR '' '' \<notin> set k \<Longrightarrow> lf_loop log i k st = Inr st"
  by (induction k arbitrary: i) (auto simp: lf_step_def)

lemma lf_loop_bare:
  "\<not> isKey st \<Longrightarrow> \<not> inQuotes st \<Longrightarrow> CHR 0x22 \<notin> set v \<Longrightarrow> CHR '' '' \<notin> set v \<Longrightarrow>
    lf_loop log i v st = Inr st"
  by (induction v arbitrary: i) (auto simp: lf_step_def)

lemma not_escaping_upd: "\<not> escaping st \<Longrightarrow> st\<lparr>escaping := False\<rparr> = st"
  by (cases st) simp

lemma lf_run_append:
  "lf_loop log i xs st = Inr st' \<Longrightarrow> lf_run log i (xs @ ys) st = lf_run log (i + length xs) ys st'"
  by (simp add: lf_run_def lf_loop_append)

lemma lf_loop_quoted:
  "\<not> isKey st \<Longrightarrow> inQuotes st \<Longrightarrow> \<not> escaping st \<Longrightarrow> esc_ok v \<Longrightarrow> lf_loop log i v st = Inr st"
  by (induction v arbitrary: i rule: esc_ok.induct) (auto simp: lf_step_def not_escaping_upd split: if_splits)

text \<open>The state in which the loop expects the next key at index \<open>p\<close>.\<close>

definition at_key :: "nat \<Rightarrow> ordered_map \<Rightarrow> lf_state \<Rightarrow> bool" where
  "at_key p r st \<longleftrightarrow> isKey st \<and> \<not> inQuotes st \<and> \<not> escaping st \<and> lf_start st = p \<and> lf_result st = r"

lemma lf_loop_head:
  assumes "at_key (length pre) r st" and "lf_key_ok k"
  shows "lf_loop (pre @ k @ CHR ''='' # post) (length pre) (k @ [CHR ''='']) st
    = Inr (st\<lparr>lf_key := k, isKey := False, lf_start := length pre + length k + 1\<rparr>)"
  using assms by (auto simp: at_key_def lf_key_ok_def lf_loop_append lf_loop_key lf_defs)

lemma lf_loop_pair:
  assumes st: "at_key (length pre) r st" and ok: "lf_pair_ok (k, v)"
  shows "\<exists>st'. lf_loop (pre @ k @ CHR ''='' # lf_render_value v @ CHR '' '' # post) (length pre)
      ((k @ [CHR ''='']) @ lf_render_value v @ [CHR '' '']) st = Inr st'
    \<and> at_key (length pre + length k + length (lf_render_value v) + 2) (om_Set k (lf_text v) r) st'"
proof -
  let ?log = "pre @ k @ CHR ''='' # lf_render_value v @ CHR '' '' # post"
  let ?st1 = "st\<lparr>lf_key := k, isKey := False, lf_start := length pre + length k + 1\<rparr>"
  have key: "lf_key_ok k" and val: "lf_value_ok v" using ok by (simp_all add: lf_pair_ok_def)
  have head: "lf_loop ?log (length pre) ((k @ [CHR ''='']) @ lf_render_value v @ [CHR '' '']) st
      = lf_loop ?log (length pre + (length k + 1)) (lf_render_value v @ [CHR '' '']) ?st1"
    using lf_loop_head [OF st key] by (simp only: lf_loop_append [of _ _ "k @ [CHR ''='']"]) simp
  have "\<exists>st'. lf_loop ?log (length pre + (length k + 1)) (lf_render_value v @ [CHR '' '']) ?st1 = Inr st'
      \<and> at_key (length pre + length k + length (lf_render_value v) + 2) (om_Set k (lf_text v) r) st'"
  proof (cases v)
    case (Bare w)
    with val st show ?thesis
      by (simp add: lf_loop_append lf_loop_bare at_key_def lf_defs)
  next
    case (Quoted w)
    let ?st2 = "?st1\<lparr>inQuotes := True, lf_start := length pre + length k + 2\<rparr>"
    have "lf_loop ?log i w ?st2 = Inr ?st2" for i
      using Quoted val st by (intro lf_loop_quoted) (auto simp: at_key_def)
    with Quoted st show ?thesis
      by (simp add: lf_loop_append at_key_def lf_defs)
  qed
  then show ?thesis by (simp only: head)
qed

lemma om_Set_idem: "om_Set k v (om_Set k v r) = om_Set k v r"
  by (induction r rule: om_Set.induct) auto

lemma lf_run_final_pair:
  assumes st: "at_key (length pre) r st" and ok: "lf_pair_ok (k, v)"
  shows "lf_run (pre @ k @ CHR ''='' # lf_render_value v) (length pre)
      ((k @ [CHR ''='']) @ lf_render_value v) st = Inr (om_Set k (lf_text v) r)"
proof -
  let ?log = "pre @ k @ CHR ''='' # lf_render_value v"
  let ?st1 = "st\<lparr>lf_key := k, isKey := False, lf_start := length pre + length k + 1\<rparr>"
  have key: "lf_key_ok k" and val: "lf_value_ok v" using ok by (simp_all add: lf_pair_ok_def)
  have "lf_run ?log (length pre + (length k + 1)) (lf_render_value v) ?st1
      = Inr (om_Set k (lf_text v) r)"
  proof (cases v)
    case (Bare w)
    then have "lf_loop ?log i (lf_render_value v) ?st1 = Inr ?st1" for i
      using val st by (simp add: lf_loop_bare at_key_def)
    moreover have "lf_after ?log ?st1 = Inr (om_Set k w r)"
      using Bare st
      by (auto simp: lf_after_def lf_last_pair_def lf_finish_def lf_defs at_key_def om_Set_idem)
    ultimately show ?thesis using Bare by (simp add: lf_run_def)
  next
    case (Quoted w)
    let ?st2 = "?st1\<lparr>inQuotes := True, lf_start := length pre + length k + 2\<rparr>"
    have "lf_loop ?log i w ?st2 = Inr ?st2" for i
      using Quoted val st by (intro lf_loop_quoted) (auto simp: at_key_def)
    with Quoted st show ?thesis
      by (simp add: lf_run_def lf_loop_append at_key_def lf_defs lf_after_def lf_last_pair_def
          lf_finish_def)
  qed
  then show ?thesis using lf_run_append [OF lf_loop_head [OF st key]] by simp
qed

lemma lf_render_run:
  assumes "kvs \<noteq> []" and "list_all lf_pair_ok kvs" and "at_key (length pre) r st"
  shows "lf_run (pre @ lf_render kvs) (length pre) (lf_render kvs) st
    = Inr (fold (\<lambda>(k, v). om_Set k (lf_text v)) kvs r)"
  using assms
proof (induction kvs arbitrary: pre r st rule: lf_render.induct)
  case 1
  then show ?case by simp
next
  case (2 k v)
  then show ?case using lf_run_final_pair [of pre r st k v] by simp
next
  case (3 k v kv kvs)
  let ?pair = "(k @ [CHR ''='']) @ lf_render_value v @ [CHR '' '']"
  let ?rest = "lf_render (kv # kvs)"
  obtain st' where st': "lf_loop ((pre @ ?pair) @ ?rest) (length pre) ?pair st = Inr st'"
    "at_key (length (pre @ ?pair)) (om_Set k (lf_text v) r) st'"
    using lf_loop_pair [of pre r st k v ?rest] "3.prems"(2,3) by (auto simp: algebra_simps)
  have "lf_run ((pre @ ?pair) @ ?rest) (length pre) (?pair @ ?rest) st
      = Inr (fold (\<lambda>(k, v). om_Set k (lf_text v)) (kv # kvs) (om_Set k (lf_text v) r))"
    using lf_run_append [OF st'(1)] "3.IH" [of "pre @ ?pair" "om_Set k (lf_text v) r" st']
      "3.prems"(2) st'(2) by simp
  then show ?case by simp
qed

lemma fold_om_Set_distinct:
  "distinct (map fst r @ map fst kvs) \<Longrightarrow>
    fold (\<lambda>(k, v). om_Set k (f v)) kvs r = r @ map (\<lambda>(k, v). (k, f v)) kvs"
proof (induction kvs arbitrary: r)
  case Nil
  then show ?case by simp
next
  case (Cons kv kvs)
  obtain k v where kv: "kv = (k, v)" by (cases kv)
  have "k \<notin> fst ` set r" using Cons.prems kv by auto
  then have "om_Set k (f v) r = r @ [(k, f v)]"
    by (induction r) auto
  then show ?case using Cons.IH [of "r @ [(k, f v)]"] Cons.prems kv by auto
qed

text \<open>Parsing a line rendered from distinct well-formed keys with bare or quoted values gives
back exactly those pairs in their order (a quoted value with its escapes as written).\<close>

theorem ParseLogFmt_render:
  assumes "list_all lf_pair_ok kvs" and "distinct (map fst kvs)"
  shows "ParseLogFmt (lf_render kvs) = Inr (map (\<lambda>(k, v). (k, lf_text v)) kvs)"
proof (cases "kvs = []")
  case True
  then show ?thesis
    by (simp add: ParseLogFmt_def lf_run_def lf_after_def lf_last_pair_def lf_finish_def lf_init_def)
next
  case False
  have "at_key (length []) [] lf_init" by (simp add: at_key_def lf_init_def)
  from lf_render_run [OF False assms(1) this] show ?thesis
    using fold_om_Set_distinct [of "[]" kvs lf_text] assms(2) by (simp add: ParseLogFmt_def)
qed

theorem ParseLogFmt_render_witness:
  "ParseLogFmt (''level=info msg='' @ [CHR 0x22] @ ''a b'' @ [CHR 0x22] @ '' n='')
    = Inr [(''level'', ''info''), (''msg'', ''a b''), (''n'', [])]"
  using ParseLogFmt_render
    [of "[(''level'', Bare ''info''), (''msg'', Quoted ''a b''), (''n'', Bare [])]"]
  by (simp add: lf_pair_ok_def lf_key_ok_def)

end
