(* ===== verification/GoTime.thy ===== *)
theory GoTime
  imports Prelude Complex_Main
begin

text \<open>
  The part of Go's \<open>time\<close> package that the sources use.  An instant is an integer number of
  nanoseconds since the Unix epoch; a duration is an integer number of nanoseconds.  A
  \<open>Location\<close> is its name and its offset from UTC, in seconds, at every Unix second.  Calendar
  dates only occur as "the day of \<open>now\<close> in a location", so a civil date is the number of local
  days since 1970-01-01 and no month arithmetic is needed.
\<close>

type_synonym gotime = int
type_synonym duration = int

definition Second :: duration where "Second = 1000000000"
definition Minute :: duration where "Minute = 60 * Second"
definition Hour :: duration where "Hour = 3600 * Second"

definition zero_time :: gotime where "zero_time = - 62135596800 * 1000000000"

definition IsZero :: "gotime \<Rightarrow> bool" where "IsZero t \<longleftrightarrow> t = zero_time"

definition Unix :: "gotime \<Rightarrow> int" where "Unix t = t div 1000000000"
definition UnixMilli :: "gotime \<Rightarrow> int" where "UnixMilli t = t div 1000000"
definition time_Unix :: "int \<Rightarrow> gotime" where "time_Unix s = s * 1000000000"
definition time_UnixMilli :: "int \<Rightarrow> gotime" where "time_UnixMilli ms = ms * 1000000"

lemmas duration_defs = Second_def Minute_def Hour_def

lemma Unix_time_Unix [simp]: "Unix (time_Unix s) = s"
  by (simp add: Unix_def time_Unix_def)

lemma UnixMilli_time_UnixMilli [simp]: "UnixMilli (time_UnixMilli s) = s"
  by (simp add: UnixMilli_def time_UnixMilli_def)

lemma time_Unix_Unix_le: "time_Unix (Unix t) \<le> t" and time_Unix_Unix_gt: "t < time_Unix (Unix t) + Second"
  by (simp_all add: time_Unix_def Unix_def Second_def)

lemma time_Unix_le_iff: "time_Unix s \<le> t \<longleftrightarrow> s \<le> Unix t"
  by (auto simp: time_Unix_def Unix_def)

lemma lt_time_Unix_iff: "t < time_Unix s \<longleftrightarrow> Unix t < s"
  using time_Unix_le_iff [of s t] by linarith

lemma time_Unix_less [simp]: "time_Unix a < time_Unix b \<longleftrightarrow> a < b"
  by (simp add: time_Unix_def)

lemma Unix_mono: "s \<le> t \<Longrightarrow> Unix s \<le> Unix t"
  by (simp add: Unix_def zdiv_mono1)

subsection \<open>Locations and civil time\<close>

record location =
  loc_name :: string
  loc_offset :: "int \<Rightarrow> int"

definition local_secs :: "location \<Rightarrow> gotime \<Rightarrow> int" where
  "local_secs loc t = Unix t + loc_offset loc (Unix t)"

definition local_day :: "location \<Rightarrow> gotime \<Rightarrow> int" where
  "local_day loc t = local_secs loc t div 86400"

definition local_clock :: "location \<Rightarrow> gotime \<Rightarrow> int" where
  "local_clock loc t = local_secs loc t mod 86400"

text \<open>\<open>time.Weekday\<close>: Sunday is 0; 1970-01-01 was a Thursday.\<close>

definition Weekday :: "location \<Rightarrow> gotime \<Rightarrow> int" where
  "Weekday loc t = (local_day loc t + 4) mod 7"

text \<open>
  \<open>time.Date\<close> looks the zone offset up at the local second read as UTC and, when the corrected
  instant lies in another zone interval, looks it up again there.  Both cases give the offset at
  the corrected instant.
\<close>

definition local_to_unix :: "location \<Rightarrow> int \<Rightarrow> int" where
  "local_to_unix loc l = l - loc_offset loc (l - loc_offset loc l)"

definition time_Date :: "location \<Rightarrow> int \<Rightarrow> int \<Rightarrow> int \<Rightarrow> gotime" where
  "time_Date loc day h m = time_Unix (local_to_unix loc (day * 86400 + h * 3600 + m * 60))"

definition AddDays :: "location \<Rightarrow> gotime \<Rightarrow> int \<Rightarrow> gotime" where
  "AddDays loc t n =
     time_Unix (local_to_unix loc (local_secs loc t + n * 86400)) + t mod 1000000000"

text \<open>Locations with a fixed offset (UTC, and any zone between two transitions).\<close>

definition fixed_zone :: "location \<Rightarrow> int \<Rightarrow> bool" where
  "fixed_zone loc off \<longleftrightarrow> (\<forall>s. loc_offset loc s = off)"

lemma fixed_zone_simps:
  assumes "fixed_zone loc off"
  shows "local_secs loc t = Unix t + off" and "local_to_unix loc l = l - off"
    and "time_Date loc d h m = time_Unix (d * 86400 + h * 3600 + m * 60 - off)"
    and "AddDays loc t n = t + n * (86400 * Second)"
proof -
  show "local_secs loc t = Unix t + off" "local_to_unix loc l = l - off"
    "time_Date loc d h m = time_Unix (d * 86400 + h * 3600 + m * 60 - off)"
    using assms by (simp_all add: fixed_zone_def local_secs_def local_to_unix_def time_Date_def)
  have "time_Unix (Unix t + n * 86400) + t mod 1000000000 = t + n * (86400 * Second)"
    by (simp add: time_Unix_def Unix_def Second_def distrib_right)
  then show "AddDays loc t n = t + n * (86400 * Second)"
    using assms by (simp add: AddDays_def fixed_zone_def local_secs_def local_to_unix_def)
qed

subsection \<open>Reading an integer with \<open>fmt.Sscanf\<close>\<close>

definition digit_val :: "char \<Rightarrow> int option" where
  "digit_val c = (let n = (of_char c :: nat) in if 48 \<le> n \<and> n \<le> 57 then Some (int n - 48) else None)"

fun scan_digits :: "int \<Rightarrow> string \<Rightarrow> int \<times> string" where
  "scan_digits acc [] = (acc, [])"
| "scan_digits acc (c # cs) =
     (case digit_val c of None \<Rightarrow> (acc, c # cs) | Some d \<Rightarrow> scan_digits (acc * 10 + d) cs)"

definition scan_blank :: "char \<Rightarrow> bool" where
  "scan_blank c \<longleftrightarrow> c \<in> {CHR '' '', CHR 0x09, CHR 0x0B, CHR 0x0C, CHR 0x0D}"

definition in_int64 :: "int \<Rightarrow> bool" where
  "in_int64 n \<longleftrightarrow> - (2 ^ 63) \<le> n \<and> n < 2 ^ 63"

text \<open>\<open>%d\<close>: leading blanks, an optional sign, at least one digit, a value that fits.\<close>

definition scan_int :: "string \<Rightarrow> (int \<times> string) option" where
  "scan_int s =
     (let s1 = dropWhile scan_blank s;
          (neg, s2) = (case s1 of c # cs \<Rightarrow> if c = CHR ''-'' then (True, cs)
                                           else if c = CHR ''+'' then (False, cs) else (False, s1)
                                | [] \<Rightarrow> (False, []))
      in case s2 of
           [] \<Rightarrow> None
         | c # _ \<Rightarrow> (if digit_val c = None then None
                    else let (n, rest) = scan_digits 0 s2; v = (if neg then - n else n)
                         in if in_int64 v then Some (v, rest) else None))"

subsection \<open>\<open>strconv.Atoi\<close>\<close>

definition Atoi :: "string \<Rightarrow> int option" where
  "Atoi s =
     (let (neg, ds) = (case s of c # cs \<Rightarrow> if c = CHR ''-'' then (True, cs)
                                           else if c = CHR ''+'' then (False, cs) else (False, s)
                               | [] \<Rightarrow> (False, []))
      in if ds = [] then None
         else let (n, rest) = scan_digits 0 ds; v = (if neg then - n else n)
              in if rest = [] \<and> in_int64 v then Some v else None)"

lemma digit_val_digit_char: "d < 10 \<Longrightarrow> digit_val (digit_char d) = Some (int d)"
proof -
  assume "d < 10"
  then have "d \<in> {0, 1, 2, 3, 4, 5, 6, 7, 8, 9}" by auto
  then show ?thesis by (auto simp: digit_char_def digit_val_def Let_def)
qed

lemma digit_char_mod: "digit_char (n mod 10) = digit_char n"
  by (simp add: digit_char_def)

lemma scan_digits_append:
  "scan_digits acc s = (v, []) \<Longrightarrow> scan_digits acc (s @ t) = scan_digits v t"
  by (induction acc s rule: scan_digits.induct) (auto split: option.splits)

lemma scan_digits_show_nat: "scan_digits 0 (show_nat n) = (int n, [])"
proof (induction n rule: show_nat.induct)
  case (1 n)
  show ?case
  proof (cases "n < 10")
    case True
    then show ?thesis by (simp add: show_nat.simps digit_val_digit_char)
  next
    case False
    have d: "digit_val (digit_char n) = Some (int (n mod 10))"
      using digit_val_digit_char [of "n mod 10"] by (simp add: digit_char_mod)
    have "scan_digits 0 (show_nat (n div 10) @ [digit_char n]) = (int (n div 10) * 10 + int (n mod 10), [])"
      using scan_digits_append [OF 1 [OF False]] d by simp
    moreover have "int (n div 10) * 10 + int (n mod 10) = int n"
      by (metis div_mult_mod_eq of_nat_add of_nat_mult of_nat_numeral)
    moreover have "show_nat n = show_nat (n div 10) @ [digit_char n]"
      using False by (simp add: show_nat.simps [of n])
    ultimately show ?thesis by simp
  qed
qed

lemma show_nat_head: "\<exists>d ds. show_nat n = digit_char d # ds"
proof (induction n rule: show_nat.induct)
  case (1 n)
  then show ?case
    by (cases "n < 10") (auto simp: show_nat.simps [of n])
qed

lemma digit_char_not_sign: "digit_char d \<noteq> CHR ''+''"
proof -
  have "digit_val (digit_char d) \<noteq> None"
    using digit_val_digit_char [of "d mod 10"] by (simp add: digit_char_mod)
  then show ?thesis by (auto simp: digit_val_def)
qed

lemma Atoi_show_int: "in_int64 n \<Longrightarrow> Atoi (show_int n) = Some n"
proof (cases "n < 0")
  case True
  obtain d ds where "show_nat (nat (- n)) = digit_char d # ds" using show_nat_head by blast
  then show "in_int64 n \<Longrightarrow> Atoi (show_int n) = Some n"
    using True scan_digits_show_nat [of "nat (- n)"] by (simp add: Atoi_def show_int_def)
next
  case False
  obtain d ds where "show_nat (nat n) = digit_char d # ds" using show_nat_head by blast
  then show "in_int64 n \<Longrightarrow> Atoi (show_int n) = Some n"
    using False scan_digits_show_nat [of "nat n"]
    by (simp add: Atoi_def show_int_def digit_char_not_colon digit_char_not_sign)
qed

lemma show_int_no_colon: "CHR '':'' \<notin> set (show_int n)"
proof -
  have "CHR '':'' \<notin> set (show_nat k)" for k
  proof (induction k rule: show_nat.induct)
    case (1 k)
    then show ?case by (cases "k < 10") (auto simp: show_nat.simps [of k] digit_char_not_colon [symmetric])
  qed
  then show ?thesis by (simp add: show_int_def)
qed

text \<open>Two's-complement wrap-around of a 64-bit result.\<close>

definition wrap64 :: "int \<Rightarrow> int" where
  "wrap64 n = (n + 2 ^ 63) mod 2 ^ 64 - 2 ^ 63"

lemma wrap64_id: "in_int64 n \<Longrightarrow> wrap64 n = n"
  by (simp add: wrap64_def in_int64_def)

lemma wrap64_range: "in_int64 (wrap64 n)"
  using pos_mod_bound [of "2 ^ 64 :: int" "n + 2 ^ 63"] pos_mod_sign [of "2 ^ 64 :: int" "n + 2 ^ 63"]
  by (simp add: wrap64_def in_int64_def)

text \<open>\<open>time.Duration(n) * time.Second\<close>: the product of two 64-bit integers.\<close>

definition time_Seconds :: "int \<Rightarrow> duration" where
  "time_Seconds n = wrap64 (n * Second)"

lemma time_Seconds_id: "\<bar>n\<bar> \<le> 9223372036 \<Longrightarrow> time_Seconds n = n * Second"
  by (auto simp: time_Seconds_def Second_def in_int64_def intro!: wrap64_id)

lemma wrap64_uminus: "- (2 ^ 63) < n \<Longrightarrow> n < 2 ^ 63 \<Longrightarrow> wrap64 (- n) = - n"
  by (simp add: wrap64_id in_int64_def)

end
