(* ===== verification/ContainerTypes.thy ===== *)
theory ContainerTypes
  imports RingBuf LogFmt GoTime "HOL-Library.Word"
begin

text \<open>
  The data model of \<open>internal/container/types.go\<close>, \<open>host.go\<close>, \<open>client.go\<close> and \<open>sanitize.go\<close>:
  containers, their mounts and statistics, the conversion to and from the agent protocol, label
  filters, container actions and log events.

  A nil slice or map reads as an empty one.  A nil pointer to a ring buffer is \<open>None\<close>: reading it
  panics.  \<open>float64\<close> values are reals; they are only copied here.  A log message of type \<open>any\<close>
  holds one of four dynamic types: a string, a list of fragments, an ordered map of JSON values,
  or an ordered map of strings.
\<close>

subsection \<open>Containers\<close>

record container_stat =
  st_ID :: string
  st_CPUPercent :: real
  st_MemoryPercent :: real
  st_MemoryUsage :: real
  st_NetworkRxTotal :: "64 word"
  st_NetworkTxTotal :: "64 word"
  st_DiskReadTotal :: "64 word"
  st_DiskWriteTotal :: "64 word"

record mount =
  mt_Type :: string
  mt_Source :: string
  mt_Destination :: string
  mt_RW :: bool

record mount_stat =
  ms_Destination :: string
  ms_Total :: "64 word"
  ms_Free :: "64 word"
  ms_Used :: "64 word"
  ms_Available :: bool
  ms_LastChecked :: gotime

record container =
  c_ID :: string
  c_Name :: string
  c_Image :: string
  c_Command :: string
  c_Created :: gotime
  c_StartedAt :: gotime
  c_FinishedAt :: gotime
  c_State :: string
  c_Health :: string
  c_Host :: string
  c_Tty :: bool
  c_Labels :: "string \<rightharpoonup> string"
  c_Stats :: "container_stat ring_buffer option"
  c_MemoryLimit :: "64 word"
  c_CPULimit :: real
  c_Group :: string
  c_Env :: "string list"
  c_Ports :: "string list"
  c_Mounts :: "mount list"
  c_MountStats :: "string \<rightharpoonup> mount_stat"
  c_RestartPolicy :: string
  c_NetworkMode :: string
  c_FullyLoaded :: bool

record host =
  h_Name :: string
  h_ID :: string
  h_CertPath :: string
  h_CACertPath :: string
  h_KeyPath :: string
  h_ValidCerts :: bool
  h_NCPU :: int
  h_MemTotal :: int
  h_Endpoint :: string
  h_DockerVersion :: string
  h_Runtime :: string
  h_AgentVersion :: string
  h_Type :: string
  h_Available :: bool
  h_Swarm :: bool
  h_Group :: string

definition map_get :: "('k \<rightharpoonup> string) \<Rightarrow> 'k \<Rightarrow> string" where
  "map_get m k = (case m k of None \<Rightarrow> [] | Some v \<Rightarrow> v)"

definition LogIdentity :: "container \<Rightarrow> string" where
  "LogIdentity c =
     (let labels = c_Labels c;
          project = map_get labels ''com.docker.compose.project'';
          service = map_get labels ''com.docker.compose.service'';
          cproject = map_get labels ''coolify.projectName'';
          cservice = map_get labels ''coolify.serviceName''
      in if project \<noteq> [] \<and> service \<noteq> [] then ''compose:'' @ project @ ''/'' @ service
         else if cproject \<noteq> [] \<and> cservice \<noteq> [] then ''coolify:'' @ cproject @ ''/'' @ cservice
         else [])"

definition Mount_String :: "mount \<Rightarrow> string" where
  "Mount_String m = mt_Source m @ '':'' @ mt_Destination m @ '' ('' @ mt_Type m @ '')''"

subsection \<open>The agent protocol\<close>

text \<open>
  \<open>timestamppb.New\<close> splits an instant into whole seconds and nanoseconds and \<open>AsTime\<close> puts them
  together again.
\<close>

record pb_timestamp =
  ts_seconds :: int
  ts_nanos :: int

definition timestamppb_New :: "gotime \<Rightarrow> pb_timestamp" where
  "timestamppb_New t = \<lparr>ts_seconds = Unix t, ts_nanos = t mod 1000000000\<rparr>"

definition AsTime :: "pb_timestamp \<Rightarrow> gotime" where
  "AsTime p = time_Unix (ts_seconds p) + ts_nanos p"

record pb_stat =
  pb_Id :: string
  pb_CpuPercent :: real
  pb_MemoryPercent :: real
  pb_MemoryUsage :: real
  pb_NetworkRxTotal :: "64 word"
  pb_NetworkTxTotal :: "64 word"
  pb_DiskReadTotal :: "64 word"
  pb_DiskWriteTotal :: "64 word"

record pb_mount =
  pbm_Type :: string
  pbm_Source :: string
  pbm_Destination :: string
  pbm_Rw :: bool

record pb_mount_stat =
  pbs_Destination :: string
  pbs_Total :: "64 word"
  pbs_Free :: "64 word"
  pbs_Used :: "64 word"
  pbs_Available :: bool
  pbs_LastChecked :: pb_timestamp

record pb_container =
  pbc_Id :: string
  pbc_Name :: string
  pbc_Image :: string
  pbc_Created :: pb_timestamp
  pbc_State :: string
  pbc_Health :: string
  pbc_Host :: string
  pbc_Tty :: bool
  pbc_Labels :: "string \<rightharpoonup> string"
  pbc_Group :: string
  pbc_Started :: pb_timestamp
  pbc_Finished :: pb_timestamp
  pbc_Stats :: "pb_stat list"
  pbc_Command :: string
  pbc_MemoryLimit :: "64 word"
  pbc_CpuLimit :: real
  pbc_FullyLoaded :: bool
  pbc_Env :: "string list"
  pbc_Ports :: "string list"
  pbc_Mounts :: "pb_mount list"
  pbc_MountStats :: "pb_mount_stat list"
  pbc_RestartPolicy :: string
  pbc_NetworkMode :: string

definition stat_to_pb :: "container_stat \<Rightarrow> pb_stat" where
  "stat_to_pb s =
     \<lparr>pb_Id = st_ID s, pb_CpuPercent = st_CPUPercent s, pb_MemoryPercent = st_MemoryPercent s,
      pb_MemoryUsage = st_MemoryUsage s, pb_NetworkRxTotal = st_NetworkRxTotal s,
      pb_NetworkTxTotal = st_NetworkTxTotal s, pb_DiskReadTotal = st_DiskReadTotal s,
      pb_DiskWriteTotal = st_DiskWriteTotal s\<rparr>"

definition stat_from_pb :: "pb_stat \<Rightarrow> container_stat" where
  "stat_from_pb s =
     \<lparr>st_ID = pb_Id s, st_CPUPercent = pb_CpuPercent s, st_MemoryPercent = pb_MemoryPercent s,
      st_MemoryUsage = pb_MemoryUsage s, st_NetworkRxTotal = pb_NetworkRxTotal s,
      st_NetworkTxTotal = pb_NetworkTxTotal s, st_DiskReadTotal = pb_DiskReadTotal s,
      st_DiskWriteTotal = pb_DiskWriteTotal s\<rparr>"

definition mount_to_pb :: "mount \<Rightarrow> pb_mount" where
  "mount_to_pb m = \<lparr>pbm_Type = mt_Type m, pbm_Source = mt_Source m,
     pbm_Destination = mt_Destination m, pbm_Rw = mt_RW m\<rparr>"

definition mount_from_pb :: "pb_mount \<Rightarrow> mount" where
  "mount_from_pb m = \<lparr>mt_Type = pbm_Type m, mt_Source = pbm_Source m,
     mt_Destination = pbm_Destination m, mt_RW = pbm_Rw m\<rparr>"

definition mount_stat_to_pb :: "mount_stat \<Rightarrow> pb_mount_stat" where
  "mount_stat_to_pb m = \<lparr>pbs_Destination = ms_Destination m, pbs_Total = ms_Total m,
     pbs_Free = ms_Free m, pbs_Used = ms_Used m, pbs_Available = ms_Available m,
     pbs_LastChecked = timestamppb_New (ms_LastChecked m)\<rparr>"

definition mount_stat_from_pb :: "pb_mount_stat \<Rightarrow> mount_stat" where
  "mount_stat_from_pb m = \<lparr>ms_Destination = pbs_Destination m, ms_Total = pbs_Total m,
     ms_Free = pbs_Free m, ms_Used = pbs_Used m, ms_Available = pbs_Available m,
     ms_LastChecked = AsTime (pbs_LastChecked m)\<rparr>"

text \<open>The keys \<open>ks\<close> are the order in which the loop over \<open>MountStats\<close> visits the map.\<close>

definition ToProto :: "string list \<Rightarrow> container \<Rightarrow> go_panic + pb_container" where
  "ToProto ks c =
     (case c_Stats c of
        None \<Rightarrow> Inl NilDereference
      | Some buf \<Rightarrow>
          (case Data buf of
             Inl e \<Rightarrow> Inl e
           | Inr stats \<Rightarrow> Inr
               \<lparr>pbc_Id = c_ID c, pbc_Name = c_Name c, pbc_Image = c_Image c,
                pbc_Created = timestamppb_New (c_Created c), pbc_State = c_State c,
                pbc_Health = c_Health c, pbc_Host = c_Host c, pbc_Tty = c_Tty c,
                pbc_Labels = c_Labels c, pbc_Group = c_Group c,
                pbc_Started = timestamppb_New (c_StartedAt c),
                pbc_Finished = timestamppb_New (c_FinishedAt c),
                pbc_Stats = map stat_to_pb stats, pbc_Command = c_Command c,
                pbc_MemoryLimit = c_MemoryLimit c, pbc_CpuLimit = c_CPULimit c,
                pbc_FullyLoaded = c_FullyLoaded c, pbc_Env = c_Env c, pbc_Ports = c_Ports c,
                pbc_Mounts = map mount_to_pb (c_Mounts c),
                pbc_MountStats = map mount_stat_to_pb (List.map_filter (c_MountStats c) ks),
                pbc_RestartPolicy = c_RestartPolicy c, pbc_NetworkMode = c_NetworkMode c\<rparr>))"

definition FromProto :: "pb_container \<Rightarrow> go_panic + container" where
  "FromProto p =
     (case RingBufferFrom 300 (map stat_from_pb (pbc_Stats p)) of
        Inl e \<Rightarrow> Inl e
      | Inr buf \<Rightarrow> Inr
          \<lparr>c_ID = pbc_Id p, c_Name = pbc_Name p, c_Image = pbc_Image p, c_Command = pbc_Command p,
           c_Created = AsTime (pbc_Created p), c_StartedAt = AsTime (pbc_Started p),
           c_FinishedAt = AsTime (pbc_Finished p), c_State = pbc_State p, c_Health = pbc_Health p,
           c_Host = pbc_Host p, c_Tty = pbc_Tty p, c_Labels = pbc_Labels p, c_Stats = Some buf,
           c_MemoryLimit = pbc_MemoryLimit p, c_CPULimit = pbc_CpuLimit p, c_Group = pbc_Group p,
           c_Env = pbc_Env p, c_Ports = pbc_Ports p, c_Mounts = map mount_from_pb (pbc_Mounts p),
           c_MountStats =
             fold (\<lambda>ms m. m(pbs_Destination ms \<mapsto> mount_stat_from_pb ms)) (pbc_MountStats p) Map.empty,
           c_RestartPolicy = pbc_RestartPolicy p, c_NetworkMode = pbc_NetworkMode p,
           c_FullyLoaded = pbc_FullyLoaded p\<rparr>)"

subsection \<open>Label filters and actions\<close>

datatype filter_error = InvalidFilter "string \<rightharpoonup> string list"

type_synonym container_labels = "string \<rightharpoonup> string list"

definition filter_step ::
    "container_labels \<Rightarrow> string \<Rightarrow> filter_error + container_labels" where
  "filter_step flt val =
     (case index_byte (CHR ''='') val of
        None \<Rightarrow> Inl (InvalidFilter flt)
      | Some pos \<Rightarrow>
          (let key = take pos val; v = drop (pos + 1) val
           in Inr (flt(key \<mapsto> (case flt key of None \<Rightarrow> [] | Some vs \<Rightarrow> vs) @ [v]))))"

definition ParseContainerFilter :: "string \<Rightarrow> filter_error + container_labels" where
  "ParseContainerFilter commaValues =
     (if commaValues = [] then Inr Map.empty
      else foldE filter_step Map.empty (split_on (CHR '','') commaValues))"

datatype container_action = Action_Start | Action_Stop | Action_Restart | Action_Remove

definition ParseContainerAction :: "string \<Rightarrow> string + container_action" where
  "ParseContainerAction input =
     (if input = ''start'' then Inr Action_Start
      else if input = ''stop'' then Inr Action_Stop
      else if input = ''restart'' then Inr Action_Restart
      else if input = ''remove'' then Inr Action_Remove
      else Inl (''unknown action: '' @ input))"

text \<open>\<open>StdType\<close> is a bit set: \<open>UNKNOWN\<close> is 1, \<open>STDOUT\<close> 2, \<open>STDERR\<close> 4.\<close>

definition StdType_String :: "int \<Rightarrow> string" where
  "StdType_String s = (if s = 2 then ''stdout'' else if s = 4 then ''stderr''
     else if s = 6 then ''all'' else ''unknown'')"

subsection \<open>Container events\<close>

text \<open>Without the container that only the store attaches.\<close>

record container_event =
  ev_Name :: string
  ev_Host :: string
  ev_ActorID :: string
  ev_ActorAttributes :: "string \<rightharpoonup> string"
  ev_Time :: gotime

subsection \<open>Log events\<close>

datatype json =
    JNull
  | JBool bool
  | JNum real
  | JStr string
  | JArr "json list"
  | JObj "(string \<times> json) list"

datatype log_type = LogTypeSingle | LogTypeGroup | LogTypeComplex

text \<open>The dynamic types of a message; \<open>MJson\<close> is what \<open>encoding/json\<close> decodes into an \<open>any\<close> that is not a string.\<close>

datatype log_message =
    MString string
  | MFragments "string list"
  | MObject "(string \<times> json) list"
  | MFields ordered_map
  | MJson json

record log_event =
  le_Type :: log_type
  le_Message :: log_message
  le_RawMessage :: string
  le_Timestamp :: int
  le_Id :: "32 word"
  le_Level :: string
  le_Stream :: string
  le_ContainerID :: string

definition HasLevel :: "log_event \<Rightarrow> bool" where
  "HasLevel l \<longleftrightarrow> le_Level l \<noteq> ''unknown''"

definition IsSimple :: "log_event \<Rightarrow> bool" where
  "IsSimple l \<longleftrightarrow> le_Type l = LogTypeSingle \<or> le_Type l = LogTypeGroup"

definition maxGroupTimeDelta :: int where "maxGroupTimeDelta = 50"

definition IsCloseToTime :: "log_event \<Rightarrow> log_event \<Rightarrow> bool" where
  "IsCloseToTime l other \<longleftrightarrow> \<bar>le_Timestamp l - le_Timestamp other\<bar> < maxGroupTimeDelta"

text \<open>\<open>strip\<close> is the regular-expression replacement of \<open>StripANSI\<close>.\<close>

definition PlainText :: "(string \<Rightarrow> string) \<Rightarrow> log_event \<Rightarrow> string" where
  "PlainText strip e =
     (case (le_Type e, le_Message e) of
        (LogTypeGroup, MFragments fs) \<Rightarrow> str_join [CHR 0x0A] (map strip fs)
      | _ \<Rightarrow> strip (le_RawMessage e))"

subsection \<open>Round trip through the agent protocol\<close>

lemma AsTime_New [simp]: "AsTime (timestamppb_New t) = t"
  by (simp add: AsTime_def timestamppb_New_def time_Unix_def Unix_def)

lemma stat_pb_inverse [simp]: "stat_from_pb (stat_to_pb s) = s"
  by (simp add: stat_from_pb_def stat_to_pb_def)

lemma mount_pb_inverse [simp]: "mount_from_pb (mount_to_pb m) = m"
  by (simp add: mount_from_pb_def mount_to_pb_def)

lemma mount_stat_pb_inverse [simp]: "mount_stat_from_pb (mount_stat_to_pb m) = m"
  by (simp add: mount_stat_from_pb_def mount_stat_to_pb_def)

lemma pbs_Destination_to_pb [simp]: "pbs_Destination (mount_stat_to_pb m) = ms_Destination m"
  by (simp add: mount_stat_to_pb_def)

definition mount_stats_keyed :: "(string \<rightharpoonup> mount_stat) \<Rightarrow> bool" where
  "mount_stats_keyed m \<longleftrightarrow> (\<forall>k v. m k = Some v \<longrightarrow> ms_Destination v = k)"

lemma fold_mount_stats:
  assumes "mount_stats_keyed m"
  shows "fold (\<lambda>ms r. r(pbs_Destination ms \<mapsto> mount_stat_from_pb ms))
           (map mount_stat_to_pb (List.map_filter m ks)) acc k
       = (if k \<in> set ks \<and> k \<in> dom m then m k else acc k)"
proof (induction ks arbitrary: acc)
  case Nil
  then show ?case by (simp add: List.map_filter_simps)
next
  case (Cons a ks)
  then show ?case
    using assms by (cases "m a") (auto simp: List.map_filter_simps mount_stats_keyed_def)
qed

lemma mount_stats_roundtrip:
  assumes "mount_stats_keyed m" and "enumerates ks m"
  shows "fold (\<lambda>ms r. r(pbs_Destination ms \<mapsto> mount_stat_from_pb ms))
           (map mount_stat_to_pb (List.map_filter m ks)) Map.empty = m"
proof
  fix k
  show "fold (\<lambda>ms r. r(pbs_Destination ms \<mapsto> mount_stat_from_pb ms))
      (map mount_stat_to_pb (List.map_filter m ks)) Map.empty k = m k"
    using assms(2) by (subst fold_mount_stats [OF assms(1)]) (auto simp: enumerates_def)
qed

text \<open>A container whose statistics buffer is well-formed and whose mount statistics are keyed by
their destination survives the trip through the agent protocol: every field comes back unchanged,
in whatever order the mount map is visited, and the statistics are the latest 300 samples.\<close>

theorem proto_roundtrip:
  assumes "c_Stats c = Some buf" and "rb_wf buf"
    and "mount_stats_keyed (c_MountStats c)" and "enumerates ks (c_MountStats c)"
  shows "\<exists>p buf'. ToProto ks c = Inr p \<and> FromProto p = Inr (c\<lparr>c_Stats := Some buf'\<rparr>)
    \<and> rb_wf buf' \<and> Data buf' = Inr (last_n 300 (rb_contents buf))"
proof -
  have d: "Data buf = Inr (rb_contents buf)" using assms(2) by (rule Data_contents)
  have "is_ok (RingBufferFrom 300 (rb_contents buf))"
    by (simp add: RingBufferFrom_def NewRingBuffer_def)
  then obtain buf' where b: "RingBufferFrom 300 (rb_contents buf) = Inr buf'"
    by (auto simp: is_ok_iff)
  then have "rb_wf buf'" "rb_contents buf' = last_n 300 (rb_contents buf)"
    using RingBufferFrom_ok [of 300 "rb_contents buf" buf'] by simp_all
  moreover have "map stat_from_pb (map stat_to_pb xs) = xs" for xs by (simp add: map_idI)
  ultimately show ?thesis
    using assms(1) d b mount_stats_roundtrip [OF assms(3,4)]
    by (cases c) (simp add: ToProto_def FromProto_def Data_contents map_idI comp_def)
qed

definition sample_container :: container where
  "sample_container = \<lparr>c_ID = ''a'', c_Name = ''n'', c_Image = ''i'', c_Command = ''x'', c_Created = 7,
     c_StartedAt = 8, c_FinishedAt = 9, c_State = ''running'', c_Health = [], c_Host = ''h'',
     c_Tty = False, c_Labels = Map.empty, c_Stats = Some \<lparr>Size = 300, rb_data = [], rb_start = 0\<rparr>,
     c_MemoryLimit = 0, c_CPULimit = 0, c_Group = [], c_Env = [], c_Ports = [], c_Mounts = [],
     c_MountStats = [''/data'' \<mapsto> \<lparr>ms_Destination = ''/data'', ms_Total = 9, ms_Free = 4, ms_Used = 5,
                                  ms_Available = True, ms_LastChecked = 11\<rparr>],
     c_RestartPolicy = [], c_NetworkMode = [], c_FullyLoaded = True\<rparr>"

theorem proto_roundtrip_witness:
  "\<exists>p buf'. ToProto [''/data''] sample_container = Inr p
    \<and> FromProto p = Inr (sample_container\<lparr>c_Stats := Some buf'\<rparr>) \<and> rb_wf buf' \<and> Data buf' = Inr []"
  using proto_roundtrip [of sample_container "\<lparr>Size = 300, rb_data = [], rb_start = 0\<rparr>" "[''/data'']"]
  by (simp add: sample_container_def rb_wf_def mount_stats_keyed_def enumerates_def rb_contents_def
      last_n_def)

subsection \<open>Label filters\<close>

definition filter_of :: "(string \<times> string) list \<Rightarrow> container_labels" where
  "filter_of kvs = (\<lambda>k. let vs = map snd (filter (\<lambda>kv. fst kv = k) kvs)
                         in if vs = [] then None else Some vs)"

definition render_pair :: "string \<times> string \<Rightarrow> string" where
  "render_pair kv = fst kv @ CHR ''='' # snd kv"

lemma filter_step_render:
  "CHR ''='' \<notin> set (fst kv) \<Longrightarrow>
    filter_step (filter_of acc) (render_pair kv) = Inr (filter_of (acc @ [kv]))"
  by (cases kv) (auto simp: filter_step_def render_pair_def filter_of_def Let_def fun_eq_iff)

lemma foldE_filter_render:
  "\<forall>kv\<in>set kvs. CHR ''='' \<notin> set (fst kv) \<Longrightarrow>
    foldE filter_step (filter_of acc) (map render_pair kvs) = Inr (filter_of (acc @ kvs))"
  by (induction kvs arbitrary: acc) (simp_all add: filter_step_render)

text \<open>A label filter written as comma-separated \<open>key=value\<close> pairs is read back as the map that
holds, for each key, all its values in the order they were written.\<close>

theorem ParseContainerFilter_render:
  assumes "kvs \<noteq> []"
    and "\<forall>(k, v)\<in>set kvs. CHR ''='' \<notin> set k \<and> CHR '','' \<notin> set k \<and> CHR '','' \<notin> set v"
  shows "ParseContainerFilter (str_join '','' (map render_pair kvs)) = Inr (filter_of kvs)"
proof -
  have "split_on (CHR '','') (str_join '','' (map render_pair kvs)) = map render_pair kvs"
    using assms by (intro split_on_join) (auto simp: render_pair_def)
  moreover have "str_join '','' (map render_pair kvs) \<noteq> []"
    using assms(1) by (cases kvs; cases "tl kvs") (auto simp: render_pair_def)
  moreover have "filter_of [] = Map.empty" by (simp add: filter_of_def fun_eq_iff)
  ultimately show ?thesis
    using foldE_filter_render [of kvs "[]"] assms(2)
    by (simp add: ParseContainerFilter_def case_prod_beta)
qed

theorem ParseContainerFilter_render_witness:
  "ParseContainerFilter ''label=a,name=x,label=b'' = Inr (filter_of [(''label'', ''a''), (''name'', ''x''), (''label'', ''b'')])
    \<and> filter_of [(''label'', ''a''), (''name'', ''x''), (''label'', ''b'')] ''label'' = Some [''a'', ''b'']"
  using ParseContainerFilter_render [of "[(''label'', ''a''), (''name'', ''x''), (''label'', ''b'')]"]
  by (simp add: render_pair_def filter_of_def)

end
