(* ===== verification/EventGen.thy ===== *)
theory EventGen
  imports ContainerTypes
begin

text \<open>
  The consumer side of \<open>internal/container/event_generator.go\<close>: \<open>processBuffer\<close> reads parsed log
  events from a channel, drops orphaned continuation lines at the start, groups the lines that
  belong together and emits the result.

  The channel is the list of what the consumer finds in it: an event, or a \<open>Pause\<close> of at least the
  50 ms after which \<open>peek\<close> gives up; a blocking read skips pauses, and the end of the list is the
  closed channel.  Events are pointers: writing the level of a peeked event changes the event that
  is read next.  \<open>emit\<close> fails when the context is cancelled; since \<open>select\<close> may pick either ready
  branch, the outcome of the \<open>n\<close>-th send is an arbitrary function \<open>ok\<close>.
\<close>

datatype feed_item = Ev log_event | Pause

record gen =
  g_next :: "log_event option"
  g_buffer :: "feed_item list"
  g_emitted :: "log_event list"
  g_attempts :: nat

definition emit :: "(nat \<Rightarrow> bool) \<Rightarrow> log_event \<Rightarrow> gen \<Rightarrow> bool \<times> gen" where
  "emit ok event g =
     (if ok (g_attempts g)
      then (True, g\<lparr>g_emitted := g_emitted g @ [event], g_attempts := g_attempts g + 1\<rparr>)
      else (False, g\<lparr>g_attempts := g_attempts g + 1\<rparr>))"

fun message_string :: "log_message \<Rightarrow> go_panic + string" where
  "message_string (MString s) = Inr s"
| "message_string _ = Inl TypeAssertion"

fun group_fragments :: "log_event list \<Rightarrow> go_panic + string list" where
  "group_fragments [] = Inr []"
| "group_fragments (e # es) =
     (case message_string (le_Message e) of
        Inl p \<Rightarrow> Inl p
      | Inr s \<Rightarrow> (case group_fragments es of Inl p \<Rightarrow> Inl p | Inr ss \<Rightarrow> Inr (s # ss)))"

definition group_event :: "log_event \<Rightarrow> string list \<Rightarrow> log_event" where
  "group_event first fragments =
     \<lparr>le_Type = LogTypeGroup, le_Message = MFragments fragments, le_RawMessage = [],
      le_Timestamp = le_Timestamp first, le_Id = le_Id first, le_Level = le_Level first,
      le_Stream = le_Stream first, le_ContainerID = le_ContainerID first\<rparr>"

definition flushGroup ::
    "(nat \<Rightarrow> bool) \<Rightarrow> log_event list \<Rightarrow> gen \<Rightarrow> go_panic + bool \<times> gen" where
  "flushGroup ok pendingGroup g =
     (case pendingGroup of
        [] \<Rightarrow> Inr (True, g)
      | [e] \<Rightarrow> Inr (emit ok (e\<lparr>le_Type := LogTypeSingle\<rparr>) g)
      | first # _ \<Rightarrow>
          (case group_fragments pendingGroup of
             Inl p \<Rightarrow> Inl p
           | Inr fragments \<Rightarrow> Inr (emit ok (group_event first fragments) g)))"

fun emitAsSingles :: "(nat \<Rightarrow> bool) \<Rightarrow> log_event list \<Rightarrow> gen \<Rightarrow> bool \<times> gen" where
  "emitAsSingles ok [] g = (True, g)"
| "emitAsSingles ok (e # es) g =
     (case emit ok (e\<lparr>le_Type := LogTypeSingle\<rparr>) g of
        (True, g') \<Rightarrow> emitAsSingles ok es g'
      | (False, g') \<Rightarrow> (False, g'))"

text \<open>A receive that blocks until an event arrives or the channel is closed.\<close>

fun receive :: "feed_item list \<Rightarrow> (log_event \<times> feed_item list) option" where
  "receive [] = None"
| "receive (Pause # is) = receive is"
| "receive (Ev e # is) = Some (e, is)"

definition nextEvent :: "gen \<Rightarrow> log_event option \<times> gen" where
  "nextEvent g =
     (case g_next g of
        Some e \<Rightarrow> (Some e, g\<lparr>g_next := None\<rparr>)
      | None \<Rightarrow>
          (case receive (g_buffer g) of
             Some (e, rest) \<Rightarrow> (Some e, g\<lparr>g_buffer := rest\<rparr>)
           | None \<Rightarrow> (None, g\<lparr>g_buffer := []\<rparr>)))"

definition peek :: "gen \<Rightarrow> log_event option \<times> gen" where
  "peek g =
     (case g_next g of
        Some e \<Rightarrow> (Some e, g)
      | None \<Rightarrow>
          (case g_buffer g of
             Ev e # rest \<Rightarrow> (Some e, g\<lparr>g_next := Some e, g_buffer := rest\<rparr>)
           | Pause # rest \<Rightarrow> (None, g\<lparr>g_buffer := rest\<rparr>)
           | [] \<Rightarrow> (None, g)))"

definition set_next_level :: "string \<Rightarrow> gen \<Rightarrow> gen" where
  "set_next_level l g = g\<lparr>g_next := map_option (\<lambda>e. e\<lparr>le_Level := l\<rparr>) (g_next g)\<rparr>"

definition canContinueGroup :: "log_event \<Rightarrow> log_event \<Rightarrow> string \<Rightarrow> bool" where
  "canContinueGroup prev nxt groupLevel \<longleftrightarrow>
     (\<not> HasLevel nxt \<or> le_Level nxt = groupLevel) \<and> IsCloseToTime prev nxt"

definition canStartGroup :: "log_event \<Rightarrow> log_event \<Rightarrow> bool" where
  "canStartGroup current nxt \<longleftrightarrow> HasLevel current \<and> canContinueGroup current nxt (le_Level current)"

text \<open>The events still to come: the peeked one, then the channel.\<close>

fun feed_events :: "feed_item list \<Rightarrow> log_event list" where
  "feed_events [] = []"
| "feed_events (Ev e # is) = e # feed_events is"
| "feed_events (Pause # is) = feed_events is"

definition pending :: "gen \<Rightarrow> log_event list" where
  "pending g = (case g_next g of None \<Rightarrow> [] | Some e \<Rightarrow> [e]) @ feed_events (g_buffer g)"

lemma receive_feed:
  "feed_events is = (case receive is of None \<Rightarrow> [] | Some (e, js) \<Rightarrow> e # feed_events js)"
  by (induction "is" rule: receive.induct) auto

lemma nextEvent_Some:
  "nextEvent g = (Some e, g') \<Longrightarrow> pending g = e # pending g' \<and> g_next g' = None
    \<and> g_emitted g' = g_emitted g \<and> g_attempts g' = g_attempts g"
  by (cases "g_next g"; cases "receive (g_buffer g)")
    (auto simp: nextEvent_def pending_def receive_feed [of "g_buffer g"])

lemma nextEvent_None:
  "nextEvent g = (None, g') \<Longrightarrow> pending g = [] \<and> pending g' = []
    \<and> g_emitted g' = g_emitted g \<and> g_attempts g' = g_attempts g"
  by (cases "g_next g"; cases "receive (g_buffer g)")
    (auto simp: nextEvent_def pending_def receive_feed [of "g_buffer g"])

lemma peek_props:
  "peek g = (r, g') \<Longrightarrow> pending g' = pending g \<and> g_next g' = r
    \<and> g_emitted g' = g_emitted g \<and> g_attempts g' = g_attempts g"
  by (auto simp: peek_def pending_def split: option.splits list.splits feed_item.splits)

lemma length_pending_set_next_level [simp]: "length (pending (set_next_level l g)) = length (pending g)"
  by (auto simp: set_next_level_def pending_def split: option.splits)

lemma pending_emit [simp]: "pending (snd (emit ok e g)) = pending g"
  by (simp add: emit_def pending_def)

lemma pending_flushGroup: "flushGroup ok pg g = Inr (b, g') \<Longrightarrow> pending g' = pending g"
  by (auto simp: flushGroup_def emit_def pending_def split: list.splits sum.splits if_splits)

subsection \<open>The loops\<close>

definition maxOrphanLines :: nat where "maxOrphanLines = 1000"

definition is_orphan :: "log_event \<Rightarrow> int \<Rightarrow> bool" where
  "is_orphan current lastTimestamp \<longleftrightarrow>
     IsSimple current \<and> \<not> HasLevel current \<and> 0 < le_Timestamp current
     \<and> (lastTimestamp = 0 \<or> \<bar>lastTimestamp - le_Timestamp current\<bar> < maxGroupTimeDelta)"

definition time_gap :: "log_event \<Rightarrow> int \<Rightarrow> bool" where
  "time_gap current lastTimestamp \<longleftrightarrow>
     lastTimestamp \<noteq> 0 \<and> 0 < le_Timestamp current
     \<and> maxGroupTimeDelta \<le> \<bar>lastTimestamp - le_Timestamp current\<bar>"

text \<open>
  The loop of \<open>skipOrphanedLines\<close>; a round that goes on has taken one event from the channel, so
  the number of events still to come decreases.
\<close>

function skip_loop ::
    "(nat \<Rightarrow> bool) \<Rightarrow> log_event \<Rightarrow> int \<Rightarrow> log_event list \<Rightarrow> gen \<Rightarrow> log_event option \<times> gen" where
  "skip_loop ok current lastTimestamp orphanBuffer g =
     (if \<not> is_orphan current lastTimestamp then
        (Some current,
         if orphanBuffer \<noteq> [] \<and> time_gap current lastTimestamp
         then snd (emitAsSingles ok orphanBuffer g) else g)
      else
        (let orphanBuffer' = orphanBuffer @ [current]
         in if length orphanBuffer' \<ge> maxOrphanLines
            then nextEvent (snd (emitAsSingles ok orphanBuffer' g))
            else
              (case peek g of
                 (None, g1) \<Rightarrow> nextEvent (snd (emitAsSingles ok orphanBuffer' g1))
               | (Some _, g1) \<Rightarrow>
                   (case nextEvent g1 of
                      (None, g2) \<Rightarrow> (None, snd (emitAsSingles ok orphanBuffer' g2))
                    | (Some c, g2) \<Rightarrow> skip_loop ok c (le_Timestamp current) orphanBuffer' g2))))"
  by pat_completeness auto

text \<open>Each step consumes one event or leaves the number of events to come unchanged.\<close>

lemma pending_step:
  "nextEvent g = (Some c, g') \<Longrightarrow> length (pending g) = Suc (length (pending g'))"
  "peek g = (r, g') \<Longrightarrow> length (pending g') = length (pending g)"
  "flushGroup ok pg g = Inr (b, g') \<Longrightarrow> length (pending g') = length (pending g)"
  "emit ok e g = (b, g') \<Longrightarrow> length (pending g') = length (pending g)"
  using nextEvent_Some [of g c g'] peek_props [of g r g'] pending_flushGroup [of ok pg g b g']
    pending_emit [of ok e g] by auto

lemmas pending_step' = pending_step [OF sym]

termination skip_loop
  by (relation "measure (\<lambda>(ok, c, t, b, g). length (pending g))") (auto dest!: pending_step')

definition skipOrphanedLines :: "(nat \<Rightarrow> bool) \<Rightarrow> gotime \<Rightarrow> gen \<Rightarrow> log_event option \<times> gen" where
  "skipOrphanedLines ok startedAt g =
     (case nextEvent g of
        (None, g') \<Rightarrow> (None, g')
      | (Some current, g') \<Rightarrow>
          (if \<not> IsZero startedAt \<and> 0 < le_Timestamp current
              \<and> \<bar>UnixMilli startedAt - le_Timestamp current\<bar> < 5000
           then (Some current, g')
           else skip_loop ok current 0 [] g'))"

text \<open>The main loop of \<open>processBuffer\<close>.\<close>

function process_loop ::
    "(nat \<Rightarrow> bool) \<Rightarrow> log_event list \<Rightarrow> gen \<Rightarrow> go_panic + gen" where
  "process_loop ok pendingGroup g =
     (case nextEvent g of
        (None, g1) \<Rightarrow> (case flushGroup ok pendingGroup g1 of Inl p \<Rightarrow> Inl p | Inr (_, g2) \<Rightarrow> Inr g2)
      | (Some current, g1) \<Rightarrow>
          (if \<not> IsSimple current then
             (case flushGroup ok pendingGroup g1 of
                Inl p \<Rightarrow> Inl p
              | Inr (False, g2) \<Rightarrow> Inr g2
              | Inr (True, g2) \<Rightarrow>
                  (case emit ok current g2 of
                     (False, g3) \<Rightarrow> Inr g3
                   | (True, g3) \<Rightarrow> process_loop ok [] g3))
           else
             (case peek g1 of
                (next, g2) \<Rightarrow>
                  (if pendingGroup = [] then
                     (case next of
                        Some n \<Rightarrow>
                          (if IsSimple n \<and> canStartGroup current n
                           then process_loop ok [current] (set_next_level (le_Level current) g2)
                           else (case emit ok (current\<lparr>le_Type := LogTypeSingle\<rparr>) g2 of
                                   (False, g3) \<Rightarrow> Inr g3
                                 | (True, g3) \<Rightarrow> process_loop ok [] g3))
                      | None \<Rightarrow>
                          (case emit ok (current\<lparr>le_Type := LogTypeSingle\<rparr>) g2 of
                             (False, g3) \<Rightarrow> Inr g3
                           | (True, g3) \<Rightarrow> process_loop ok [] g3))
                   else
                     (let pendingGroup' = pendingGroup @ [current];
                          continue = (case next of
                            None \<Rightarrow> False
                          | Some n \<Rightarrow> IsSimple n \<and> canContinueGroup current n (le_Level (hd pendingGroup)))
                      in if continue
                         then process_loop ok pendingGroup'
                                (set_next_level (le_Level (hd pendingGroup)) g2)
                         else (case flushGroup ok pendingGroup' g2 of
                                 Inl p \<Rightarrow> Inl p
                               | Inr (False, g3) \<Rightarrow> Inr g3
                               | Inr (True, g3) \<Rightarrow> process_loop ok [] g3))))))"
  by pat_completeness auto

termination process_loop
  by (relation "measure (\<lambda>(ok, pg, g). length (pending g))") (auto dest!: pending_step' pending_step(3))

definition processBuffer :: "(nat \<Rightarrow> bool) \<Rightarrow> gotime \<Rightarrow> gen \<Rightarrow> go_panic + gen" where
  "processBuffer ok startedAt g =
     (case skipOrphanedLines ok startedAt g of
        (None, g') \<Rightarrow> Inr g'
      | (Some first, g') \<Rightarrow> process_loop ok [] (g'\<lparr>g_next := Some first\<rparr>))"

declare skip_loop.simps [simp del] process_loop.simps [simp del]

subsection \<open>What is emitted is a partition of what was read\<close>

text \<open>
  \<open>createEvent\<close> gives a simple event a string message; this is what the type assertion in
  \<open>flushGroup\<close> relies on.
\<close>

definition ev_wf :: "log_event \<Rightarrow> bool" where
  "ev_wf e \<longleftrightarrow> (IsSimple e \<longrightarrow> (\<exists>s. le_Message e = MString s))"

definition message_text :: "log_event \<Rightarrow> string" where
  "message_text e = (case le_Message e of MString s \<Rightarrow> s | _ \<Rightarrow> [])"

text \<open>A run of lines that belong together.\<close>

definition coherent :: "log_event list \<Rightarrow> bool" where
  "coherent es \<longleftrightarrow> es \<noteq> [] \<and> HasLevel (hd es) \<and> list_all IsSimple es
     \<and> list_all (\<lambda>e. \<not> HasLevel e \<or> le_Level e = le_Level (hd es)) es
     \<and> successively IsCloseToTime es"

definition render_part :: "log_event list \<Rightarrow> log_event" where
  "render_part es =
     (case es of
        [e] \<Rightarrow> if IsSimple e then e\<lparr>le_Type := LogTypeSingle\<rparr> else e
      | _ \<Rightarrow> group_event (hd es) (map message_text es))"

definition good_part :: "log_event list \<Rightarrow> bool" where
  "good_part es \<longleftrightarrow> length es = 1 \<or> 2 \<le> length es \<and> coherent es"

lemma group_fragments_wf:
  "\<forall>e\<in>set es. \<exists>s. le_Message e = MString s \<Longrightarrow> group_fragments es = Inr (map message_text es)"
  by (induction es) (auto simp: message_text_def)

lemma relevel_simps [simp]:
  "IsSimple (e\<lparr>le_Level := l\<rparr>) = IsSimple e" "message_text (e\<lparr>le_Level := l\<rparr>) = message_text e"
  "ev_wf (e\<lparr>le_Level := l\<rparr>) = ev_wf e"
  "IsCloseToTime (e\<lparr>le_Level := l\<rparr>) n = IsCloseToTime e n"
  "IsCloseToTime n (e\<lparr>le_Level := l\<rparr>) = IsCloseToTime n e"
  by (simp_all add: IsSimple_def message_text_def ev_wf_def IsCloseToTime_def)

text \<open>
  The loop works on a group whose later members have been given the level of the first one.  The
  relation ties the group and the channel to the events as they were read: \<open>os\<close> are the members of
  the group, \<open>rest\<close> the events to come.
\<close>

definition relevel :: "log_event list \<Rightarrow> log_event list" where
  "relevel os = (case os of [] \<Rightarrow> [] | f # es \<Rightarrow> f # map (\<lambda>e. e\<lparr>le_Level := le_Level f\<rparr>) es)"

definition tracks :: "log_event list \<Rightarrow> log_event list \<Rightarrow> log_event list \<Rightarrow> gen \<Rightarrow> bool" where
  "tracks os rest pg g \<longleftrightarrow>
     pg = relevel os \<and> list_all ev_wf (os @ rest)
     \<and> (if os = [] then pending g = rest
        else \<exists>n r. rest = n # r \<and> coherent (os @ [n])
               \<and> g_next g = Some (n\<lparr>le_Level := le_Level (hd os)\<rparr>)
               \<and> feed_events (g_buffer g) = r)"

lemma relevel_Nil [simp]: "relevel os = [] \<longleftrightarrow> os = []"
  by (cases os) (auto simp: relevel_def)

lemma hd_relevel: "os \<noteq> [] \<Longrightarrow> hd (relevel os) = hd os"
  by (cases os) (auto simp: relevel_def)

lemma relevel_snoc:
  "os \<noteq> [] \<Longrightarrow> relevel os @ [n\<lparr>le_Level := le_Level (hd os)\<rparr>] = relevel (os @ [n])"
  by (cases os) (auto simp: relevel_def)

lemma flush_relevel:
  assumes "coherent os" and "2 \<le> length os" and "list_all ev_wf os" and "\<forall>n. ok n"
  shows "\<exists>g'. flushGroup ok (relevel os) g = Inr (True, g') \<and> g_emitted g' = g_emitted g @ [render_part os]
    \<and> g_next g' = g_next g \<and> g_buffer g' = g_buffer g"
proof -
  obtain f e es where os: "os = f # e # es" using assms(2)
    by (cases os; cases "tl os") auto
  have "\<forall>e\<in>set (relevel os). \<exists>s. le_Message e = MString s"
    using assms(1,3) os by (auto simp: coherent_def relevel_def list_all_iff ev_wf_def)
  then have "group_fragments (relevel os) = Inr (map message_text (relevel os))"
    by (rule group_fragments_wf)
  moreover have "map message_text (relevel os) = map message_text os"
    using os by (simp add: relevel_def comp_def)
  ultimately show ?thesis
    using assms(4) os by (simp add: flushGroup_def relevel_def emit_def render_part_def comp_def)
qed

lemma coherent_snoc:
  "coherent os \<Longrightarrow> IsSimple n \<Longrightarrow> \<not> HasLevel n \<or> le_Level n = le_Level (hd os) \<Longrightarrow>
    IsCloseToTime (last os) n \<Longrightarrow> coherent (os @ [n])"
  by (auto simp: coherent_def successively_append_iff)

lemma coherent_single: "HasLevel c \<Longrightarrow> IsSimple c \<Longrightarrow> coherent [c]"
  by (simp add: coherent_def)

text \<open>The result of the loop splits the events \<open>src\<close> into the parts it emits.\<close>

definition splits_into :: "gen \<Rightarrow> log_event list \<Rightarrow> go_panic + gen \<Rightarrow> bool" where
  "splits_into g src r \<longleftrightarrow> (\<exists>parts g'. r = Inr g' \<and> g_emitted g' = g_emitted g @ map render_part parts
     \<and> concat parts = src \<and> (\<forall>p\<in>set parts. good_part p))"

lemma splits_into_Cons:
  "splits_into g1 src r \<Longrightarrow> g_emitted g1 = g_emitted g @ [render_part p] \<Longrightarrow> good_part p \<Longrightarrow>
    splits_into g (p @ src) r"
  unfolding splits_into_def by (clarsimp, rule_tac x = "p # parts" in exI) auto

lemma splits_into_same: "splits_into g1 src r \<Longrightarrow> g_emitted g1 = g_emitted g \<Longrightarrow> splits_into g src r"
  by (simp add: splits_into_def)

lemma splits_into_Nil: "g_emitted g' = g_emitted g \<Longrightarrow> splits_into g [] (Inr g')"
  by (auto simp: splits_into_def)

lemma good_part_single [simp]: "good_part [e]"
  by (simp add: good_part_def)

lemma emit_ok: "\<forall>n. ok n \<Longrightarrow> \<exists>g'. emit ok e g = (True, g') \<and> g_emitted g' = g_emitted g @ [e]
    \<and> g_next g' = g_next g \<and> g_buffer g' = g_buffer g"
  by (simp add: emit_def)

lemma tracks_Nil: "tracks [] rest [] g \<longleftrightarrow> list_all ev_wf rest \<and> pending g = rest"
  by (auto simp: tracks_def relevel_def)

lemma pending_cong: "g_next g = g_next h \<Longrightarrow> g_buffer g = g_buffer h \<Longrightarrow> pending g = pending h"
  by (simp add: pending_def)

text \<open>Peeking an event that may join the group \<open>os\<close> puts the loop into the tracked state.\<close>

lemma tracks_extend:
  assumes "peek g1 = (Some n, g2)" and "list_all ev_wf os" and "list_all ev_wf (pending g1)"
    and "coherent (os @ [n])" and "os \<noteq> []"
  shows "tracks os (pending g1) (relevel os) (set_next_level (le_Level (hd os)) g2)"
proof -
  have "pending g1 = n # feed_events (g_buffer g2)" "g_next g2 = Some n"
    using peek_props [OF assms(1)] by (auto simp: pending_def)
  with assms(2-5) show ?thesis by (auto simp: tracks_def set_next_level_def)
qed

lemma set_next_level_emitted [simp]: "g_emitted (set_next_level l g) = g_emitted g"
  by (simp add: set_next_level_def)

text \<open>The induction hypothesis of the loop: it does its job on every shorter channel.\<close>

definition loop_ok :: "(nat \<Rightarrow> bool) \<Rightarrow> gen \<Rightarrow> bool" where
  "loop_ok ok g \<longleftrightarrow> (\<forall>os rest pg h. length (pending h) < length (pending g) \<longrightarrow>
     tracks os rest pg h \<longrightarrow> splits_into h (os @ rest) (process_loop ok pg h))"

lemma loop_okD:
  "loop_ok ok g \<Longrightarrow> length (pending h) < length (pending g) \<Longrightarrow> tracks os rest pg h \<Longrightarrow>
    splits_into h (os @ rest) (process_loop ok pg h)"
  by (simp add: loop_ok_def)

lemma process_loop_emitted:
  assumes IH: "loop_ok ok g" and h: "list_all ev_wf (pending h)" "length (pending h) < length (pending g)"
    and e: "g_emitted h = g_emitted g @ [render_part p]" "good_part p"
  shows "splits_into g (p @ pending h) (process_loop ok [] h)"
  using splits_into_Cons [OF _ e] loop_okD [OF IH h(2), of "[]" "pending h" "[]"] h(1)
  by (simp add: tracks_Nil)

lemma process_loop_extends:
  assumes IH: "loop_ok ok g" and ne: "nextEvent g = (Some current, g1)" and pk: "peek g1 = (Some n, g2)"
    and wf: "list_all ev_wf os" "list_all ev_wf (pending g1)" and c: "coherent (os @ [n])" "os \<noteq> []"
  shows "splits_into g (os @ pending g1)
    (process_loop ok (relevel os) (set_next_level (le_Level (hd os)) g2))"
proof -
  have "g_emitted g2 = g_emitted g" "length (pending g2) < length (pending g)"
    using nextEvent_Some [OF ne] peek_props [OF pk] by auto
  then show ?thesis
    using loop_okD [OF IH _ tracks_extend [OF pk wf c]]
    by (auto intro: splits_into_same)
qed

lemma process_loop_single:
  assumes IH: "loop_ok ok g" and ok: "\<forall>n. ok n" and ne: "nextEvent g = (Some current, g1)"
    and h: "pending h = pending g1" "g_emitted h = g_emitted g1"
    and wf: "list_all ev_wf (pending g1)" and e: "e = render_part [current]"
  shows "splits_into g (current # pending g1)
    (case emit ok e h of (False, g3) \<Rightarrow> Inr g3 | (True, g3) \<Rightarrow> process_loop ok [] g3)"
proof -
  obtain g3 where g3: "emit ok e h = (True, g3)" "g_emitted g3 = g_emitted h @ [e]"
    "g_next g3 = g_next h" "g_buffer g3 = g_buffer h" using emit_ok [OF ok] by blast
  have "pending g3 = pending g1" using h(1) pending_cong [OF g3(3,4)] by simp
  then have "splits_into g ([current] @ pending g3) (process_loop ok [] g3)"
    using nextEvent_Some [OF ne] h(2) g3(2) wf e by (intro process_loop_emitted [OF IH]) auto
  then show ?thesis using g3(1) \<open>pending g3 = _\<close> by simp
qed

lemma process_loop_fresh:
  assumes IH: "loop_ok ok g" and ok: "\<forall>n. ok n" and ne: "nextEvent g = (Some current, g1)"
    and wf: "list_all ev_wf (pending g)"
  shows "splits_into g (pending g) (process_loop ok [] g)"
proof -
  have p: "pending g = current # pending g1" using nextEvent_Some [OF ne] by simp
  then have wf1: "list_all ev_wf (pending g1)" "ev_wf current" using wf by simp_all
  obtain nxt g2 where pk: "peek g1 = (nxt, g2)" by (cases "peek g1")
  have p2: "pending g2 = pending g1" "g_emitted g2 = g_emitted g1" using peek_props [OF pk] by auto
  note single = process_loop_single [OF IH ok ne _ _ wf1(1)]
  show ?thesis
  proof (cases "IsSimple current \<and> (\<exists>n. nxt = Some n \<and> IsSimple n \<and> canStartGroup current n)")
    case True
    then obtain n where n: "nxt = Some n" "IsSimple n" "canStartGroup current n" "IsSimple current"
      by auto
    then have "coherent ([current] @ [n])"
      by (auto simp: canStartGroup_def canContinueGroup_def coherent_def)
    then show ?thesis
      using process_loop_extends [OF IH ne, of n g2 "[current]"] pk n ne wf1 p
      by (simp add: process_loop.simps [of ok "[]" g] relevel_def)
  next
    case False
    then show ?thesis
      using ne pk p single [of g1 current] single [of g2 "current\<lparr>le_Type := LogTypeSingle\<rparr>"] p2
      by (cases nxt; cases "IsSimple current")
        (auto simp: process_loop.simps [of ok "[]" g] flushGroup_def render_part_def)
  qed
qed

lemma process_loop_group:
  assumes IH: "loop_ok ok g" and ok: "\<forall>n. ok n" and os: "os \<noteq> []" "coherent (os @ [n])"
    and ne: "nextEvent g = (Some (n\<lparr>le_Level := le_Level (hd os)\<rparr>), g1)"
    and wf: "list_all ev_wf (os @ [n])" "list_all ev_wf (pending g1)"
  shows "splits_into g (os @ n # pending g1) (process_loop ok (relevel os) g)"
proof -
  let ?lvl = "le_Level (hd os)" and ?cur = "n\<lparr>le_Level := le_Level (hd os)\<rparr>"
  obtain nxt g2 where pk: "peek g1 = (nxt, g2)" by (cases "peek g1")
  have p2: "pending g2 = pending g1" "g_emitted g2 = g_emitted g"
    "length (pending g2) < length (pending g)"
    using peek_props [OF pk] nextEvent_Some [OF ne] by auto
  have simple: "IsSimple n" using os by (auto simp: coherent_def)
  note grp = relevel_snoc [OF os(1), of n]
  show ?thesis
  proof (cases "\<exists>m. nxt = Some m \<and> IsSimple m \<and> canContinueGroup ?cur m ?lvl")
    case True
    then obtain m where m: "nxt = Some m" "IsSimple m" "canContinueGroup ?cur m ?lvl" by blast
    then have "coherent ((os @ [n]) @ [m])"
      using os coherent_snoc [OF os(2), of m] by (auto simp: canContinueGroup_def)
    then show ?thesis
      using process_loop_extends [OF IH ne, of m g2 "os @ [n]"] pk m wf os(1) ne simple grp
      by (simp add: process_loop.simps [of ok "relevel os" g] hd_relevel Let_def)
  next
    case False
    have len: "2 \<le> length (os @ [n])" using os(1) by (cases os) auto
    then obtain g3 where g3: "flushGroup ok (relevel (os @ [n])) g2 = Inr (True, g3)"
      "g_emitted g3 = g_emitted g2 @ [render_part (os @ [n])]"
      "g_next g3 = g_next g2" "g_buffer g3 = g_buffer g2"
      using flush_relevel [OF os(2) _ wf(1) ok] by blast
    have p3: "pending g3 = pending g1" using p2(1) pending_cong [OF g3(3,4)] by simp
    have "splits_into g ((os @ [n]) @ pending g3) (process_loop ok [] g3)"
      by (rule process_loop_emitted [OF IH])
        (use g3(2) p2 wf(2) p3 len os(2) in \<open>simp_all add: good_part_def\<close>)
    then show ?thesis
      using ne simple pk grp False os(1) g3(1) p3
      by (auto simp: process_loop.simps [of ok "relevel os" g] hd_relevel Let_def split: option.splits)
  qed
qed

lemma process_loop_splits:
  assumes ok: "\<forall>n. ok n" and tr: "tracks os rest pg g"
  shows "splits_into g (os @ rest) (process_loop ok pg g)"
  using tr
proof (induction "length (pending g)" arbitrary: os rest pg g rule: less_induct)
  case less
  have IH: "loop_ok ok g" using less.hyps by (simp add: loop_ok_def)
  note wf = less.prems [unfolded tracks_def]
  obtain cur g1 where ne: "nextEvent g = (cur, g1)" by (cases "nextEvent g")
  show ?case
  proof (cases cur)
    case None
    with ne have "pending g = []" "g_emitted g1 = g_emitted g" using nextEvent_None by auto
    moreover from this wf have "os = []" "rest = []" "pg = []"
      by (auto simp: pending_def split: if_splits)
    ultimately show ?thesis
      using ne None by (simp add: process_loop.simps flushGroup_def splits_into_Nil)
  next
    case (Some current)
    show ?thesis
    proof (cases "os = []")
      case True
      then show ?thesis
        using process_loop_fresh [OF IH ok] ne Some wf by (auto simp: relevel_def)
    next
      case False
      then obtain n where n: "rest = n # pending g1" "coherent (os @ [n])"
        "current = n\<lparr>le_Level := le_Level (hd os)\<rparr>" "pg = relevel os"
        using wf ne Some by (auto simp: nextEvent_def pending_def)
      then show ?thesis using process_loop_group [OF IH ok False n(2)] ne Some wf by auto
    qed
  qed
qed

subsection \<open>Orphaned lines\<close>

definition orphan_run :: "log_event list \<Rightarrow> bool" where
  "orphan_run es \<longleftrightarrow> list_all (\<lambda>e. IsSimple e \<and> \<not> HasLevel e \<and> 0 < le_Timestamp e) es
     \<and> successively IsCloseToTime es \<and> length es < maxOrphanLines"

definition last_ts :: "log_event list \<Rightarrow> int" where
  "last_ts es = (if es = [] then 0 else le_Timestamp (last es))"

text \<open>
  What skipping may do with the lines \<open>src\<close>: drop an orphan run that is followed closely by the
  event it returns, or emit some lines one by one.
\<close>

definition skip_result ::
    "gen \<Rightarrow> log_event list \<Rightarrow> log_event option \<times> gen \<Rightarrow> bool" where
  "skip_result g src res \<longleftrightarrow> (\<exists>dropped singles.
     src = dropped @ singles @ (case fst res of None \<Rightarrow> [] | Some e \<Rightarrow> [e]) @ pending (snd res)
     \<and> g_emitted (snd res) = g_emitted g @ map (\<lambda>e. render_part [e]) singles
     \<and> g_next (snd res) = None \<and> (fst res = None \<longrightarrow> pending (snd res) = [])
     \<and> orphan_run dropped
     \<and> (dropped \<noteq> [] \<longrightarrow> singles = []
         \<and> (\<exists>c. fst res = Some c \<and> (le_Timestamp c \<le> 0 \<or> IsCloseToTime (last dropped) c))))"

lemma skip_resultI:
  assumes "src = dropped @ singles @ (case r of None \<Rightarrow> [] | Some e \<Rightarrow> [e]) @ pending h"
    and "g_emitted h = g_emitted g @ map (\<lambda>e. render_part [e]) singles"
    and "g_next h = None" and "r = None \<Longrightarrow> pending h = []" and "orphan_run dropped"
    and "dropped \<noteq> [] \<Longrightarrow> singles = []
      \<and> (\<exists>c. r = Some c \<and> (le_Timestamp c \<le> 0 \<or> IsCloseToTime (last dropped) c))"
  shows "skip_result g src (r, h)"
  unfolding skip_result_def using assms by (intro exI [of _ dropped] exI [of _ singles]) simp

lemma emitAsSingles_ok:
  "\<forall>n. ok n \<Longrightarrow> list_all IsSimple es \<Longrightarrow>
    emitAsSingles ok es g = (True, g\<lparr>g_emitted := g_emitted g @ map (\<lambda>e. render_part [e]) es,
                                    g_attempts := g_attempts g + length es\<rparr>)"
  by (induction es arbitrary: g) (simp_all add: emit_def render_part_def)

lemma pending_upd [simp]:
  "pending (g\<lparr>g_emitted := es, g_attempts := n\<rparr>) = pending g"
  by (simp add: pending_def)

lemma orphan_run_Nil [simp]: "orphan_run []"
  by (simp add: orphan_run_def maxOrphanLines_def)

lemma skip_emit_next:
  assumes "\<forall>n. ok n" and "list_all IsSimple es" and "g_next g = None" and "g_emitted g = g_emitted g0"
  shows "skip_result g0 (es @ pending g) (nextEvent (snd (emitAsSingles ok es g)))"
proof -
  let ?g1 = "g\<lparr>g_emitted := g_emitted g @ map (\<lambda>e. render_part [e]) es,
               g_attempts := g_attempts g + length es\<rparr>"
  obtain r g2 where r: "nextEvent ?g1 = (r, g2)" by (cases "nextEvent ?g1")
  have "pending g = (case r of None \<Rightarrow> [] | Some e \<Rightarrow> [e]) @ pending g2" "g_emitted g2 = g_emitted ?g1"
    "r = None \<Longrightarrow> pending g2 = []" "g_next g2 = None"
    using r assms(3) nextEvent_Some [of ?g1 _ g2] nextEvent_None [of ?g1 g2]
    by (cases r; auto simp: nextEvent_def split: option.splits)+
  then have "skip_result g0 (es @ pending g) (r, g2)"
    using assms(4) by (intro skip_resultI [where dropped = "[]" and singles = es]) simp_all
  then show ?thesis using r assms(1,2) by (simp add: emitAsSingles_ok)
qed

lemma orphan_run_snoc:
  assumes "orphan_run es" and "is_orphan c (last_ts es)" and "length es + 1 < maxOrphanLines"
  shows "orphan_run (es @ [c])"
proof -
  have "es \<noteq> [] \<Longrightarrow> 0 < le_Timestamp (last es)"
    using assms(1) by (auto simp: orphan_run_def list_all_iff)
  with assms show ?thesis
    by (auto simp: orphan_run_def is_orphan_def last_ts_def successively_append_iff IsCloseToTime_def
        split: if_splits)
qed

lemma orphan_run_simple: "orphan_run es \<Longrightarrow> list_all IsSimple es"
  by (auto simp: orphan_run_def list_all_iff)

lemma skip_loop_stop:
  assumes ok: "\<forall>n. ok n" and run: "orphan_run orphans" and lt: "t = last_ts orphans"
    and nn: "g_next g = None" and stop: "\<not> is_orphan current t"
  shows "skip_result g (orphans @ current # pending g) (skip_loop ok current t orphans g)"
proof (cases "orphans \<noteq> [] \<and> time_gap current t")
  case True
  have "skip_result g (orphans @ current # pending g)
      (Some current, snd (emitAsSingles ok orphans g))"
    by (rule skip_resultI [where dropped = "[]" and singles = orphans])
      (simp_all add: emitAsSingles_ok [OF ok orphan_run_simple [OF run]] nn)
  then show ?thesis using True stop by (simp add: skip_loop.simps [of ok current t orphans g])
next
  case False
  have close: "le_Timestamp current \<le> 0 \<or> IsCloseToTime (last orphans) current" if "orphans \<noteq> []"
  proof -
    have "0 < le_Timestamp (last orphans)"
      using run that by (auto simp: orphan_run_def list_all_iff)
    then show ?thesis
      using False that lt by (auto simp: time_gap_def last_ts_def IsCloseToTime_def)
  qed
  have "skip_result g (orphans @ current # pending g) (Some current, g)"
    by (rule skip_resultI [where dropped = orphans and singles = "[]"]) (use nn run close in simp_all)
  moreover have "skip_loop ok current t orphans g = (Some current, g)"
    using False stop by (auto simp: skip_loop.simps [of ok current t orphans g])
  ultimately show ?thesis by simp
qed

lemma skip_loop_result:
  assumes ok: "\<forall>n. ok n" and run: "orphan_run orphans" and lt: "t = last_ts orphans"
    and nn: "g_next g = None"
  shows "skip_result g (orphans @ current # pending g) (skip_loop ok current t orphans g)"
  using run lt nn
proof (induction "length (pending g)" arbitrary: current t orphans g rule: less_induct)
  case less
  let ?o = "orphans @ [current]"
  have simp_o: "is_orphan current t \<Longrightarrow> list_all IsSimple ?o"
    using orphan_run_simple [OF less.prems(1)] by (simp add: is_orphan_def)
  consider (stop) "\<not> is_orphan current t"
    | (full) "is_orphan current t" "maxOrphanLines \<le> length ?o"
    | (go) "is_orphan current t" "length ?o < maxOrphanLines" by fastforce
  then show ?case
  proof cases
    case stop
    then show ?thesis using skip_loop_stop [OF ok less.prems stop] by simp
  next
    case full
    then show ?thesis
      using skip_emit_next [OF ok simp_o less.prems(3), of g]
      by (simp add: skip_loop.simps [of ok current t orphans g])
  next
    case go
    obtain r g1 where pk: "peek g = (r, g1)" by (cases "peek g")
    note p1 = peek_props [OF pk]
    show ?thesis
    proof (cases r)
      case None
      then show ?thesis
        using skip_emit_next [OF ok simp_o [OF go(1)], of g1 g] p1 pk go
        by (simp add: skip_loop.simps [of ok current t orphans g])
    next
      case (Some n)
      then have ne: "nextEvent g1 = (Some n, g1\<lparr>g_next := None\<rparr>)" using p1 by (simp add: nextEvent_def)
      note p2 = nextEvent_Some [OF ne]
      have "skip_result (g1\<lparr>g_next := None\<rparr>) (?o @ n # pending (g1\<lparr>g_next := None\<rparr>))
          (skip_loop ok n (le_Timestamp current) ?o (g1\<lparr>g_next := None\<rparr>))"
      proof (intro less.hyps)
        show "length (pending (g1\<lparr>g_next := None\<rparr>)) < length (pending g)"
          using p1 pending_step(1) [OF ne] by simp
        show "orphan_run ?o" using orphan_run_snoc [OF less.prems(1)] go less.prems(2) by simp
      qed (simp_all add: last_ts_def)
      then show ?thesis
        using p1 p2 pk Some ne go
        by (simp add: skip_loop.simps [of ok current t orphans g] skip_result_def)
    qed
  qed
qed

definition near_start :: "gotime \<Rightarrow> log_event \<Rightarrow> bool" where
  "near_start startedAt e \<longleftrightarrow> \<not> IsZero startedAt \<and> 0 < le_Timestamp e
     \<and> \<bar>UnixMilli startedAt - le_Timestamp e\<bar> < 5000"

lemma skipOrphanedLines_result:
  assumes "\<forall>n. ok n" and "g_next g = None"
  shows "skip_result g (pending g) (skipOrphanedLines ok startedAt g)"
proof (cases "nextEvent g")
  case (Pair r g1)
  show ?thesis
  proof (cases r)
    case None
    with Pair have "pending g = []" "pending g1 = []" "g_emitted g1 = g_emitted g"
      using nextEvent_None by auto
    moreover from this have "g_next g1 = None" by (cases "g_next g1") (auto simp: pending_def)
    ultimately show ?thesis using Pair None
      by (auto simp: skipOrphanedLines_def intro!: skip_resultI [where dropped = "[]" and singles = "[]"])
  next
    case (Some c)
    with Pair have p: "pending g = c # pending g1" "g_emitted g1 = g_emitted g" "g_next g1 = None"
      using nextEvent_Some by auto
    have "skip_result g (pending g) (Some c, g1)"
      by (rule skip_resultI [where dropped = "[]" and singles = "[]"]) (use p in simp_all)
    moreover have "skip_result g (pending g) (skip_loop ok c 0 [] g1)"
      using skip_loop_result [OF assms(1) orphan_run_Nil _ p(3), of 0 c] p
      by (simp add: last_ts_def skip_result_def)
    ultimately show ?thesis using Pair Some by (simp add: skipOrphanedLines_def)
  qed
qed

lemma skipOrphanedLines_near_start:
  assumes "pending g = c # cs" and "near_start startedAt c"
  shows "\<exists>g1. skipOrphanedLines ok startedAt g = (Some c, g1) \<and> pending g1 = cs \<and> g_next g1 = None
    \<and> g_emitted g1 = g_emitted g"
proof (cases "nextEvent g")
  case (Pair r g1)
  with assms(1) have "r = Some c" "pending g1 = cs" "g_next g1 = None" "g_emitted g1 = g_emitted g"
    using nextEvent_Some [of g _ g1] nextEvent_None [of g g1] by (cases r; auto)+
  with Pair assms(2) show ?thesis by (simp add: skipOrphanedLines_def near_start_def)
qed

text \<open>C5. While the receiver keeps up, \<open>processBuffer\<close> never panics on the events \<open>createEvent\<close>
produces, and what it emits accounts for everything it read, in order: a leading run of fewer than
1000 lines may be dropped as the tail of an earlier group (all simple, without level, each within
50 ms of the previous one and of the event that follows), and the rest is cut into parts, each either
one event on its own or at least two simple lines that share the first one's level or have none and
are less than 50 ms apart.  Nothing is dropped when the first event is within five seconds of the
container's start.\<close>

theorem processBuffer_partition:
  assumes "\<forall>n. ok n" and "g_next g = None" and "list_all ev_wf (pending g)"
  shows "\<exists>dropped parts g'. processBuffer ok startedAt g = Inr g'
    \<and> pending g = dropped @ concat parts
    \<and> g_emitted g' = g_emitted g @ map render_part parts
    \<and> (\<forall>p\<in>set parts. good_part p) \<and> orphan_run dropped
    \<and> (dropped \<noteq> [] \<longrightarrow> (\<exists>c cs. concat parts = c # cs
          \<and> (le_Timestamp c \<le> 0 \<or> IsCloseToTime (last dropped) c)))
    \<and> (pending g \<noteq> [] \<and> near_start startedAt (hd (pending g)) \<longrightarrow> dropped = [])"
proof -
  obtain r g1 where sk: "skipOrphanedLines ok startedAt g = (r, g1)" by (cases "skipOrphanedLines ok startedAt g")
  obtain dropped singles where d:
    "pending g = dropped @ singles @ (case r of None \<Rightarrow> [] | Some e \<Rightarrow> [e]) @ pending g1"
    "g_emitted g1 = g_emitted g @ map (\<lambda>e. render_part [e]) singles" "g_next g1 = None"
    "r = None \<Longrightarrow> pending g1 = []" "orphan_run dropped"
    "dropped \<noteq> [] \<Longrightarrow> singles = []
       \<and> (\<exists>c. r = Some c \<and> (le_Timestamp c \<le> 0 \<or> IsCloseToTime (last dropped) c))"
    using skipOrphanedLines_result [OF assms(1,2), of startedAt] unfolding sk skip_result_def by auto
  have near: "dropped = []" if ns: "pending g \<noteq> []" "near_start startedAt (hd (pending g))"
  proof -
    obtain c cs where c: "pending g = c # cs" using ns(1) by (cases "pending g") auto
    then have "r = Some c \<and> pending g1 = cs"
      using skipOrphanedLines_near_start [OF c, of startedAt ok] ns(2) sk by auto
    then show ?thesis using d(1) c by simp
  qed
  have fin: ?thesis
    if pb: "processBuffer ok startedAt g = Inr g'" and em: "g_emitted g' = g_emitted g1 @ map render_part parts"
      and cc: "concat parts = (case r of None \<Rightarrow> [] | Some e \<Rightarrow> [e]) @ pending g1"
      and gp: "\<forall>p\<in>set parts. good_part p" for parts g'
  proof (intro exI conjI)
    let ?parts = "map (\<lambda>e. [e]) singles @ parts"
    show "processBuffer ok startedAt g = Inr g'" by (rule pb)
    show "pending g = dropped @ concat ?parts" using d(1) cc by simp
    show "g_emitted g' = g_emitted g @ map render_part ?parts" using em d(2) by simp
    show "\<forall>p\<in>set ?parts. good_part p" using gp by auto
    show "dropped \<noteq> [] \<longrightarrow> (\<exists>c cs. concat ?parts = c # cs
        \<and> (le_Timestamp c \<le> 0 \<or> IsCloseToTime (last dropped) c))" using d(6) cc by auto
  qed (use d(5) near in auto)
  show ?thesis
  proof (cases r)
    case None
    then show ?thesis using sk d(4) by (intro fin [of g1 "[]"]) (simp_all add: processBuffer_def)
  next
    case (Some c)
    let ?h = "g1\<lparr>g_next := Some c\<rparr>"
    have "pending ?h = c # pending g1" using d(3) by (simp add: pending_def)
    then have "tracks [] (c # pending g1) [] ?h"
      using assms(3) d(1) Some by (simp add: tracks_Nil)
    then obtain parts g' where p: "process_loop ok [] ?h = Inr g'"
      "g_emitted g' = g_emitted g1 @ map render_part parts" "concat parts = c # pending g1"
      "\<forall>p\<in>set parts. good_part p"
      using process_loop_splits [OF assms(1)] by (fastforce simp: splits_into_def)
    then show ?thesis using Some sk by (intro fin [of g' parts]) (simp_all add: processBuffer_def)
  qed
qed

definition sample_line :: "string \<Rightarrow> int \<Rightarrow> string \<Rightarrow> log_event" where
  "sample_line m ts l = \<lparr>le_Type = LogTypeSingle, le_Message = MString m, le_RawMessage = m,
     le_Timestamp = ts, le_Id = 0, le_Level = l, le_Stream = ''stdout'', le_ContainerID = ''c''\<rparr>"

theorem processBuffer_partition_witness:
  "\<exists>dropped parts g'. processBuffer (\<lambda>_. True) zero_time
      \<lparr>g_next = None, g_buffer = [Ev (sample_line ''panic'' 1000 ''error''),
         Ev (sample_line ''  at f'' 1010 ''unknown''), Pause, Ev (sample_line ''ok'' 9000 ''info'')],
       g_emitted = [], g_attempts = 0\<rparr> = Inr g'
    \<and> [sample_line ''panic'' 1000 ''error'', sample_line ''  at f'' 1010 ''unknown'',
       sample_line ''ok'' 9000 ''info''] = dropped @ concat parts
    \<and> g_emitted g' = map render_part parts \<and> (\<forall>p\<in>set parts. good_part p) \<and> orphan_run dropped"
  using processBuffer_partition [of "\<lambda>_. True" "\<lparr>g_next = None,
      g_buffer = [Ev (sample_line ''panic'' 1000 ''error''),
        Ev (sample_line ''  at f'' 1010 ''unknown''), Pause, Ev (sample_line ''ok'' 9000 ''info'')],
      g_emitted = [], g_attempts = 0\<rparr>" zero_time]
  by (auto simp: pending_def ev_wf_def sample_line_def)

text \<open>The lines of the sample come out as one group of two and one single line.\<close>

lemma processBuffer_sample:
  "map_sum id (\<lambda>g. map le_Message (g_emitted g)) (processBuffer (\<lambda>_. True) zero_time
      \<lparr>g_next = None, g_buffer = [Ev (sample_line ''panic'' 1000 ''error''),
         Ev (sample_line ''  at f'' 1010 ''unknown''), Pause, Ev (sample_line ''ok'' 9000 ''info'')],
       g_emitted = [], g_attempts = 0\<rparr>)
    = Inr [MFragments [''panic'', ''  at f''], MString ''ok'']"
  by (simp add: processBuffer_def skipOrphanedLines_def skip_loop.simps process_loop.simps nextEvent_def
      peek_def flushGroup_def emit_def group_event_def set_next_level_def canStartGroup_def
      canContinueGroup_def IsCloseToTime_def maxGroupTimeDelta_def HasLevel_def IsSimple_def
      is_orphan_def sample_line_def Let_def IsZero_def)

end
