(* ===== verification/NotifTypes.thy ===== *)
theory NotifTypes
  imports ContainerTypes
begin

text \<open>
  The data of the notification engine: \<open>types/notification.go\<close> and the types and conversions of
  \<open>internal/notification/types.go\<close>.

  Expressions are compiled and run by the \<open>expr-lang\<close> package and keys extracted by \<open>regexp\<close>.  A
  compiled program is a function from its environment to the outcome of running it; the compilers
  are arguments of the operations that use them (\<open>expr_lib\<close>).  A nil program is \<open>None\<close>.  A pointer
  to a concurrent map is \<open>None\<close> when nil, and using it then panics.
\<close>

subsection \<open>Notifications\<close>

datatype notification_type = LogNotification | MetricNotification | EventNotification

record notification_context =
  nx_Label :: string
  nx_Value :: string

record notification_container =
  nc_ID :: string
  nc_Name :: string
  nc_Image :: string
  nc_State :: string
  nc_Health :: string
  nc_HostID :: string
  nc_HostName :: string
  nc_HostGroup :: string
  nc_Labels :: "string \<rightharpoonup> string"

text \<open>The message of a notification: nil in the zero value, a string, or a map for structured logs.\<close>

datatype notif_message =
    NNil
  | NText string
  | NMap "string \<rightharpoonup> json"
  | NJson json

record notification_log =
  nl_ID :: "32 word"
  nl_Message :: notif_message
  nl_Timestamp :: int
  nl_Level :: string
  nl_Stream :: string
  nl_Type :: string

record notification_mount =
  nm_Destination :: string
  nm_TotalBytes :: "64 word"
  nm_FreeBytes :: "64 word"
  nm_UsedBytes :: "64 word"
  nm_UsedPercent :: real
  nm_AvailableBytes :: "64 word"

record notification_stat =
  ns_CPUPercent :: real
  ns_MemoryPercent :: real
  ns_MemoryUsage :: real
  ns_Mounts :: "notification_mount list"

record notification_event =
  ne_Name :: string
  ne_ActorID :: string
  ne_Attributes :: "string \<rightharpoonup> string"
  ne_Timestamp :: gotime

text \<open>
  The configuration part of a subscription; \<open>types.SubscriptionConfig\<close> and the exported fields of
  \<open>notification.Subscription\<close> have the same names.
\<close>

record subscription_config =
  sub_ID :: int
  sub_Name :: string
  AlertGroup :: string
  sub_Enabled :: bool
  DispatcherID :: int
  LogExpression :: string
  ContainerExpression :: string
  MetricExpression :: string
  EventExpression :: string
  Cooldown :: int
  SampleWindow :: int
  PausedUntil :: "gotime option"
  DeliveryDays :: "string list"
  sub_NtfyTopic :: string
  sub_NtfyPriority :: int
  sub_NtfyTags :: "string list"
  BypassQuietHours :: bool
  QuietPriority :: int
  HoldDuringQuiet :: bool
  HoldClearWindow :: int
  BurstCount :: int
  BurstWindow :: int
  BurstPriority :: int
  BurstNtfyTopic :: string
  UniqueKeyRegex :: string
  UniqueWindow :: int
  UniqueThreshold :: int
  WatchdogPattern :: string
  WatchdogWindow :: int
  WatchdogCooldown :: int
  WatchdogTriggerMessage :: string
  WatchdogClearMessage :: string
  RestartLoopEnabled :: bool
  RestartLoopStateWindow :: int
  RestartLoopEventCount :: int
  RestartLoopEventWindow :: int
  RestartLoopCooldown :: int
  RestartLoopTriggerMessage :: string
  QuietStackThreshold :: int
  QuietStackWindow :: int
  AlertQuietEnabled :: bool
  AlertQuietStart :: string
  AlertQuietEnd :: string
  AlertQuietTimezone :: string

definition zero_SubscriptionConfig :: subscription_config where
  "zero_SubscriptionConfig =
     \<lparr>sub_ID = 0, sub_Name = [], AlertGroup = [], sub_Enabled = False, DispatcherID = 0,
      LogExpression = [], ContainerExpression = [], MetricExpression = [], EventExpression = [],
      Cooldown = 0, SampleWindow = 0, PausedUntil = None, DeliveryDays = [], sub_NtfyTopic = [],
      sub_NtfyPriority = 0, sub_NtfyTags = [], BypassQuietHours = False, QuietPriority = 0,
      HoldDuringQuiet = False, HoldClearWindow = 0, BurstCount = 0, BurstWindow = 0,
      BurstPriority = 0, BurstNtfyTopic = [], UniqueKeyRegex = [], UniqueWindow = 0,
      UniqueThreshold = 0, WatchdogPattern = [], WatchdogWindow = 0, WatchdogCooldown = 0,
      WatchdogTriggerMessage = [], WatchdogClearMessage = [], RestartLoopEnabled = False,
      RestartLoopStateWindow = 0, RestartLoopEventCount = 0, RestartLoopEventWindow = 0,
      RestartLoopCooldown = 0, RestartLoopTriggerMessage = [], QuietStackThreshold = 0,
      QuietStackWindow = 0, AlertQuietEnabled = False, AlertQuietStart = [], AlertQuietEnd = [],
      AlertQuietTimezone = []\<rparr>"

record notification =
  n_ID :: string
  n_Type :: notification_type
  n_Detail :: string
  n_Container :: notification_container
  n_Log :: "notification_log option"
  n_Stat :: "notification_stat option"
  n_Event :: "notification_event option"
  n_Subscription :: subscription_config
  n_Timestamp :: gotime
  n_NtfyTopic :: string
  n_NtfyPriority :: int
  n_NtfyTags :: "string list"
  n_Context :: "notification_context list"

text \<open>
  \<open>json.Marshal\<close> followed by \<open>json.Unmarshal\<close> restores every field of a notification but the two
  tagged \<open>json:"-"\<close>.
\<close>

definition json_transit :: "notification \<Rightarrow> notification" where
  "json_transit n =
     n\<lparr>n_Subscription := (n_Subscription n)\<lparr>sub_Enabled := False, DispatcherID := 0\<rparr>\<rparr>"

subsection \<open>Subscriptions\<close>

datatype expr_result = ExprError | ExprBool bool | ExprOther

type_synonym 'env program = "'env \<Rightarrow> expr_result"

text \<open>A compiled regular expression gives the full match and the groups, or no match.\<close>

type_synonym regex_program = "string \<Rightarrow> string list"

record expr_lib =
  compile_container :: "string \<Rightarrow> notification_container program option"
  compile_log :: "string \<Rightarrow> notification_log program option"
  compile_metric :: "string \<Rightarrow> notification_stat program option"
  compile_event :: "string \<Rightarrow> notification_event program option"
  compile_regex :: "string \<Rightarrow> regex_program option"

record unique_state =
  us_Count :: int
  us_WindowStart :: gotime
  us_Sent :: bool

text \<open>
  A running \<open>time.AfterFunc\<close> timer: when it fires and what its function captured.
\<close>

record watchdog_timer =
  wt_due :: gotime
  wt_active :: bool
  wt_dispatcher :: nat
  wt_notification :: notification

record restart_timer =
  rt_due :: gotime
  rt_container :: notification_container
  rt_event :: notification_event

record subscription = subscription_config +
  LogProgram :: "notification_log program option"
  ContainerProgram :: "notification_container program option"
  MetricProgram :: "notification_stat program option"
  EventProgram :: "notification_event program option"
  WatchdogProgram :: "notification_log program option"
  WatchdogEventProgram :: "notification_event program option"
  UniqueRegex :: "regex_program option"
  TriggerCount :: int
  LastTriggeredAt :: "gotime option"
  TriggeredContainerIDs :: "string set option"
  MetricCooldowns :: "(string \<rightharpoonup> gotime) option"
  EventCooldowns :: "(string \<rightharpoonup> gotime) option"
  LogCooldowns :: "(string \<rightharpoonup> gotime) option"
  MetricSampleBuffers :: "(string \<rightharpoonup> bool ring_buffer) option"
  BurstTrackers :: "(string \<rightharpoonup> gotime list) option"
  UniqueTrackers :: "(string \<rightharpoonup> unique_state) option"
  WatchdogTimers :: "(string \<rightharpoonup> watchdog_timer) option"
  WatchdogCooldowns :: "(string \<rightharpoonup> gotime) option"
  RestartLoopTimers :: "(string \<rightharpoonup> restart_timer) option"
  RestartLoopCooldowns :: "(string \<rightharpoonup> gotime) option"
  RestartLoopFirstSeenAt :: "(string \<rightharpoonup> gotime) option"
  RestartLoopRestartStreaks :: "(string \<rightharpoonup> gotime list) option"

text \<open>A \<open>Subscription\<close> literal: the configuration, no programs, nil maps, zero counters.\<close>

definition new_subscription :: "subscription_config \<Rightarrow> subscription" where
  "new_subscription cfg = subscription_config.extend cfg
     \<lparr>LogProgram = None, ContainerProgram = None, MetricProgram = None, EventProgram = None,
      WatchdogProgram = None, WatchdogEventProgram = None, UniqueRegex = None, TriggerCount = 0,
      LastTriggeredAt = None, TriggeredContainerIDs = None, MetricCooldowns = None,
      EventCooldowns = None, LogCooldowns = None, MetricSampleBuffers = None, BurstTrackers = None,
      UniqueTrackers = None, WatchdogTimers = None, WatchdogCooldowns = None,
      RestartLoopTimers = None, RestartLoopCooldowns = None, RestartLoopFirstSeenAt = None,
      RestartLoopRestartStreaks = None\<rparr>"

end
