(* ===== verification/Subscription.thy ===== *)
theory Subscription
  imports NotifTypes
begin

text \<open>
  The operations of \<open>internal/notification/types.go\<close>: conversions, delivery days, compilation and
  matching of expressions, cooldowns, sample windows, burst detection, watchdog and restart-loop
  timers.  Each operation reads the clock once, as \<open>now\<close>.  A method on a nil map panics.
\<close>

subsection \<open>Conversions\<close>

definition isDozzleContainer :: "container \<Rightarrow> bool" where
  "isDozzleContainer c = str_contains ''amir20/dozzle'' (c_Image c)"

definition mount_to_notification :: "mount_stat \<Rightarrow> notification_mount" where
  "mount_to_notification ms =
     (let used = (if ms_Used ms = 0 \<and> ms_Free ms \<le> ms_Total ms then ms_Total ms - ms_Free ms
                  else ms_Used ms)
      in \<lparr>nm_Destination = ms_Destination ms, nm_TotalBytes = ms_Total ms, nm_FreeBytes = ms_Free ms,
          nm_UsedBytes = used,
          nm_UsedPercent = real (unat used) / real (unat (ms_Total ms)) * 100,
          nm_AvailableBytes = ms_Free ms\<rparr>)"

text \<open>The keys \<open>ks\<close> are the order in which the loop visits \<open>MountStats\<close>.\<close>

definition FromContainerMounts :: "string list \<Rightarrow> container \<Rightarrow> notification_mount list" where
  "FromContainerMounts ks c =
     map mount_to_notification
       (filter (\<lambda>ms. \<not> (\<not> ms_Available ms \<or> ms_Total ms = 0)) (List.map_filter (c_MountStats c) ks))"

definition FromContainerModel :: "container \<Rightarrow> host \<Rightarrow> notification_container" where
  "FromContainerModel c h =
     \<lparr>nc_ID = c_ID c, nc_Name = c_Name c, nc_Image = c_Image c, nc_State = c_State c,
      nc_Health = c_Health c, nc_HostID = h_ID h, nc_HostName = h_Name h, nc_HostGroup = h_Group h,
      nc_Labels = c_Labels c\<rparr>"

text \<open>\<open>strip\<close> is the regular-expression replacement of \<open>StripANSI\<close>.\<close>

definition extractMessage :: "(string \<Rightarrow> string) \<Rightarrow> log_event \<Rightarrow> notif_message" where
  "extractMessage strip l =
     (case le_Message l of
        MString v \<Rightarrow> NText (strip v)
      | MFragments fs \<Rightarrow> NText (str_join [CHR 0x0A] (map strip fs))
      | MObject kvs \<Rightarrow> NMap (fold (\<lambda>(k, v) m. m(k \<mapsto> v)) kvs Map.empty)
      | MFields kvs \<Rightarrow> NMap (fold (\<lambda>(k, v) m. m(k \<mapsto> JStr v)) kvs Map.empty)
      | MJson (JObj kvs) \<Rightarrow> NMap (fold (\<lambda>(k, v) m. m(k \<mapsto> v)) kvs Map.empty)
      | MJson j \<Rightarrow> NJson j)"

definition log_type_text :: "log_type \<Rightarrow> string" where
  "log_type_text t =
     (case t of LogTypeSingle \<Rightarrow> ''single'' | LogTypeGroup \<Rightarrow> ''group'' | LogTypeComplex \<Rightarrow> ''complex'')"

definition FromLogEvent :: "(string \<Rightarrow> string) \<Rightarrow> log_event \<Rightarrow> notification_log" where
  "FromLogEvent strip l =
     \<lparr>nl_ID = le_Id l, nl_Message = extractMessage strip l, nl_Timestamp = le_Timestamp l,
      nl_Level = le_Level l, nl_Stream = le_Stream l, nl_Type = log_type_text (le_Type l)\<rparr>"

subsection \<open>Delivery days\<close>

definition validDeliveryDays :: "string \<rightharpoonup> int" where
  "validDeliveryDays = [''sun'' \<mapsto> 0, ''mon'' \<mapsto> 1, ''tue'' \<mapsto> 2, ''wed'' \<mapsto> 3, ''thu'' \<mapsto> 4,
                        ''fri'' \<mapsto> 5, ''sat'' \<mapsto> 6]"

fun normalize_loop :: "string list \<Rightarrow> string list \<Rightarrow> string list" where
  "normalize_loop [] normalized = normalized"
| "normalize_loop (day # days) normalized =
     (let key = ToLower (TrimSpace day)
      in if validDeliveryDays key = None then normalize_loop days normalized
         else if key \<in> set normalized then normalize_loop days normalized
         else normalize_loop days (normalized @ [key]))"

definition normalizeDeliveryDays :: "string list \<Rightarrow> string list" where
  "normalizeDeliveryDays days = (if days = [] then [] else normalize_loop days [])"

definition NormalizeDeliverySchedule :: "subscription \<Rightarrow> subscription" where
  "NormalizeDeliverySchedule s = s\<lparr>DeliveryDays := normalizeDeliveryDays (DeliveryDays s)\<rparr>"

definition IsPaused :: "'a subscription_config_scheme \<Rightarrow> gotime \<Rightarrow> bool" where
  "IsPaused s now =
     (if \<not> sub_Enabled s then True
      else case PausedUntil s of None \<Rightarrow> False | Some t \<Rightarrow> now < t)"

text \<open>An unknown day reads the zero value of the map, which is Sunday.\<close>

definition IsDeliveryDay :: "'a subscription_config_scheme \<Rightarrow> gotime \<Rightarrow> location \<Rightarrow> bool" where
  "IsDeliveryDay s now loc =
     (if DeliveryDays s = [] then True
      else list_ex (\<lambda>day. (case validDeliveryDays day of None \<Rightarrow> 0 | Some d \<Rightarrow> d) = Weekday loc now)
             (DeliveryDays s))"

subsection \<open>Expressions\<close>

datatype compile_error =
    CompileContainer | CompileLog | CompileMetric | CompileEvent | CompileWatchdog | CompileRegex

text \<open>The watchdog branch of \<open>CompileExpressions\<close>; a failed compilation leaves the old program.\<close>

definition compile_watchdog :: "expr_lib \<Rightarrow> subscription \<Rightarrow> (compile_error option) \<times> subscription" where
  "compile_watchdog lib s =
     (let s1 = (if LogExpression s \<noteq> [] \<or> EventExpression s = []
                then (case compile_log lib (WatchdogPattern s) of
                        Some p \<Rightarrow> s\<lparr>WatchdogProgram := Some p\<rparr> | None \<Rightarrow> s)
                else s);
          s2 = (if EventExpression s \<noteq> []
                then (case compile_event lib (WatchdogPattern s) of
                        Some p \<Rightarrow> s1\<lparr>WatchdogEventProgram := Some p\<rparr> | None \<Rightarrow> s1)
                else s1)
      in if LogExpression s \<noteq> [] \<and> WatchdogProgram s2 = None then (Some CompileWatchdog, s2)
         else if EventExpression s \<noteq> [] \<and> WatchdogEventProgram s2 = None then (Some CompileWatchdog, s2)
         else if LogExpression s = [] \<and> EventExpression s = [] \<and> WatchdogProgram s2 = None
                 \<and> WatchdogEventProgram s2 = None then (Some CompileWatchdog, s2)
         else (None, s2))"

text \<open>Each block returns the error, if any, and the subscription with what was compiled so far.\<close>

definition and_then ::
    "(compile_error option \<times> subscription) \<Rightarrow> (subscription \<Rightarrow> compile_error option \<times> subscription)
       \<Rightarrow> compile_error option \<times> subscription" where
  "and_then r f = (case r of (Some e, s) \<Rightarrow> (Some e, s) | (None, s) \<Rightarrow> f s)"

definition compile_container_block :: "expr_lib \<Rightarrow> subscription \<Rightarrow> compile_error option \<times> subscription" where
  "compile_container_block lib s =
     (if ContainerExpression s = [] then (None, s)
      else case compile_container lib (ContainerExpression s) of
             None \<Rightarrow> (Some CompileContainer, s)
           | Some p \<Rightarrow> (None, s\<lparr>ContainerProgram := Some p\<rparr>))"

definition compile_log_block :: "expr_lib \<Rightarrow> subscription \<Rightarrow> compile_error option \<times> subscription" where
  "compile_log_block lib s =
     (if LogExpression s = [] then (None, s)
      else case compile_log lib (LogExpression s) of
             None \<Rightarrow> (Some CompileLog, s)
           | Some p \<Rightarrow> (None, s\<lparr>LogProgram := Some p\<rparr>))"

definition compile_metric_block :: "expr_lib \<Rightarrow> subscription \<Rightarrow> compile_error option \<times> subscription" where
  "compile_metric_block lib s =
     (if MetricExpression s = [] then (None, s)
      else case compile_metric lib (MetricExpression s) of
             None \<Rightarrow> (Some CompileMetric, s)
           | Some p \<Rightarrow> (None, s\<lparr>MetricProgram := Some p\<rparr>))"

definition compile_event_block :: "expr_lib \<Rightarrow> subscription \<Rightarrow> compile_error option \<times> subscription" where
  "compile_event_block lib s =
     (if EventExpression s = [] then (None, s)
      else case compile_event lib (EventExpression s) of
             None \<Rightarrow> (Some CompileEvent, s)
           | Some p \<Rightarrow> (None, s\<lparr>EventProgram := Some p\<rparr>))"

definition compile_watchdog_block :: "expr_lib \<Rightarrow> subscription \<Rightarrow> compile_error option \<times> subscription" where
  "compile_watchdog_block lib s =
     (if WatchdogPattern s = [] then (None, s) else compile_watchdog lib s)"

definition compile_regex_block :: "expr_lib \<Rightarrow> subscription \<Rightarrow> compile_error option \<times> subscription" where
  "compile_regex_block lib s =
     (if UniqueKeyRegex s = [] then (None, s)
      else case compile_regex lib (UniqueKeyRegex s) of
             None \<Rightarrow> (Some CompileRegex, s)
           | Some p \<Rightarrow> (None, s\<lparr>UniqueRegex := Some p\<rparr>))"

definition CompileExpressions :: "expr_lib \<Rightarrow> subscription \<Rightarrow> compile_error option \<times> subscription" where
  "CompileExpressions lib s =
     and_then (and_then (and_then (and_then (and_then
       (compile_container_block lib s)
       (compile_log_block lib)) (compile_metric_block lib)) (compile_event_block lib))
       (compile_watchdog_block lib)) (compile_regex_block lib)"

definition run_bool :: "'env program option \<Rightarrow> 'env \<Rightarrow> bool" where
  "run_bool p env =
     (case p of None \<Rightarrow> False
      | Some f \<Rightarrow> (case f env of ExprError \<Rightarrow> False | ExprBool b \<Rightarrow> b | ExprOther \<Rightarrow> False))"

definition MatchesContainer :: "subscription \<Rightarrow> notification_container \<Rightarrow> bool" where
  "MatchesContainer s c = run_bool (ContainerProgram s) c"

definition MatchesLog :: "subscription \<Rightarrow> notification_log \<Rightarrow> bool" where
  "MatchesLog s l = run_bool (LogProgram s) l"

definition MatchesMetric :: "subscription \<Rightarrow> notification_stat \<Rightarrow> bool" where
  "MatchesMetric s st = run_bool (MetricProgram s) st"

definition MatchesEvent :: "subscription \<Rightarrow> notification_event \<Rightarrow> bool" where
  "MatchesEvent s e = run_bool (EventProgram s) e"

definition MatchesWatchdog :: "subscription \<Rightarrow> notification_log \<Rightarrow> bool" where
  "MatchesWatchdog s l = run_bool (WatchdogProgram s) l"

definition MatchesWatchdogEvent :: "subscription \<Rightarrow> notification_event \<Rightarrow> bool" where
  "MatchesWatchdogEvent s e = run_bool (WatchdogEventProgram s) e"

definition IsLogAlert :: "subscription \<Rightarrow> bool" where
  "IsLogAlert s \<longleftrightarrow> LogExpression s \<noteq> [] \<and> LogProgram s \<noteq> None"

definition IsMetricAlert :: "subscription \<Rightarrow> bool" where
  "IsMetricAlert s \<longleftrightarrow> MetricExpression s \<noteq> [] \<and> MetricProgram s \<noteq> None"

definition IsEventAlert :: "subscription \<Rightarrow> bool" where
  "IsEventAlert s \<longleftrightarrow> EventExpression s \<noteq> [] \<and> EventProgram s \<noteq> None"

subsection \<open>Triggered containers\<close>

definition TriggeredContainersCount :: "subscription \<Rightarrow> nat" where
  "TriggeredContainersCount s = (case TriggeredContainerIDs s of None \<Rightarrow> 0 | Some ids \<Rightarrow> card ids)"

definition AddTriggeredContainer :: "string \<Rightarrow> subscription \<Rightarrow> subscription" where
  "AddTriggeredContainer i s =
     s\<lparr>TriggeredContainerIDs :=
         Some (insert i (case TriggeredContainerIDs s of None \<Rightarrow> {} | Some ids \<Rightarrow> ids))\<rparr>"

subsection \<open>Cooldowns\<close>

definition maxCooldownSeconds :: int where "maxCooldownSeconds = 48 * 60 * 60"

definition clampCooldownSeconds :: "int \<Rightarrow> int" where
  "clampCooldownSeconds seconds =
     (if seconds \<le> 0 then 0 else if seconds > maxCooldownSeconds then maxCooldownSeconds else seconds)"

definition GetCooldownSeconds :: "'a subscription_config_scheme \<Rightarrow> int" where
  "GetCooldownSeconds s = clampCooldownSeconds (Cooldown s)"

definition cooling :: "(string \<rightharpoonup> gotime) \<Rightarrow> string \<Rightarrow> int \<Rightarrow> gotime \<Rightarrow> bool" where
  "cooling m c seconds now = (case m c of None \<Rightarrow> False | Some t \<Rightarrow> now < t + seconds * Second)"

definition IsEventCooldownActive :: "subscription \<Rightarrow> string \<Rightarrow> gotime \<Rightarrow> go_panic + bool" where
  "IsEventCooldownActive s c now =
     (if Cooldown s = 0 then Inr False
      else case EventCooldowns s of
             None \<Rightarrow> Inl NilDereference
           | Some m \<Rightarrow> Inr (cooling m c (GetCooldownSeconds s) now))"

definition SetEventCooldown :: "string \<Rightarrow> gotime \<Rightarrow> subscription \<Rightarrow> go_panic + subscription" where
  "SetEventCooldown c now s =
     (case EventCooldowns s of
        None \<Rightarrow> Inl NilDereference
      | Some m \<Rightarrow> Inr (s\<lparr>EventCooldowns := Some (m(c \<mapsto> now))\<rparr>))"

definition IsMetricCooldownActive :: "subscription \<Rightarrow> string \<Rightarrow> gotime \<Rightarrow> go_panic + bool" where
  "IsMetricCooldownActive s c now =
     (if Cooldown s = 0 then Inr False
      else case MetricCooldowns s of
             None \<Rightarrow> Inl NilDereference
           | Some m \<Rightarrow> Inr (cooling m c (GetCooldownSeconds s) now))"

definition SetMetricCooldown :: "string \<Rightarrow> gotime \<Rightarrow> subscription \<Rightarrow> go_panic + subscription" where
  "SetMetricCooldown c now s =
     (case MetricCooldowns s of
        None \<Rightarrow> Inl NilDereference
      | Some m \<Rightarrow> Inr (s\<lparr>MetricCooldowns := Some (m(c \<mapsto> now))\<rparr>))"

definition IsLogCooldownActive :: "subscription \<Rightarrow> string \<Rightarrow> gotime \<Rightarrow> bool" where
  "IsLogCooldownActive s c now =
     (if Cooldown s = 0 then False
      else case LogCooldowns s of None \<Rightarrow> False | Some m \<Rightarrow> cooling m c (GetCooldownSeconds s) now)"

definition SetLogCooldown :: "string \<Rightarrow> gotime \<Rightarrow> subscription \<Rightarrow> subscription" where
  "SetLogCooldown c now s =
     (case LogCooldowns s of None \<Rightarrow> s | Some m \<Rightarrow> s\<lparr>LogCooldowns := Some (m(c \<mapsto> now))\<rparr>)"

definition IsWatchdogCooldownActive :: "subscription \<Rightarrow> string \<Rightarrow> gotime \<Rightarrow> bool" where
  "IsWatchdogCooldownActive s c now =
     (if WatchdogCooldown s = 0 then False
      else case WatchdogCooldowns s of
             None \<Rightarrow> False
           | Some m \<Rightarrow> cooling m c (clampCooldownSeconds (WatchdogCooldown s)) now)"

definition SetWatchdogCooldown :: "string \<Rightarrow> gotime \<Rightarrow> subscription \<Rightarrow> subscription" where
  "SetWatchdogCooldown c now s =
     (case WatchdogCooldowns s of None \<Rightarrow> s | Some m \<Rightarrow> s\<lparr>WatchdogCooldowns := Some (m(c \<mapsto> now))\<rparr>)"

definition IsRestartLoopCooldownActive :: "subscription \<Rightarrow> string \<Rightarrow> gotime \<Rightarrow> bool" where
  "IsRestartLoopCooldownActive s c now =
     (if RestartLoopCooldown s = 0 then False
      else case RestartLoopCooldowns s of
             None \<Rightarrow> False
           | Some m \<Rightarrow> cooling m c (clampCooldownSeconds (RestartLoopCooldown s)) now)"

definition SetRestartLoopCooldown :: "string \<Rightarrow> gotime \<Rightarrow> subscription \<Rightarrow> subscription" where
  "SetRestartLoopCooldown c now s =
     (case RestartLoopCooldowns s of
        None \<Rightarrow> s | Some m \<Rightarrow> s\<lparr>RestartLoopCooldowns := Some (m(c \<mapsto> now))\<rparr>)"

subsection \<open>Metric sample windows\<close>

definition GetSampleWindowSeconds :: "'a subscription_config_scheme \<Rightarrow> int" where
  "GetSampleWindowSeconds s =
     (if SampleWindow s \<le> 0 then 15
      else if SampleWindow s < 1 then 1
      else if SampleWindow s > 300 then 300
      else SampleWindow s)"

text \<open>
  \<open>float64(t)/float64(n) >= 0.8\<close>: both counts are at most 300, so the quotient is the double nearest
  to \<open>t/n\<close> and the comparison with the double nearest to \<open>0.8\<close> agrees with \<open>5 t \<ge> 4 n\<close>.
\<close>

definition at_least_80_percent :: "nat \<Rightarrow> nat \<Rightarrow> bool" where
  "at_least_80_percent t n \<longleftrightarrow> 4 * n \<le> 5 * t"

definition RecordMetricSample ::
    "string \<Rightarrow> bool \<Rightarrow> subscription \<Rightarrow> go_panic + bool \<times> subscription" where
  "RecordMetricSample c matched s =
     (let windowSize = GetSampleWindowSeconds s
      in if windowSize \<le> 1 then Inr (matched, s)
         else case MetricSampleBuffers s of
           None \<Rightarrow> Inl NilDereference
         | Some bufs \<Rightarrow>
             (case (case bufs c of Some b \<Rightarrow> Inr b | None \<Rightarrow> NewRingBuffer windowSize) of
                Inl p \<Rightarrow> Inl p
              | Inr buf \<Rightarrow>
                  (case Push buf matched of
                     Inl p \<Rightarrow> Inl p
                   | Inr buf' \<Rightarrow>
                       (let s' = s\<lparr>MetricSampleBuffers := Some (bufs(c \<mapsto> buf'))\<rparr>
                        in if int (Len buf') < windowSize then Inr (False, s')
                           else case Data buf' of
                             Inl p \<Rightarrow> Inl p
                           | Inr vs \<Rightarrow>
                               Inr (at_least_80_percent (length (filter id vs)) (Len buf'), s')))))"

subsection \<open>Unique keys and bursts\<close>

definition ExtractUniqueKey :: "subscription \<Rightarrow> string \<Rightarrow> string \<times> bool" where
  "ExtractUniqueKey s message =
     (if UniqueWindow s \<le> 0 then ([], False)
      else case UniqueRegex s of
             None \<Rightarrow> ([], False)
           | Some re \<Rightarrow>
               (case re message of
                  [] \<Rightarrow> ([], False)
                | [m0] \<Rightarrow> (TrimSpace m0, TrimSpace m0 \<noteq> [])
                | m0 # m1 # _ \<Rightarrow> (TrimSpace m1, TrimSpace m1 \<noteq> [])))"

definition DetectBurst ::
    "string \<Rightarrow> int \<Rightarrow> gotime \<Rightarrow> subscription \<Rightarrow> (int \<times> bool \<times> int) \<times> subscription" where
  "DetectBurst c basePriority now s =
     (if BurstCount s \<le> 0 \<or> BurstWindow s \<le> 0 then ((basePriority, False, 0), s)
      else case BurstTrackers s of
        None \<Rightarrow> ((basePriority, False, 0), s)
      | Some m \<Rightarrow>
          (let window = time_Seconds (BurstWindow s);
               cutoff = now + wrap64 (- window);
               timestamps = (case m c of None \<Rightarrow> [] | Some ts \<Rightarrow> ts);
               pruned = filter (\<lambda>t. t > cutoff) timestamps @ [now];
               s' = s\<lparr>BurstTrackers := Some (m(c \<mapsto> pruned))\<rparr>;
               n = int (length pruned)
           in if n \<ge> BurstCount s \<and> BurstPriority s > 0 then ((BurstPriority s, True, n), s')
              else ((basePriority, False, n), s')))"

subsection \<open>Watchdog and restart-loop timers\<close>

text \<open>
  A timer is replaced by one that is due \<open>window\<close> seconds from now; its function sends the
  notification \<open>n\<close> through the dispatcher \<open>d\<close>.
\<close>

definition ResetWatchdogTimer ::
    "string \<Rightarrow> nat \<Rightarrow> notification \<Rightarrow> int \<Rightarrow> gotime \<Rightarrow> subscription \<Rightarrow> go_panic + subscription" where
  "ResetWatchdogTimer c d n window now s =
     (case WatchdogTimers s of
        None \<Rightarrow> Inl NilDereference
      | Some m \<Rightarrow> Inr (s\<lparr>WatchdogTimers :=
            Some (m(c \<mapsto> \<lparr>wt_due = now + time_Seconds window, wt_active = True, wt_dispatcher = d,
                          wt_notification = n\<rparr>))\<rparr>))"

definition CancelWatchdogTimer :: "string \<Rightarrow> subscription \<Rightarrow> go_panic + bool \<times> subscription" where
  "CancelWatchdogTimer c s =
     (case WatchdogTimers s of
        None \<Rightarrow> Inl NilDereference
      | Some m \<Rightarrow> Inr (m c \<noteq> None, s\<lparr>WatchdogTimers := Some (m(c := None))\<rparr>))"

text \<open>Collecting the keys and cancelling each leaves no timer.\<close>

definition StopRuntime :: "subscription \<Rightarrow> subscription" where
  "StopRuntime s =
     (case WatchdogTimers s of None \<Rightarrow> s | Some _ \<Rightarrow> s\<lparr>WatchdogTimers := Some Map.empty\<rparr>)"

definition CancelRestartLoopTimer :: "string \<Rightarrow> subscription \<Rightarrow> bool \<times> subscription" where
  "CancelRestartLoopTimer c s =
     (case RestartLoopTimers s of
        None \<Rightarrow> (False, s)
      | Some m \<Rightarrow>
          (let s' = s\<lparr>RestartLoopTimers := Some (m(c := None)),
                      RestartLoopFirstSeenAt := map_option (\<lambda>f. f(c := None)) (RestartLoopFirstSeenAt s)\<rparr>
           in (m c \<noteq> None, s')))"

subsection \<open>Delivery days\<close>

lemma normalize_loop_props:
  "set (normalize_loop days acc)
     = set acc \<union> {k \<in> (\<lambda>d. ToLower (TrimSpace d)) ` set days. validDeliveryDays k \<noteq> None}
   \<and> (distinct acc \<longrightarrow> distinct (normalize_loop days acc))"
  by (induction days acc rule: normalize_loop.induct) (auto simp: Let_def)

lemma ToLower_valid: "validDeliveryDays k \<noteq> None \<Longrightarrow> ToLower (TrimSpace k) = k"
proof -
  assume "validDeliveryDays k \<noteq> None"
  then have "k \<in> {''sun'', ''mon'', ''tue'', ''wed'', ''thu'', ''fri'', ''sat''}"
    by (auto simp: validDeliveryDays_def split: if_splits)
  then show ?thesis by (auto simp: TrimSpace_def ToLower_def is_space_def char_to_lower_def)
qed

lemma normalizeDeliveryDays_set:
  "set (normalizeDeliveryDays days)
     = {k. validDeliveryDays k \<noteq> None \<and> (\<exists>d\<in>set days. ToLower (TrimSpace d) = k)}"
  using normalize_loop_props [of days "[]"] by (auto simp: normalizeDeliveryDays_def)

lemma normalizeDeliveryDays_idem: "normalizeDeliveryDays (normalizeDeliveryDays days) = normalizeDeliveryDays days"
proof -
  have "normalize_loop ds acc = acc @ ds"
    if "distinct (acc @ ds)" "\<forall>d\<in>set ds. validDeliveryDays d \<noteq> None" for ds acc
    using that by (induction ds arbitrary: acc) (auto simp: ToLower_valid Let_def)
  from this [of "[]" "normalizeDeliveryDays days"] show ?thesis
    using normalizeDeliveryDays_set [of days] normalize_loop_props [of days "[]"]
    by (auto simp: normalizeDeliveryDays_def)
qed

lemma Weekday_range: "0 \<le> Weekday loc t" "Weekday loc t < 7"
  by (simp_all add: Weekday_def)

text \<open>After normalisation a schedule holds each weekday at most once, and an alert is delivered on a
day exactly when that day is named in the schedule as the user wrote it, ignoring case and
surrounding blanks; a schedule without any valid day means every day.  Normalising twice changes
nothing.\<close>

theorem delivery_days_normalised:
  fixes s :: subscription
  shows "distinct (DeliveryDays (NormalizeDeliverySchedule s))
    \<and> (IsDeliveryDay (NormalizeDeliverySchedule s) now loc \<longleftrightarrow>
         (\<forall>d\<in>set (DeliveryDays s). validDeliveryDays (ToLower (TrimSpace d)) = None)
         \<or> (\<exists>d\<in>set (DeliveryDays s). validDeliveryDays (ToLower (TrimSpace d)) = Some (Weekday loc now)))
    \<and> NormalizeDeliverySchedule (NormalizeDeliverySchedule s) = NormalizeDeliverySchedule s"
proof (intro conjI)
  let ?n = "normalizeDeliveryDays (DeliveryDays s)"
  show "distinct (DeliveryDays (NormalizeDeliverySchedule s))"
    using normalize_loop_props [of "DeliveryDays s" "[]"]
    by (simp add: NormalizeDeliverySchedule_def normalizeDeliveryDays_def)
  have set: "k \<in> set ?n \<longleftrightarrow> validDeliveryDays k \<noteq> None \<and> (\<exists>d\<in>set (DeliveryDays s). ToLower (TrimSpace d) = k)"
    for k by (simp add: normalizeDeliveryDays_set)
  have "?n = [] \<longleftrightarrow> (\<forall>d\<in>set (DeliveryDays s). validDeliveryDays (ToLower (TrimSpace d)) = None)"
  proof -
    have "?n = [] \<longleftrightarrow> set ?n = {}" by simp
    also have "\<dots> \<longleftrightarrow> (\<forall>d\<in>set (DeliveryDays s). validDeliveryDays (ToLower (TrimSpace d)) = None)"
      unfolding normalizeDeliveryDays_set by (auto simp del: not_None_eq)
    finally show ?thesis .
  qed
  moreover have "(\<exists>day\<in>set ?n. (case validDeliveryDays day of None \<Rightarrow> 0 | Some d \<Rightarrow> d) = Weekday loc now)
      \<longleftrightarrow> (\<exists>d\<in>set (DeliveryDays s). validDeliveryDays (ToLower (TrimSpace d)) = Some (Weekday loc now))"
    (is "?L \<longleftrightarrow> _")
  proof -
    have "(case validDeliveryDays k of None \<Rightarrow> 0 | Some d \<Rightarrow> d) = Weekday loc now
        \<longleftrightarrow> validDeliveryDays k = Some (Weekday loc now)" if "k \<in> set ?n" for k
      using that by (cases "validDeliveryDays k") (simp_all add: set)
    then have "?L \<longleftrightarrow> (\<exists>k\<in>set ?n. validDeliveryDays k = Some (Weekday loc now))" by blast
    then show ?thesis unfolding normalizeDeliveryDays_set by auto
  qed
  ultimately show "IsDeliveryDay (NormalizeDeliverySchedule s) now loc \<longleftrightarrow>
         (\<forall>d\<in>set (DeliveryDays s). validDeliveryDays (ToLower (TrimSpace d)) = None)
         \<or> (\<exists>d\<in>set (DeliveryDays s). validDeliveryDays (ToLower (TrimSpace d)) = Some (Weekday loc now))"
    by (auto simp: IsDeliveryDay_def NormalizeDeliverySchedule_def list_ex_iff)
  show "NormalizeDeliverySchedule (NormalizeDeliverySchedule s) = NormalizeDeliverySchedule s"
    by (simp add: NormalizeDeliverySchedule_def normalizeDeliveryDays_idem)
qed

definition sample_days :: subscription where
  "sample_days = (new_subscription zero_SubscriptionConfig)\<lparr>DeliveryDays := ['' Mon'', ''never'', ''MON'']\<rparr>"

text \<open>1970-01-05 was a Monday.\<close>

theorem delivery_days_normalised_witness:
  "distinct (DeliveryDays (NormalizeDeliverySchedule sample_days))
    \<and> IsDeliveryDay (NormalizeDeliverySchedule sample_days) (time_Unix (4 * 86400))
        \<lparr>loc_name = ''UTC'', loc_offset = (\<lambda>_. 0)\<rparr>"
proof -
  have w: "Weekday \<lparr>loc_name = ''UTC'', loc_offset = (\<lambda>_. 0)\<rparr> (time_Unix (4 * 86400)) = 1"
    by (simp add: Weekday_def local_day_def local_secs_def)
  have d: "'' Mon'' \<in> set (DeliveryDays sample_days)"
    by (simp add: sample_days_def)
  have "ToLower (TrimSpace '' Mon'') = ''mon''" by code_simp
  then have "validDeliveryDays (ToLower (TrimSpace '' Mon'')) = Some 1"
    by (simp add: validDeliveryDays_def)
  then show ?thesis
    using delivery_days_normalised [of sample_days "time_Unix (4 * 86400)"
        "\<lparr>loc_name = ''UTC'', loc_offset = (\<lambda>_. 0)\<rparr>"] w d by metis
qed

subsection \<open>Cooldowns\<close>

text \<open>
  The contract shared by the five cooldowns: after a trigger is recorded for a container, the
  cooldown of that container is active until its period has passed, and the other containers are
  not affected.
\<close>

locale cooldown =
  fixes active :: "'s \<Rightarrow> string \<Rightarrow> gotime \<Rightarrow> bool"
    and record_trigger :: "string \<Rightarrow> gotime \<Rightarrow> 's \<Rightarrow> 's"
    and period :: "'s \<Rightarrow> duration"
    and ready :: "'s \<Rightarrow> bool"
  assumes active_set: "ready s \<Longrightarrow> active (record_trigger c t s) c now \<longleftrightarrow> now < t + period s"
    and active_other: "ready s \<Longrightarrow> c' \<noteq> c \<Longrightarrow> active (record_trigger c t s) c' now \<longleftrightarrow> active s c' now"
    and ready_set: "ready s \<Longrightarrow> ready (record_trigger c t s) \<and> period (record_trigger c t s) = period s"
    and period_nonneg: "0 \<le> period s"
begin

text \<open>The guarded trigger: skip while the cooldown is active, else record the trigger and fire.\<close>

fun fires :: "'s \<Rightarrow> (string \<times> gotime) list \<Rightarrow> (string \<times> gotime) list" where
  "fires s [] = []"
| "fires s ((c, t) # hits) =
     (if active s c t then fires s hits else (c, t) # fires (record_trigger c t s) hits)"

lemma fires_after:
  assumes "ready s" and "\<And>now. active s c now \<longleftrightarrow> now < t0 + period s"
    and "(c, t) \<in> set (fires s hits)"
  shows "t0 + period s \<le> t"
  using assms
proof (induction s hits arbitrary: t0 rule: fires.induct)
  case (2 s c' t' hits)
  show ?case
  proof (cases "active s c' t'")
    case True
    then show ?thesis using "2.IH"(1) "2.prems" by simp
  next
    case False
    note r = ready_set [OF "2.prems"(1), of c' t']
    show ?thesis
    proof (cases "c' = c")
      case same: True
      have t': "t0 + period s \<le> t'" using False same "2.prems"(2) [of t'] by simp
      consider "t = t'" | "(c, t) \<in> set (fires (record_trigger c' t' s) hits)"
        using "2.prems"(3) False same by auto
      then show ?thesis
      proof cases
        case 2
        then have "t' + period s \<le> t"
          using "2.IH"(2) [of t'] False r same active_set [OF "2.prems"(1)] by simp
        then show ?thesis using t' period_nonneg [of s] by linarith
      qed (use t' in simp)
    next
      case False': False
      then show ?thesis
        using "2.IH"(2) [of t0] False r "2.prems" active_other [OF "2.prems"(1), of c c'] by auto
    qed
  qed
qed simp

lemma fires_spaced:
  assumes "ready s" and "fires s hits = xs @ (c, t) # ys @ (c, t') # zs"
  shows "t + period s \<le> t'"
  using assms
proof (induction s hits arbitrary: xs rule: fires.induct)
  case (2 s c' u hits)
  show ?case
  proof (cases "active s c' u")
    case True
    then show ?thesis using "2.IH"(1) "2.prems" by simp
  next
    case False
    note r = ready_set [OF "2.prems"(1), of c' u]
    show ?thesis
    proof (cases xs)
      case Nil
      then have "c' = c" "u = t" "(c, t') \<in> set (fires (record_trigger c' u s) hits)"
        using "2.prems"(2) False by auto
      then show ?thesis
        using fires_after [of "record_trigger c' u s" c t t' hits] r active_set [OF "2.prems"(1)] by simp
    next
      case (Cons x xs')
      then show ?thesis using "2.IH"(2) [of xs'] False r "2.prems"(2) by simp
    qed
  qed
qed simp

end

lemma clampCooldownSeconds_bounds:
  "0 \<le> clampCooldownSeconds n" "clampCooldownSeconds n \<le> 172800" "0 \<le> clampCooldownSeconds n * Second"
  by (simp_all add: clampCooldownSeconds_def maxCooldownSeconds_def Second_def)

definition log_period :: "subscription \<Rightarrow> duration" where
  "log_period s = GetCooldownSeconds s * Second"

definition log_ready :: "subscription \<Rightarrow> bool" where
  "log_ready s \<longleftrightarrow> Cooldown s \<noteq> 0 \<and> LogCooldowns s \<noteq> None"

interpretation log_cd: cooldown IsLogCooldownActive SetLogCooldown log_period log_ready
  by unfold_locales
    (auto simp: IsLogCooldownActive_def SetLogCooldown_def log_period_def log_ready_def cooling_def
      GetCooldownSeconds_def clampCooldownSeconds_bounds)

definition watchdog_period :: "subscription \<Rightarrow> duration" where
  "watchdog_period s = clampCooldownSeconds (WatchdogCooldown s) * Second"

definition watchdog_ready :: "subscription \<Rightarrow> bool" where
  "watchdog_ready s \<longleftrightarrow> WatchdogCooldown s \<noteq> 0 \<and> WatchdogCooldowns s \<noteq> None"

interpretation watchdog_cd: cooldown IsWatchdogCooldownActive SetWatchdogCooldown watchdog_period watchdog_ready
  by unfold_locales
    (auto simp: IsWatchdogCooldownActive_def SetWatchdogCooldown_def watchdog_period_def
      watchdog_ready_def cooling_def clampCooldownSeconds_bounds)

definition restart_period :: "subscription \<Rightarrow> duration" where
  "restart_period s = clampCooldownSeconds (RestartLoopCooldown s) * Second"

definition restart_ready :: "subscription \<Rightarrow> bool" where
  "restart_ready s \<longleftrightarrow> RestartLoopCooldown s \<noteq> 0 \<and> RestartLoopCooldowns s \<noteq> None"

interpretation restart_cd: cooldown IsRestartLoopCooldownActive SetRestartLoopCooldown restart_period restart_ready
  by unfold_locales
    (auto simp: IsRestartLoopCooldownActive_def SetRestartLoopCooldown_def restart_period_def
      restart_ready_def cooling_def clampCooldownSeconds_bounds)

text \<open>The event and metric cooldowns panic on a nil map; on a ready subscription they do not.\<close>

definition event_active :: "subscription \<Rightarrow> string \<Rightarrow> gotime \<Rightarrow> bool" where
  "event_active s c now \<longleftrightarrow> IsEventCooldownActive s c now = Inr True"

definition event_set :: "string \<Rightarrow> gotime \<Rightarrow> subscription \<Rightarrow> subscription" where
  "event_set c now s = (case SetEventCooldown c now s of Inl _ \<Rightarrow> s | Inr s' \<Rightarrow> s')"

definition event_ready :: "subscription \<Rightarrow> bool" where
  "event_ready s \<longleftrightarrow> Cooldown s \<noteq> 0 \<and> EventCooldowns s \<noteq> None"

interpretation event_cd: cooldown event_active event_set log_period event_ready
  by unfold_locales
    (auto simp: event_active_def event_set_def IsEventCooldownActive_def SetEventCooldown_def
      log_period_def event_ready_def cooling_def GetCooldownSeconds_def clampCooldownSeconds_bounds
      split: option.splits)

definition metric_active :: "subscription \<Rightarrow> string \<Rightarrow> gotime \<Rightarrow> bool" where
  "metric_active s c now \<longleftrightarrow> IsMetricCooldownActive s c now = Inr True"

definition metric_set :: "string \<Rightarrow> gotime \<Rightarrow> subscription \<Rightarrow> subscription" where
  "metric_set c now s = (case SetMetricCooldown c now s of Inl _ \<Rightarrow> s | Inr s' \<Rightarrow> s')"

definition metric_ready :: "subscription \<Rightarrow> bool" where
  "metric_ready s \<longleftrightarrow> Cooldown s \<noteq> 0 \<and> MetricCooldowns s \<noteq> None"

interpretation metric_cd: cooldown metric_active metric_set log_period metric_ready
  by unfold_locales
    (auto simp: metric_active_def metric_set_def IsMetricCooldownActive_def SetMetricCooldown_def
      log_period_def metric_ready_def cooling_def GetCooldownSeconds_def clampCooldownSeconds_bounds
      split: option.splits)

subsection \<open>Sample windows\<close>

fun record_samples ::
    "string \<Rightarrow> bool list \<Rightarrow> subscription \<Rightarrow> go_panic + bool list \<times> subscription" where
  "record_samples c [] s = Inr ([], s)"
| "record_samples c (b # bs) s =
     (case RecordMetricSample c b s of
        Inl p \<Rightarrow> Inl p
      | Inr (r, s') \<Rightarrow>
          (case record_samples c bs s' of Inl p \<Rightarrow> Inl p | Inr (rs, s'') \<Rightarrow> Inr (r # rs, s'')))"

text \<open>The intended rule: the window is full and at least four fifths of it matched.\<close>

definition window_fires :: "nat \<Rightarrow> bool list \<Rightarrow> bool" where
  "window_fires w history \<longleftrightarrow>
     w \<le> length history \<and> 4 * w \<le> 5 * length (filter id (last_n w history))"

definition sampled :: "string \<Rightarrow> int \<Rightarrow> bool list \<Rightarrow> subscription \<Rightarrow> bool" where
  "sampled c w history s \<longleftrightarrow> GetSampleWindowSeconds s = w
     \<and> (\<exists>bufs. MetricSampleBuffers s = Some bufs
         \<and> (case bufs c of
              None \<Rightarrow> history = []
            | Some buf \<Rightarrow> rb_wf buf \<and> rb_cap buf = nat w \<and> rb_contents buf = last_n (nat w) history))"

lemma GetSampleWindowSeconds_upd [simp]:
  "GetSampleWindowSeconds (s\<lparr>MetricSampleBuffers := m\<rparr>) = GetSampleWindowSeconds s"
  by (simp add: GetSampleWindowSeconds_def)

lemma RecordMetricSample_step:
  assumes "sampled c w history s" and "1 < w"
  shows "\<exists>s'. RecordMetricSample c b s = Inr (window_fires (nat w) (history @ [b]), s')
    \<and> sampled c w (history @ [b]) s'"
proof -
  obtain bufs where bufs: "MetricSampleBuffers s = Some bufs" and w: "GetSampleWindowSeconds s = w"
    using assms(1) by (auto simp: sampled_def)
  obtain buf where buf: "(case bufs c of Some b \<Rightarrow> Inr b | None \<Rightarrow> NewRingBuffer w) = Inr buf"
    "rb_wf buf" "rb_cap buf = nat w" "rb_contents buf = last_n (nat w) history"
  proof (cases "bufs c")
    case None
    then have "history = []" using assms(1) bufs by (auto simp: sampled_def)
    moreover have "NewRingBuffer w = Inr \<lparr>Size = w, rb_data = [], rb_start = 0\<rparr>"
      using assms(2) by (simp add: NewRingBuffer_def)
    ultimately show ?thesis
      using that [of "\<lparr>Size = w, rb_data = [], rb_start = 0\<rparr>"] None assms(2)
      by (simp add: rb_wf_def rb_contents_def rb_cap_def last_n_def)
  next
    case (Some buf)
    then show ?thesis using that [of buf] assms(1) bufs by (auto simp: sampled_def)
  qed
  have "0 < rb_cap buf" using buf(3) assms(2) by simp
  then obtain buf' where p: "Push buf b = Inr buf'" "rb_wf buf'" "rb_cap buf' = nat w"
    "rb_contents buf' = last_n (nat w) (last_n (nat w) history @ [b])"
    using ring.push_step [OF buf(2), of b] buf(3,4) by auto
  then have c': "rb_contents buf' = last_n (nat w) (history @ [b])" by (simp add: last_n_last_n_append)
  have len: "Len buf' = min (nat w) (length (history @ [b]))"
    using c' length_rb_contents [of buf'] by simp
  let ?s' = "s\<lparr>MetricSampleBuffers := Some (bufs(c \<mapsto> buf'))\<rparr>"
  have "sampled c w (history @ [b]) ?s'"
    using w p c' by (simp add: sampled_def GetSampleWindowSeconds_upd)
  moreover have "RecordMetricSample c b s = Inr (window_fires (nat w) (history @ [b]), ?s')"
    using w bufs buf(1) p(1) Data_contents [OF p(2)] c' len assms(2)
    by (auto simp: RecordMetricSample_def Let_def window_fires_def at_least_80_percent_def)
  ultimately show ?thesis by blast
qed

lemma record_samples_from:
  assumes "sampled c w history s" and "1 < w"
  shows "\<exists>s'. record_samples c bs s
    = Inr (map (\<lambda>i. window_fires (nat w) (history @ take (i + 1) bs)) [0..<length bs], s')"
  using assms
proof (induction bs arbitrary: history s)
  case (Cons b bs)
  obtain s1 where s1: "RecordMetricSample c b s = Inr (window_fires (nat w) (history @ [b]), s1)"
    "sampled c w (history @ [b]) s1"
    using RecordMetricSample_step [OF Cons.prems] by blast
  obtain s2 where "record_samples c bs s1 =
      Inr (map (\<lambda>i. window_fires (nat w) ((history @ [b]) @ take (i + 1) bs)) [0..<length bs], s2)"
    using Cons.IH [OF s1(2) Cons.prems(2)] by blast
  moreover have "map (\<lambda>i. window_fires (nat w) (history @ take (i + 1) (b # bs))) [0..<length (b # bs)]
      = window_fires (nat w) (history @ [b])
        # map (\<lambda>i. window_fires (nat w) ((history @ [b]) @ take (i + 1) bs)) [0..<length bs]"
    by (simp add: upt_conv_Cons map_Suc_upt [symmetric] comp_def del: upt_Suc)
  ultimately show ?case using s1(1) by simp
qed simp

text \<open>A metric alert with a sample window of more than one second fires exactly on those samples at
which the window is full and at least 80 per cent of its samples matched; recording samples never
panics.\<close>

theorem metric_window_exact:
  assumes "GetSampleWindowSeconds s = w" and "1 < w" and "MetricSampleBuffers s = Some bufs" and "bufs c = None"
  shows "\<exists>s'. record_samples c bs s
    = Inr (map (\<lambda>i. window_fires (nat w) (take (i + 1) bs)) [0..<length bs], s')"
  using record_samples_from [of c w "[]" s bs] assms by (simp add: sampled_def)

definition sample_metric :: subscription where
  "sample_metric = (new_subscription zero_SubscriptionConfig)
     \<lparr>SampleWindow := 5, MetricSampleBuffers := Some Map.empty\<rparr>"

theorem metric_window_exact_witness:
  "\<exists>s'. record_samples ''c'' [True, True, False, True, True, False] sample_metric
     = Inr ([False, False, False, False, True, False], s')"
  using metric_window_exact [of sample_metric 5 Map.empty "''c''" "[True, True, False, True, True, False]"]
  by (simp add: sample_metric_def new_subscription_def subscription_config.extend_def
      GetSampleWindowSeconds_def window_fires_def last_n_def upt_rec)

subsection \<open>Bursts\<close>

definition burst_config :: "subscription \<Rightarrow> bool" where
  "burst_config s \<longleftrightarrow> 0 < BurstCount s \<and> 0 < BurstWindow s \<and> BurstTrackers s \<noteq> None"

definition burst_history :: "string \<Rightarrow> subscription \<Rightarrow> gotime list" where
  "burst_history c s =
     (case BurstTrackers s of None \<Rightarrow> [] | Some m \<Rightarrow> (case m c of None \<Rightarrow> [] | Some ts \<Rightarrow> ts))"

definition detect_all :: "string \<Rightarrow> gotime list \<Rightarrow> subscription \<Rightarrow> subscription" where
  "detect_all c ts s = fold (\<lambda>t s. snd (DetectBurst c 0 t s)) ts s"

text \<open>The oldest instant that counts, from the code's 64-bit arithmetic.\<close>

definition burst_cutoff :: "subscription \<Rightarrow> gotime \<Rightarrow> gotime" where
  "burst_cutoff s now = now + wrap64 (- time_Seconds (BurstWindow s))"

lemma burst_cutoff_usual: "0 \<le> BurstWindow s \<Longrightarrow> BurstWindow s \<le> 9223372036 \<Longrightarrow> burst_cutoff s now = now - BurstWindow s * Second"
  by (simp add: burst_cutoff_def time_Seconds_id wrap64_uminus Second_def)

lemma DetectBurst_step:
  assumes "burst_config s"
  shows "burst_config (snd (DetectBurst c p now s))"
    "burst_history c (snd (DetectBurst c p now s)) = filter (\<lambda>t. burst_cutoff s now < t) (burst_history c s) @ [now]"
    "BurstWindow (snd (DetectBurst c p now s)) = BurstWindow s"
    "BurstCount (snd (DetectBurst c p now s)) = BurstCount s"
    "BurstPriority (snd (DetectBurst c p now s)) = BurstPriority s"
    "fst (DetectBurst c p now s) =
       (let n = int (length (filter (\<lambda>t. burst_cutoff s now < t) (burst_history c s))) + 1
        in if BurstCount s \<le> n \<and> 0 < BurstPriority s then (BurstPriority s, True, n) else (p, False, n))"
  using assms by (auto simp: burst_config_def burst_history_def DetectBurst_def burst_cutoff_def Let_def split: option.splits)

lemma filter_burst_history:
  assumes "h = (if ts = [] then [] else filter (\<lambda>t. burst_cutoff s (last ts) < t) (butlast ts) @ [last ts])" and "ts \<noteq> [] \<longrightarrow> last ts \<le> now"
  shows "filter (\<lambda>t. burst_cutoff s now < t) h = filter (\<lambda>t. burst_cutoff s now < t) ts"
proof (cases ts rule: rev_cases)
  case (snoc ys y)
  then have "burst_cutoff s y \<le> burst_cutoff s now" using assms(2) by (simp add: burst_cutoff_def)
  then have "(burst_cutoff s y < x \<and> burst_cutoff s now < x) = (burst_cutoff s now < x)" for x by auto
  then show ?thesis using snoc assms(1) by simp
qed (use assms(1) in simp)

lemma detect_all_history:
  assumes "burst_config s" and "burst_history c s = []" and "sorted ts"
  shows "burst_config (detect_all c ts s) \<and> BurstWindow (detect_all c ts s) = BurstWindow s
    \<and> BurstCount (detect_all c ts s) = BurstCount s \<and> BurstPriority (detect_all c ts s) = BurstPriority s
    \<and> burst_history c (detect_all c ts s)
       = (if ts = [] then [] else filter (\<lambda>t. burst_cutoff s (last ts) < t) (butlast ts) @ [last ts])"
  using assms
proof (induction ts rule: rev_induct)
  case Nil
  then show ?case by (simp add: detect_all_def)
next
  case (snoc t ts)
  let ?s = "detect_all c ts s"
  have IH: "burst_config ?s" "BurstWindow ?s = BurstWindow s" "BurstCount ?s = BurstCount s" "BurstPriority ?s = BurstPriority s"
    "burst_history c ?s = (if ts = [] then [] else filter (\<lambda>t. burst_cutoff s (last ts) < t) (butlast ts) @ [last ts])"
    using snoc by (auto simp: sorted_append)
  have "ts \<noteq> [] \<longrightarrow> last ts \<le> t" using snoc.prems(3) by (simp add: sorted_append)
  then have "filter (\<lambda>x. burst_cutoff s t < x) (burst_history c ?s) = filter (\<lambda>x. burst_cutoff s t < x) ts"
    by (rule filter_burst_history [OF IH(5)])
  moreover have "burst_cutoff ?s t = burst_cutoff s t" by (simp add: burst_cutoff_def IH(2))
  moreover have "detect_all c (ts @ [t]) s = snd (DetectBurst c 0 t ?s)" by (simp add: detect_all_def)
  ultimately show ?case using DetectBurst_step [OF IH(1), of c 0 t] IH by simp
qed

text \<open>C25. Burst escalation counts exactly the triggers of the container that lie inside the burst window:
after any sequence of triggers in time order, the next one reports the number of earlier triggers newer
than the window, itself added, and raises the priority exactly when that number reaches the
configured count and a burst priority is set.  The window is the configured number of seconds in nanoseconds, up to
292 years; a longer one is what 64-bit arithmetic makes of it.\<close>

theorem DetectBurst_counts_window:
  assumes "burst_config s" and "burst_history c s = []" and "sorted (ts @ [now])"
  shows "fst (DetectBurst c p now (detect_all c ts s)) =
    (let cutoff = (if BurstWindow s \<le> 9223372036 then now - BurstWindow s * Second else now + wrap64 (- wrap64 (BurstWindow s * Second)));
         n = int (length (filter (\<lambda>t. cutoff < t) ts)) + 1
     in if BurstCount s \<le> n \<and> 0 < BurstPriority s then (BurstPriority s, True, n) else (p, False, n))"
proof -
  let ?s = "detect_all c ts s"
  have h: "burst_config ?s" "BurstWindow ?s = BurstWindow s" "BurstCount ?s = BurstCount s" "BurstPriority ?s = BurstPriority s"
    "burst_history c ?s = (if ts = [] then [] else filter (\<lambda>t. burst_cutoff s (last ts) < t) (butlast ts) @ [last ts])"
    using detect_all_history [OF assms(1,2), of ts] assms(3) by (auto simp: sorted_append)
  have "ts \<noteq> [] \<longrightarrow> last ts \<le> now" using assms(3) by (simp add: sorted_append)
  from filter_burst_history [OF h(5) this]
  have "fst (DetectBurst c p now ?s) =
      (let n = int (length (filter (\<lambda>t. burst_cutoff s now < t) ts)) + 1
       in if BurstCount s \<le> n \<and> 0 < BurstPriority s then (BurstPriority s, True, n) else (p, False, n))"
    using DetectBurst_step(6) [OF h(1), of c p now] h(2-4) by (simp add: burst_cutoff_def Let_def)
  moreover have "burst_cutoff s now = (if BurstWindow s \<le> 9223372036 then now - BurstWindow s * Second
      else now + wrap64 (- wrap64 (BurstWindow s * Second)))"
    using burst_cutoff_usual [of s now] assms(1) by (simp add: burst_config_def) (simp add: burst_cutoff_def time_Seconds_def)
  ultimately show ?thesis by (simp only: Let_def)
qed

definition sample_burst :: subscription where
  "sample_burst = (new_subscription zero_SubscriptionConfig)
     \<lparr>BurstCount := 2, BurstWindow := 60, BurstPriority := 5, BurstTrackers := Some Map.empty\<rparr>"

text \<open>Three triggers, the first of them older than the window of one minute.\<close>

theorem DetectBurst_counts_window_witness:
  "fst (DetectBurst ''c'' 3 (100 * Second) (detect_all ''c'' [0, 70 * Second] sample_burst)) = (5, True, 2)"
  using DetectBurst_counts_window [of sample_burst "''c''" "[0, 70 * Second]" "100 * Second" 3]
  by (simp add: sample_burst_def new_subscription_def subscription_config.extend_def burst_config_def
      burst_history_def Second_def Let_def)

end
