(* ===== verification/QuietHours.thy ===== *)
theory QuietHours
  imports NotifTypes
begin

text \<open>
  Quiet hours: the windows of \<open>manager.go\<close> (global and per alert), the end of the current window,
  and the summary period of \<open>quiet_summary.go\<close>.

  The time-zone database is an argument (\<open>tz_db\<close>): the result of \<open>time.LoadLocation\<close> and the
  location \<open>time.Local\<close>.  Each operation reads the clock once, as \<open>now\<close>.
\<close>

record tz_db =
  LoadLocation :: "string \<Rightarrow> location option"
  Local :: location

record quiet_hours_config =
  qh_Enabled :: bool
  qh_Start :: string
  qh_End :: string
  qh_Timezone :: string
  GroupNotifications :: "bool option"
  SummaryMaxGroups :: int
  StackThreshold :: int
  StackWindow :: int
  StackedPriority :: int
  QuietTopic :: string
  StackedUsesQuietTopic :: bool

definition defaultQuietSummaryGroups :: int where "defaultQuietSummaryGroups = 10"

definition GroupingEnabled :: "quiet_hours_config \<Rightarrow> bool" where
  "GroupingEnabled q = (case GroupNotifications q of None \<Rightarrow> True | Some b \<Rightarrow> b)"

definition MaxSummaryGroups :: "quiet_hours_config \<Rightarrow> int" where
  "MaxSummaryGroups q =
     (if SummaryMaxGroups q < 1 then defaultQuietSummaryGroups
      else if SummaryMaxGroups q > 50 then 50 else SummaryMaxGroups q)"

definition resolveLocation :: "tz_db \<Rightarrow> string \<Rightarrow> location" where
  "resolveLocation db tz =
     (if tz = [] then Local db
      else case LoadLocation db tz of None \<Rightarrow> Local db | Some loc \<Rightarrow> loc)"

text \<open>\<open>fmt.Sscanf(s, "%d:%d", &h, &min)\<close>: what was read before a mismatch is kept.\<close>

definition parseHHMM :: "string \<Rightarrow> int \<times> int" where
  "parseHHMM s =
     (case scan_int s of
        None \<Rightarrow> (0, 0)
      | Some (h, rest) \<Rightarrow>
          (case rest of
             c # rest' \<Rightarrow>
               (if c = CHR '':'' then
                  (case scan_int rest' of None \<Rightarrow> (h, 0) | Some (m, _) \<Rightarrow> (h, m))
                else (h, 0))
           | [] \<Rightarrow> (h, 0)))"

text \<open>The instant of the given clock time on the local day of \<open>now\<close>.\<close>

definition today_at :: "location \<Rightarrow> gotime \<Rightarrow> int \<times> int \<Rightarrow> gotime" where
  "today_at loc now hm = time_Date loc (local_day loc now) (fst hm) (snd hm)"

definition in_window :: "gotime \<Rightarrow> gotime \<Rightarrow> gotime \<Rightarrow> bool" where
  "in_window now start stop =
     (if start < stop then \<not> now < start \<and> now < stop else \<not> now < start \<or> now < stop)"

definition isQuietHours :: "tz_db \<Rightarrow> quiet_hours_config \<Rightarrow> gotime \<Rightarrow> bool" where
  "isQuietHours db qh now =
     (if \<not> qh_Enabled qh \<or> qh_Start qh = [] \<or> qh_End qh = [] then False
      else let loc = resolveLocation db (qh_Timezone qh)
           in in_window now (today_at loc now (parseHHMM (qh_Start qh)))
                (today_at loc now (parseHHMM (qh_End qh))))"

definition isAlertQuietHours ::
    "tz_db \<Rightarrow> 'a subscription_config_scheme \<Rightarrow> gotime \<Rightarrow> bool \<times> bool" where
  "isAlertQuietHours db sub now =
     (if \<not> AlertQuietEnabled sub \<or> AlertQuietStart sub = [] \<or> AlertQuietEnd sub = []
      then (False, False)
      else let loc = resolveLocation db (AlertQuietTimezone sub)
           in (in_window now (today_at loc now (parseHHMM (AlertQuietStart sub)))
                 (today_at loc now (parseHHMM (AlertQuietEnd sub))), True))"

definition next_end :: "location \<Rightarrow> string \<Rightarrow> gotime \<Rightarrow> gotime" where
  "next_end loc stop now =
     (let candidate = today_at loc now (parseHHMM stop)
      in if candidate < now then candidate + 24 * Hour else candidate)"

definition nextAlertQuietEnd :: "tz_db \<Rightarrow> 'a subscription_config_scheme \<Rightarrow> gotime \<Rightarrow> gotime" where
  "nextAlertQuietEnd db sub now =
     next_end (resolveLocation db (AlertQuietTimezone sub)) (AlertQuietEnd sub) now"

definition nextQuietEnd :: "tz_db \<Rightarrow> quiet_hours_config \<Rightarrow> gotime \<Rightarrow> gotime" where
  "nextQuietEnd db qh now = next_end (resolveLocation db (qh_Timezone qh)) (qh_End qh) now"

definition effectiveQuietHours ::
    "tz_db \<Rightarrow> quiet_hours_config \<Rightarrow> 'a subscription_config_scheme \<Rightarrow> gotime \<Rightarrow> bool \<times> gotime" where
  "effectiveQuietHours db qh sub now =
     (if BypassQuietHours sub then (False, zero_time)
      else case isAlertQuietHours db sub now of
             (inQ, True) \<Rightarrow> (inQ, nextAlertQuietEnd db sub now)
           | (_, False) \<Rightarrow> (isQuietHours db qh now, nextQuietEnd db qh now))"

definition quietSummaryPeriod ::
    "tz_db \<Rightarrow> quiet_hours_config \<Rightarrow> 'a subscription_config_scheme \<Rightarrow> gotime
       \<Rightarrow> gotime \<times> gotime \<times> location" where
  "quietSummaryPeriod db qh sub now =
     (let (start, stop, timezone) =
            (if AlertQuietEnabled sub
             then (AlertQuietStart sub, AlertQuietEnd sub, AlertQuietTimezone sub)
             else (qh_Start qh, qh_End qh, qh_Timezone qh));
          loc = resolveLocation db timezone;
          end0 = today_at loc now (parseHHMM stop);
          periodEnd = (if \<not> now < end0 then AddDays loc end0 1 else end0);
          start0 = today_at loc periodEnd (parseHHMM start);
          periodStart = (if \<not> start0 < periodEnd then AddDays loc start0 (- 1) else start0)
      in (periodStart, periodEnd, loc))"

subsection \<open>Quiet hours as a daily window\<close>

text \<open>
  The intended meaning, for a zone without clock changes: the window opens every day \<open>s\<close> seconds
  after local midnight and lasts until the clock next shows \<open>e\<close>; equal bounds mean the whole day.
\<close>

definition window_length :: "int \<Rightarrow> int \<Rightarrow> int" where
  "window_length s e = (if s = e then 86400 else (e - s) mod 86400)"

definition quiet_at :: "location \<Rightarrow> int \<Rightarrow> int \<Rightarrow> gotime \<Rightarrow> bool" where
  "quiet_at loc s e t \<longleftrightarrow> (local_secs loc t - s) mod 86400 < window_length s e"

definition clock_secs :: "string \<Rightarrow> int" where
  "clock_secs s = fst (parseHHMM s) * 3600 + snd (parseHHMM s) * 60"

definition valid_clock :: "string \<Rightarrow> bool" where
  "valid_clock s \<longleftrightarrow> 0 \<le> clock_secs s \<and> clock_secs s < 86400"

lemma today_at_fixed:
  assumes "fixed_zone loc off"
  shows "today_at loc now (parseHHMM s) = time_Unix (local_day loc now * 86400 + clock_secs s - off)"
  using assms by (simp add: today_at_def clock_secs_def fixed_zone_simps algebra_simps)

lemma local_secs_decomp: "local_secs loc t = local_day loc t * 86400 + local_clock loc t"
  "0 \<le> local_clock loc t" "local_clock loc t < 86400"
  by (simp_all add: local_day_def local_clock_def)

lemma today_at_le_iff:
  assumes "fixed_zone loc off"
  shows "today_at loc now (parseHHMM s) \<le> now \<longleftrightarrow> clock_secs s \<le> local_clock loc now"
    and "now < today_at loc now (parseHHMM s) \<longleftrightarrow> local_clock loc now < clock_secs s"
  using local_secs_decomp [of loc now] fixed_zone_simps(1) [OF assms, of now]
  by (auto simp: today_at_fixed [OF assms] time_Unix_le_iff lt_time_Unix_iff)

lemma diff_mod_day:
  fixes x y :: int
  assumes "0 \<le> x" "x < 86400" "0 \<le> y" "y < 86400"
  shows "(x - y) mod 86400 = (if y \<le> x then x - y else x - y + 86400)"
proof (cases "y \<le> x")
  case False
  have "(x - y) mod 86400 = (x - y + 86400) mod 86400" by simp
  also have "\<dots> = x - y + 86400" using assms False by (intro mod_pos_pos_trivial) auto
  finally show ?thesis using False by simp
qed (use assms in auto)

lemma clock_window:
  fixes c s e :: int
  assumes "0 \<le> c" "c < 86400" "0 \<le> s" "s < 86400" "0 \<le> e" "e < 86400"
  shows "(if s < e then s \<le> c \<and> c < e else s \<le> c \<or> c < e)
    \<longleftrightarrow> (c - s) mod 86400 < window_length s e"
  using assms by (auto simp: window_length_def diff_mod_day)

lemma quiet_at_clock: "quiet_at loc s e t \<longleftrightarrow> (local_clock loc t - s) mod 86400 < window_length s e"
  by (simp add: quiet_at_def local_clock_def mod_diff_left_eq)

lemma in_window_fixed:
  assumes z: "fixed_zone loc off" and v: "valid_clock a" "valid_clock b"
  shows "in_window now (today_at loc now (parseHHMM a)) (today_at loc now (parseHHMM b))
    \<longleftrightarrow> quiet_at loc (clock_secs a) (clock_secs b) now"
proof -
  have "today_at loc now (parseHHMM a) < today_at loc now (parseHHMM b)
      \<longleftrightarrow> clock_secs a < clock_secs b"
    by (simp add: today_at_fixed [OF z] time_Unix_def)
  moreover have "in_window now (today_at loc now (parseHHMM a)) (today_at loc now (parseHHMM b))
      = (let c = local_clock loc now; s = clock_secs a; e = clock_secs b
         in if s < e then s \<le> c \<and> c < e else s \<le> c \<or> c < e)"
    using calculation by (auto simp: in_window_def Let_def not_less today_at_le_iff [OF z])
  ultimately show ?thesis
    using clock_window [of "local_clock loc now" "clock_secs a" "clock_secs b"]
      local_secs_decomp [of loc now] v
    by (simp add: quiet_at_clock valid_clock_def Let_def)
qed

text \<open>
  The next end of the window in whole local seconds: the first local second after \<open>now\<close> (or at
  \<open>now\<close>, when \<open>now\<close> is exactly such a second) that is congruent to the end.
\<close>

lemma next_end_fixed:
  assumes z: "fixed_zone loc off" and v: "valid_clock e"
  obtains u where "next_end loc e now = time_Unix u" and "now \<le> time_Unix u"
    and "time_Unix u < now + 24 * Hour"
    and "(u + off - clock_secs e) mod 86400 = 0" and "u \<le> Unix now + 86400"
proof -
  let ?c = "local_day loc now * 86400 + clock_secs e - off"
  define u where "u = (if time_Unix ?c < now then ?c + 86400 else ?c)"
  have ne: "next_end loc e now = time_Unix u"
    by (simp add: next_end_def today_at_fixed [OF z] u_def Let_def time_Unix_def Hour_def Second_def)
  have l: "Unix now + off = local_day loc now * 86400 + local_clock loc now"
    using local_secs_decomp(1) [of loc now] fixed_zone_simps(1) [OF z, of now] by simp
  have c: "0 \<le> clock_secs e" "clock_secs e < 86400" using v by (auto simp: valid_clock_def)
  have lt: "time_Unix ?c < now + 24 * Hour"
    using l c local_secs_decomp(2,3) [of loc now] time_Unix_Unix_le [of now]
    by (auto simp: time_Unix_def Hour_def Second_def)
  have A: "now \<le> time_Unix u"
  proof (cases "time_Unix ?c < now")
    case True
    then have "Unix now + 1 \<le> u" using l c local_secs_decomp(2,3) [of loc now] by (simp add: u_def)
    then have "time_Unix (Unix now) + Second \<le> time_Unix u" by (simp add: time_Unix_def Second_def)
    then show ?thesis using time_Unix_Unix_gt [of now] by linarith
  qed (simp add: u_def)
  have B: "time_Unix u < now + 24 * Hour"
    using lt by (auto simp: u_def time_Unix_def Hour_def Second_def)
  have C: "(u + off - clock_secs e) mod 86400 = 0" by (auto simp: u_def)
  have D: "u \<le> Unix now + 86400"
    using B time_Unix_Unix_gt [of now] by (auto simp: time_Unix_def Hour_def Second_def)
  show ?thesis by (rule that [OF ne A B C D])
qed

text \<open>Integer core: between a quiet second and the next end second every second is quiet.\<close>

lemma quiet_until_end:
  fixes a b le s e :: int
  assumes q: "(a - s) mod 86400 < window_length s e" and le: "(le - e) mod 86400 = 0"
    and r: "a \<le> le" "le \<le> a + 86400" and ne: "s \<noteq> e" "0 \<le> s" "s < 86400" "0 \<le> e" "e < 86400"
  shows "a \<le> b \<Longrightarrow> b < le \<Longrightarrow> (b - s) mod 86400 < window_length s e"
    and "\<not> (le - s) mod 86400 < window_length s e"
proof -
  define len where "len = (e - s) mod 86400"
  have len: "0 < len" "len < 86400" "window_length s e = len"
    using ne by (auto simp: len_def window_length_def diff_mod_day)
  have "(le - s) mod 86400 = len"
    using mod_add_eq [of "le - e" 86400 "e - s"] le by (simp add: len_def)
  then show "\<not> (le - s) mod 86400 < window_length s e" using len by simp
  define q where "q = (a - s) div 86400"
  define k where "k = (le - s) div 86400"
  have a: "a - s = q * 86400 + (a - s) mod 86400" by (simp add: q_def)
  have l: "le - s = k * 86400 + len" using \<open>(le - s) mod 86400 = len\<close> by (metis k_def div_mult_mod_eq)
  have x: "0 \<le> (a - s) mod 86400" by simp
  have "k = q" using a l r x q len by linarith
  assume b: "a \<le> b" "b < le"
  then have "0 \<le> b - s - q * 86400" "b - s - q * 86400 < len"
    using a l x \<open>k = q\<close> by linarith+
  then have "(b - s - q * 86400) mod 86400 = b - s - q * 86400" using len by simp
  moreover have "(b - s - q * 86400) mod 86400 = (b - s) mod 86400"
    by (metis mod_diff_right_eq mod_mult_self2_is_0 diff_zero)
  ultimately show "(b - s) mod 86400 < window_length s e"
    using \<open>b - s - q * 86400 < len\<close> len(3) by simp
qed

text \<open>The window that applies to a subscription, if any.\<close>

definition effective_window ::
    "quiet_hours_config \<Rightarrow> 'a subscription_config_scheme \<Rightarrow> (string \<times> string \<times> string) option" where
  "effective_window qh sub =
     (if BypassQuietHours sub then None
      else if AlertQuietEnabled sub \<and> AlertQuietStart sub \<noteq> [] \<and> AlertQuietEnd sub \<noteq> []
      then Some (AlertQuietTimezone sub, AlertQuietStart sub, AlertQuietEnd sub)
      else if qh_Enabled qh \<and> qh_Start qh \<noteq> [] \<and> qh_End qh \<noteq> []
      then Some (qh_Timezone qh, qh_Start qh, qh_End qh)
      else None)"

lemma effective_None: "effective_window qh sub = None \<Longrightarrow> \<not> fst (effectiveQuietHours db qh sub now)"
  by (auto simp: effective_window_def effectiveQuietHours_def isAlertQuietHours_def isQuietHours_def
      split: if_splits)

lemma effective_Some:
  assumes "effective_window qh sub = Some (tz, s, e)"
  shows "effectiveQuietHours db qh sub now =
    (let loc = resolveLocation db tz
     in (in_window now (today_at loc now (parseHHMM s)) (today_at loc now (parseHHMM e)),
         next_end loc e now))"
  using assms
  by (auto simp: effective_window_def effectiveQuietHours_def isAlertQuietHours_def isQuietHours_def
      nextQuietEnd_def nextAlertQuietEnd_def Let_def split: if_splits)

text \<open>In a zone with a fixed offset and with clock times between 00:00 and 23:59, a subscription
is in quiet hours exactly when it has a window (its own, else the global one, none when it bypasses
quiet hours) and the local time lies in that daily window, also when the window crosses midnight;
equal bounds silence the whole day.\<close>

theorem effectiveQuietHours_window:
  assumes "\<And>tz s e. effective_window qh sub = Some (tz, s, e) \<Longrightarrow>
    fixed_zone (resolveLocation db tz) off \<and> valid_clock s \<and> valid_clock e"
  shows "fst (effectiveQuietHours db qh sub now) \<longleftrightarrow>
    (case effective_window qh sub of
       None \<Rightarrow> False
     | Some (tz, s, e) \<Rightarrow> quiet_at (resolveLocation db tz) (clock_secs s) (clock_secs e) now)"
proof (cases "effective_window qh sub")
  case None
  then show ?thesis using effective_None [of qh sub db now] by simp
next
  case (Some w)
  obtain tz s e where w: "w = (tz, s, e)" by (cases w)
  then show ?thesis
    using assms [of tz s e] Some in_window_fixed [of "resolveLocation db tz" off s e now]
    by (simp add: effective_Some Let_def)
qed

definition sample_tz :: tz_db where
  "sample_tz = \<lparr>LoadLocation = (\<lambda>_. None), Local = \<lparr>loc_name = ''UTC'', loc_offset = (\<lambda>_. 0)\<rparr>\<rparr>"

definition sample_quiet :: quiet_hours_config where
  "sample_quiet = \<lparr>qh_Enabled = True, qh_Start = ''22:00'', qh_End = ''07:00'', qh_Timezone = [],
     GroupNotifications = None, SummaryMaxGroups = 0, StackThreshold = 0, StackWindow = 0,
     StackedPriority = 0, QuietTopic = [], StackedUsesQuietTopic = False\<rparr>"

lemma fixed_sample: "fixed_zone (resolveLocation sample_tz []) 0"
  by (simp add: fixed_zone_def resolveLocation_def sample_tz_def)

lemma parse_sample: "parseHHMM ''22:00'' = (22, 0)" "parseHHMM ''07:00'' = (7, 0)"
  by (code_simp)+

lemma window_sample:
  "effective_window sample_quiet zero_SubscriptionConfig = Some ([], ''22:00'', ''07:00'')"
  by (simp add: effective_window_def sample_quiet_def zero_SubscriptionConfig_def)

text \<open>At 23:30 UTC the sample window 22:00--07:00 is open.\<close>

theorem effectiveQuietHours_window_witness:
  "fst (effectiveQuietHours sample_tz sample_quiet zero_SubscriptionConfig (84600 * Second))"
proof -
  have "quiet_at (resolveLocation sample_tz []) (clock_secs ''22:00'') (clock_secs ''07:00'') (84600 * Second)"
    by (simp add: quiet_at_def fixed_zone_simps(1) [OF fixed_sample] clock_secs_def parse_sample
        window_length_def Second_def Unix_def)
  then show ?thesis
    using effectiveQuietHours_window [of sample_quiet zero_SubscriptionConfig sample_tz 0 "84600 * Second"]
      fixed_sample
    by (simp add: window_sample valid_clock_def clock_secs_def parse_sample)
qed

lemma quiet_at_fixed:
  "fixed_zone loc off \<Longrightarrow> quiet_at loc s e t \<longleftrightarrow> (Unix t + off - s) mod 86400 < window_length s e"
  by (simp add: quiet_at_def fixed_zone_simps)

text \<open>C2. In a zone with a fixed offset, an alert held by quiet hours is released at the right moment:
the reported end is within the next 24 hours, every instant from now until then is still quiet, and
(unless the window covers the whole day) quiet hours are over at that instant.\<close>

theorem quiet_end_is_first_free_instant:
  assumes w: "effective_window qh sub = Some (tz, s, e)"
    and z: "fixed_zone (resolveLocation db tz) off" and v: "valid_clock s" "valid_clock e"
    and q: "effectiveQuietHours db qh sub now = (True, release)"
  shows "now \<le> release \<and> release < now + 24 * Hour
    \<and> (\<forall>t. now \<le> t \<and> t < release \<longrightarrow> fst (effectiveQuietHours db qh sub t))
    \<and> (clock_secs s \<noteq> clock_secs e \<longrightarrow> \<not> fst (effectiveQuietHours db qh sub release))"
proof -
  let ?loc = "resolveLocation db tz" and ?s = "clock_secs s" and ?e = "clock_secs e"
  have eff: "fst (effectiveQuietHours db qh sub t) \<longleftrightarrow> quiet_at ?loc ?s ?e t" for t
    using in_window_fixed [OF z v, of t] by (simp add: effective_Some [OF w] Let_def)
  have rel: "release = next_end ?loc e now" using q by (simp add: effective_Some [OF w] Let_def)
  obtain u where u: "release = time_Unix u" "now \<le> release" "release < now + 24 * Hour"
    "(u + off - ?e) mod 86400 = 0" "u \<le> Unix now + 86400"
    using next_end_fixed [OF z v(2), of now] rel by metis
  have qn: "(Unix now + off - ?s) mod 86400 < window_length ?s ?e"
    using eff [of now] q quiet_at_fixed [OF z] by simp
  have r: "Unix now + off \<le> u + off" "u + off \<le> Unix now + off + 86400"
    using u(2,5) Unix_mono [OF u(2)] u(1) by simp_all
  have vc: "0 \<le> ?s" "?s < 86400" "0 \<le> ?e" "?e < 86400" using v by (auto simp: valid_clock_def)
  have quiet: "quiet_at ?loc ?s ?e t" if "now \<le> t" "t < release" for t
  proof (cases "?s = ?e")
    case True
    then show ?thesis by (simp add: quiet_at_def window_length_def)
  next
    case False
    have "Unix now + off \<le> Unix t + off" "Unix t + off < u + off"
      using Unix_mono [OF that(1)] that(2) u(1) lt_time_Unix_iff [of t u] by simp_all
    then show ?thesis
      using quiet_until_end(1) [OF qn u(4) r False vc] by (simp add: quiet_at_fixed [OF z])
  qed
  have "\<not> quiet_at ?loc ?s ?e release" if "?s \<noteq> ?e"
    using quiet_until_end(2) [OF qn u(4) r that vc] u(1) by (simp add: quiet_at_fixed [OF z])
  then show ?thesis using u(2,3) quiet eff by blast
qed

theorem quiet_end_is_first_free_instant_witness:
  "\<exists>release. effectiveQuietHours sample_tz sample_quiet zero_SubscriptionConfig (84600 * Second) = (True, release)
    \<and> \<not> fst (effectiveQuietHours sample_tz sample_quiet zero_SubscriptionConfig release)"
proof -
  have "effectiveQuietHours sample_tz sample_quiet zero_SubscriptionConfig (84600 * Second)
      = (True, time_Unix (86400 + 7 * 3600))"
    by (simp add: effective_Some [OF window_sample] in_window_def next_end_def Let_def
        today_at_def parse_sample local_day_def fixed_zone_simps [OF fixed_sample] time_Unix_def
        Unix_def Second_def Hour_def)
  then show ?thesis
    using quiet_end_is_first_free_instant [OF window_sample fixed_sample]
    by (simp add: valid_clock_def clock_secs_def parse_sample)
qed

subsection \<open>The summary period\<close>

text \<open>The first second after \<open>n\<close> at which the local clock shows \<open>e\<close>, and the last one before \<open>m\<close>.\<close>

definition after_sec :: "int \<Rightarrow> int \<Rightarrow> int \<Rightarrow> int" where
  "after_sec off e n = n + 1 + (e - off - n - 1) mod 86400"

definition before_sec :: "int \<Rightarrow> int \<Rightarrow> int \<Rightarrow> int" where
  "before_sec off s m = m - 1 - (m - 1 + off - s) mod 86400"

lemma after_sec_eq:
  assumes "(u + off - e) mod 86400 = 0" and "n < u" and "u \<le> n + 86400"
  shows "u = after_sec off e n"
proof -
  have "(u - n - 1) mod 86400 = (e - off - n - 1) mod 86400"
    using mod_add_left_eq [of "u + off - e" 86400 "e - off - n - 1"] assms(1) by (simp add: algebra_simps)
  then have "u - n - 1 = (e - off - n - 1) mod 86400" using assms(2,3) by simp
  then show ?thesis by (simp add: after_sec_def)
qed

lemma before_sec_eq:
  assumes "(u + off - s) mod 86400 = 0" and "u < m" and "m \<le> u + 86400"
  shows "u = before_sec off s m"
proof -
  have "(m - 1 - u) mod 86400 = (m - 1 + off - s) mod 86400"
    using mod_diff_right_eq [of "m - 1 + off - s" "u + off - s" 86400] assms(1)
    by (simp add: algebra_simps)
  then show ?thesis using assms(2,3) by (simp add: before_sec_def)
qed

lemma after_sec_props: "n < after_sec off e n" "after_sec off e n \<le> n + 86400"
  "(after_sec off e n + off - e) mod 86400 = 0"
proof -
  show "n < after_sec off e n" "after_sec off e n \<le> n + 86400"
    by (simp_all add: after_sec_def less_imp_le flip: zle_add1_eq_le)
  show "(after_sec off e n + off - e) mod 86400 = 0"
    using mod_add_left_eq [of "e - off - n - 1" 86400 "n + 1 + off - e"]
    by (simp add: after_sec_def algebra_simps)
qed

lemma before_sec_props: "before_sec off s m < m" "m \<le> before_sec off s m + 86400"
  "(before_sec off s m + off - s) mod 86400 = 0"
proof -
  show "before_sec off s m < m" "m \<le> before_sec off s m + 86400"
    by (simp_all add: before_sec_def less_imp_le flip: zle_add1_eq_le)
  show "(before_sec off s m + off - s) mod 86400 = 0"
    using mod_diff_right_eq [of "m - 1 + off - s" "m - 1 + off - s" 86400]
    by (simp add: before_sec_def algebra_simps)
qed

lemma AddDays_fixed: "fixed_zone loc off \<Longrightarrow> AddDays loc (time_Unix u) n = time_Unix (u + n * 86400)"
  by (simp add: fixed_zone_simps time_Unix_def Second_def algebra_simps)

lemma period_end_fixed:
  assumes z: "fixed_zone loc off" and v: "valid_clock e"
  shows "(let end0 = today_at loc now (parseHHMM e)
          in if \<not> now < end0 then AddDays loc end0 1 else end0)
    = time_Unix (after_sec off (clock_secs e) (Unix now))"
proof -
  let ?c = "local_day loc now * 86400 + clock_secs e - off"
  define u where "u = (if \<not> now < time_Unix ?c then ?c + 86400 else ?c)"
  have l: "Unix now + off = local_day loc now * 86400 + local_clock loc now"
    using local_secs_decomp(1) [of loc now] fixed_zone_simps(1) [OF z, of now] by simp
  have "u = after_sec off (clock_secs e) (Unix now)"
  proof (rule after_sec_eq)
    show "(u + off - clock_secs e) mod 86400 = 0" by (auto simp: u_def)
    show "Unix now < u" "u \<le> Unix now + 86400"
      using l v local_secs_decomp(2,3) [of loc now] lt_time_Unix_iff [of now ?c]
      by (auto simp: u_def valid_clock_def)
  qed
  then show ?thesis by (auto simp: today_at_fixed [OF z] AddDays_fixed [OF z] Let_def u_def)
qed

lemma period_start_fixed:
  assumes z: "fixed_zone loc off" and v: "valid_clock s"
  shows "(let start0 = today_at loc (time_Unix m) (parseHHMM s)
          in if \<not> start0 < time_Unix m then AddDays loc start0 (- 1) else start0)
    = time_Unix (before_sec off (clock_secs s) m)"
proof -
  let ?c = "local_day loc (time_Unix m) * 86400 + clock_secs s - off"
  define u where "u = (if \<not> ?c < m then ?c - 86400 else ?c)"
  have l: "m + off = local_day loc (time_Unix m) * 86400 + local_clock loc (time_Unix m)"
    using local_secs_decomp(1) [of loc "time_Unix m"] fixed_zone_simps(1) [OF z, of "time_Unix m"] by simp
  have "u = before_sec off (clock_secs s) m"
  proof (rule before_sec_eq)
    show "(u + off - clock_secs s) mod 86400 = 0"
      by (simp add: u_def)
    show "u < m" "m \<le> u + 86400"
      using l v local_secs_decomp(2,3) [of loc "time_Unix m"] by (auto simp: u_def valid_clock_def)
  qed
  then show ?thesis by (auto simp: today_at_fixed [OF z] AddDays_fixed [OF z] Let_def u_def)
qed

text \<open>The window lies between the last start before its end, so a second is quiet exactly then.\<close>

lemma quiet_iff_after_start:
  fixes n off s e :: int
  assumes "0 \<le> s" "s < 86400" "0 \<le> e" "e < 86400"
  shows "before_sec off s (after_sec off e n) \<le> n \<longleftrightarrow> (n + off - s) mod 86400 < window_length s e"
proof -
  define m where "m = after_sec off e n"
  define x where "x = (n + off - s) mod 86400"
  define q where "q = (n + off - s) div 86400"
  have n: "n + off - s = q * 86400 + x" "0 \<le> x" "x < 86400" by (simp_all add: q_def x_def)
  define len where "len = window_length s e"
  have len: "0 < len" "len \<le> 86400" "(len - (e - s)) mod 86400 = 0"
    using assms by (auto simp: len_def window_length_def diff_mod_day)
  define d where "d = (len - (e - s)) div 86400"
  have d: "len = e - s + d * 86400" using len(3) by (simp add: d_def mod_eq_0_iff_dvd)
  obtain j where "m + off - e = 86400 * j" using after_sec_props(3) [of off e n] by (auto simp: m_def)
  then have m: "m + off - s = (j - d) * 86400 + len" using d by (simp add: algebra_simps)
  have mb: "n < m" "m \<le> n + 86400" unfolding m_def by (rule after_sec_props)+
  define k where "k = j - d"
  have start: "i * 86400 + s - off = before_sec off s m" if "k = i" for i
  proof (rule before_sec_eq)
    show "(i * 86400 + s - off + off - s) mod 86400 = 0" by simp
    show "i * 86400 + s - off < m" "m \<le> i * 86400 + s - off + 86400"
      using m [folded k_def] that len(1,2) by linarith+
  qed
  show ?thesis
  proof (cases "x < len")
    case True
    then have "k = q" using n m [folded k_def] mb len(1,2) by linarith
    then have b: "before_sec off s m = q * 86400 + s - off" using start by simp
    have "q * 86400 + s - off \<le> n" using n by linarith
    then show ?thesis using True b unfolding m_def x_def len_def by simp
  next
    case False
    then have "k = q + 1" using n m [folded k_def] mb len(1,2) by linarith
    then have b: "before_sec off s m = q * 86400 + 86400 + s - off"
      using start [of "q + 1"] by (simp add: distrib_right)
    have "\<not> q * 86400 + 86400 + s - off \<le> n" using n by linarith
    then show ?thesis using False b unfolding m_def x_def len_def by simp
  qed
qed

text \<open>Hits collected for a quiet-hours summary belong to one quiet window.  In a zone with a fixed
offset, and when the window that silences the alert is the one the summary uses, the alert is silenced
exactly from the start of its summary period to its end, and every hit inside the period is filed
under that same period.\<close>

theorem quietSummaryPeriod_is_window:
  assumes w: "effective_window qh sub = Some (tz, s, e)"
    and own: "AlertQuietEnabled sub \<longrightarrow> AlertQuietStart sub \<noteq> [] \<and> AlertQuietEnd sub \<noteq> []"
    and z: "fixed_zone (resolveLocation db tz) off" and v: "valid_clock s" "valid_clock e"
    and p: "quietSummaryPeriod db qh sub now = (periodStart, periodEnd, loc)"
  shows "(fst (effectiveQuietHours db qh sub now) \<longleftrightarrow> periodStart \<le> now \<and> now < periodEnd)
    \<and> (\<forall>t. periodStart \<le> t \<and> t < periodEnd \<longrightarrow>
          quietSummaryPeriod db qh sub t = (periodStart, periodEnd, loc))"
proof -
  let ?loc = "resolveLocation db tz" and ?s = "clock_secs s" and ?e = "clock_secs e"
  let ?m = "\<lambda>t. after_sec off ?e (Unix t)"
  have qsp: "quietSummaryPeriod db qh sub t
      = (time_Unix (before_sec off ?s (?m t)), time_Unix (?m t), ?loc)" for t
    using w own period_end_fixed [OF z v(2), of t] period_start_fixed [OF z v(1), of "?m t"]
    by (auto simp: quietSummaryPeriod_def effective_window_def Let_def split: if_splits)
  have ps: "periodStart = time_Unix (before_sec off ?s (?m now))" "periodEnd = time_Unix (?m now)"
    "loc = ?loc" using qsp [of now] p by simp_all
  have vc: "0 \<le> ?s" "?s < 86400" "0 \<le> ?e" "?e < 86400" using v by (auto simp: valid_clock_def)
  have "fst (effectiveQuietHours db qh sub now) \<longleftrightarrow> periodStart \<le> now"
    using in_window_fixed [OF z v, of now] quiet_iff_after_start [OF vc, of off "Unix now"]
    by (simp add: effective_Some [OF w] Let_def quiet_at_fixed [OF z] ps time_Unix_le_iff)
  moreover have "now < periodEnd" by (simp add: ps lt_time_Unix_iff after_sec_props)
  moreover have "?m t = ?m now" if t: "periodStart \<le> t" "t < periodEnd" for t
  proof (rule after_sec_eq [symmetric])
    show "(?m now + off - ?e) mod 86400 = 0" by (rule after_sec_props)
    show "Unix t < ?m now" using t(2) by (simp add: ps lt_time_Unix_iff)
    show "?m now \<le> Unix t + 86400"
      using before_sec_props(2) [of "?m now" off ?s] t(1) by (simp add: ps time_Unix_le_iff)
  qed
  ultimately show ?thesis using qsp ps by auto
qed

theorem quietSummaryPeriod_is_window_witness:
  "quietSummaryPeriod sample_tz sample_quiet zero_SubscriptionConfig (84600 * Second)
      = (time_Unix 79200, time_Unix 111600, resolveLocation sample_tz [])
    \<and> quietSummaryPeriod sample_tz sample_quiet zero_SubscriptionConfig (time_Unix 90000)
      = (time_Unix 79200, time_Unix 111600, resolveLocation sample_tz [])"
proof -
  have p: "quietSummaryPeriod sample_tz sample_quiet zero_SubscriptionConfig (84600 * Second)
      = (time_Unix 79200, time_Unix 111600, resolveLocation sample_tz [])"
    by (simp add: quietSummaryPeriod_def sample_quiet_def zero_SubscriptionConfig_def parse_sample
        today_at_def local_day_def fixed_zone_simps [OF fixed_sample] Unix_def time_Unix_def Second_def)
  have v: "valid_clock ''22:00''" "valid_clock ''07:00''"
    by (simp_all add: valid_clock_def clock_secs_def parse_sample)
  have "AlertQuietEnabled zero_SubscriptionConfig \<longrightarrow>
      AlertQuietStart zero_SubscriptionConfig \<noteq> [] \<and> AlertQuietEnd zero_SubscriptionConfig \<noteq> []"
    by (simp add: zero_SubscriptionConfig_def)
  from quietSummaryPeriod_is_window [OF window_sample this fixed_sample v p]
  have "time_Unix 79200 \<le> t \<and> t < time_Unix 111600 \<longrightarrow>
      quietSummaryPeriod sample_tz sample_quiet zero_SubscriptionConfig t
        = (time_Unix 79200, time_Unix 111600, resolveLocation sample_tz [])" for t by blast
  then show ?thesis using p by (simp add: time_Unix_def)
qed

subsection \<open>Clock changes\<close>

text \<open>
  A zone whose offset changes from two hours to one at the Unix second 10,800 (the clocks go back at
  03:00 UTC on the first day).
\<close>

definition autumn_zone :: tz_db where
  "autumn_zone = \<lparr>LoadLocation = (\<lambda>_. None),
     Local = \<lparr>loc_name = ''Europe/Prague'', loc_offset = (\<lambda>u. if u < 10800 then 7200 else 3600)\<rparr>\<rparr>"

text \<open>The end of the window is computed by adding 24 hours to today's end.  When the clocks go back
in between, that instant is an hour early and still lies in quiet hours: with the window 22:00--07:00,
an alert held at 23:00 on the evening before the change is released at 06:00, inside the window.\<close>

theorem quiet_end_wrong_across_clock_change:
  "effectiveQuietHours autumn_zone sample_quiet zero_SubscriptionConfig (time_Unix (- 10800))
     = (True, time_Unix 18000)
   \<and> local_clock (Local autumn_zone) (time_Unix 18000) = 6 * 3600
   \<and> fst (effectiveQuietHours autumn_zone sample_quiet zero_SubscriptionConfig (time_Unix 18000))"
  by (simp add: effective_Some [OF window_sample] Let_def in_window_def next_end_def today_at_def
      parse_sample time_Date_def local_to_unix_def local_day_def local_clock_def local_secs_def
      resolveLocation_def autumn_zone_def time_Unix_def Unix_def Hour_def Second_def)

end
