(* ===== verification/NotifQueue.thy ===== *)
theory NotifQueue
  imports NotifTypes "HOL-Library.Multiset"
begin

text \<open>
  The SQLite-backed queue of \<open>internal/notification/queue/queue.go\<close>.  The database is a record of
  its tables: \<open>notification_queue\<close> is the list of its rows in rowid order, the tables with a textual
  primary key are maps, and \<open>quiet_summary\<close>, which is read in an order, is a list of rows.  A
  \<open>payload\<close> column holds the JSON of a notification or text that does not parse.

  Any SQL statement may fail; then it changes nothing.  The argument \<open>bad\<close> of an operation says
  which of its statements fail.  Each operation reads the clock once, as \<open>now\<close>.  \<open>NewQueue\<close> limits
  the pool to one connection: a statement issued while the rows of a query are open waits until the
  query's context ends.
\<close>

subsection \<open>Tables\<close>

datatype row_status = Pending | Sent | Dropped

datatype payload = Payload notification | Malformed string

record queue_row =
  qr_id :: int
  qr_subscription_id :: int
  qr_dispatcher_id :: int
  qr_payload :: payload
  qr_ntfy_topic :: string
  qr_ntfy_priority :: int
  qr_created_at :: gotime
  qr_deliver_at :: gotime
  qr_attempts :: int
  qr_status :: row_status

record alert_state =
  as_Fingerprint :: string
  as_SubscriptionID :: int
  as_HostName :: string
  as_ContainerName :: string
  as_AlertType :: string
  as_Count :: int
  as_WindowStart :: gotime
  as_QuietFirstSent :: bool
  as_StackedSent :: bool
  as_UpdatedAt :: gotime

record unique_row =
  ur_Fingerprint :: string
  ur_SubscriptionID :: int
  ur_UniqueKey :: string
  ur_Count :: int
  ur_WindowStart :: gotime
  ur_Sent :: bool
  ur_UpdatedAt :: gotime

record quiet_summary_group =
  sg_Fingerprint :: string
  sg_Count :: int
  sg_FirstSeen :: gotime
  sg_LastSeen :: gotime
  sg_FirstExample :: string
  sg_LastExample :: string

record quiet_summary =
  qs_Key :: string
  qs_SubscriptionID :: int
  qs_DispatcherID :: int
  qs_PeriodStart :: gotime
  qs_PeriodEnd :: gotime
  qs_Timezone :: string
  qs_Notification :: notification
  qs_Groups :: "quiet_summary_group list"
  qs_TotalCount :: int
  qs_UpdatedAt :: gotime

text \<open>A row of \<open>quiet_summary\<close>: instants are stored as Unix seconds, the payload as JSON.\<close>

record summary_row =
  sr_key :: string
  sr_subscription_id :: int
  sr_dispatcher_id :: int
  sr_period_start :: int
  sr_period_end :: int
  sr_timezone :: string
  sr_payload :: payload
  sr_groups :: "quiet_summary_group list"
  sr_total_count :: int
  sr_updated_at :: int

record queue =
  q_rows :: "queue_row list"
  q_last_id :: int
  q_alerts :: "string \<rightharpoonup> alert_state"
  q_cooldowns :: "string \<rightharpoonup> int"
  q_unique :: "string \<rightharpoonup> unique_row"
  q_summaries :: "summary_row list"
  q_modes :: "string \<rightharpoonup> bool \<times> int"

datatype db_error = DbFailure | NoRows | DeadlineExceeded | UnmarshalError | UnexpectedCount int

datatype statement =
    InsertQueue | CountQueue | SelectReady | UpdateStatus | UpdateDeliver | DeleteQueue
  | InsertAlert | SelectAlert | UpsertAlert | DeleteAlert
  | InsertUnique | SelectUnique | UpsertUnique | DeleteUnique
  | UpsertSummary | SelectSummary | SelectSummaries | DeleteSummary
  | InsertMode | SelectMode | DeleteMode
  | UpsertCooldown | SelectCooldowns | DeleteCooldowns

type_synonym faults = "statement \<Rightarrow> bool"

definition empty_queue :: queue where
  "empty_queue = \<lparr>q_rows = [], q_last_id = 0, q_alerts = Map.empty, q_cooldowns = Map.empty,
     q_unique = Map.empty, q_summaries = [], q_modes = Map.empty\<rparr>"

definition Payload_of :: "notification \<Rightarrow> payload" where
  "Payload_of n = Payload (json_transit n)"

subsection \<open>The notification queue\<close>

record queued_notification =
  qn_ID :: int
  qn_SubscriptionID :: int
  qn_DispatcherID :: int
  qn_Notification :: notification
  qn_DeliverAt :: gotime
  qn_Attempts :: int

text \<open>
  \<open>Healthcheck\<close> inserts a marker row in a transaction, counts the rows with its payload and rolls
  back; the database is unchanged.
\<close>

definition Healthcheck :: "faults \<Rightarrow> payload \<Rightarrow> queue \<Rightarrow> db_error + unit" where
  "Healthcheck bad marker q =
     (if bad InsertQueue then Inl DbFailure
      else if bad CountQueue then Inl DbFailure
      else let count = int (length (filter (\<lambda>r. qr_payload r = marker) (q_rows q))) + 1
           in if count \<noteq> 1 then Inl (UnexpectedCount count) else Inr ())"

definition Enqueue ::
    "faults \<Rightarrow> gotime \<Rightarrow> notification \<Rightarrow> gotime \<Rightarrow> queue \<Rightarrow> db_error option \<times> queue" where
  "Enqueue bad now n deliverAt q =
     (if bad InsertQueue then (Some DbFailure, q)
      else let i = q_last_id q + 1
           in (None, q\<lparr>q_last_id := i, q_rows := q_rows q @
                [\<lparr>qr_id = i, qr_subscription_id = sub_ID (n_Subscription n),
                  qr_dispatcher_id = DispatcherID (n_Subscription n), qr_payload = Payload_of n,
                  qr_ntfy_topic = n_NtfyTopic n, qr_ntfy_priority = n_NtfyPriority n,
                  qr_created_at = now, qr_deliver_at = deliverAt, qr_attempts = 0,
                  qr_status = Pending\<rparr>]\<rparr>))"

definition PendingCountForSubscription :: "faults \<Rightarrow> int \<Rightarrow> queue \<Rightarrow> db_error + int" where
  "PendingCountForSubscription bad sid q =
     (if bad CountQueue then Inl DbFailure
      else Inr (int (length (filter (\<lambda>r. qr_status r = Pending \<and> qr_subscription_id r = sid) (q_rows q)))))"

definition update_row :: "int \<Rightarrow> (queue_row \<Rightarrow> queue_row) \<Rightarrow> queue \<Rightarrow> queue" where
  "update_row i f q = q\<lparr>q_rows := map (\<lambda>r. if qr_id r = i then f r else r) (q_rows q)\<rparr>"

definition MarkSent :: "faults \<Rightarrow> int \<Rightarrow> queue \<Rightarrow> db_error option \<times> queue" where
  "MarkSent bad i q =
     (if bad UpdateStatus then (Some DbFailure, q)
      else (None, update_row i (\<lambda>r. r\<lparr>qr_status := Sent\<rparr>) q))"

definition UpdateDeliverAt :: "faults \<Rightarrow> int \<Rightarrow> gotime \<Rightarrow> queue \<Rightarrow> db_error option \<times> queue" where
  "UpdateDeliverAt bad i deliverAt q =
     (if bad UpdateDeliver then (Some DbFailure, q)
      else (None, update_row i (\<lambda>r. if qr_status r = Pending
                                    then r\<lparr>qr_deliver_at := deliverAt, qr_attempts := 0\<rparr> else r) q))"

definition MarkFailed ::
    "faults \<Rightarrow> gotime \<Rightarrow> int \<Rightarrow> int \<Rightarrow> queue \<Rightarrow> db_error option \<times> queue" where
  "MarkFailed bad now i attempts q =
     (let nextAttempts = attempts + 1;
          status = (if nextAttempts \<ge> 3 then Dropped else Pending)
      in if bad UpdateStatus then (Some DbFailure, q)
         else (None, update_row i (\<lambda>r. r\<lparr>qr_attempts := nextAttempts, qr_status := status,
                qr_deliver_at := now + nextAttempts * nextAttempts * 30 * Second\<rparr>) q))"

definition drop_row :: "faults \<Rightarrow> int \<Rightarrow> queue \<Rightarrow> db_error option \<times> queue" where
  "drop_row bad i q =
     (if bad UpdateStatus then (Some DbFailure, q)
      else (None, update_row i (\<lambda>r. r\<lparr>qr_status := Dropped\<rparr>) q))"

text \<open>
  The loop of \<open>DrainReady\<close>.  \<open>drop\<close> of a malformed row waits for the only connection, which the open
  rows hold until the context's deadline; the update then runs, but the iteration ends with the
  context's error.
\<close>

fun drain_rows ::
    "faults \<Rightarrow> queue_row list \<Rightarrow> queued_notification list \<Rightarrow> queue
       \<Rightarrow> queued_notification list \<times> db_error option \<times> queue" where
  "drain_rows bad [] acc q = (acc, None, q)"
| "drain_rows bad (r # rs) acc q =
     (case qr_payload r of
        Malformed _ \<Rightarrow> (acc, Some DeadlineExceeded, snd (drop_row bad (qr_id r) q))
      | Payload n \<Rightarrow>
          drain_rows bad rs
            (acc @ [\<lparr>qn_ID = qr_id r, qn_SubscriptionID = qr_subscription_id r,
                     qn_DispatcherID = qr_dispatcher_id r, qn_Notification = n,
                     qn_DeliverAt = qr_deliver_at r, qn_Attempts = qr_attempts r\<rparr>]) q)"

definition ready_rows :: "gotime \<Rightarrow> queue \<Rightarrow> queue_row list" where
  "ready_rows now q =
     sort_key qr_deliver_at (filter (\<lambda>r. qr_status r = Pending \<and> qr_deliver_at r \<le> now) (q_rows q))"

definition DrainReady ::
    "faults \<Rightarrow> gotime \<Rightarrow> queue \<Rightarrow> queued_notification list \<times> db_error option \<times> queue" where
  "DrainReady bad now q =
     (if bad SelectReady then ([], Some DbFailure, q) else drain_rows bad (ready_rows now q) [] q)"

definition Cleanup :: "faults \<Rightarrow> gotime \<Rightarrow> duration \<Rightarrow> queue \<Rightarrow> queue" where
  "Cleanup bad now maxAge q =
     (if bad DeleteQueue then q
      else q\<lparr>q_rows := filter (\<lambda>r. \<not> (qr_status r \<in> {Sent, Dropped} \<and> qr_created_at r < now - maxAge))
               (q_rows q)\<rparr>)"

subsection \<open>Alert state\<close>

definition GetOrCreateAlertState ::
    "faults \<Rightarrow> gotime \<Rightarrow> string \<Rightarrow> int \<Rightarrow> string \<Rightarrow> string \<Rightarrow> string \<Rightarrow> queue
       \<Rightarrow> (db_error + alert_state) \<times> queue" where
  "GetOrCreateAlertState bad now fp sid host cname atype q =
     (if bad InsertAlert then (Inl DbFailure, q)
      else
        let fresh = \<lparr>as_Fingerprint = fp, as_SubscriptionID = sid, as_HostName = host,
                      as_ContainerName = cname, as_AlertType = atype, as_Count = 0,
                      as_WindowStart = time_Unix (Unix now), as_QuietFirstSent = False,
                      as_StackedSent = False, as_UpdatedAt = time_Unix (Unix now)\<rparr>;
            q' = (if q_alerts q fp = None then q\<lparr>q_alerts := (q_alerts q)(fp \<mapsto> fresh)\<rparr> else q)
        in if bad SelectAlert then (Inl DbFailure, q')
           else (case q_alerts q' fp of None \<Rightarrow> (Inl NoRows, q') | Some s \<Rightarrow> (Inr s, q')))"

text \<open>The upsert keeps the descriptive columns of an existing row; instants lose their fraction.\<close>

definition UpsertAlertState ::
    "faults \<Rightarrow> gotime \<Rightarrow> alert_state \<Rightarrow> queue \<Rightarrow> db_error option \<times> queue" where
  "UpsertAlertState bad now s q =
     (if bad UpsertAlert then (Some DbFailure, q)
      else
        let base = (case q_alerts q (as_Fingerprint s) of None \<Rightarrow> s | Some old \<Rightarrow> old);
            row = base\<lparr>as_Count := as_Count s, as_WindowStart := time_Unix (Unix (as_WindowStart s)),
                       as_QuietFirstSent := as_QuietFirstSent s, as_StackedSent := as_StackedSent s,
                       as_UpdatedAt := time_Unix (Unix now)\<rparr>
        in (None, q\<lparr>q_alerts := (q_alerts q)(as_Fingerprint s \<mapsto> row)\<rparr>))"

definition CleanupAlertState :: "faults \<Rightarrow> gotime \<Rightarrow> duration \<Rightarrow> queue \<Rightarrow> queue" where
  "CleanupAlertState bad now retention q =
     (if bad DeleteAlert then q
      else q\<lparr>q_alerts := delete_where (\<lambda>_ s. Unix (as_UpdatedAt s) < Unix (now - retention)) (q_alerts q)\<rparr>)"

subsection \<open>Unique suppression state\<close>

definition GetOrCreateUniqueState ::
    "faults \<Rightarrow> gotime \<Rightarrow> string \<Rightarrow> int \<Rightarrow> string \<Rightarrow> queue \<Rightarrow> (db_error + unique_row) \<times> queue" where
  "GetOrCreateUniqueState bad now fp sid key q =
     (if bad InsertUnique then (Inl DbFailure, q)
      else
        let fresh = \<lparr>ur_Fingerprint = fp, ur_SubscriptionID = sid, ur_UniqueKey = key, ur_Count = 0,
                      ur_WindowStart = time_Unix (Unix now), ur_Sent = False,
                      ur_UpdatedAt = time_Unix (Unix now)\<rparr>;
            q' = (if q_unique q fp = None then q\<lparr>q_unique := (q_unique q)(fp \<mapsto> fresh)\<rparr> else q)
        in if bad SelectUnique then (Inl DbFailure, q')
           else (case q_unique q' fp of None \<Rightarrow> (Inl NoRows, q') | Some s \<Rightarrow> (Inr s, q')))"

definition UpsertUniqueState ::
    "faults \<Rightarrow> gotime \<Rightarrow> unique_row \<Rightarrow> queue \<Rightarrow> db_error option \<times> queue" where
  "UpsertUniqueState bad now s q =
     (if bad UpsertUnique then (Some DbFailure, q)
      else
        let base = (case q_unique q (ur_Fingerprint s) of None \<Rightarrow> s | Some old \<Rightarrow> old);
            row = base\<lparr>ur_Count := ur_Count s, ur_WindowStart := time_Unix (Unix (ur_WindowStart s)),
                       ur_Sent := ur_Sent s, ur_UpdatedAt := time_Unix (Unix now)\<rparr>
        in (None, q\<lparr>q_unique := (q_unique q)(ur_Fingerprint s \<mapsto> row)\<rparr>))"

definition CleanupUniqueState :: "faults \<Rightarrow> gotime \<Rightarrow> duration \<Rightarrow> queue \<Rightarrow> queue" where
  "CleanupUniqueState bad now retention q =
     (if bad DeleteUnique then q
      else q\<lparr>q_unique := delete_where (\<lambda>_ s. Unix (ur_UpdatedAt s) < Unix (now - retention)) (q_unique q)\<rparr>)"

subsection \<open>Quiet-hours summaries\<close>

definition summary_row_of :: "gotime \<Rightarrow> quiet_summary \<Rightarrow> summary_row" where
  "summary_row_of now s =
     \<lparr>sr_key = qs_Key s, sr_subscription_id = qs_SubscriptionID s, sr_dispatcher_id = qs_DispatcherID s,
      sr_period_start = Unix (qs_PeriodStart s), sr_period_end = Unix (qs_PeriodEnd s),
      sr_timezone = qs_Timezone s, sr_payload = Payload_of (qs_Notification s),
      sr_groups = qs_Groups s, sr_total_count = qs_TotalCount s, sr_updated_at = Unix now\<rparr>"

definition summary_of_row :: "summary_row \<Rightarrow> db_error + quiet_summary" where
  "summary_of_row r =
     (case sr_payload r of
        Malformed _ \<Rightarrow> Inl UnmarshalError
      | Payload n \<Rightarrow> Inr
          \<lparr>qs_Key = sr_key r, qs_SubscriptionID = sr_subscription_id r,
           qs_DispatcherID = sr_dispatcher_id r, qs_PeriodStart = time_Unix (sr_period_start r),
           qs_PeriodEnd = time_Unix (sr_period_end r), qs_Timezone = sr_timezone r,
           qs_Notification = n, qs_Groups = sr_groups r, qs_TotalCount = sr_total_count r,
           qs_UpdatedAt = time_Unix (sr_updated_at r)\<rparr>)"

text \<open>\<open>ON CONFLICT(summary_key) DO UPDATE\<close>: four columns of an existing row change.\<close>

definition upsert_summary_rows :: "summary_row \<Rightarrow> summary_row list \<Rightarrow> summary_row list" where
  "upsert_summary_rows new rows =
     (if \<exists>r\<in>set rows. sr_key r = sr_key new
      then map (\<lambda>r. if sr_key r = sr_key new
                    then r\<lparr>sr_payload := sr_payload new, sr_groups := sr_groups new,
                           sr_total_count := sr_total_count new, sr_updated_at := sr_updated_at new\<rparr>
                    else r) rows
      else rows @ [new])"

definition UpsertQuietSummary ::
    "faults \<Rightarrow> gotime \<Rightarrow> quiet_summary \<Rightarrow> queue \<Rightarrow> db_error option \<times> queue" where
  "UpsertQuietSummary bad now s q =
     (if bad UpsertSummary then (Some DbFailure, q)
      else (None, q\<lparr>q_summaries := upsert_summary_rows (summary_row_of now s) (q_summaries q)\<rparr>))"

definition GetQuietSummary :: "faults \<Rightarrow> string \<Rightarrow> queue \<Rightarrow> db_error + quiet_summary" where
  "GetQuietSummary bad key q =
     (if bad SelectSummary then Inl DbFailure
      else case find (\<lambda>r. sr_key r = key) (q_summaries q) of
             None \<Rightarrow> Inl NoRows
           | Some r \<Rightarrow> summary_of_row r)"

fun summaries_of_rows :: "summary_row list \<Rightarrow> db_error + quiet_summary list" where
  "summaries_of_rows [] = Inr []"
| "summaries_of_rows (r # rs) =
     (case summary_of_row r of
        Inl e \<Rightarrow> Inl e
      | Inr s \<Rightarrow> (case summaries_of_rows rs of Inl e \<Rightarrow> Inl e | Inr ss \<Rightarrow> Inr (s # ss)))"

definition DueQuietSummaries :: "faults \<Rightarrow> gotime \<Rightarrow> queue \<Rightarrow> db_error + quiet_summary list" where
  "DueQuietSummaries bad now q =
     (if bad SelectSummaries then Inl DbFailure
      else summaries_of_rows
             (sort_key sr_period_end (filter (\<lambda>r. sr_period_end r \<le> Unix now) (q_summaries q))))"

definition DeleteQuietSummary :: "faults \<Rightarrow> string \<Rightarrow> queue \<Rightarrow> db_error option \<times> queue" where
  "DeleteQuietSummary bad key q =
     (if bad DeleteSummary then (Some DbFailure, q)
      else (None, q\<lparr>q_summaries := filter (\<lambda>r. sr_key r \<noteq> key) (q_summaries q)\<rparr>))"

definition QuietPeriodGrouping ::
    "faults \<Rightarrow> string \<Rightarrow> gotime \<Rightarrow> bool \<Rightarrow> queue \<Rightarrow> (db_error + bool) \<times> queue" where
  "QuietPeriodGrouping bad key periodEnd configured q =
     (if bad InsertMode then (Inl DbFailure, q)
      else
        let q' = (if q_modes q key = None
                  then q\<lparr>q_modes := (q_modes q)(key \<mapsto> (configured, Unix periodEnd))\<rparr> else q)
        in if bad SelectMode then (Inl DbFailure, q')
           else (case q_modes q' key of None \<Rightarrow> (Inl NoRows, q') | Some (g, _) \<Rightarrow> (Inr g, q')))"

definition CleanupQuietPeriodModes :: "faults \<Rightarrow> gotime \<Rightarrow> queue \<Rightarrow> queue" where
  "CleanupQuietPeriodModes bad now q =
     (if bad DeleteMode then q
      else q\<lparr>q_modes := delete_where (\<lambda>_ v. snd v < Unix (now - 24 * Hour)) (q_modes q)\<rparr>)"

subsection \<open>Cooldowns\<close>

definition SetCooldown :: "faults \<Rightarrow> string \<Rightarrow> gotime \<Rightarrow> queue \<Rightarrow> db_error option \<times> queue" where
  "SetCooldown bad key expiresAt q =
     (if bad UpsertCooldown then (Some DbFailure, q)
      else (None, q\<lparr>q_cooldowns := (q_cooldowns q)(key \<mapsto> Unix expiresAt)\<rparr>))"

definition LoadCooldowns :: "faults \<Rightarrow> gotime \<Rightarrow> queue \<Rightarrow> db_error + (string \<rightharpoonup> gotime)" where
  "LoadCooldowns bad now q =
     (if bad SelectCooldowns then Inl DbFailure
      else Inr (\<lambda>k. case q_cooldowns q k of
                      None \<Rightarrow> None
                    | Some e \<Rightarrow> if e > Unix now then Some (time_Unix e) else None))"

definition CleanupCooldowns :: "faults \<Rightarrow> gotime \<Rightarrow> queue \<Rightarrow> queue" where
  "CleanupCooldowns bad now q =
     (if bad DeleteCooldowns then q
      else q\<lparr>q_cooldowns := delete_where (\<lambda>_ e. e \<le> Unix now) (q_cooldowns q)\<rparr>)"

subsection \<open>Invariant\<close>

text \<open>
  Row ids are unique and never above the last one handed out; a pending row has been tried at most
  twice; summary keys are unique.
\<close>

definition row_ok :: "int \<Rightarrow> queue_row \<Rightarrow> bool" where
  "row_ok last_id r \<longleftrightarrow> 1 \<le> qr_id r \<and> qr_id r \<le> last_id \<and> 0 \<le> qr_attempts r
     \<and> (qr_status r = Pending \<longrightarrow> qr_attempts r < 3)"

definition queue_inv :: "queue \<Rightarrow> bool" where
  "queue_inv q \<longleftrightarrow> 0 \<le> q_last_id q \<and> distinct (map qr_id (q_rows q))
     \<and> list_all (row_ok (q_last_id q)) (q_rows q) \<and> distinct (map sr_key (q_summaries q))"

lemma queue_inv_empty [inv_intros]: "queue_inv empty_queue"
  by (simp add: queue_inv_def empty_queue_def)

lemma Enqueue_inv [inv_intros]: "queue_inv q \<Longrightarrow> queue_inv (snd (Enqueue bad now n t q))"
proof -
  assume inv: "queue_inv q"
  have "row_ok (q_last_id q) r \<Longrightarrow> row_ok (q_last_id q + 1) r" for r by (simp add: row_ok_def)
  moreover have "q_last_id q + 1 \<notin> qr_id ` set (q_rows q)"
    using inv by (auto simp: queue_inv_def list_all_iff row_ok_def)
  ultimately show ?thesis
    using inv by (auto simp: queue_inv_def Enqueue_def Let_def list_all_iff) (simp add: row_ok_def)
qed

lemma map_id_update: "\<forall>r. qr_id (f r) = qr_id r \<Longrightarrow>
    map qr_id (map (\<lambda>r. if qr_id r = i then f r else r) rs) = map qr_id rs"
  by (induction rs) auto

lemma update_row_inv:
  assumes "queue_inv q" and "\<forall>r. qr_id (f r) = qr_id r"
    and "\<And>r. row_ok (q_last_id q) r \<Longrightarrow> row_ok (q_last_id q) (f r)"
  shows "queue_inv (update_row i f q)"
  using assms map_id_update [of f i "q_rows q"]
  by (auto simp: queue_inv_def update_row_def list_all_iff simp del: map_map)

lemma MarkSent_inv [inv_intros]: "queue_inv q \<Longrightarrow> queue_inv (snd (MarkSent bad i q))"
  by (auto simp: MarkSent_def intro!: update_row_inv) (auto simp: row_ok_def)

lemma UpdateDeliverAt_inv [inv_intros]: "queue_inv q \<Longrightarrow> queue_inv (snd (UpdateDeliverAt bad i t q))"
  by (auto simp: UpdateDeliverAt_def intro!: update_row_inv) (auto simp: row_ok_def)

lemma MarkFailed_inv [inv_intros]:
  "queue_inv q \<Longrightarrow> 0 \<le> attempts \<Longrightarrow> queue_inv (snd (MarkFailed bad now i attempts q))"
  by (auto simp: MarkFailed_def Let_def intro!: update_row_inv) (auto simp: row_ok_def)

lemma drop_row_inv [inv_intros]: "queue_inv q \<Longrightarrow> queue_inv (snd (drop_row bad i q))"
  by (auto simp: drop_row_def intro!: update_row_inv) (auto simp: row_ok_def)

lemma drain_rows_inv: "queue_inv q \<Longrightarrow> queue_inv (snd (snd (drain_rows bad rs acc q)))"
  by (induction bad rs acc q rule: drain_rows.induct) (auto split: payload.splits intro: drop_row_inv)

lemma DrainReady_inv [inv_intros]: "queue_inv q \<Longrightarrow> queue_inv (snd (snd (DrainReady bad now q)))"
  by (simp add: DrainReady_def drain_rows_inv)

lemma distinct_map_filter': "distinct (map f xs) \<Longrightarrow> distinct (map f (filter P xs))"
  by (induction xs) auto

lemma Cleanup_inv [inv_intros]: "queue_inv q \<Longrightarrow> queue_inv (Cleanup bad now age q)"
  by (auto simp: queue_inv_def Cleanup_def list_all_iff distinct_map_filter')

lemma map_sr_key_upd: "\<forall>r. sr_key (f r) = sr_key r \<Longrightarrow>
    map sr_key (map (\<lambda>r. if sr_key r = k then f r else r) rs) = map sr_key rs"
  by (induction rs) auto

lemma upsert_summary_distinct:
  "distinct (map sr_key rs) \<Longrightarrow> distinct (map sr_key (upsert_summary_rows new rs))"
  using map_sr_key_upd [of "\<lambda>r. r\<lparr>sr_payload := sr_payload new, sr_groups := sr_groups new,
      sr_total_count := sr_total_count new, sr_updated_at := sr_updated_at new\<rparr>" "sr_key new" rs]
  by (auto simp: upsert_summary_rows_def simp del: map_map)

lemma UpsertQuietSummary_inv [inv_intros]:
  "queue_inv q \<Longrightarrow> queue_inv (snd (UpsertQuietSummary bad now s q))"
  by (simp add: queue_inv_def UpsertQuietSummary_def upsert_summary_distinct)

lemma DeleteQuietSummary_inv [inv_intros]:
  "queue_inv q \<Longrightarrow> queue_inv (snd (DeleteQuietSummary bad k q))"
  by (simp add: queue_inv_def DeleteQuietSummary_def distinct_map_filter')

text \<open>The remaining operations touch neither the queue rows nor the summaries.\<close>

lemma side_tables_inv [inv_intros]:
  "queue_inv q \<Longrightarrow> queue_inv (snd (GetOrCreateAlertState bad now fp sid h c t q))"
  "queue_inv q \<Longrightarrow> queue_inv (snd (UpsertAlertState bad now s q))"
  "queue_inv q \<Longrightarrow> queue_inv (CleanupAlertState bad now d q)"
  "queue_inv q \<Longrightarrow> queue_inv (snd (GetOrCreateUniqueState bad now fp sid k q))"
  "queue_inv q \<Longrightarrow> queue_inv (snd (UpsertUniqueState bad now u q))"
  "queue_inv q \<Longrightarrow> queue_inv (CleanupUniqueState bad now d q)"
  "queue_inv q \<Longrightarrow> queue_inv (snd (QuietPeriodGrouping bad k pe b q))"
  "queue_inv q \<Longrightarrow> queue_inv (CleanupQuietPeriodModes bad now q)"
  "queue_inv q \<Longrightarrow> queue_inv (snd (SetCooldown bad k pe q))"
  "queue_inv q \<Longrightarrow> queue_inv (CleanupCooldowns bad now q)"
  by (auto simp: queue_inv_def GetOrCreateAlertState_def UpsertAlertState_def CleanupAlertState_def
      GetOrCreateUniqueState_def UpsertUniqueState_def CleanupUniqueState_def QuietPeriodGrouping_def
      CleanupQuietPeriodModes_def SetCooldown_def CleanupCooldowns_def Let_def
      split: option.splits)

subsection \<open>Draining\<close>

definition well_formed_row :: "queue_row \<Rightarrow> bool" where
  "well_formed_row r = (case qr_payload r of Payload _ \<Rightarrow> True | Malformed _ \<Rightarrow> False)"

definition drained_of :: "queue_row \<Rightarrow> queued_notification" where
  "drained_of r = \<lparr>qn_ID = qr_id r, qn_SubscriptionID = qr_subscription_id r,
     qn_DispatcherID = qr_dispatcher_id r,
     qn_Notification = (case qr_payload r of Payload n \<Rightarrow> n | Malformed _ \<Rightarrow> undefined),
     qn_DeliverAt = qr_deliver_at r, qn_Attempts = qr_attempts r\<rparr>"

lemma drain_rows_wf:
  "list_all well_formed_row rs \<Longrightarrow> drain_rows bad rs acc q = (acc @ map drained_of rs, None, q)"
  by (induction rs arbitrary: acc)
    (auto simp: well_formed_row_def drained_of_def split: payload.splits)

lemma set_ready_rows:
  "set (ready_rows now q) = {r \<in> set (q_rows q). qr_status r = Pending \<and> qr_deliver_at r \<le> now}"
  by (auto simp: ready_rows_def)

lemma DrainReady_wf:
  assumes "\<not> bad SelectReady" and "list_all well_formed_row (ready_rows now q)"
  shows "DrainReady bad now q = (map drained_of (ready_rows now q), None, q)"
  using assms by (simp add: DrainReady_def drain_rows_wf)

text \<open>C7. When every due payload parses, draining returns exactly the pending rows whose time has come,
each once and in the order of their delivery time, and leaves the database unchanged.\<close>

theorem DrainReady_exact:
  assumes "\<not> bad SelectReady"
    and "\<forall>r\<in>set (q_rows q). qr_status r = Pending \<and> qr_deliver_at r \<le> now \<longrightarrow> well_formed_row r"
    and "DrainReady bad now q = (items, err, q')"
  shows "err = None \<and> q' = q \<and> sorted (map qn_DeliverAt items)
    \<and> mset items = mset (map drained_of (filter (\<lambda>r. qr_status r = Pending \<and> qr_deliver_at r \<le> now) (q_rows q)))"
proof -
  have "list_all well_formed_row (ready_rows now q)"
    using assms(2) by (auto simp: list_all_iff set_ready_rows)
  then have "items = map drained_of (ready_rows now q)" "err = None" "q' = q"
    using DrainReady_wf [of bad now q] assms(1,3) by auto
  moreover have "map qn_DeliverAt (map drained_of rs) = map qr_deliver_at rs" for rs
    by (simp add: drained_of_def)
  moreover have "sorted (map qr_deliver_at (ready_rows now q))" by (simp add: ready_rows_def)
  moreover have "mset (ready_rows now q)
      = mset (filter (\<lambda>r. qr_status r = Pending \<and> qr_deliver_at r \<le> now) (q_rows q))"
    by (simp add: ready_rows_def)
  ultimately show ?thesis by (simp only: mset_map simp_thms)
qed

definition sample_notification :: notification where
  "sample_notification = \<lparr>n_ID = ''n1'', n_Type = LogNotification, n_Detail = ''boom'',
     n_Container = \<lparr>nc_ID = ''c1'', nc_Name = ''web'', nc_Image = [], nc_State = [], nc_Health = [],
       nc_HostID = [], nc_HostName = ''h'', nc_HostGroup = [], nc_Labels = Map.empty\<rparr>,
     n_Log = None, n_Stat = None, n_Event = None,
     n_Subscription = zero_SubscriptionConfig\<lparr>sub_ID := 7, DispatcherID := 3\<rparr>,
     n_Timestamp = 5, n_NtfyTopic = [], n_NtfyPriority = 3, n_NtfyTags = [], n_Context = []\<rparr>"

definition sample_queue :: queue where
  "sample_queue = snd (Enqueue (\<lambda>_. False) 10 sample_notification 20 empty_queue)"

lemma sample_queue_rows: "\<exists>r. q_rows sample_queue = [r] \<and> well_formed_row r \<and> qr_status r = Pending
    \<and> qr_deliver_at r = 20"
  by (simp add: sample_queue_def Enqueue_def Let_def empty_queue_def well_formed_row_def Payload_of_def)

theorem DrainReady_exact_witness:
  "\<exists>items. DrainReady (\<lambda>_. False) 25 sample_queue = (items, None, sample_queue)
    \<and> sorted (map qn_DeliverAt items) \<and> length items = 1"
proof -
  obtain items err q' where d: "DrainReady (\<lambda>_. False) 25 sample_queue = (items, err, q')"
    by (cases "DrainReady (\<lambda>_. False) 25 sample_queue") auto
  obtain r where r: "q_rows sample_queue = [r]" "well_formed_row r" "qr_status r = Pending"
    "qr_deliver_at r = 20" using sample_queue_rows by auto
  have "err = None \<and> q' = sample_queue \<and> sorted (map qn_DeliverAt items)
      \<and> mset items = mset (map drained_of [r])"
    using DrainReady_exact [OF _ _ d] r by simp
  then show ?thesis using d by (metis length_map list.size(3,4) One_nat_def size_mset add_0)
qed

text \<open>A queued notification survives a restart of the process: once its time has come, and as long as
no due row is malformed, draining returns it with the dispatcher it was meant for and with every
field it was queued with except the two that are not serialised.\<close>

theorem Enqueue_then_drain:
  assumes "\<not> bad InsertQueue" and "\<not> bad' SelectReady" and "deliverAt \<le> later"
    and "\<forall>r\<in>set (q_rows q). well_formed_row r"
    and "Enqueue bad now n deliverAt q = (err, q1)"
  shows "err = None \<and>
    \<lparr>qn_ID = q_last_id q + 1, qn_SubscriptionID = sub_ID (n_Subscription n),
     qn_DispatcherID = DispatcherID (n_Subscription n), qn_Notification = json_transit n,
     qn_DeliverAt = deliverAt, qn_Attempts = 0\<rparr> \<in> set (fst (DrainReady bad' later q1))"
proof -
  have q1: "err = None" "q_rows q1 = q_rows q @ [\<lparr>qr_id = q_last_id q + 1,
      qr_subscription_id = sub_ID (n_Subscription n), qr_dispatcher_id = DispatcherID (n_Subscription n),
      qr_payload = Payload_of n, qr_ntfy_topic = n_NtfyTopic n, qr_ntfy_priority = n_NtfyPriority n,
      qr_created_at = now, qr_deliver_at = deliverAt, qr_attempts = 0, qr_status = Pending\<rparr>]"
    (is "_ = _ @ [?new]") using assms(1,5) by (auto simp: Enqueue_def Let_def)
  have "list_all well_formed_row (ready_rows later q1)"
    using assms(4) q1(2) by (auto simp: list_all_iff set_ready_rows well_formed_row_def Payload_of_def)
  moreover have "?new \<in> set (ready_rows later q1)" using q1(2) assms(3) by (simp add: set_ready_rows)
  moreover have "drained_of ?new = \<lparr>qn_ID = q_last_id q + 1, qn_SubscriptionID = sub_ID (n_Subscription n),
     qn_DispatcherID = DispatcherID (n_Subscription n), qn_Notification = json_transit n,
     qn_DeliverAt = deliverAt, qn_Attempts = 0\<rparr>" by (simp add: drained_of_def Payload_of_def)
  ultimately show ?thesis
    using q1(1) DrainReady_wf [of bad' later q1] assms(2) by (metis fst_conv image_eqI set_map)
qed

theorem Enqueue_then_drain_witness:
  "\<lparr>qn_ID = 1, qn_SubscriptionID = 7, qn_DispatcherID = 3, qn_Notification = json_transit sample_notification,
     qn_DeliverAt = 20, qn_Attempts = 0\<rparr> \<in> set (fst (DrainReady (\<lambda>_. False) 25 sample_queue))"
proof -
  have s: "sub_ID (n_Subscription sample_notification) = 7"
    "DispatcherID (n_Subscription sample_notification) = 3" "q_last_id empty_queue = 0"
    "q_rows empty_queue = []"
    by (simp_all add: sample_notification_def empty_queue_def)
  have e: "Enqueue (\<lambda>_. False) 10 sample_notification 20 empty_queue = (None, sample_queue)"
    by (simp add: sample_queue_def Enqueue_def Let_def)
  show ?thesis using Enqueue_then_drain [OF _ _ _ _ e, of "\<lambda>_. False" 25] s by simp
qed

text \<open>One unreadable row at the head of the queue stops delivery: the rows behind it are not returned,
the call ends with the deadline of its context, and only the unreadable row is dropped.\<close>

theorem malformed_row_blocks_drain:
  assumes "\<not> bad SelectReady" and "ready_rows now q = r # rs" and "\<not> well_formed_row r"
  shows "DrainReady bad now q = ([], Some DeadlineExceeded, snd (drop_row bad (qr_id r) q))"
  using assms by (auto simp: DrainReady_def well_formed_row_def split: payload.splits)

definition blocked_queue :: queue where
  "blocked_queue = sample_queue\<lparr>q_rows :=
     \<lparr>qr_id = 0, qr_subscription_id = 0, qr_dispatcher_id = 0, qr_payload = Malformed ''{'',
      qr_ntfy_topic = [], qr_ntfy_priority = 3, qr_created_at = 0, qr_deliver_at = 1, qr_attempts = 0,
      qr_status = Pending\<rparr> # q_rows sample_queue\<rparr>"

theorem malformed_row_blocks_drain_witness:
  "fst (DrainReady (\<lambda>_. False) 25 blocked_queue) = []
    \<and> (\<exists>r\<in>set (q_rows blocked_queue). qr_status r = Pending \<and> qr_deliver_at r \<le> 25 \<and> well_formed_row r)"
proof -
  obtain r where r: "q_rows sample_queue = [r]" "well_formed_row r" "qr_status r = Pending"
    "qr_deliver_at r = 20" using sample_queue_rows by auto
  let ?m = "\<lparr>qr_id = 0, qr_subscription_id = 0, qr_dispatcher_id = 0, qr_payload = Malformed ''{'',
      qr_ntfy_topic = [], qr_ntfy_priority = 3, qr_created_at = 0, qr_deliver_at = 1, qr_attempts = 0,
      qr_status = Pending\<rparr>"
  have "ready_rows 25 blocked_queue = ?m # [r]"
    using r by (simp add: ready_rows_def blocked_queue_def)
  then have "fst (DrainReady (\<lambda>_. False) 25 blocked_queue) = []"
    using malformed_row_blocks_drain [of "\<lambda>_. False" 25 blocked_queue ?m "[r]"]
    by (simp add: well_formed_row_def)
  then show ?thesis using r by (simp add: blocked_queue_def)
qed

subsection \<open>Calls on the queue\<close>

text \<open>
  One call on the queue: any operation with any arguments and with any of its statements failing.  The number of attempts
  passed to \<open>MarkFailed\<close> is a count; whether the row is still pending it does not ask.
\<close>

inductive queue_step :: "queue \<Rightarrow> queue \<Rightarrow> bool" where
  enqueue: "queue_step q (snd (Enqueue bad now n t q))"
| drain: "queue_step q (snd (snd (DrainReady bad now q)))"
| sent: "queue_step q (snd (MarkSent bad i q))"
| reschedule: "queue_step q (snd (UpdateDeliverAt bad i t q))"
| failed: "0 \<le> attempts \<Longrightarrow> queue_step q (snd (MarkFailed bad now i attempts q))"
| cleanup: "queue_step q (Cleanup bad now age q)"
| alert_get: "queue_step q (snd (GetOrCreateAlertState bad now fp sid h c ty q))"
| alert_put: "queue_step q (snd (UpsertAlertState bad now s q))"
| alert_clean: "queue_step q (CleanupAlertState bad now age q)"
| unique_get: "queue_step q (snd (GetOrCreateUniqueState bad now fp sid k q))"
| unique_put: "queue_step q (snd (UpsertUniqueState bad now u q))"
| unique_clean: "queue_step q (CleanupUniqueState bad now age q)"
| summary_put: "queue_step q (snd (UpsertQuietSummary bad now sm q))"
| summary_del: "queue_step q (snd (DeleteQuietSummary bad k q))"
| mode: "queue_step q (snd (QuietPeriodGrouping bad k t b q))"
| mode_clean: "queue_step q (CleanupQuietPeriodModes bad now q)"
| cooldown: "queue_step q (snd (SetCooldown bad k t q))"
| cooldown_clean: "queue_step q (CleanupCooldowns bad now q)"

inductive_cases queue_stepE: "queue_step q q'"

lemma queue_step_inv: "queue_step q q' \<Longrightarrow> queue_inv q \<Longrightarrow> queue_inv q'"
  by (induction rule: queue_step.induct) (auto intro: inv_intros)

text \<open>A row id that was handed out and whose row, if it still exists, is no longer pending.\<close>

definition settled :: "int \<Rightarrow> queue \<Rightarrow> bool" where
  "settled i q \<longleftrightarrow> i \<le> q_last_id q \<and> (\<forall>r\<in>set (q_rows q). qr_id r = i \<longrightarrow> qr_status r \<noteq> Pending)"

lemma settled_update:
  assumes "settled i q" and "\<And>r. qr_id (f r) = qr_id r" and "i \<noteq> j \<or> (\<forall>r. qr_status (f r) \<noteq> Pending)"
  shows "settled i (update_row j f q)"
  using assms by (auto simp: settled_def update_row_def)

lemma drain_rows_ids:
  "qn_ID ` set (fst (drain_rows bad rs acc q)) \<subseteq> qn_ID ` set acc \<union> qr_id ` set rs"
  by (induction bad rs acc q rule: drain_rows.induct) (auto split: payload.splits)

definition due_ids :: "faults \<Rightarrow> gotime \<Rightarrow> queue \<Rightarrow> int set" where
  "due_ids bad now q = qn_ID ` set (fst (DrainReady bad now q))"

lemma settled_not_due: "settled i q \<Longrightarrow> i \<notin> due_ids bad now q"
  using drain_rows_ids [of bad "ready_rows now q" "[]" q]
  by (auto simp: due_ids_def DrainReady_def settled_def set_ready_rows split: if_splits)

text \<open>
  What the delivery loop relies on: an identifier that is settled is never handed out again, whatever
  happens in between, and the number of times it was handed out stays what it is.
\<close>

locale once_queue =
  fixes step :: "'q \<Rightarrow> 'q \<Rightarrow> bool"
    and closed :: "'i \<Rightarrow> 'q \<Rightarrow> bool"
    and offered :: "'t \<Rightarrow> 'q \<Rightarrow> 'i set"
    and handed :: "'i \<Rightarrow> 'q \<Rightarrow> nat"
  assumes closed_step: "step q q' \<Longrightarrow> closed i q \<Longrightarrow> closed i q'"
    and closed_not_offered: "closed i q \<Longrightarrow> i \<notin> offered t q"
    and closed_handed: "step q q' \<Longrightarrow> closed i q \<Longrightarrow> handed i q' = handed i q"
begin

lemma closed_reachable: "step\<^sup>*\<^sup>* q q' \<Longrightarrow> closed i q \<Longrightarrow> closed i q'"
  by (induction rule: rtranclp_induct) (auto intro: closed_step)

lemma never_offered_again: "step\<^sup>*\<^sup>* q q' \<Longrightarrow> closed i q \<Longrightarrow> i \<notin> offered t q'"
  using closed_reachable closed_not_offered by blast

lemma handed_no_more: "step\<^sup>*\<^sup>* q q' \<Longrightarrow> closed i q \<Longrightarrow> handed i q' = handed i q"
  by (induction rule: rtranclp_induct) (auto simp: closed_handed dest: closed_reachable)

end

text \<open>C26. Every queue operation, with any of its statements failing and for any row and any number of attempts that is not negative, keeps the queue's invariant: row ids
are positive, unique and never above the last one handed out, a row that is still pending has been
tried at most twice, and summary keys are unique.\<close>

theorem queue_invariant_reachable:
  assumes "queue_step\<^sup>*\<^sup>* empty_queue q"
  shows "0 \<le> q_last_id q \<and> distinct (map qr_id (q_rows q)) \<and> distinct (map sr_key (q_summaries q))
    \<and> (\<forall>r\<in>set (q_rows q). 1 \<le> qr_id r \<and> qr_id r \<le> q_last_id q
         \<and> (qr_status r = Pending \<longrightarrow> 0 \<le> qr_attempts r \<and> qr_attempts r < 3))"
proof -
  have "queue_inv q"
    using assms by (induction rule: rtranclp_induct) (auto intro: queue_step_inv inv_intros)
  then show ?thesis by (auto simp: queue_inv_def list_all_iff row_ok_def)
qed

theorem queue_invariant_reachable_witness:
  "distinct (map qr_id (q_rows sample_queue))"
proof -
  have "queue_step empty_queue sample_queue" unfolding sample_queue_def by (rule queue_step.enqueue)
  then show ?thesis using queue_invariant_reachable [of sample_queue] by blast
qed

end
