(* ===== verification/AlertModifiers.thy ===== *)
theory AlertModifiers
  imports Subscription QuietHours NotifQueue
begin

text \<open>
  Alert fingerprints (\<open>fingerprint.go\<close>) and the modifiers of \<open>modifiers.go\<close>: tags and context lines,
  burst escalation and unique suppression, with its persistent and its in-memory state.

  What the code takes from elsewhere is one record of functions: SHA-256 in hexadecimal, the regular
  expressions that strip ANSI codes and normalise summary texts, JSON printing of structured
  messages, the layouts of \<open>time.Format\<close>, \<open>Duration.String\<close> and \<open>%.1f\<close>, the expression compilers
  and the time-zone database.
\<close>

record env_lib =
  sha256_hex :: "string \<Rightarrow> string"
  strip_ansi :: "string \<Rightarrow> string"
  normalize_regex :: "string \<Rightarrow> string"
  json_text :: "(string \<rightharpoonup> json) \<Rightarrow> string"
  json_value_text :: "json \<Rightarrow> string"
  format_rfc3339 :: "gotime \<Rightarrow> string"
  format_minute :: "location \<Rightarrow> gotime \<Rightarrow> string"
  format_clock :: "location \<Rightarrow> gotime \<Rightarrow> string"
  format_duration :: "duration \<Rightarrow> string"
  format_percent :: "real \<Rightarrow> string"
  compilers :: expr_lib
  zones :: tz_db

subsection \<open>Fingerprints\<close>

text \<open>The character class \<open>\s\<close> of \<open>regexp\<close>; \<open>multiSpace\<close> replaces each run by one space.\<close>

definition is_re_space :: "char \<Rightarrow> bool" where
  "is_re_space c \<longleftrightarrow> c \<in> {CHR '' '', CHR 0x09, CHR 0x0A, CHR 0x0C, CHR 0x0D}"

fun collapse_spaces :: "string \<Rightarrow> string" where
  "collapse_spaces [] = []"
| "collapse_spaces [c] = [if is_re_space c then CHR '' '' else c]"
| "collapse_spaces (c # d # cs) =
     (if is_re_space c \<and> is_re_space d then collapse_spaces (d # cs)
      else (if is_re_space c then CHR '' '' else c) # collapse_spaces (d # cs))"

definition normalizeMessage :: "string \<Rightarrow> string" where
  "normalizeMessage s =
     (let t = collapse_spaces (TrimSpace s) in if length t > 200 then take 200 t else t)"

definition alertFingerprint :: "env_lib \<Rightarrow> string \<Rightarrow> string \<Rightarrow> string \<Rightarrow> string \<Rightarrow> string \<Rightarrow> string" where
  "alertFingerprint lib subscriptionName hostName containerName alertType rawMessage =
     sha256_hex lib (str_join [CHR 0x00]
       [subscriptionName, hostName, containerName, alertType, normalizeMessage rawMessage])"

subsection \<open>Tags and context\<close>

definition appendUniqueTag :: "string list \<Rightarrow> string \<Rightarrow> string list" where
  "appendUniqueTag tags tag = (if tag \<in> set tags then tags else tags @ [tag])"

definition addContext :: "string \<Rightarrow> string \<Rightarrow> notification \<Rightarrow> notification" where
  "addContext label val n =
     (if val = [] then n else n\<lparr>n_Context := n_Context n @ [\<lparr>nx_Label = label, nx_Value = val\<rparr>]\<rparr>)"

definition addModifierTag :: "string \<Rightarrow> notification \<Rightarrow> notification" where
  "addModifierTag tag n = n\<lparr>n_NtfyTags := appendUniqueTag (n_NtfyTags n) tag\<rparr>"

definition formatDurationSeconds :: "env_lib \<Rightarrow> int \<Rightarrow> string" where
  "formatDurationSeconds lib seconds =
     (if seconds \<le> 0 then ''0s''
      else if seconds mod 86400 = 0 then show_int (seconds div 86400) @ ''d''
      else if seconds mod 3600 = 0 then show_int (seconds div 3600) @ ''h''
      else if seconds mod 60 = 0 then show_int (seconds div 60) @ ''m''
      else format_duration lib (time_Seconds seconds))"

definition applyBurstModifier ::
    "env_lib \<Rightarrow> 'a subscription_config_scheme \<Rightarrow> bool \<Rightarrow> int \<Rightarrow> notification \<Rightarrow> notification" where
  "applyBurstModifier lib sub escalated hits n =
     (if \<not> escalated then n
      else
        let n1 = addModifierTag ''burst'' n;
            n2 = (if BurstNtfyTopic sub \<noteq> [] then n1\<lparr>n_NtfyTopic := BurstNtfyTopic sub\<rparr> else n1);
            n3 = addContext ''Burst''
                   (show_int hits @ '' hits / '' @ formatDurationSeconds lib (BurstWindow sub)) n2
        in addContext ''Delivery'' ''burst escalated'' n3)"

subsection \<open>Unique suppression\<close>

record unique_decision =
  ud_Allowed :: bool
  ud_Key :: string
  ud_Count :: int
  ud_Threshold :: int
  ud_Window :: int
  ud_ThresholdReached :: bool
  ud_Sent :: bool
  ud_WindowStart :: gotime

definition allow_decision :: unique_decision where
  "allow_decision = \<lparr>ud_Allowed = True, ud_Key = [], ud_Count = 0, ud_Threshold = 0, ud_Window = 0,
     ud_ThresholdReached = False, ud_Sent = False, ud_WindowStart = zero_time\<rparr>"

definition advanceUniqueState ::
    "int \<Rightarrow> gotime \<Rightarrow> bool \<Rightarrow> string \<Rightarrow> int \<Rightarrow> int \<Rightarrow> gotime \<Rightarrow> duration \<Rightarrow> unique_decision" where
  "advanceUniqueState cnt windowStart sent key threshold windowSeconds now window =
     (let expired = IsZero windowStart \<or> now > windowStart + window;
          count0 = (if expired then 0 else cnt);
          sent0 = (if expired then False else sent);
          start0 = (if expired then now else windowStart);
          count1 = count0 + 1;
          allowed = (\<not> sent0 \<and> count1 \<ge> threshold)
      in \<lparr>ud_Allowed = allowed, ud_Key = key, ud_Count = count1, ud_Threshold = threshold,
          ud_Window = windowSeconds, ud_ThresholdReached = (allowed \<and> threshold > 1),
          ud_Sent = (sent0 \<or> allowed), ud_WindowStart = start0\<rparr>)"

definition evaluateUniqueInMemory ::
    "string \<Rightarrow> string \<Rightarrow> int \<Rightarrow> gotime \<Rightarrow> duration \<Rightarrow> subscription
       \<Rightarrow> go_panic + unique_decision \<times> subscription" where
  "evaluateUniqueInMemory fp key threshold now window sub =
     (case UniqueTrackers sub of
        None \<Rightarrow> Inl NilDereference
      | Some m \<Rightarrow>
          (let state = (case m fp of
                          Some st \<Rightarrow> st
                        | None \<Rightarrow> \<lparr>us_Count = 0, us_WindowStart = now, us_Sent = False\<rparr>);
               d = advanceUniqueState (us_Count state) (us_WindowStart state) (us_Sent state) key
                     threshold (UniqueWindow sub) now window;
               state' = \<lparr>us_Count = ud_Count d, us_WindowStart = ud_WindowStart d, us_Sent = ud_Sent d\<rparr>
           in Inr (d, sub\<lparr>UniqueTrackers := Some (m(fp \<mapsto> state'))\<rparr>)))"

text \<open>The manager's queue is \<open>None\<close> when persistence is disabled.\<close>

definition evaluateUnique ::
    "env_lib \<Rightarrow> faults \<Rightarrow> gotime \<Rightarrow> string \<Rightarrow> string \<Rightarrow> queue option \<Rightarrow> subscription
       \<Rightarrow> go_panic + unique_decision \<times> queue option \<times> subscription" where
  "evaluateUnique lib bad now containerID message mq sub =
     (case ExtractUniqueKey sub message of
        (_, False) \<Rightarrow> Inr (allow_decision, mq, sub)
      | (key, True) \<Rightarrow>
          (let threshold = (if UniqueThreshold sub \<le> 1 then 1 else UniqueThreshold sub);
               fp = alertFingerprint lib (sub_Name sub) [] containerID ''unique'' key;
               window = time_Seconds (UniqueWindow sub);
               in_memory = (\<lambda>mq'. case evaluateUniqueInMemory fp key threshold now window sub of
                              Inl p \<Rightarrow> Inl p
                            | Inr (d, sub') \<Rightarrow> Inr (d, mq', sub'))
           in case mq of
                None \<Rightarrow> in_memory None
              | Some q \<Rightarrow>
                  (case GetOrCreateUniqueState bad now fp (sub_ID sub) key q of
                     (Inl _, q1) \<Rightarrow> in_memory (Some q1)
                   | (Inr state, q1) \<Rightarrow>
                       (let d = advanceUniqueState (ur_Count state) (ur_WindowStart state)
                                  (ur_Sent state) key threshold (UniqueWindow sub) now window;
                            state' = state\<lparr>ur_Count := ud_Count d, ur_WindowStart := ud_WindowStart d,
                                           ur_Sent := ud_Sent d\<rparr>;
                            (_, q2) = UpsertUniqueState bad now state' q1
                        in Inr (d, Some q2, sub)))))"

definition applyUniqueModifier :: "env_lib \<Rightarrow> unique_decision \<Rightarrow> notification \<Rightarrow> notification" where
  "applyUniqueModifier lib d n =
     (if ud_Key d = [] then n
      else
        let n1 = addModifierTag ''unique'' n;
            n2 = (if ud_ThresholdReached d then addModifierTag ''threshold'' n1 else n1);
            n3 = addContext ''Unique key'' (ud_Key d) n2;
            n4 = addContext ''Hits''
                   (show_int (ud_Count d) @ '' / '' @ formatDurationSeconds lib (ud_Window d)) n3
        in if ud_ThresholdReached d
           then addContext ''Delivery''
                  (''threshold reached ('' @ show_int (ud_Threshold d) @ '' hits)'') n4
           else addContext ''Delivery'' ''first unique value in window'' n4)"

subsection \<open>One alert per key and window\<close>

text \<open>
  What is remembered of a key between two hits: the tracker of the subscription, or the row of the database, where the start of the
  window loses its fraction of a second.
\<close>

definition unique_memory :: "string \<Rightarrow> queue option \<Rightarrow> subscription \<Rightarrow> unique_state option" where
  "unique_memory fp mq sub =
     (case mq of
        None \<Rightarrow> (case UniqueTrackers sub of None \<Rightarrow> None | Some m \<Rightarrow> m fp)
      | Some q \<Rightarrow> map_option (\<lambda>r. \<lparr>us_Count = ur_Count r, us_WindowStart = ur_WindowStart r, us_Sent = ur_Sent r\<rparr>) (q_unique q fp))"

definition stored_start :: "queue option \<Rightarrow> gotime \<Rightarrow> gotime" where
  "stored_start mq t = (case mq of None \<Rightarrow> t | Some _ \<Rightarrow> time_Unix (Unix t))"

text \<open>The database answers and files rows under their fingerprint; without one the trackers exist.\<close>

definition unique_ready :: "faults \<Rightarrow> string \<Rightarrow> queue option \<Rightarrow> subscription \<Rightarrow> bool" where
  "unique_ready bad fp mq sub \<longleftrightarrow>
     (case mq of
        None \<Rightarrow> UniqueTrackers sub \<noteq> None
      | Some q \<Rightarrow> \<not> bad InsertUnique \<and> \<not> bad SelectUnique \<and> \<not> bad UpsertUnique
                 \<and> (case q_unique q fp of None \<Rightarrow> True | Some r \<Rightarrow> ur_Fingerprint r = fp))"

definition unique_limit :: "subscription \<Rightarrow> int" where
  "unique_limit sub = (if UniqueThreshold sub \<le> 1 then 1 else UniqueThreshold sub)"

text \<open>The decisions on a series of hits of a container, each with its instant and its message.\<close>

fun unique_hits ::
    "env_lib \<Rightarrow> faults \<Rightarrow> string \<Rightarrow> (gotime \<times> string) list \<Rightarrow> queue option \<Rightarrow> subscription \<Rightarrow> go_panic + unique_decision list" where
  "unique_hits lib bad c [] mq sub = Inr []"
| "unique_hits lib bad c ((now, message) # hits) mq sub =
     (case evaluateUnique lib bad now c message mq sub of
        Inl p \<Rightarrow> Inl p
      | Inr (d, mq', sub') \<Rightarrow>
          (case unique_hits lib bad c hits mq' sub' of Inl p \<Rightarrow> Inl p | Inr ds \<Rightarrow> Inr (d # ds)))"

text \<open>
  Hit \<open>e\<close> follows hit \<open>d\<close> of the same key: it counts up in the window of \<open>d\<close>, or opens a new one after that has expired.  The length of the
  window is the configured number of seconds, in 64-bit nanoseconds.
\<close>

definition follows :: "queue option \<Rightarrow> int \<Rightarrow> unique_decision \<Rightarrow> gotime \<Rightarrow> unique_decision \<Rightarrow> bool" where
  "follows mq secs d now e \<longleftrightarrow>
     (let start = stored_start mq (ud_WindowStart d)
      in if IsZero start \<or> now > start + time_Seconds secs
         then ud_WindowStart e = now \<and> ud_Count e = 1
         else ud_WindowStart e = start \<and> ud_Count e = ud_Count d + 1)"

definition unique_inv :: "int \<Rightarrow> unique_state \<Rightarrow> bool" where
  "unique_inv threshold st \<longleftrightarrow> 0 \<le> us_Count st \<and> (us_Sent st \<longleftrightarrow> threshold \<le> us_Count st)"

definition kept_state :: "queue option \<Rightarrow> unique_decision \<Rightarrow> unique_state" where
  "kept_state mq d = \<lparr>us_Count = ud_Count d, us_WindowStart = stored_start mq (ud_WindowStart d), us_Sent = ud_Sent d\<rparr>"

lemma advance_step:
  assumes "1 \<le> threshold" and "unique_inv threshold st"
    and "d = advanceUniqueState (us_Count st) (us_WindowStart st) (us_Sent st) key threshold secs now w"
  shows "ud_Allowed d \<longleftrightarrow> ud_Count d = threshold" and "unique_inv threshold (kept_state mq d)" and "1 \<le> ud_Count d"
  using assms by (auto simp: advanceUniqueState_def unique_inv_def kept_state_def Let_def)

lemma extract_frame [simp]: "ExtractUniqueKey (sub\<lparr>UniqueTrackers := x\<rparr>) msg = ExtractUniqueKey sub msg"
  by (simp add: ExtractUniqueKey_def)

lemma limit_frame [simp]: "unique_limit (sub\<lparr>UniqueTrackers := x\<rparr>) = unique_limit sub"
  by (simp add: unique_limit_def)

definition unique_current :: "string \<Rightarrow> gotime \<Rightarrow> queue option \<Rightarrow> subscription \<Rightarrow> unique_state" where
  "unique_current fp now mq sub =
     (case unique_memory fp mq sub of
        Some st \<Rightarrow> st | None \<Rightarrow> \<lparr>us_Count = 0, us_WindowStart = stored_start mq now, us_Sent = False\<rparr>)"

definition unique_verdict :: "string \<Rightarrow> string \<Rightarrow> gotime \<Rightarrow> queue option \<Rightarrow> subscription \<Rightarrow> unique_decision" where
  "unique_verdict fp key now mq sub =
     (let st = unique_current fp now mq sub
      in advanceUniqueState (us_Count st) (us_WindowStart st) (us_Sent st) key (unique_limit sub) (UniqueWindow sub) now
           (time_Seconds (UniqueWindow sub)))"

text \<open>One evaluation, with a database or without: the verdict on what is remembered, which is then remembered.\<close>

lemma evaluateUnique_step:
  assumes k: "ExtractUniqueKey sub message = (key, True)" and fp: "fp = alertFingerprint lib (sub_Name sub) [] c ''unique'' key"
    and ready: "unique_ready bad fp mq sub" and d: "d = unique_verdict fp key now mq sub"
  shows "\<exists>mq' x. evaluateUnique lib bad now c message mq sub = Inr (d, mq', sub\<lparr>UniqueTrackers := x\<rparr>)
    \<and> (mq' = None \<longleftrightarrow> mq = None) \<and> unique_ready bad fp mq' (sub\<lparr>UniqueTrackers := x\<rparr>)
    \<and> unique_memory fp mq' (sub\<lparr>UniqueTrackers := x\<rparr>) = Some (kept_state mq d)"
proof (cases mq)
  case None
  then obtain m where m: "UniqueTrackers sub = Some m" using ready by (auto simp: unique_ready_def)
  have "evaluateUnique lib bad now c message mq sub = Inr (d, None, sub\<lparr>UniqueTrackers := Some (m(fp \<mapsto> kept_state mq d))\<rparr>)"
    by (simp add: evaluateUnique_def evaluateUniqueInMemory_def k None m fp [symmetric] Let_def d unique_verdict_def unique_current_def
        unique_memory_def kept_state_def stored_start_def unique_limit_def split: option.splits)
  then show ?thesis using None
    by (intro exI [of _ None] exI [of _ "Some (m(fp \<mapsto> kept_state mq d))"]) (simp add: unique_ready_def unique_memory_def)
next
  case (Some q)
  note r = ready [unfolded unique_ready_def Some option.case]
  define row where "row = (case q_unique q fp of Some r \<Rightarrow> r | None \<Rightarrow> \<lparr>ur_Fingerprint = fp, ur_SubscriptionID = sub_ID sub,
      ur_UniqueKey = key, ur_Count = 0, ur_WindowStart = time_Unix (Unix now), ur_Sent = False, ur_UpdatedAt = time_Unix (Unix now)\<rparr>)"
  define q1 where "q1 = (if q_unique q fp = None then q\<lparr>q_unique := (q_unique q)(fp \<mapsto> row)\<rparr> else q)"
  have g: "GetOrCreateUniqueState bad now fp (sub_ID sub) key q = (Inr row, q1)" and q1: "q_unique q1 fp = Some row" "ur_Fingerprint row = fp"
    using r by (auto simp: GetOrCreateUniqueState_def Let_def row_def q1_def split: option.splits)
  have v: "d = advanceUniqueState (ur_Count row) (ur_WindowStart row) (ur_Sent row) key (unique_limit sub) (UniqueWindow sub) now
      (time_Seconds (UniqueWindow sub))"
    by (simp add: d unique_verdict_def unique_current_def unique_memory_def Some stored_start_def row_def Let_def split: option.splits)
  define q2 where "q2 = snd (UpsertUniqueState bad now (row\<lparr>ur_Count := ud_Count d, ur_WindowStart := ud_WindowStart d, ur_Sent := ud_Sent d\<rparr>) q1)"
  have "evaluateUnique lib bad now c message mq sub = Inr (d, Some q2, sub)"
    by (simp add: evaluateUnique_def k Some fp [symmetric] Let_def g v [unfolded unique_limit_def, symmetric] q2_def split_beta)
  moreover have "q_unique q2 fp = Some (row\<lparr>ur_Count := ud_Count d, ur_WindowStart := time_Unix (Unix (ud_WindowStart d)), ur_Sent := ud_Sent d,
      ur_UpdatedAt := time_Unix (Unix now)\<rparr>)"
    using r q1 by (simp add: q2_def UpsertUniqueState_def Let_def)
  ultimately show ?thesis using Some r q1(2)
    by (intro exI [of _ "Some q2"] exI [of _ "UniqueTrackers sub"]) (simp add: unique_ready_def unique_memory_def kept_state_def stored_start_def)
qed

lemma verdict_follows:
  assumes "unique_memory fp mq' sub' = Some (kept_state mq d)" and "mq' = None \<longleftrightarrow> mq = None" and "UniqueWindow sub' = UniqueWindow sub"
  shows "follows mq (UniqueWindow sub) d now (unique_verdict fp key now mq' sub')"
  using assms by (simp add: unique_verdict_def unique_current_def follows_def advanceUniqueState_def kept_state_def Let_def)

lemma unique_hits_run:
  assumes "list_all (\<lambda>(now, message). ExtractUniqueKey sub message = (key, True)) hits"
    and "fp = alertFingerprint lib (sub_Name sub) [] c ''unique'' key" and "unique_ready bad fp mq sub"
    and "\<And>st. unique_memory fp mq sub = Some st \<Longrightarrow> unique_inv (unique_limit sub) st"
  shows "\<exists>ds. unique_hits lib bad c hits mq sub = Inr ds \<and> length ds = length hits
    \<and> (hits \<noteq> [] \<longrightarrow> hd ds = unique_verdict fp key (fst (hd hits)) mq sub)
    \<and> (\<forall>i<length hits. ud_Allowed (ds ! i) \<longleftrightarrow> ud_Count (ds ! i) = unique_limit sub)
    \<and> (\<forall>i. Suc i < length hits \<longrightarrow> follows mq (UniqueWindow sub) (ds ! i) (fst (hits ! Suc i)) (ds ! Suc i))"
  using assms
proof (induction hits arbitrary: mq sub)
  case (Cons h hits)
  obtain now message where h: "h = (now, message)" by fastforce
  define d where "d = unique_verdict fp key now mq sub"
  have k: "ExtractUniqueKey sub message = (key, True)" using Cons.prems(1) h by simp
  obtain mq' x where s: "evaluateUnique lib bad now c message mq sub = Inr (d, mq', sub\<lparr>UniqueTrackers := x\<rparr>)" "mq' = None \<longleftrightarrow> mq = None"
    "unique_ready bad fp mq' (sub\<lparr>UniqueTrackers := x\<rparr>)" "unique_memory fp mq' (sub\<lparr>UniqueTrackers := x\<rparr>) = Some (kept_state mq d)"
    using evaluateUnique_step [OF k Cons.prems(2,3) d_def] by blast
  have "unique_inv (unique_limit sub) (unique_current fp now mq sub)"
    using Cons.prems(4) by (auto simp: unique_current_def unique_inv_def unique_limit_def split: option.splits)
  then have adv: "ud_Allowed d \<longleftrightarrow> ud_Count d = unique_limit sub" "unique_inv (unique_limit sub) (kept_state mq d)"
    using advance_step [of "unique_limit sub" "unique_current fp now mq sub" d key "UniqueWindow sub" now "time_Seconds (UniqueWindow sub)"]
    by (simp_all add: d_def unique_verdict_def Let_def unique_limit_def)
  obtain ds where ds: "unique_hits lib bad c hits mq' (sub\<lparr>UniqueTrackers := x\<rparr>) = Inr ds" "length ds = length hits"
    "hits \<noteq> [] \<longrightarrow> hd ds = unique_verdict fp key (fst (hd hits)) mq' (sub\<lparr>UniqueTrackers := x\<rparr>)"
    "\<forall>i<length hits. ud_Allowed (ds ! i) \<longleftrightarrow> ud_Count (ds ! i) = unique_limit sub"
    "\<forall>i. Suc i < length hits \<longrightarrow> follows mq' (UniqueWindow sub) (ds ! i) (fst (hits ! Suc i)) (ds ! Suc i)"
    using Cons.IH [of "sub\<lparr>UniqueTrackers := x\<rparr>" mq'] Cons.prems(1,2) s(3,4) adv(2) by auto
  have same: "follows mq' w e t e' = follows mq w e t e'" for w e t e'
    using s(2) by (cases mq; cases mq') (simp_all add: follows_def stored_start_def)
  have "follows mq (UniqueWindow sub) ((d # ds) ! i) (fst ((h # hits) ! Suc i)) ((d # ds) ! Suc i)" if "Suc i < length (h # hits)" for i
  proof (cases i)
    case 0
    then have "ds ! 0 = unique_verdict fp key (fst (hits ! 0)) mq' (sub\<lparr>UniqueTrackers := x\<rparr>)"
      using that ds(2,3) by (cases hits; cases ds) auto
    then show ?thesis using verdict_follows [OF s(4,2), of sub] 0 by simp
  qed (use ds(5) that same in auto)
  moreover have "ud_Allowed ((d # ds) ! i) \<longleftrightarrow> ud_Count ((d # ds) ! i) = unique_limit sub" if "i < length (h # hits)" for i
    using that adv(1) ds(4) by (cases i) auto
  ultimately show ?case using s(1) ds(1,2) by (simp add: h d_def)
qed simp

text \<open>C24. Unique suppression lets exactly one alert through per key and window, with a working database or without one:
of a series of hits of one key on a container, the first opens a window, each later one counts up in the current window or, once
that has expired, opens a new one with count 1, and a hit is allowed exactly when its count in its window equals the threshold.  With a database the
start of the window is remembered to the second.\<close>

theorem unique_once_per_window:
  assumes "list_all (\<lambda>(now, message). ExtractUniqueKey sub message = (key, True)) hits"
    and "fp = alertFingerprint lib (sub_Name sub) [] c ''unique'' key" and "unique_ready bad fp mq sub" and "unique_memory fp mq sub = None"
  shows "\<exists>ds. unique_hits lib bad c hits mq sub = Inr ds \<and> length ds = length hits 
    \<and> (hits \<noteq> [] \<longrightarrow> ud_Count (hd ds) = 1 \<and> stored_start mq (ud_WindowStart (hd ds)) = stored_start mq (fst (hd hits)))
    \<and> (\<forall>i<length hits. ud_Allowed (ds ! i) \<longleftrightarrow> ud_Count (ds ! i) = max 1 (UniqueThreshold sub))
    \<and> (\<forall>i. Suc i < length hits \<longrightarrow> follows mq (UniqueWindow sub) (ds ! i) (fst (hits ! Suc i)) (ds ! Suc i))"
proof -
  have "ud_Count (unique_verdict fp key now mq sub) = 1 \<and> stored_start mq (ud_WindowStart (unique_verdict fp key now mq sub)) = stored_start mq now" for now
    using assms(4) by (simp add: unique_verdict_def unique_current_def advanceUniqueState_def stored_start_def time_Unix_def Unix_def Let_def split: option.split)
  moreover have "unique_limit sub = max 1 (UniqueThreshold sub)" by (simp add: unique_limit_def)
  ultimately show ?thesis using unique_hits_run [OF assms(1-3)] assms(4) by fastforce
qed

definition keyed_sub :: subscription where
  "keyed_sub = (new_subscription zero_SubscriptionConfig)\<lparr>UniqueWindow := 60, UniqueThreshold := 2, UniqueRegex := Some (\<lambda>s. [s])\<rparr>"

definition keyed_lib :: env_lib where
  "keyed_lib = \<lparr>sha256_hex = id, strip_ansi = id, normalize_regex = id, json_text = (\<lambda>_. []), json_value_text = (\<lambda>_. []),
     format_rfc3339 = show_int, format_minute = (\<lambda>_. show_int), format_clock = (\<lambda>_. show_int), format_duration = show_int,
     format_percent = (\<lambda>_. []),
     compilers = \<lparr>compile_container = (\<lambda>_. None), compile_log = (\<lambda>_. None), compile_metric = (\<lambda>_. None), compile_event = (\<lambda>_. None),
       compile_regex = (\<lambda>_. None)\<rparr>,
     zones = \<lparr>LoadLocation = (\<lambda>_. None), Local = \<lparr>loc_name = ''UTC'', loc_offset = (\<lambda>_. 0)\<rparr>\<rparr>\<rparr>"

theorem unique_once_per_window_witness:
  "\<exists>ds. unique_hits keyed_lib (\<lambda>_. False) ''c'' [(time_Unix 1, ''k''), (time_Unix 2, ''k''), (time_Unix 3, ''k''), (time_Unix 90, ''k'')]
       (Some empty_queue) keyed_sub = Inr ds
    \<and> length ds = 4 \<and> \<not> ud_Allowed (ds ! 0) \<and> ud_Allowed (ds ! 1) \<and> \<not> ud_Allowed (ds ! 2) \<and> ud_Count (ds ! 3) = 1"
proof -
  let ?hits = "[(time_Unix 1, ''k''), (time_Unix 2, ''k''), (time_Unix 3, ''k''), (time_Unix 90, ''k'')]"
  have "TrimSpace ''k'' = ''k''" by code_simp
  then have k: "ExtractUniqueKey keyed_sub ''k'' = (''k'', True)" "UniqueThreshold keyed_sub = 2" "UniqueWindow keyed_sub = 60"
    by (simp_all add: keyed_sub_def ExtractUniqueKey_def)
  define fp where "fp = alertFingerprint keyed_lib (sub_Name keyed_sub) [] ''c'' ''unique'' ''k''"
  have r: "unique_ready (\<lambda>_. False) fp (Some empty_queue) keyed_sub" "unique_memory fp (Some empty_queue) keyed_sub = None"
    by (simp_all add: unique_ready_def unique_memory_def empty_queue_def)
  obtain ds where ds: "unique_hits keyed_lib (\<lambda>_. False) ''c'' ?hits (Some empty_queue) keyed_sub = Inr ds" "length ds = length ?hits"
    "ud_Count (hd ds) = 1" "stored_start (Some empty_queue) (ud_WindowStart (hd ds)) = stored_start (Some empty_queue) (time_Unix 1)" "\<forall>i<length ?hits. ud_Allowed (ds ! i) \<longleftrightarrow> ud_Count (ds ! i) = max 1 (UniqueThreshold keyed_sub)"
    "\<forall>i. Suc i < length ?hits \<longrightarrow> follows (Some empty_queue) (UniqueWindow keyed_sub) (ds ! i) (fst (?hits ! Suc i)) (ds ! Suc i)"
    using unique_once_per_window [OF _ fp_def r, of ?hits] k(1) by auto
  obtain d0 d1 d2 d3 where d: "ds = [d0, d1, d2, d3]" using ds(2) by (auto simp: length_Suc_conv)
  have f: "follows (Some empty_queue) 60 d0 (time_Unix 2) d1" "follows (Some empty_queue) 60 d1 (time_Unix 3) d2"
    "follows (Some empty_queue) 60 d2 (time_Unix 90) d3"
    using ds(6) [rule_format, of 0] ds(6) [rule_format, of 1] ds(6) [rule_format, of 2] k(3) d by simp_all
  have w: "stored_start (Some empty_queue) t = time_Unix (Unix t)" "time_Seconds 60 = 60 * Second" "Unix (time_Unix u) = u"
    "IsZero (time_Unix u) \<longleftrightarrow> time_Unix u = zero_time" for t u
    by (simp_all add: stored_start_def time_Seconds_id IsZero_def time_Unix_def Unix_def)
  have c: "ud_Count d0 = 1" "ud_Count d1 = 2" "ud_Count d2 = 3" "ud_Count d3 = 1"
    using f ds(3,4) d by (simp_all add: follows_def w zero_time_def Let_def) (simp_all add: time_Unix_def Unix_def Second_def)
  have "ud_Allowed (ds ! 0) \<longleftrightarrow> ud_Count (ds ! 0) = 2" "ud_Allowed (ds ! 1) \<longleftrightarrow> ud_Count (ds ! 1) = 2" "ud_Allowed (ds ! 2) \<longleftrightarrow> ud_Count (ds ! 2) = 2"
    using ds(5) k(2) by simp_all
  then show ?thesis using ds(1,2) c d by (intro exI [of _ ds]) (simp del: unique_hits.simps)
qed

end
