(* ===== verification/QuietSummary.thy ===== *)
theory QuietSummary
  imports AlertModifiers
begin

text \<open>
  Quiet-hours summaries (\<open>quiet_summary.go\<close>): hits that arrive in quiet hours are counted per message
  shape in one row per subscription, container and quiet period, and rendered as one notification
  when the period is over.  The JSON of the groups is modelled by the list it encodes.
\<close>

definition maxQuietSummaryExample :: nat where "maxQuietSummaryExample = 1000"
definition maxQuietSummaryLength :: nat where "maxQuietSummaryLength = 12000"

definition normalizeQuietSummaryText :: "env_lib \<Rightarrow> string \<Rightarrow> string" where
  "normalizeQuietSummaryText lib text = collapse_spaces (TrimSpace (normalize_regex lib text))"

definition truncateQuietExample :: "string \<Rightarrow> string" where
  "truncateQuietExample text =
     (let t = TrimSpace text
      in if length t \<le> maxQuietSummaryExample then t
         else take (maxQuietSummaryExample - 3) t @ ''...'')"

definition quietSummaryFingerprint :: "env_lib \<Rightarrow> string \<Rightarrow> string" where
  "quietSummaryFingerprint lib text = sha256_hex lib (normalizeQuietSummaryText lib text)"

text \<open>The first group with the fingerprint is counted up, or a new group is appended.\<close>

fun bump_group ::
    "string \<Rightarrow> string \<Rightarrow> gotime \<Rightarrow> quiet_summary_group list \<Rightarrow> quiet_summary_group list" where
  "bump_group fp example now [] =
     [\<lparr>sg_Fingerprint = fp, sg_Count = 1, sg_FirstSeen = now, sg_LastSeen = now,
       sg_FirstExample = example, sg_LastExample = example\<rparr>]"
| "bump_group fp example now (g # gs) =
     (if sg_Fingerprint g \<noteq> fp then g # bump_group fp example now gs
      else g\<lparr>sg_Count := sg_Count g + 1, sg_LastSeen := now, sg_LastExample := example\<rparr> # gs)"

definition summary_key :: "int \<Rightarrow> notification \<Rightarrow> gotime \<Rightarrow> string" where
  "summary_key sid n periodStart =
     show_int sid @ '':'' @ nc_HostName (n_Container n) @ '':'' @ nc_ID (n_Container n) @ '':''
       @ show_int (Unix periodStart)"

definition add_hit ::
    "env_lib \<Rightarrow> 'a subscription_config_scheme \<Rightarrow> notification \<Rightarrow> gotime \<Rightarrow> quiet_summary \<Rightarrow> quiet_summary" where
  "add_hit lib sub n now summary =
     summary\<lparr>qs_Groups := bump_group (quietSummaryFingerprint lib (n_Detail n))
               (truncateQuietExample (n_Detail n)) now (qs_Groups summary),
             qs_TotalCount := qs_TotalCount summary + 1,
             qs_Notification := n\<lparr>n_NtfyTopic := sub_NtfyTopic sub, n_NtfyPriority := sub_NtfyPriority sub,
                                  n_NtfyTags := sub_NtfyTags sub\<rparr>\<rparr>"

definition aggregateQuietNotification ::
    "env_lib \<Rightarrow> faults \<Rightarrow> gotime \<Rightarrow> quiet_hours_config \<Rightarrow> notification
       \<Rightarrow> 'a subscription_config_scheme \<Rightarrow> queue \<Rightarrow> db_error option \<times> queue" where
  "aggregateQuietNotification lib bad clock qh n sub q =
     (let now = (if IsZero (n_Timestamp n) then clock else n_Timestamp n);
          (periodStart, periodEnd, loc) = quietSummaryPeriod (zones lib) qh sub now;
          key = summary_key (sub_ID sub) n periodStart
      in case GetQuietSummary bad key q of
           Inr summary \<Rightarrow> UpsertQuietSummary bad clock (add_hit lib sub n now summary) q
         | Inl NoRows \<Rightarrow>
             UpsertQuietSummary bad clock
               (add_hit lib sub n now
                  \<lparr>qs_Key = key, qs_SubscriptionID = sub_ID sub, qs_DispatcherID = DispatcherID sub,
                   qs_PeriodStart = periodStart, qs_PeriodEnd = periodEnd, qs_Timezone = loc_name loc,
                   qs_Notification = n, qs_Groups = [], qs_TotalCount = 0, qs_UpdatedAt = zero_time\<rparr>) q
         | Inl e \<Rightarrow> (Some e, q))"

definition shouldAggregateQuiet ::
    "env_lib \<Rightarrow> faults \<Rightarrow> gotime \<Rightarrow> quiet_hours_config \<Rightarrow> 'a subscription_config_scheme
       \<Rightarrow> queue option \<Rightarrow> bool \<times> queue option" where
  "shouldAggregateQuiet lib bad now qh sub mq =
     (case mq of
        None \<Rightarrow> (False, None)
      | Some q \<Rightarrow>
          (if BypassQuietHours sub then (False, mq)
           else if \<not> fst (effectiveQuietHours (zones lib) qh sub now) then (False, mq)
           else
             let (periodStart, periodEnd, _) = quietSummaryPeriod (zones lib) qh sub now;
                 key = show_int (sub_ID sub) @ '':'' @ show_int (Unix periodStart)
             in case QuietPeriodGrouping bad key periodEnd (GroupingEnabled qh) q of
                  (Inl _, q') \<Rightarrow> (GroupingEnabled qh, Some q')
                | (Inr grouping, q') \<Rightarrow> (grouping, Some q')))"

definition summaryNotification ::
    "gotime \<Rightarrow> 'a subscription_config_scheme \<Rightarrow> notification_type \<Rightarrow> string \<Rightarrow> notification_container
       \<Rightarrow> notification" where
  "summaryNotification now sub ty detail c =
     \<lparr>n_ID = nc_ID c @ ''-quiet-hit-'' @ show_int now, n_Type = ty, n_Detail = detail, n_Container = c,
      n_Log = None, n_Stat = None, n_Event = None,
      n_Subscription = zero_SubscriptionConfig
        \<lparr>sub_ID := sub_ID sub, sub_Name := sub_Name sub, DispatcherID := DispatcherID sub,
         sub_NtfyTopic := sub_NtfyTopic sub, sub_NtfyPriority := sub_NtfyPriority sub,
         sub_NtfyTags := sub_NtfyTags sub, BypassQuietHours := BypassQuietHours sub\<rparr>,
      n_Timestamp = now, n_NtfyTopic = sub_NtfyTopic sub, n_NtfyPriority = sub_NtfyPriority sub,
      n_NtfyTags = sub_NtfyTags sub, n_Context = []\<rparr>"

subsection \<open>Rendering\<close>

text \<open>
  Most frequent groups first, then the ones seen first; the sort is stable.  \<open>render_groups\<close> is the
  loop over the groups: it stops at the group limit or when the text would get too long, and returns
  the text, the number of groups shown and their hits.
\<close>

definition sort_groups :: "quiet_summary_group list \<Rightarrow> quiet_summary_group list" where
  "sort_groups gs = sort_key (\<lambda>g. - sg_Count g) (sort_key sg_FirstSeen gs)"

definition newline :: string where "newline = [CHR 0x0A]"

definition render_section :: "env_lib \<Rightarrow> location \<Rightarrow> int \<Rightarrow> quiet_summary_group \<Rightarrow> string" where
  "render_section lib loc shown g =
     newline @ show_int (shown + 1) @ ''. '' @ show_int (sg_Count g) @ ''x (''
       @ format_clock lib loc (sg_FirstSeen g) @ ''-'' @ format_clock lib loc (sg_LastSeen g) @ '')''
       @ newline @ ''First: '' @ sg_FirstExample g @ newline
       @ (if sg_LastExample g \<noteq> sg_FirstExample g then ''Last: '' @ sg_LastExample g @ newline else [])"

fun render_groups ::
    "env_lib \<Rightarrow> location \<Rightarrow> int \<Rightarrow> quiet_summary_group list \<Rightarrow> string \<Rightarrow> int \<Rightarrow> int \<Rightarrow> string \<times> int \<times> int" where
  "render_groups lib loc maxGroups [] b shown hits = (b, shown, hits)"
| "render_groups lib loc maxGroups (g # gs) b shown hits =
     (if shown \<ge> maxGroups then (b, shown, hits)
      else
        let section = render_section lib loc shown g
        in if length b + length section > maxQuietSummaryLength then (b, shown, hits)
           else render_groups lib loc maxGroups gs (b @ section) (shown + 1) (hits + sg_Count g))"

definition clamp_groups :: "int \<Rightarrow> int" where
  "clamp_groups n = (let m = (if n < 1 then defaultQuietSummaryGroups else n) in if m > 50 then 50 else m)"

definition summary_header :: "env_lib \<Rightarrow> location \<Rightarrow> quiet_summary \<Rightarrow> string" where
  "summary_header lib loc s =
     ''Quiet-hours summary: '' @ show_int (qs_TotalCount s) @ '' hits'' @ newline @ ''Period: ''
       @ format_minute lib loc (qs_PeriodStart s) @ ''-'' @ format_minute lib loc (qs_PeriodEnd s) @ newline"

definition renderQuietSummary :: "env_lib \<Rightarrow> quiet_summary \<Rightarrow> int \<Rightarrow> notification" where
  "renderQuietSummary lib summary maxGroups =
     (let groups = sort_groups (qs_Groups summary);
          loc = (case LoadLocation (zones lib) (qs_Timezone summary) of
                   None \<Rightarrow> Local (zones lib) | Some l \<Rightarrow> l);
          (b, shown, shownHits) =
            render_groups lib loc (clamp_groups maxGroups) groups (summary_header lib loc summary) 0 0;
          text = (if shown < int (length groups)
                  then b @ newline @ ''Other: '' @ show_int (int (length groups) - shown)
                         @ '' message groups, '' @ show_int (qs_TotalCount summary - shownHits) @ '' hits''
                  else b)
      in (qs_Notification summary)
           \<lparr>n_ID := ''quiet-summary-'' @ qs_Key summary, n_Detail := TrimSpace text, n_Log := None,
            n_Stat := None, n_Event := None, n_Timestamp := qs_PeriodEnd summary, n_Context := []\<rparr>)"

subsection \<open>Every hit is counted once\<close>

definition hits_of :: "string \<Rightarrow> quiet_summary_group list \<Rightarrow> int" where
  "hits_of fp gs = sum_list (map sg_Count (filter (\<lambda>g. sg_Fingerprint g = fp) gs))"

definition groups_ok :: "quiet_summary_group list \<Rightarrow> int \<Rightarrow> bool" where
  "groups_ok gs n \<longleftrightarrow> distinct (map sg_Fingerprint gs) \<and> (\<forall>g\<in>set gs. 1 \<le> sg_Count g)
     \<and> sum_list (map sg_Count gs) = n"

lemma bump_group_fingerprints:
  "sg_Fingerprint ` set (bump_group fp ex now gs) = insert fp (sg_Fingerprint ` set gs)"
  by (induction gs) auto

lemma bump_group_ok: "groups_ok gs n \<Longrightarrow> groups_ok (bump_group fp ex now gs) (n + 1)"
proof (induction gs arbitrary: n)
  case Nil
  then show ?case by (simp add: groups_ok_def)
next
  case (Cons g gs)
  then have "groups_ok gs (n - sg_Count g)" by (auto simp: groups_ok_def)
  from Cons.IH [OF this] Cons.prems show ?case
    using bump_group_fingerprints [of fp ex now gs] by (auto simp: groups_ok_def image_iff)
qed

lemma hits_of_bump: "distinct (map sg_Fingerprint gs) \<Longrightarrow>
    hits_of fp (bump_group fp' ex now gs) = hits_of fp gs + (if fp = fp' then 1 else 0)"
  by (induction gs) (auto simp: hits_of_def)

lemma GetQuietSummary_None:
  "key \<notin> sr_key ` set (q_summaries q) \<Longrightarrow> \<not> bad SelectSummary \<Longrightarrow> GetQuietSummary bad key q = Inl NoRows"
proof -
  assume a: "key \<notin> sr_key ` set (q_summaries q)" "\<not> bad SelectSummary"
  then have "find (\<lambda>r. sr_key r = key) (q_summaries q) = None" by (auto simp: find_None_iff)
  with a show ?thesis by (simp add: GetQuietSummary_def)
qed

definition stored_summary :: "queue \<Rightarrow> string \<Rightarrow> quiet_summary option" where
  "stored_summary q key = (case GetQuietSummary (\<lambda>_. False) key q of Inr s \<Rightarrow> Some s | Inl _ \<Rightarrow> None)"

lemma find_upsert:
  "find (\<lambda>r. sr_key r = sr_key new) (upsert_summary_rows new rows) =
    (case find (\<lambda>r. sr_key r = sr_key new) rows of
       None \<Rightarrow> Some new
     | Some r \<Rightarrow> Some (r\<lparr>sr_payload := sr_payload new, sr_groups := sr_groups new,
                        sr_total_count := sr_total_count new, sr_updated_at := sr_updated_at new\<rparr>))"
proof (cases "\<exists>r\<in>set rows. sr_key r = sr_key new")
  case True
  let ?f = "\<lambda>r. if sr_key r = sr_key new then r\<lparr>sr_payload := sr_payload new, sr_groups := sr_groups new,
      sr_total_count := sr_total_count new, sr_updated_at := sr_updated_at new\<rparr> else r"
  have "\<exists>r\<in>set rows. sr_key r = sr_key new \<Longrightarrow>
    find (\<lambda>r. sr_key r = sr_key new) (map ?f rows) = map_option ?f (find (\<lambda>r. sr_key r = sr_key new) rows)"
    by (induction rows) auto
  moreover obtain r where "find (\<lambda>r. sr_key r = sr_key new) rows = Some r" "sr_key r = sr_key new"
    using True by (metis (mono_tags, lifting) find_None_iff find_Some_iff not_None_eq)
  ultimately show ?thesis using True by (simp add: upsert_summary_rows_def)
next
  case False
  then have "find (\<lambda>r. sr_key r = sr_key new) rows = None" by (auto simp: find_None_iff)
  moreover have "find P (xs @ [x]) = Some x" if "find P xs = None" "P x" for P and x :: summary_row and xs
    using that by (induction xs) (auto split: if_splits)
  ultimately show ?thesis using False by (simp add: upsert_summary_rows_def)
qed

lemma Upsert_then_Get:
  assumes "UpsertQuietSummary (\<lambda>_. False) now s q = (err, q')"
  shows "err = None" and "\<exists>s'. stored_summary q' (qs_Key s) = Some s' \<and> qs_Groups s' = qs_Groups s
    \<and> qs_TotalCount s' = qs_TotalCount s \<and> qs_Key s' = qs_Key s
    \<and> qs_Notification s' = json_transit (qs_Notification s)"
proof -
  let ?r = "summary_row_of now s"
  have q': "err = None" "q_summaries q' = upsert_summary_rows ?r (q_summaries q)"
    using assms by (auto simp: UpsertQuietSummary_def)
  then show "err = None" by simp
  have k: "sr_key ?r = qs_Key s" by (simp add: summary_row_of_def)
  show "\<exists>s'. stored_summary q' (qs_Key s) = Some s' \<and> qs_Groups s' = qs_Groups s
    \<and> qs_TotalCount s' = qs_TotalCount s \<and> qs_Key s' = qs_Key s
    \<and> qs_Notification s' = json_transit (qs_Notification s)"
    using find_upsert [of ?r "q_summaries q"]
    by (auto simp: stored_summary_def GetQuietSummary_def q' k summary_of_row_def summary_row_of_def
        Payload_of_def find_Some_iff split: option.splits)
qed

text \<open>The hits recorded so far under a key.\<close>

definition counted :: "env_lib \<Rightarrow> queue \<Rightarrow> string \<Rightarrow> notification list \<Rightarrow> bool" where
  "counted lib q key hits \<longleftrightarrow>
     (if hits = [] then key \<notin> sr_key ` set (q_summaries q)
      else \<exists>s. stored_summary q key = Some s \<and> qs_Key s = key
             \<and> groups_ok (qs_Groups s) (int (length hits)) \<and> qs_TotalCount s = int (length hits)
             \<and> (\<forall>fp. hits_of fp (qs_Groups s)
                   = int (length (filter (\<lambda>n. quietSummaryFingerprint lib (n_Detail n) = fp) hits))))"

definition hit_key ::
    "env_lib \<Rightarrow> quiet_hours_config \<Rightarrow> 'a subscription_config_scheme \<Rightarrow> notification \<Rightarrow> string" where
  "hit_key lib qh sub n =
     summary_key (sub_ID sub) n (fst (quietSummaryPeriod (zones lib) qh sub (n_Timestamp n)))"

lemma add_hit_counts:
  assumes "groups_ok (qs_Groups s) (int (length hits))" and "qs_TotalCount s = int (length hits)"
    and "\<forall>fp. hits_of fp (qs_Groups s)
       = int (length (filter (\<lambda>n. quietSummaryFingerprint lib (n_Detail n) = fp) hits))"
  shows "groups_ok (qs_Groups (add_hit lib sub n now s)) (int (length (hits @ [n])))
    \<and> qs_TotalCount (add_hit lib sub n now s) = int (length (hits @ [n]))
    \<and> (\<forall>fp. hits_of fp (qs_Groups (add_hit lib sub n now s))
       = int (length (filter (\<lambda>n. quietSummaryFingerprint lib (n_Detail n) = fp) (hits @ [n]))))"
  using assms bump_group_ok [OF assms(1)]
  by (auto simp: add_hit_def hits_of_bump groups_ok_def)

lemma aggregate_step:
  assumes "counted lib q key hits" and "\<not> IsZero (n_Timestamp n)" and "hit_key lib qh sub n = key"
    and "aggregateQuietNotification lib (\<lambda>_. False) clock qh n sub q = (err, q')"
  shows "err = None \<and> counted lib q' key (hits @ [n])"
proof -
  obtain ps pe loc where p: "quietSummaryPeriod (zones lib) qh sub (n_Timestamp n) = (ps, pe, loc)"
    by (cases "quietSummaryPeriod (zones lib) qh sub (n_Timestamp n)") auto
  have key: "summary_key (sub_ID sub) n ps = key" using assms(3) p by (simp add: hit_key_def)
  let ?new = "\<lparr>qs_Key = key, qs_SubscriptionID = sub_ID sub, qs_DispatcherID = DispatcherID sub,
    qs_PeriodStart = ps, qs_PeriodEnd = pe, qs_Timezone = loc_name loc,
    qs_Notification = n, qs_Groups = [], qs_TotalCount = 0, qs_UpdatedAt = zero_time\<rparr>"
  define s where "s = (if hits = [] then ?new else the (stored_summary q key))"
  have s: "qs_Key s = key" "groups_ok (qs_Groups s) (int (length hits))" "qs_TotalCount s = int (length hits)"
    "\<forall>fp. hits_of fp (qs_Groups s)
       = int (length (filter (\<lambda>n. quietSummaryFingerprint lib (n_Detail n) = fp) hits))"
    using assms(1) by (auto simp: s_def counted_def groups_ok_def hits_of_def)
  have up: "UpsertQuietSummary (\<lambda>_. False) clock (add_hit lib sub n (n_Timestamp n) s) q = (err, q')"
  proof (cases "hits = []")
    case True
    then have "GetQuietSummary (\<lambda>_. False) key q = Inl NoRows"
      using assms(1) by (intro GetQuietSummary_None) (simp_all add: counted_def)
    then show ?thesis
      using assms(2,4) p key True by (simp add: aggregateQuietNotification_def s_def Let_def)
  next
    case False
    then have "GetQuietSummary (\<lambda>_. False) key q = Inr s"
      using assms(1) by (auto simp: counted_def stored_summary_def s_def split: sum.splits)
    then show ?thesis using assms(2,4) p key by (simp add: aggregateQuietNotification_def Let_def)
  qed
  have k': "qs_Key (add_hit lib sub n (n_Timestamp n) s) = key" using s(1) by (simp add: add_hit_def)
  show ?thesis
    using Upsert_then_Get [OF up] add_hit_counts [OF s(2-4), of sub n "n_Timestamp n"] k'
    by (auto simp: counted_def)
qed

text \<open>What is stored under a key so far.\<close>

definition summary_total :: "queue \<Rightarrow> string \<Rightarrow> int" where
  "summary_total q key = (case stored_summary q key of None \<Rightarrow> 0 | Some s \<Rightarrow> qs_TotalCount s)"

definition summary_groups :: "queue \<Rightarrow> string \<Rightarrow> quiet_summary_group list" where
  "summary_groups q key = (case stored_summary q key of None \<Rightarrow> [] | Some s \<Rightarrow> qs_Groups s)"

definition summary_readable :: "queue \<Rightarrow> string \<Rightarrow> bool" where
  "summary_readable q key \<longleftrightarrow> (key \<in> sr_key ` set (q_summaries q) \<longrightarrow> stored_summary q key \<noteq> None)"

lemma stored_key: "stored_summary q key = Some s \<Longrightarrow> qs_Key s = key"
  by (auto simp: stored_summary_def GetQuietSummary_def summary_of_row_def find_Some_iff split: option.splits payload.splits)

text \<open>One hit that goes into a summary, with the reading and the writing of the summary succeeding.\<close>

lemma aggregate_files_hit:
  assumes "\<not> bad SelectSummary" "\<not> bad UpsertSummary" and t: "t = (if IsZero (n_Timestamp n) then clock else n_Timestamp n)"
    and key: "key = summary_key (sub_ID sub) n (fst (quietSummaryPeriod (zones lib) qh sub t))" and "summary_readable q key"
  shows "\<exists>s. stored_summary (snd (aggregateQuietNotification lib bad clock qh n sub q)) key = Some s
    \<and> qs_TotalCount s = summary_total q key + 1
    \<and> qs_Groups s = bump_group (quietSummaryFingerprint lib (n_Detail n)) (truncateQuietExample (n_Detail n)) t (summary_groups q key)"
proof -
  obtain ps pe loc where p: "quietSummaryPeriod (zones lib) qh sub t = (ps, pe, loc)" by (metis prod_cases3)
  have get: "GetQuietSummary bad key q = GetQuietSummary (\<lambda>_. False) key q" using assms(1) by (simp add: GetQuietSummary_def)
  have up: "UpsertQuietSummary bad clock s q = UpsertQuietSummary (\<lambda>_. False) clock s q" for s
    using assms(2) by (simp add: UpsertQuietSummary_def)
  define s0 where "s0 = (case stored_summary q key of Some s \<Rightarrow> s | None \<Rightarrow>
    \<lparr>qs_Key = key, qs_SubscriptionID = sub_ID sub, qs_DispatcherID = DispatcherID sub, qs_PeriodStart = ps, qs_PeriodEnd = pe,
     qs_Timezone = loc_name loc, qs_Notification = n, qs_Groups = [], qs_TotalCount = 0, qs_UpdatedAt = zero_time\<rparr>)"
  have s0: "qs_Key s0 = key" "qs_TotalCount s0 = summary_total q key" "qs_Groups s0 = summary_groups q key"
    by (auto simp: s0_def summary_total_def summary_groups_def stored_key split: option.splits)
  have "aggregateQuietNotification lib bad clock qh n sub q = UpsertQuietSummary (\<lambda>_. False) clock (add_hit lib sub n t s0) q"
  proof (cases "stored_summary q key")
    case None
    then have "GetQuietSummary (\<lambda>_. False) key q = Inl NoRows"
      using assms(5) by (intro GetQuietSummary_None) (auto simp: summary_readable_def)
    then show ?thesis using p key get up None by (simp add: aggregateQuietNotification_def t [symmetric] s0_def Let_def)
  next
    case (Some s)
    then have "GetQuietSummary (\<lambda>_. False) key q = Inr s" by (simp add: stored_summary_def split: sum.splits)
    then show ?thesis using p key get up Some by (simp add: aggregateQuietNotification_def t [symmetric] s0_def Let_def)
  qed
  then show ?thesis
    using Upsert_then_Get(2) [of clock "add_hit lib sub n t s0" q] s0
    by (cases "UpsertQuietSummary (\<lambda>_. False) clock (add_hit lib sub n t s0) q") (auto simp: add_hit_def)
qed

text \<open>A series of hits handed to \<open>aggregateQuietNotification\<close> on a healthy database.\<close>

fun aggregate_all ::
    "env_lib \<Rightarrow> quiet_hours_config \<Rightarrow> 'a subscription_config_scheme \<Rightarrow> (gotime \<times> notification) list
       \<Rightarrow> queue \<Rightarrow> queue" where
  "aggregate_all lib qh sub [] q = q"
| "aggregate_all lib qh sub ((clock, n) # hits) q =
     aggregate_all lib qh sub hits (snd (aggregateQuietNotification lib (\<lambda>_. False) clock qh n sub q))"

lemma aggregate_all_counted:
  assumes "counted lib q key old"
    and "\<forall>(clock, n)\<in>set hits. \<not> IsZero (n_Timestamp n) \<and> hit_key lib qh sub n = key"
  shows "counted lib (aggregate_all lib qh sub hits q) key (old @ map snd hits)"
  using assms
proof (induction lib qh sub hits q arbitrary: old rule: aggregate_all.induct)
  case (2 lib qh sub clock n hits q)
  obtain err q' where a: "aggregateQuietNotification lib (\<lambda>_. False) clock qh n sub q = (err, q')"
    by (cases "aggregateQuietNotification lib (\<lambda>_. False) clock qh n sub q")
  have "counted lib q' key (old @ [n])" using aggregate_step [OF "2.prems"(1) _ _ a] "2.prems"(2) by simp
  then show ?case using "2.IH" [of "old @ [n]"] "2.prems"(2) a by simp
qed simp

text \<open>C19. Nothing is lost or counted twice in a quiet-hours summary: after any series of hits that fall
into the same summary (same subscription, container and quiet period), the stored summary has the
number of hits as its total, each message shape has its own group with the number of hits of that
shape, and the groups add up to the total.\<close>

theorem quiet_summary_counts:
  assumes "hits \<noteq> []" and "key \<notin> sr_key ` set (q_summaries q)"
    and "\<forall>(clock, n)\<in>set hits. \<not> IsZero (n_Timestamp n) \<and> hit_key lib qh sub n = key"
  shows "\<exists>s. stored_summary (aggregate_all lib qh sub hits q) key = Some s
    \<and> qs_TotalCount s = int (length hits) \<and> distinct (map sg_Fingerprint (qs_Groups s))
    \<and> sum_list (map sg_Count (qs_Groups s)) = qs_TotalCount s
    \<and> (\<forall>fp. hits_of fp (qs_Groups s)
         = int (length (filter (\<lambda>h. quietSummaryFingerprint lib (n_Detail (snd h)) = fp) hits)))"
proof -
  have "counted lib (aggregate_all lib qh sub hits q) key ([] @ map snd hits)"
    using assms(2,3) by (intro aggregate_all_counted) (simp_all add: counted_def)
  then show ?thesis
    using assms(1) by (auto simp: counted_def groups_ok_def filter_map comp_def)
qed

definition sample_env :: env_lib where
  "sample_env = \<lparr>sha256_hex = id, strip_ansi = id, normalize_regex = id, json_text = (\<lambda>_. []), json_value_text = (\<lambda>_. []),
     format_rfc3339 = show_int, format_minute = (\<lambda>_. show_int), format_clock = (\<lambda>_. show_int),
     format_duration = show_int, format_percent = (\<lambda>_. []),
     compilers = \<lparr>compile_container = (\<lambda>_. None), compile_log = (\<lambda>_. None),
       compile_metric = (\<lambda>_. None), compile_event = (\<lambda>_. None), compile_regex = (\<lambda>_. None)\<rparr>,
     zones = sample_tz\<rparr>"

theorem quiet_summary_counts_witness:
  "\<exists>s. stored_summary (aggregate_all sample_env sample_quiet zero_SubscriptionConfig
         [(9, sample_notification), (10, sample_notification)] empty_queue)
         (hit_key sample_env sample_quiet zero_SubscriptionConfig sample_notification) = Some s
    \<and> qs_TotalCount s = 2"
proof -
  have z: "\<not> IsZero (n_Timestamp sample_notification)"
    by (simp add: sample_notification_def IsZero_def zero_time_def)
  show ?thesis
    using quiet_summary_counts [of "[(9, sample_notification), (10, sample_notification)]"
        "hit_key sample_env sample_quiet zero_SubscriptionConfig sample_notification" empty_queue
        sample_env sample_quiet zero_SubscriptionConfig] z
    by (auto simp: empty_queue_def)
qed

subsection \<open>Bounds of the rendered text\<close>

lemma render_groups_props:
  assumes "render_groups lib loc m gs b shown hits = (b', shown', hits')"
  shows "\<exists>k\<le>length gs. shown' = shown + int k \<and> hits' = hits + sum_list (map sg_Count (take k gs))
    \<and> (shown \<le> m \<longrightarrow> shown' \<le> m) \<and> (length b \<le> maxQuietSummaryLength \<longrightarrow> length b' \<le> maxQuietSummaryLength)"
  using assms
proof (induction lib loc m gs b shown hits rule: render_groups.induct)
  case (2 lib loc m g gs b shown hits)
  show ?case
  proof (cases "m \<le> shown \<or> maxQuietSummaryLength < length b + length (render_section lib loc shown g)")
    case True
    then show ?thesis using "2.prems" by (intro exI [of _ 0]) (auto simp: Let_def split: if_splits)
  next
    case False
    then obtain k where k: "k \<le> length gs" "shown' = shown + 1 + int k"
      "hits' = hits + sg_Count g + sum_list (map sg_Count (take k gs))" "shown' \<le> m"
      "length b' \<le> maxQuietSummaryLength"
      using 2 by (auto simp: Let_def)
    then show ?thesis by (intro exI [of _ "Suc k"]) auto
  qed
qed auto

end
