(* ===== verification/Dispatchers.thy ===== *)
theory Dispatchers
  imports NotifTypes
begin

text \<open>
  The dispatchers of \<open>internal/notification/dispatcher\<close>: webhooks, ntfy and Dozzle Cloud with its
  circuit breaker, and the dialer that refuses addresses of the local host.

  The network, the clock and the text formats are arguments.  \<open>web_lib\<close> collects what the code takes
  from \<open>net/url\<close>, \<open>text/template\<close> and \<open>encoding/json\<close>; an HTTP exchange is a function from the
  request to a response or an error.  A parsed template is the function that executes it.
\<close>

subsection \<open>Requests and responses\<close>

type_synonym template = "notification \<Rightarrow> string option"

record ntfy_payload =
  np_Topic :: string
  np_Title :: string
  np_Message :: string
  np_Priority :: int
  np_Tags :: "string list"

record web_lib =
  url_scheme :: "string \<Rightarrow> string option"
  request_ok :: "string \<Rightarrow> bool"
  parse_template :: "string \<Rightarrow> template option"
  json_Unmarshal :: "string \<Rightarrow> json option"
  json_Marshal :: "json \<Rightarrow> string"
  marshal_notification :: "notification \<Rightarrow> string"
  marshal_ntfy :: "ntfy_payload \<Rightarrow> string"
  UserAgent :: string

record http_request =
  rq_url :: string
  rq_headers :: "string \<rightharpoonup> string"
  rq_body :: string

record http_response =
  rs_StatusCode :: int
  rs_RetryAfter :: string
  rs_Body :: string

datatype http_error = BlockedAddress | OtherError string

type_synonym exchange = "http_request \<Rightarrow> http_error + http_response"

datatype send_error =
    BreakerOpen gotime
  | RateLimited duration
  | BadRequest
  | TemplateError
  | TransportError http_error
  | BadStatus int

definition success_status :: "int \<Rightarrow> bool" where
  "success_status code \<longleftrightarrow> \<not> (code < 200 \<or> code \<ge> 300)"

subsection \<open>Blocked addresses\<close>

text \<open>A \<open>net.IP\<close> is a list of 4 or 16 bytes; the predicates are those of the \<open>net\<close> package.\<close>

type_synonym ip = "8 word list"

definition v4InV6Prefix :: ip where
  "v4InV6Prefix = replicate 10 0 @ [0xff, 0xff]"

definition IPv4 :: "8 word \<Rightarrow> 8 word \<Rightarrow> 8 word \<Rightarrow> 8 word \<Rightarrow> ip" where
  "IPv4 a b c d = v4InV6Prefix @ [a, b, c, d]"

definition To4 :: "ip \<Rightarrow> ip option" where
  "To4 x =
     (if length x = 4 then Some x
      else if length x = 16 \<and> take 12 x = v4InV6Prefix then Some (drop 12 x)
      else None)"

definition ip_Equal :: "ip \<Rightarrow> ip \<Rightarrow> bool" where
  "ip_Equal x y =
     (if length x = length y then x = y
      else if length x = 4 \<and> length y = 16 then take 12 y = v4InV6Prefix \<and> x = drop 12 y
      else if length x = 16 \<and> length y = 4 then take 12 x = v4InV6Prefix \<and> drop 12 x = y
      else False)"

definition IPv6loopback :: ip where "IPv6loopback = replicate 15 0 @ [1]"
definition IPv6unspecified :: ip where "IPv6unspecified = replicate 16 0"

definition IsLoopback :: "ip \<Rightarrow> bool" where
  "IsLoopback x = (case To4 x of Some v \<Rightarrow> v ! 0 = 127 | None \<Rightarrow> ip_Equal x IPv6loopback)"

definition IsUnspecified :: "ip \<Rightarrow> bool" where
  "IsUnspecified x \<longleftrightarrow> ip_Equal x (IPv4 0 0 0 0) \<or> ip_Equal x IPv6unspecified"

definition IsMulticast :: "ip \<Rightarrow> bool" where
  "IsMulticast x =
     (case To4 x of Some v \<Rightarrow> and (v ! 0) 0xf0 = 0xe0 | None \<Rightarrow> length x = 16 \<and> x ! 0 = 0xff)"

definition IsInterfaceLocalMulticast :: "ip \<Rightarrow> bool" where
  "IsInterfaceLocalMulticast x \<longleftrightarrow> length x = 16 \<and> x ! 0 = 0xff \<and> and (x ! 1) 0x0f = 0x01"

definition IsLinkLocalMulticast :: "ip \<Rightarrow> bool" where
  "IsLinkLocalMulticast x =
     (case To4 x of
        Some v \<Rightarrow> v ! 0 = 224 \<and> v ! 1 = 0 \<and> v ! 2 = 0
      | None \<Rightarrow> length x = 16 \<and> x ! 0 = 0xff \<and> and (x ! 1) 0x0f = 0x02)"

definition IsLinkLocalUnicast :: "ip \<Rightarrow> bool" where
  "IsLinkLocalUnicast x =
     (case To4 x of
        Some v \<Rightarrow> v ! 0 = 169 \<and> v ! 1 = 254
      | None \<Rightarrow> length x = 16 \<and> x ! 0 = 0xfe \<and> and (x ! 1) 0xc0 = 0x80)"

definition zeroNetV4_Contains :: "ip \<Rightarrow> bool" where
  "zeroNetV4_Contains v \<longleftrightarrow> length v = 4 \<and> v ! 0 = 0"

definition isBlockedIP :: "ip \<Rightarrow> bool" where
  "isBlockedIP x =
     (if IsLoopback x \<or> IsLinkLocalUnicast x \<or> IsLinkLocalMulticast x \<or> IsMulticast x
         \<or> IsInterfaceLocalMulticast x \<or> IsUnspecified x then True
      else if (case To4 x of Some v \<Rightarrow> zeroNetV4_Contains v | None \<Rightarrow> False) then True
      else if ip_Equal x (IPv4 255 255 255 255) then True
      else False)"

text \<open>
  The loop of \<open>safeDialContext\<close>: \<open>dial\<close> is \<open>dialer.DialContext\<close> on one address and port.  The result
  is paired with the addresses that were dialled.
\<close>

fun dial_loop :: "(ip \<Rightarrow> http_error option) \<Rightarrow> ip list \<Rightarrow> http_error option \<Rightarrow> ip list \<times> (http_error + ip)" where
  "dial_loop dial [] lastErr =
     ([], Inl (case lastErr of None \<Rightarrow> BlockedAddress | Some e \<Rightarrow> e))"
| "dial_loop dial (x # ips) lastErr =
     (if isBlockedIP x then dial_loop dial ips (Some BlockedAddress)
      else case dial x of
             None \<Rightarrow> ([x], Inr x)
           | Some e \<Rightarrow> (let (ds, r) = dial_loop dial ips (Some e) in (x # ds, r)))"

definition safeDialContext ::
    "(string \<Rightarrow> http_error + string \<times> string) \<Rightarrow> (string \<Rightarrow> http_error + ip list)
       \<Rightarrow> (ip \<Rightarrow> string \<Rightarrow> http_error option) \<Rightarrow> string \<Rightarrow> ip list \<times> (http_error + ip)" where
  "safeDialContext SplitHostPort LookupIP dial addr =
     (case SplitHostPort addr of
        Inl e \<Rightarrow> ([], Inl e)
      | Inr (hst, port) \<Rightarrow>
          (case LookupIP hst of
             Inl e \<Rightarrow> ([], Inl e)
           | Inr ips \<Rightarrow> dial_loop (\<lambda>x. dial x port) ips None))"

subsection \<open>Webhooks\<close>

record webhook_dispatcher =
  wh_Name :: string
  wh_URL :: string
  wh_Template :: "template option"
  wh_TemplateText :: string
  wh_Headers :: "string \<rightharpoonup> string"

datatype dispatcher_error =
    InvalidURL | InvalidScheme string | InvalidTemplate | TopicRequired | PriorityOutOfRange | APIKeyRequired

definition NewWebhookDispatcher ::
    "web_lib \<Rightarrow> string \<Rightarrow> string \<Rightarrow> string \<Rightarrow> (string \<rightharpoonup> string) \<Rightarrow> dispatcher_error + webhook_dispatcher" where
  "NewWebhookDispatcher lib name rawURL templateStr headers =
     (case url_scheme lib rawURL of
        None \<Rightarrow> Inl InvalidURL
      | Some scheme \<Rightarrow>
          (if ToLower scheme \<noteq> ''http'' \<and> ToLower scheme \<noteq> ''https'' then Inl (InvalidScheme scheme)
           else
             let w = \<lparr>wh_Name = name, wh_URL = rawURL, wh_Template = None, wh_TemplateText = templateStr,
                      wh_Headers = headers\<rparr>
             in if templateStr \<noteq> []
                then (case parse_template lib templateStr of
                        None \<Rightarrow> Inl InvalidTemplate
                      | Some tmpl \<Rightarrow> Inr (w\<lparr>wh_Template := Some tmpl\<rparr>))
                else Inr w))"

text \<open>Placeholders are resolved in the string values of the JSON structure, never in its keys.\<close>

fun resolveTemplateValues :: "web_lib \<Rightarrow> notification \<Rightarrow> json \<Rightarrow> json option"
  and resolve_fields :: "web_lib \<Rightarrow> notification \<Rightarrow> (string \<times> json) list \<Rightarrow> (string \<times> json) list option"
  and resolve_items :: "web_lib \<Rightarrow> notification \<Rightarrow> json list \<Rightarrow> json list option" where
  "resolveTemplateValues lib n (JObj kvs) = map_option JObj (resolve_fields lib n kvs)"
| "resolveTemplateValues lib n (JArr vs) = map_option JArr (resolve_items lib n vs)"
| "resolveTemplateValues lib n (JStr s) =
     (if \<not> str_contains ''{{'' s then Some (JStr s)
      else case parse_template lib s of
             None \<Rightarrow> None
           | Some tmpl \<Rightarrow> map_option JStr (tmpl n))"
| "resolveTemplateValues lib n (JNum x) = Some (JNum x)"
| "resolveTemplateValues lib n (JBool b) = Some (JBool b)"
| "resolveTemplateValues lib n JNull = Some JNull"
| "resolve_fields lib n [] = Some []"
| "resolve_fields lib n ((k, v) # kvs) =
     (case resolveTemplateValues lib n v of
        None \<Rightarrow> None
      | Some v' \<Rightarrow> map_option ((#) (k, v')) (resolve_fields lib n kvs))"
| "resolve_items lib n [] = Some []"
| "resolve_items lib n (v # vs) =
     (case resolveTemplateValues lib n v of
        None \<Rightarrow> None
      | Some v' \<Rightarrow> map_option ((#) v') (resolve_items lib n vs))"

definition executeJSONTemplate :: "web_lib \<Rightarrow> string \<Rightarrow> notification \<Rightarrow> string option" where
  "executeJSONTemplate lib templateText n =
     (case json_Unmarshal lib templateText of
        None \<Rightarrow>
          (case parse_template lib templateText of None \<Rightarrow> None | Some tmpl \<Rightarrow> tmpl n)
      | Some structure \<Rightarrow> map_option (json_Marshal lib) (resolveTemplateValues lib n structure))"

record test_result =
  tr_Success :: bool
  tr_StatusCode :: int
  tr_Error :: "send_error option"

definition webhook_SendTest :: "web_lib \<Rightarrow> exchange \<Rightarrow> notification \<Rightarrow> webhook_dispatcher \<Rightarrow> test_result" where
  "webhook_SendTest lib client_Do n w =
     (let failed = (\<lambda>code e. \<lparr>tr_Success = False, tr_StatusCode = code, tr_Error = Some e\<rparr>)
      in case (if wh_Template w \<noteq> None then executeJSONTemplate lib (wh_TemplateText w) n
               else Some (marshal_notification lib n)) of
           None \<Rightarrow> failed 0 TemplateError
         | Some payload \<Rightarrow>
             (if \<not> request_ok lib (wh_URL w) then failed 0 BadRequest
              else
                let headers = (wh_Headers w)(''Content-Type'' \<mapsto> ''application/json'',
                                             ''User-Agent'' \<mapsto> UserAgent lib)
                in case client_Do \<lparr>rq_url = wh_URL w, rq_headers = headers, rq_body = payload\<rparr> of
                     Inl e \<Rightarrow> failed 0 (TransportError e)
                   | Inr resp \<Rightarrow>
                       (if \<not> success_status (rs_StatusCode resp)
                        then failed (rs_StatusCode resp) (BadStatus (rs_StatusCode resp))
                        else \<lparr>tr_Success = True, tr_StatusCode = rs_StatusCode resp, tr_Error = None\<rparr>)))"

definition webhook_Send :: "web_lib \<Rightarrow> exchange \<Rightarrow> notification \<Rightarrow> webhook_dispatcher \<Rightarrow> send_error option" where
  "webhook_Send lib client_Do n w =
     (let result = webhook_SendTest lib client_Do n w
      in if \<not> tr_Success result then tr_Error result else None)"

subsection \<open>ntfy\<close>

record ntfy_dispatcher =
  nt_Name :: string
  nt_ServerURL :: string
  nt_DefaultTopic :: string
  nt_DefaultPriority :: int
  nt_TitleTemplate :: string
  nt_MessageTemplate :: string
  nt_Token :: string
  nt_titleTemplate :: "template option"
  nt_messageTemplate :: "template option"

definition TrimRight :: "char \<Rightarrow> string \<Rightarrow> string" where
  "TrimRight c s = rev (dropWhile (\<lambda>x. x = c) (rev s))"

definition parse_optional :: "web_lib \<Rightarrow> string \<Rightarrow> dispatcher_error + template option" where
  "parse_optional lib text =
     (if text = [] then Inr None
      else case parse_template lib text of None \<Rightarrow> Inl InvalidTemplate | Some t \<Rightarrow> Inr (Some t))"

definition NewNtfyDispatcher ::
    "web_lib \<Rightarrow> string \<Rightarrow> string \<Rightarrow> string \<Rightarrow> int \<Rightarrow> string \<Rightarrow> string \<Rightarrow> string
       \<Rightarrow> dispatcher_error + ntfy_dispatcher" where
  "NewNtfyDispatcher lib name serverURL topic priority token titleText messageText =
     (case url_scheme lib serverURL of
        None \<Rightarrow> Inl InvalidURL
      | Some scheme \<Rightarrow>
          (if ToLower scheme \<noteq> ''http'' \<and> ToLower scheme \<noteq> ''https'' then Inl (InvalidScheme scheme)
           else if topic = [] then Inl TopicRequired
           else if priority < 0 \<or> priority > 5 then Inl PriorityOutOfRange
           else case parse_optional lib titleText of
             Inl e \<Rightarrow> Inl e
           | Inr title \<Rightarrow>
               (case parse_optional lib messageText of
                  Inl e \<Rightarrow> Inl e
                | Inr message \<Rightarrow>
                    Inr \<lparr>nt_Name = name, nt_ServerURL = TrimRight (CHR ''/'') serverURL,
                         nt_DefaultTopic = topic, nt_DefaultPriority = priority,
                         nt_TitleTemplate = titleText, nt_MessageTemplate = messageText,
                         nt_Token = token, nt_titleTemplate = title, nt_messageTemplate = message\<rparr>)))"

definition appendNotificationContext :: "string \<Rightarrow> notification_context list \<Rightarrow> string" where
  "appendNotificationContext message ctx =
     (if ctx = [] then message
      else
        let head = TrimRight (CHR 0x0A) message;
            nl = [CHR 0x0A]
        in head @ (if head \<noteq> [] then nl @ nl else []) @ ''Alert context:''
             @ concat (map (\<lambda>item. nl @ nx_Label item @ '': '' @ nx_Value item)
                 (filter (\<lambda>item. \<not> (nx_Label item = [] \<or> nx_Value item = [])) ctx)))"

definition zero_log :: notification_log where
  "zero_log = \<lparr>nl_ID = 0, nl_Message = NNil, nl_Timestamp = 0, nl_Level = [], nl_Stream = [],
     nl_Type = []\<rparr>"

definition zero_stat :: notification_stat where
  "zero_stat = \<lparr>ns_CPUPercent = 0, ns_MemoryPercent = 0, ns_MemoryUsage = 0, ns_Mounts = []\<rparr>"

definition zero_event :: notification_event where
  "zero_event = \<lparr>ne_Name = [], ne_ActorID = [], ne_Attributes = Map.empty, ne_Timestamp = zero_time\<rparr>"

definition safeNotificationTemplateData :: "notification \<Rightarrow> notification" where
  "safeNotificationTemplateData n =
     (let n1 = (if n_Log n = None then n\<lparr>n_Log := Some zero_log\<rparr> else n);
          n2 = (if n_Stat n1 = None then n1\<lparr>n_Stat := Some zero_stat\<rparr> else n1)
      in if n_Event n2 = None then n2\<lparr>n_Event := Some zero_event\<rparr> else n2)"

definition executeNtfyTemplate :: "template \<Rightarrow> notification \<Rightarrow> string option" where
  "executeNtfyTemplate tmpl n = tmpl (safeNotificationTemplateData n)"

definition ntfy_title :: "ntfy_dispatcher \<Rightarrow> notification \<Rightarrow> string option" where
  "ntfy_title d n =
     (let title = (if nc_Name (n_Container n) = [] then ''Dozzle Alert'' else nc_Name (n_Container n))
      in case nt_titleTemplate d of
           None \<Rightarrow> Some title
         | Some tmpl \<Rightarrow>
             map_option (\<lambda>rendered. if TrimSpace rendered \<noteq> [] then rendered else title)
               (executeNtfyTemplate tmpl n))"

definition ntfy_message :: "ntfy_dispatcher \<Rightarrow> notification \<Rightarrow> string option" where
  "ntfy_message d n =
     (case nt_messageTemplate d of
        None \<Rightarrow> Some (n_Detail n)
      | Some tmpl \<Rightarrow> executeNtfyTemplate tmpl n)"

definition ntfy_payload_of :: "ntfy_dispatcher \<Rightarrow> notification \<Rightarrow> ntfy_payload option" where
  "ntfy_payload_of d n =
     (let topic = (if n_NtfyTopic n = [] then nt_DefaultTopic d else n_NtfyTopic n);
          priority0 = (if n_NtfyPriority n = 0 then nt_DefaultPriority d else n_NtfyPriority n);
          priority = (if priority0 = 0 then 3 else priority0)
      in case ntfy_title d n of
           None \<Rightarrow> None
         | Some title \<Rightarrow>
             map_option (\<lambda>message.
                 \<lparr>np_Topic = topic, np_Title = title,
                  np_Message = appendNotificationContext message (n_Context n),
                  np_Priority = priority, np_Tags = n_NtfyTags n\<rparr>)
               (ntfy_message d n))"

definition ntfy_Send :: "web_lib \<Rightarrow> exchange \<Rightarrow> notification \<Rightarrow> ntfy_dispatcher \<Rightarrow> send_error option" where
  "ntfy_Send lib client_Do n d =
     (case ntfy_payload_of d n of
        None \<Rightarrow> Some TemplateError
      | Some payload \<Rightarrow>
          (if \<not> request_ok lib (nt_ServerURL d) then Some BadRequest
           else
             let base = [''Content-Type'' \<mapsto> ''application/json'', ''User-Agent'' \<mapsto> UserAgent lib];
                 headers = (if nt_Token d \<noteq> [] then base(''Authorization'' \<mapsto> ''Bearer '' @ nt_Token d) else base)
             in case client_Do \<lparr>rq_url = nt_ServerURL d, rq_headers = headers,
                                rq_body = marshal_ntfy lib payload\<rparr> of
                  Inl e \<Rightarrow> Some (TransportError e)
                | Inr resp \<Rightarrow>
                    (if \<not> success_status (rs_StatusCode resp) then Some (BadStatus (rs_StatusCode resp))
                     else None)))"

subsection \<open>Dozzle Cloud\<close>

record cloud_dispatcher =
  cd_Name :: string
  cd_URL :: string
  cd_APIKey :: string
  cd_Prefix :: string
  cd_ExpiresAt :: "gotime option"
  cd_blockedUntil :: int

text \<open>\<open>env\<close> is the value of \<open>DOLIGENCE_URL\<close>, empty when unset.\<close>

definition NewCloudDispatcher ::
    "string \<Rightarrow> string \<Rightarrow> string \<Rightarrow> string \<Rightarrow> gotime option \<Rightarrow> dispatcher_error + cloud_dispatcher" where
  "NewCloudDispatcher env name apiKey prefx expiresAt =
     (let url = (if env = [] then ''https://doligence.dozzle.dev'' else env) @ ''/api/events''
      in if apiKey = [] then Inl APIKeyRequired
         else Inr \<lparr>cd_Name = name, cd_URL = url, cd_APIKey = apiKey, cd_Prefix = prefx,
                   cd_ExpiresAt = expiresAt, cd_blockedUntil = 0\<rparr>)"

definition defaultRetryAfter :: duration where "defaultRetryAfter = 60 * Second"
definition unauthorizedRetryAfter :: duration where "unauthorizedRetryAfter = 6 * Hour"

definition ResetBreaker :: "cloud_dispatcher \<Rightarrow> cloud_dispatcher" where
  "ResetBreaker c = c\<lparr>cd_blockedUntil := 0\<rparr>"

text \<open>
  \<open>time.Duration(seconds) * time.Second\<close> and \<open>UnixNano\<close> are 64-bit.  The result is paired with
  whether a request was made.
\<close>

definition retry_after :: "http_response \<Rightarrow> duration" where
  "retry_after resp =
     (if rs_RetryAfter resp = [] then defaultRetryAfter
      else case Atoi (rs_RetryAfter resp) of
             None \<Rightarrow> defaultRetryAfter
           | Some seconds \<Rightarrow> wrap64 (seconds * Second))"

definition cloud_Send ::
    "web_lib \<Rightarrow> exchange \<Rightarrow> gotime \<Rightarrow> notification \<Rightarrow> cloud_dispatcher
       \<Rightarrow> send_error option \<times> bool \<times> cloud_dispatcher" where
  "cloud_Send lib client_Do now n c =
     (if cd_blockedUntil c > 0 \<and> now < cd_blockedUntil c
      then (Some (BreakerOpen (cd_blockedUntil c)), False, c)
      else if \<not> request_ok lib (cd_URL c) then (Some BadRequest, False, c)
      else
        let headers = [''Content-Type'' \<mapsto> ''application/json'', ''User-Agent'' \<mapsto> UserAgent lib,
                       ''X-API-Key'' \<mapsto> cd_APIKey c]
        in case client_Do \<lparr>rq_url = cd_URL c, rq_headers = headers, rq_body = marshal_notification lib n\<rparr> of
             Inl e \<Rightarrow> (Some (TransportError e), True, c)
           | Inr resp \<Rightarrow>
               (if rs_StatusCode resp = 429
                then (Some (RateLimited (retry_after resp)), True,
                      c\<lparr>cd_blockedUntil := wrap64 (now + retry_after resp)\<rparr>)
                else if rs_StatusCode resp = 401 \<or> rs_StatusCode resp = 403
                then (Some (BadStatus (rs_StatusCode resp)), True,
                      c\<lparr>cd_blockedUntil := wrap64 (now + unauthorizedRetryAfter)\<rparr>)
                else if \<not> success_status (rs_StatusCode resp)
                then (Some (BadStatus (rs_StatusCode resp)), True, c)
                else (None, True, c)))"

subsection \<open>The dispatcher interface\<close>

datatype dispatcher =
    WebhookDispatcher webhook_dispatcher
  | NtfyDispatcher ntfy_dispatcher
  | CloudDispatcher cloud_dispatcher

definition Send ::
    "web_lib \<Rightarrow> exchange \<Rightarrow> gotime \<Rightarrow> notification \<Rightarrow> dispatcher \<Rightarrow> send_error option \<times> dispatcher" where
  "Send lib client_Do now n d =
     (case d of
        WebhookDispatcher w \<Rightarrow> (webhook_Send lib client_Do n w, d)
      | NtfyDispatcher t \<Rightarrow> (ntfy_Send lib client_Do n t, d)
      | CloudDispatcher c \<Rightarrow>
          (case cloud_Send lib client_Do now n c of (err, _, c') \<Rightarrow> (err, CloudDispatcher c')))"

subsection \<open>Which addresses are refused\<close>

lemma multicast_octet: "and (a :: 8 word) 0xf0 = 0xe0 \<longleftrightarrow> 224 \<le> a \<and> a < 240"
proof -
  have "\<forall>n\<in>set [0..<256]. and (word_of_nat n :: 8 word) 0xf0 = 0xe0
          \<longleftrightarrow> 224 \<le> (word_of_nat n :: 8 word) \<and> (word_of_nat n :: 8 word) < 240"
    by code_simp
  moreover have "unat a < 256" using unsigned_less [of a] by simp
  ultimately have "and (word_of_nat (unat a) :: 8 word) 0xf0 = 0xe0
      \<longleftrightarrow> 224 \<le> (word_of_nat (unat a) :: 8 word) \<and> (word_of_nat (unat a) :: 8 word) < 240"
    by (metis atLeastLessThan_iff atLeastLessThan_upt le0)
  then show ?thesis by simp
qed

lemma ip_constants:
  "v4InV6Prefix = [0, 0, 0, 0, 0, 0, 0, 0, 0, 0, 255, 255]"
  "IPv6loopback = [0, 0, 0, 0, 0, 0, 0, 0, 0, 0, 0, 0, 0, 0, 0, 1]"
  "IPv6unspecified = [0, 0, 0, 0, 0, 0, 0, 0, 0, 0, 0, 0, 0, 0, 0, 0]"
  by (simp_all add: v4InV6Prefix_def IPv6loopback_def IPv6unspecified_def numeral_eq_Suc)

lemmas ip_predicates = IsLoopback_def IsLinkLocalUnicast_def IsLinkLocalMulticast_def IsMulticast_def
  IsInterfaceLocalMulticast_def IsUnspecified_def zeroNetV4_Contains_def ip_Equal_def To4_def
  IPv4_def ip_constants

text \<open>An IPv4 address is refused exactly when it lies in 0.0.0.0/8, 127.0.0.0/8, 169.254.0.0/16 or
the multicast block 224.0.0.0/4, or is the broadcast address; its IPv4-mapped IPv6 form gets the same
verdict, so the block cannot be bypassed by writing the address the other way.\<close>

theorem isBlockedIP_v4:
  "(isBlockedIP [a, b, c, d] \<longleftrightarrow>
      a = 0 \<or> a = 127 \<or> (a = 169 \<and> b = 254) \<or> (224 \<le> a \<and> a < 240)
      \<or> (a = 255 \<and> b = 255 \<and> c = 255 \<and> d = 255))
   \<and> isBlockedIP (IPv4 a b c d) = isBlockedIP [a, b, c, d]"
proof
  show v4: "isBlockedIP [a, b, c, d] \<longleftrightarrow>
      a = 0 \<or> a = 127 \<or> (a = 169 \<and> b = 254) \<or> (224 \<le> a \<and> a < 240)
      \<or> (a = 255 \<and> b = 255 \<and> c = 255 \<and> d = 255)"
    by (auto simp: isBlockedIP_def ip_predicates multicast_octet)
  show "isBlockedIP (IPv4 a b c d) = isBlockedIP [a, b, c, d]"
    unfolding v4 by (auto simp: isBlockedIP_def ip_predicates multicast_octet)
qed

lemma dial_loop_result:
  "dial_loop dial ips lastErr = (ds, r) \<Longrightarrow>
     (\<forall>x\<in>set ds. x \<in> set ips \<and> \<not> isBlockedIP x)
     \<and> (\<forall>x. r = Inr x \<longleftrightarrow> find (\<lambda>x. \<not> isBlockedIP x \<and> dial x = None) ips = Some x)"
proof (induction dial ips lastErr arbitrary: ds r rule: dial_loop.induct)
  case (2 dial x ips lastErr)
  show ?case
  proof (cases "isBlockedIP x")
    case True
    then show ?thesis using 2(1) [OF True] 2(3) by auto
  next
    case False
    then show ?thesis using 2(2,3) by (auto split: option.splits prod.splits)
  qed
qed (auto split: option.splits)

text \<open>C14. Whatever a host name resolves to, the dialer never opens a connection to a blocked address: every
address it dials was returned by the resolver and is not blocked, and it returns the connection to
the first such address that answers, or an error when there is none.\<close>

theorem safeDialContext_never_blocked:
  assumes "SplitHostPort addr = Inr (hst, port)" and "LookupIP hst = Inr ips"
    and "safeDialContext SplitHostPort LookupIP dial addr = (dialled, r)"
  shows "(\<forall>x\<in>set dialled. x \<in> set ips \<and> \<not> isBlockedIP x)
    \<and> (r = Inr x \<longleftrightarrow> find (\<lambda>x. \<not> isBlockedIP x \<and> dial x port = None) ips = Some x)"
  using assms dial_loop_result [of "\<lambda>x. dial x port" ips None dialled r] by (simp add: safeDialContext_def)

theorem safeDialContext_never_blocked_witness:
  "snd (safeDialContext (\<lambda>a. Inr (a, ''80'')) (\<lambda>_. Inr [[169, 254, 169, 254], [127, 0, 0, 1], [10, 0, 0, 7]])
       (\<lambda>_ _. None) ''intranet'') = Inr [10, 0, 0, 7]"
proof -
  let ?ips = "[[169, 254, 169, 254], [127, 0, 0, 1], [10, 0, 0, 7]] :: ip list"
  obtain ds r where s: "safeDialContext (\<lambda>a. Inr (a, ''80'')) (\<lambda>_. Inr ?ips) (\<lambda>_ _. None) ''intranet'' = (ds, r)"
    by fastforce
  have "isBlockedIP [169, 254, 169, 254]" "isBlockedIP [127, 0, 0, 1]" "\<not> isBlockedIP [10, 0, 0, 7]"
    by (simp_all add: isBlockedIP_def ip_predicates)
  then have "find (\<lambda>x. \<not> isBlockedIP x \<and> (None :: http_error option) = None) ?ips = Some [10, 0, 0, 7]"
    by simp
  then have "r = Inr [10, 0, 0, 7]"
    using safeDialContext_never_blocked [of "\<lambda>a. Inr (a, ''80'')" "''intranet''" "''intranet''" "''80''"
        "\<lambda>_. Inr ?ips" ?ips "\<lambda>_ _. None" ds r "[10, 0, 0, 7]"] s by simp
  then show ?thesis using s by simp
qed

subsection \<open>Webhook payloads keep the shape of the template\<close>

text \<open>The structure of a JSON value with the texts of its strings forgotten.\<close>

fun skeleton :: "json \<Rightarrow> json" where
  "skeleton (JStr s) = JStr []"
| "skeleton (JArr vs) = JArr (map skeleton vs)"
| "skeleton (JObj kvs) = JObj (map (\<lambda>(k, v). (k, skeleton v)) kvs)"
| "skeleton v = v"

lemma resolve_skeleton:
  "resolveTemplateValues lib n j = Some j' \<Longrightarrow> skeleton j' = skeleton j"
  "resolve_fields lib n kvs = Some kvs' \<Longrightarrow>
     map (\<lambda>(k, v). (k, skeleton v)) kvs' = map (\<lambda>(k, v). (k, skeleton v)) kvs"
  "resolve_items lib n vs = Some vs' \<Longrightarrow> map skeleton vs' = map skeleton vs"
  by (induction lib n j and lib n kvs and lib n vs arbitrary: j' and kvs' and vs'
      rule: resolveTemplateValues_resolve_fields_resolve_items.induct)
    (auto split: if_splits option.splits)

text \<open>When a webhook template is valid JSON, the body sent is the JSON of a value with exactly the
template's structure (the same keys, nesting, numbers and array lengths); whatever a log message
contains, it can only change the text inside strings.\<close>

theorem webhook_template_shape:
  assumes "json_Unmarshal lib text = Some tree" and "executeJSONTemplate lib text n = Some body"
  shows "\<exists>j. body = json_Marshal lib j \<and> skeleton j = skeleton tree"
  using assms resolve_skeleton(1) [of lib n tree] by (auto simp: executeJSONTemplate_def)

text \<open>A concrete library: one JSON template, one placeholder that stands for the detail.\<close>

definition sample_tree :: json where
  "sample_tree = JObj [(''text'', JStr ''{{.Detail}}''), (''level'', JStr ''info''), (''n'', JNum 1)]"

fun sample_print :: "json \<Rightarrow> string" where
  "sample_print (JObj [(k, JStr s), _, _]) = k @ ''='' @ s"
| "sample_print _ = []"

definition sample_web :: web_lib where
  "sample_web = \<lparr>url_scheme = (\<lambda>u. if has_prefix ''https:'' u then Some ''https'' else None),
     request_ok = (\<lambda>_. True), parse_template = (\<lambda>t. Some (\<lambda>n. Some (n_Detail n))),
     json_Unmarshal = (\<lambda>t. if t = ''tree'' then Some sample_tree else None),
     json_Marshal = sample_print, marshal_notification = n_Detail, marshal_ntfy = np_Message,
     UserAgent = ''Dozzle/head''\<rparr>"

definition sample_alert :: notification where
  "sample_alert = \<lparr>n_ID = ''a'', n_Type = LogNotification, n_Detail = ''out of disk'',
     n_Container = \<lparr>nc_ID = ''c1'', nc_Name = ''web'', nc_Image = [], nc_State = [], nc_Health = [],
       nc_HostID = [], nc_HostName = [], nc_HostGroup = [], nc_Labels = Map.empty\<rparr>,
     n_Log = None, n_Stat = None, n_Event = None, n_Subscription = zero_SubscriptionConfig,
     n_Timestamp = 0, n_NtfyTopic = [], n_NtfyPriority = 0, n_NtfyTags = [], n_Context = []\<rparr>"

theorem webhook_template_shape_witness:
  "\<exists>j. ''text=out of disk'' = json_Marshal sample_web j \<and> skeleton j = skeleton sample_tree"
proof (rule webhook_template_shape)
  show "json_Unmarshal sample_web ''tree'' = Some sample_tree" by (simp add: sample_web_def)
  show "executeJSONTemplate sample_web ''tree'' sample_alert = Some ''text=out of disk''"
    by (simp add: executeJSONTemplate_def sample_web_def sample_tree_def sample_alert_def has_prefix_def)
qed

subsection \<open>What ntfy receives\<close>

text \<open>A message of a dispatcher that passed validation always has a topic and a title, and its
priority is between 1 and 5 when the alert leaves it unset or sets one of these values.\<close>

theorem ntfy_payload_valid:
  assumes "NewNtfyDispatcher lib name serverURL topic priority token titleText messageText = Inr d"
    and "ntfy_payload_of d n = Some p" and "0 \<le> n_NtfyPriority n" and "n_NtfyPriority n \<le> 5"
  shows "np_Topic p \<noteq> [] \<and> np_Title p \<noteq> [] \<and> 1 \<le> np_Priority p \<and> np_Priority p \<le> 5"
proof -
  have d: "nt_DefaultTopic d \<noteq> []" "0 \<le> nt_DefaultPriority d" "nt_DefaultPriority d \<le> 5"
    using assms(1) by (auto simp: NewNtfyDispatcher_def split: option.splits if_splits sum.splits)
  have "t \<noteq> []" if "ntfy_title d n = Some t" for t
    using that TrimSpace_Nil by (auto simp: ntfy_title_def Let_def split: option.splits if_splits)
  then show ?thesis using assms(2-4) d by (auto simp: ntfy_payload_of_def Let_def split: option.splits if_splits)
qed

theorem ntfy_payload_valid_witness:
  "\<exists>d p. NewNtfyDispatcher sample_web ''phone'' ''https://ntfy.sh/'' ''alerts'' 0 [] [] [] = Inr d
     \<and> ntfy_payload_of d sample_alert = Some p
     \<and> np_Topic p \<noteq> [] \<and> np_Title p \<noteq> [] \<and> 1 \<le> np_Priority p \<and> np_Priority p \<le> 5"
proof -
  obtain d where d: "NewNtfyDispatcher sample_web ''phone'' ''https://ntfy.sh/'' ''alerts'' 0 [] [] [] = Inr d"
    and t: "nt_titleTemplate d = None" "nt_messageTemplate d = None"
    by (simp add: NewNtfyDispatcher_def sample_web_def has_prefix_def ToLower_def char_to_lower_def
        parse_optional_def)
  obtain p where p: "ntfy_payload_of d sample_alert = Some p"
    using t by (simp add: ntfy_payload_of_def ntfy_title_def ntfy_message_def Let_def)
  from ntfy_payload_valid [OF d p] d p show ?thesis by (auto simp: sample_alert_def)
qed

subsection \<open>The circuit breaker\<close>

text \<open>The instants at which a series of sends really contacts the cloud.\<close>

fun cloud_requests ::
    "web_lib \<Rightarrow> (gotime \<times> exchange \<times> notification) list \<Rightarrow> cloud_dispatcher \<Rightarrow> gotime list" where
  "cloud_requests lib [] c = []"
| "cloud_requests lib ((now, ex, n) # sends) c =
     (let r = cloud_Send lib ex now n c
      in (if fst (snd r) then [now] else []) @ cloud_requests lib sends (snd (snd r)))"

lemma cloud_requests_times: "t \<in> set (cloud_requests lib sends c) \<Longrightarrow> t \<in> fst ` set sends"
  by (induction lib sends c rule: cloud_requests.induct) (auto simp: Let_def split: if_splits)

lemma blocked_until_then:
  assumes "0 < cd_blockedUntil c" and "sorted (map fst sends)" and "t \<in> set (cloud_requests lib sends c)"
  shows "cd_blockedUntil c \<le> t"
  using assms
proof (induction lib sends c rule: cloud_requests.induct)
  case (2 lib now ex n sends c)
  show ?case
  proof (cases "now < cd_blockedUntil c")
    case True
    then have "cloud_Send lib ex now n c = (Some (BreakerOpen (cd_blockedUntil c)), False, c)"
      using 2(2) by (simp add: cloud_Send_def)
    then show ?thesis using 2 by simp
  next
    case False
    have "t \<in> fst ` set ((now, ex, n) # sends)" using cloud_requests_times [OF 2(4)] .
    then show ?thesis using False 2(3) by force
  qed
qed simp

text \<open>How long a reply of the cloud closes the connection.\<close>

definition back_off :: "http_response \<Rightarrow> duration option" where
  "back_off resp =
     (if rs_StatusCode resp = 429 then Some (retry_after resp)
      else if rs_StatusCode resp = 401 \<or> rs_StatusCode resp = 403 then Some unauthorizedRetryAfter
      else None)"

lemma cloud_Send_trips:
  assumes "\<not> (cd_blockedUntil c > 0 \<and> now < cd_blockedUntil c)" and "request_ok lib (cd_URL c)"
    and "back_off resp = Some d"
    and "0 < now" and "0 \<le> d" and "in_int64 (now + d)"
  shows "\<exists>err c'. cloud_Send lib (\<lambda>_. Inr resp) now n c = (Some err, True, c') \<and> cd_blockedUntil c' = now + d"
  using assms by (auto simp: cloud_Send_def back_off_def wrap64_id Let_def split: if_splits)

text \<open>C11. Once the cloud answers that it is rate limited (the seconds of \<open>Retry-After\<close>, 60 when absent or
unreadable) or rejects the API key (six hours), the send fails and no later send contacts the cloud
before that time has passed, however many follow; the first one after it does.\<close>

theorem cloud_breaker:
  assumes "\<not> (cd_blockedUntil c > 0 \<and> now < cd_blockedUntil c)" and "request_ok lib (cd_URL c)"
    and "back_off resp = Some d"
    and "0 < now" and "0 \<le> d" and "in_int64 (now + d)"
    and "cloud_Send lib (\<lambda>_. Inr resp) now n c = (err, requested, c')"
    and "sorted (map fst sends)"
  shows "err \<noteq> None \<and> requested
    \<and> (\<forall>t\<in>set (cloud_requests lib sends c'). now + d \<le> t)
    \<and> (now + d \<le> later \<longrightarrow> fst (snd (cloud_Send lib ex later n' c')))"
proof -
  obtain e where c': "err = Some e" "requested" "cd_blockedUntil c' = now + d"
    using cloud_Send_trips [OF assms(1-6), of n] assms(7) by auto
  have "request_ok lib (cd_URL c')"
    using assms(2,7) by (auto simp: cloud_Send_def Let_def split: if_splits sum.splits)
  then have "now + d \<le> later \<longrightarrow> fst (snd (cloud_Send lib ex later n' c'))"
    using c'(3) by (auto simp: cloud_Send_def Let_def split: sum.splits)
  then show ?thesis using c' blocked_until_then [of c' sends _ lib] assms(4,5,8) by auto
qed

definition limited :: http_response where
  "limited = \<lparr>rs_StatusCode = 429, rs_RetryAfter = ''30'', rs_Body = []\<rparr>"

definition sample_cloud :: cloud_dispatcher where
  "sample_cloud = \<lparr>cd_Name = ''cloud'', cd_URL = ''u'', cd_APIKey = ''k'', cd_Prefix = [],
     cd_ExpiresAt = None, cd_blockedUntil = 0\<rparr>"

definition sample_sends :: "(gotime \<times> exchange \<times> notification) list" where
  "sample_sends = [(time_Unix 110, (\<lambda>_. Inr limited), sample_alert),
                   (time_Unix 129, (\<lambda>_. Inr limited), sample_alert)]"

theorem cloud_breaker_witness:
  "cloud_requests sample_web sample_sends
     (snd (snd (cloud_Send sample_web (\<lambda>_. Inr limited) (time_Unix 100) sample_alert sample_cloud))) = []"
proof -
  obtain err b c' where s: "cloud_Send sample_web (\<lambda>_. Inr limited) (time_Unix 100) sample_alert sample_cloud = (err, b, c')"
    by (cases "cloud_Send sample_web (\<lambda>_. Inr limited) (time_Unix 100) sample_alert sample_cloud") auto
  have "Atoi ''30'' = Some 30" by code_simp
  then have "back_off limited = Some (30 * Second)"
    by (simp add: back_off_def limited_def retry_after_def Second_def wrap64_def)
  then have all: "\<forall>t\<in>set (cloud_requests sample_web sample_sends c'). time_Unix 100 + 30 * Second \<le> t"
    using cloud_breaker [of sample_cloud "time_Unix 100" sample_web limited "30 * Second"
        sample_alert err b c' sample_sends] s
    by (simp add: sample_cloud_def sample_web_def time_Unix_def Second_def in_int64_def sample_sends_def)
  have "t \<notin> set (cloud_requests sample_web sample_sends c')" for t
  proof
    assume t: "t \<in> set (cloud_requests sample_web sample_sends c')"
    then have "t \<in> fst ` set sample_sends" by (rule cloud_requests_times)
    then show False using all t by (auto simp: time_Unix_def Second_def sample_sends_def)
  qed
  then have "cloud_requests sample_web sample_sends c' = []" using last_in_set by blast
  then show ?thesis using s by simp
qed

end
