(* ===== verification/NotifManager.thy ===== *)
theory NotifManager
  imports QuietSummary Dispatchers
begin

text \<open>
  The notification manager of \<open>internal/notification/manager.go\<close> and the delivery part of
  \<open>processing.go\<close>.

  Dispatchers are objects with state (the cloud breaker) that running sends keep pointing to: they
  live in \<open>m_heap\<close> and the maps hold indices into it.  The goroutines of \<open>sendWithRetry\<close> are the
  entries of \<open>m_sending\<close>; every call of \<open>Send\<close> is recorded in \<open>m_sends\<close> with the queue row it came
  from, if any.  The stats and event listeners are reduced to whether they run; the log listener asks
  \<open>ShouldListenToContainer\<close>.  Each operation is atomic and reads the clock once, as \<open>now\<close>.
\<close>

subsection \<open>State\<close>

type_synonym dref = nat

record pending_send =
  ps_dispatcher :: dref
  ps_notification :: notification
  ps_dispatcherID :: int
  ps_attempt :: int
  ps_due :: gotime

record send_record =
  sd_time :: gotime
  sd_dispatcher :: dref
  sd_notification :: notification
  sd_row :: "int option"

record manager =
  m_subscriptions :: "int \<rightharpoonup> subscription"
  m_heap :: "dispatcher list"
  m_dispatchers :: "int \<rightharpoonup> dref"
  m_cloudDispatcher :: "dref option"
  m_subscriptionCounter :: int
  m_dispatcherCounter :: int
  m_statsRunning :: bool
  m_eventRunning :: bool
  m_queue :: "queue option"
  m_quietHours :: quiet_hours_config
  m_sending :: "pending_send list"
  m_sends :: "send_record list"

definition zero_QuietHoursConfig :: quiet_hours_config where
  "zero_QuietHoursConfig = \<lparr>qh_Enabled = False, qh_Start = [], qh_End = [], qh_Timezone = [],
     GroupNotifications = None, SummaryMaxGroups = 0, StackThreshold = 0, StackWindow = 0,
     StackedPriority = 0, QuietTopic = [], StackedUsesQuietTopic = False\<rparr>"

text \<open>
  \<open>db\<close> is what opening the database at \<open>dbPath\<close> gives, \<open>marker\<close> the payload of its health check.
\<close>

definition NewManager :: "faults \<Rightarrow> payload \<Rightarrow> string \<Rightarrow> db_error + queue \<Rightarrow> manager" where
  "NewManager bad marker dbPath db =
     \<lparr>m_subscriptions = Map.empty, m_heap = [], m_dispatchers = Map.empty, m_cloudDispatcher = None,
      m_subscriptionCounter = 0, m_dispatcherCounter = 0, m_statsRunning = False,
      m_eventRunning = False,
      m_queue = (if dbPath = [] then None
                 else case db of
                   Inl _ \<Rightarrow> None
                 | Inr q \<Rightarrow> (case Healthcheck bad marker q of Inl _ \<Rightarrow> None | Inr _ \<Rightarrow> Some q)),
      m_quietHours = zero_QuietHoursConfig, m_sending = [], m_sends = []\<rparr>"

definition wrap32 :: "int \<Rightarrow> int" where
  "wrap32 n = (n + 2 ^ 31) mod 2 ^ 32 - 2 ^ 31"

subsection \<open>Which subscriptions are active\<close>

definition isSubscriptionProcessable :: "env_lib \<Rightarrow> gotime \<Rightarrow> subscription \<Rightarrow> bool" where
  "isSubscriptionProcessable lib now sub =
     (if IsPaused sub now then False
      else IsDeliveryDay sub now (resolveLocation (zones lib) (AlertQuietTimezone sub)))"

definition isSubscriptionActive :: "env_lib \<Rightarrow> gotime \<Rightarrow> int \<Rightarrow> manager \<Rightarrow> bool" where
  "isSubscriptionActive lib now i m =
     (if i = 0 then True
      else case m_subscriptions m i of
             None \<Rightarrow> False
           | Some sub \<Rightarrow> isSubscriptionProcessable lib now sub)"

definition ShouldListenToContainer :: "env_lib \<Rightarrow> gotime \<Rightarrow> container \<Rightarrow> host \<Rightarrow> int list \<Rightarrow> manager \<Rightarrow> bool" where
  "ShouldListenToContainer lib now c h ks m =
     list_ex (\<lambda>sub. LogExpression sub \<noteq> [] \<and> isSubscriptionProcessable lib now sub
                \<and> MatchesContainer sub (FromContainerModel c h))
       (List.map_filter (m_subscriptions m) ks)"

definition SetQuietHours :: "quiet_hours_config \<Rightarrow> manager \<Rightarrow> manager" where
  "SetQuietHours cfg m = m\<lparr>m_quietHours := cfg\<rparr>"

definition GetQuietHours :: "manager \<Rightarrow> quiet_hours_config" where
  "GetQuietHours m = m_quietHours m"

subsection \<open>Dispatchers\<close>

definition alloc :: "dispatcher \<Rightarrow> manager \<Rightarrow> dref \<times> manager" where
  "alloc d m = (length (m_heap m), m\<lparr>m_heap := m_heap m @ [d]\<rparr>)"

definition AddDispatcher :: "dispatcher \<Rightarrow> manager \<Rightarrow> int \<times> manager" where
  "AddDispatcher d m =
     (let i = wrap32 (m_dispatcherCounter m + 1);
          (r, m1) = alloc d m
      in (i, m1\<lparr>m_dispatcherCounter := i, m_dispatchers := (m_dispatchers m)(i \<mapsto> r)\<rparr>))"

definition UpdateDispatcher :: "int \<Rightarrow> dispatcher \<Rightarrow> manager \<Rightarrow> manager" where
  "UpdateDispatcher i d m =
     (let (r, m1) = alloc d m in m1\<lparr>m_dispatchers := (m_dispatchers m)(i \<mapsto> r)\<rparr>)"

definition RemoveDispatcher :: "int \<Rightarrow> manager \<Rightarrow> manager" where
  "RemoveDispatcher i m = m\<lparr>m_dispatchers := (m_dispatchers m)(i := None)\<rparr>"

definition SetCloudDispatcher :: "dispatcher \<Rightarrow> manager \<Rightarrow> manager" where
  "SetCloudDispatcher d m = (let (r, m1) = alloc d m in m1\<lparr>m_cloudDispatcher := Some r\<rparr>)"

definition ClearCloudDispatcher :: "manager \<Rightarrow> manager" where
  "ClearCloudDispatcher m = m\<lparr>m_cloudDispatcher := None\<rparr>"

definition ResetCloudDispatcherBreaker :: "manager \<Rightarrow> manager" where
  "ResetCloudDispatcherBreaker m =
     (case m_cloudDispatcher m of
        None \<Rightarrow> m
      | Some r \<Rightarrow>
          (case m_heap m ! r of
             CloudDispatcher c \<Rightarrow> m\<lparr>m_heap := (m_heap m)[r := CloudDispatcher (ResetBreaker c)]\<rparr>
           | _ \<Rightarrow> m))"

definition getDispatcher :: "int \<Rightarrow> manager \<Rightarrow> dref option" where
  "getDispatcher i m = (if i = 0 then m_cloudDispatcher m else m_dispatchers m i)"

record dispatcher_config =
  dc_ID :: int
  dc_Name :: string
  dc_Type :: string
  dc_URL :: string
  dc_Template :: string
  dc_Headers :: "string \<rightharpoonup> string"
  dc_Prefix :: string
  dc_Topic :: string
  dc_Priority :: int
  dc_Tags :: "string list"
  dc_Token :: string
  dc_TitleTemplate :: string
  dc_MessageTemplate :: string

definition zero_DispatcherConfig :: dispatcher_config where
  "zero_DispatcherConfig = \<lparr>dc_ID = 0, dc_Name = [], dc_Type = [], dc_URL = [], dc_Template = [],
     dc_Headers = Map.empty, dc_Prefix = [], dc_Topic = [], dc_Priority = 0, dc_Tags = [],
     dc_Token = [], dc_TitleTemplate = [], dc_MessageTemplate = []\<rparr>"

text \<open>The configuration of one entry of \<open>m_dispatchers\<close>; a cloud dispatcher there is skipped.\<close>

definition config_of :: "int \<Rightarrow> dispatcher \<Rightarrow> dispatcher_config option" where
  "config_of i d =
     (case d of
        WebhookDispatcher v \<Rightarrow> Some (zero_DispatcherConfig
          \<lparr>dc_ID := i, dc_Name := wh_Name v, dc_Type := ''webhook'', dc_URL := wh_URL v,
           dc_Template := wh_TemplateText v, dc_Headers := wh_Headers v\<rparr>)
      | NtfyDispatcher v \<Rightarrow> Some (zero_DispatcherConfig
          \<lparr>dc_ID := i, dc_Name := nt_Name v, dc_Type := ''ntfy'', dc_URL := nt_ServerURL v,
           dc_Topic := nt_DefaultTopic v, dc_Priority := nt_DefaultPriority v, dc_Token := nt_Token v,
           dc_TitleTemplate := nt_TitleTemplate v, dc_MessageTemplate := nt_MessageTemplate v\<rparr>)
      | CloudDispatcher _ \<Rightarrow> None)"

definition Dispatchers :: "int list \<Rightarrow> manager \<Rightarrow> dispatcher_config list" where
  "Dispatchers ks m =
     (let cloud = (case m_cloudDispatcher m of
                     None \<Rightarrow> []
                   | Some r \<Rightarrow>
                       (case m_heap m ! r of
                          CloudDispatcher cd \<Rightarrow> [zero_DispatcherConfig
                            \<lparr>dc_ID := 0, dc_Name := cd_Name cd, dc_Type := ''cloud'', dc_Prefix := cd_Prefix cd\<rparr>]
                        | _ \<Rightarrow> []))
      in sort_key dc_ID (cloud @
           List.map_filter (\<lambda>i. case m_dispatchers m i of
                                 None \<Rightarrow> None | Some r \<Rightarrow> config_of i (m_heap m ! r)) ks))"

subsection \<open>Subscriptions\<close>

text \<open>The keys \<open>ks\<close> are the order in which the map is visited.\<close>

definition updateListeners :: "int list \<Rightarrow> manager \<Rightarrow> manager" where
  "updateListeners ks m =
     (let subs = List.map_filter (m_subscriptions m) ks
      in m\<lparr>m_statsRunning := list_ex (\<lambda>sub. sub_Enabled sub \<and> IsMetricAlert sub) subs,
           m_eventRunning := list_ex (\<lambda>sub. sub_Enabled sub \<and> IsEventAlert sub) subs\<rparr>)"

definition AddSubscription ::
    "env_lib \<Rightarrow> int list \<Rightarrow> subscription \<Rightarrow> manager \<Rightarrow> compile_error option \<times> manager" where
  "AddSubscription lib ks sub m =
     (let i = wrap32 (m_subscriptionCounter m + 1);
          m1 = m\<lparr>m_subscriptionCounter := i\<rparr>;
          s1 = NormalizeDeliverySchedule (sub\<lparr>sub_ID := i, sub_Enabled := True,
                 MetricCooldowns := Some Map.empty, MetricSampleBuffers := Some Map.empty,
                 EventCooldowns := Some Map.empty, LogCooldowns := Some Map.empty,
                 BurstTrackers := Some Map.empty, WatchdogTimers := Some Map.empty,
                 WatchdogCooldowns := Some Map.empty, RestartLoopTimers := Some Map.empty,
                 RestartLoopCooldowns := Some Map.empty, RestartLoopFirstSeenAt := Some Map.empty,
                 RestartLoopRestartStreaks := Some Map.empty\<rparr>)
      in case CompileExpressions (compilers lib) s1 of
           (Some e, _) \<Rightarrow> (Some e, m1)
         | (None, s2) \<Rightarrow>
             (None, updateListeners ks (m1\<lparr>m_subscriptions := (m_subscriptions m)(i \<mapsto> s2)\<rparr>)))"

definition RemoveSubscription :: "int list \<Rightarrow> int \<Rightarrow> manager \<Rightarrow> manager" where
  "RemoveSubscription ks i m =
     (case m_subscriptions m i of
        None \<Rightarrow> m
      | Some _ \<Rightarrow> updateListeners ks (m\<lparr>m_subscriptions := (m_subscriptions m)(i := None)\<rparr>))"

definition ReplaceSubscription ::
    "env_lib \<Rightarrow> int list \<Rightarrow> subscription \<Rightarrow> manager \<Rightarrow> compile_error option \<times> manager" where
  "ReplaceSubscription lib ks sub m =
     (let s1 = NormalizeDeliverySchedule (sub\<lparr>
                 MetricCooldowns := Some Map.empty, MetricSampleBuffers := Some Map.empty,
                 EventCooldowns := Some Map.empty, LogCooldowns := Some Map.empty,
                 BurstTrackers := Some Map.empty, RestartLoopTimers := Some Map.empty,
                 RestartLoopCooldowns := Some Map.empty, RestartLoopFirstSeenAt := Some Map.empty,
                 RestartLoopRestartStreaks := Some Map.empty\<rparr>)
      in case CompileExpressions (compilers lib) s1 of
           (Some e, _) \<Rightarrow> (Some e, m)
         | (None, s2) \<Rightarrow>
             (let s3 = (case m_subscriptions m (sub_ID s2) of
                          Some existing \<Rightarrow> s2\<lparr>sub_Enabled := sub_Enabled existing,
                                             PausedUntil := PausedUntil existing\<rparr>
                        | None \<Rightarrow> s2\<lparr>sub_Enabled := True\<rparr>)
              in (None, updateListeners ks (m\<lparr>m_subscriptions := (m_subscriptions m)(sub_ID s3 \<mapsto> s3)\<rparr>))))"

subsection \<open>Updating a subscription\<close>

text \<open>
  \<open>updates\<close> maps field names to values of any type; a value of another type than the field's is
  ignored.  The list is the order in which the loop visits the map.  The result of a field is an error or
  the changed clone.
\<close>

datatype update_value =
    UStr string | UInt int | UBool bool | UStrs "string list" | UTime "gotime option" | UOther

datatype update_error = NotFound | CompileFailed compile_error

definition with_str :: "update_value \<Rightarrow> (string \<Rightarrow> 'a) \<Rightarrow> 'a \<Rightarrow> 'a" where
  "with_str v f d = (case v of UStr s \<Rightarrow> f s | _ \<Rightarrow> d)"

definition with_int :: "update_value \<Rightarrow> (int \<Rightarrow> 'a) \<Rightarrow> 'a \<Rightarrow> 'a" where
  "with_int v f d = (case v of UInt n \<Rightarrow> f n | _ \<Rightarrow> d)"

definition with_bool :: "update_value \<Rightarrow> (bool \<Rightarrow> 'a) \<Rightarrow> 'a \<Rightarrow> 'a" where
  "with_bool v f d = (case v of UBool b \<Rightarrow> f b | _ \<Rightarrow> d)"

definition with_strs :: "update_value \<Rightarrow> (string list \<Rightarrow> 'a) \<Rightarrow> 'a \<Rightarrow> 'a" where
  "with_strs v f d = (case v of UStrs vs \<Rightarrow> f vs | _ \<Rightarrow> d)"

definition with_time :: "update_value \<Rightarrow> (gotime option \<Rightarrow> 'a) \<Rightarrow> 'a \<Rightarrow> 'a" where
  "with_time v f d = (case v of UTime t \<Rightarrow> f t | _ \<Rightarrow> d)"

text \<open>The cases of the switch, in the order of the source.\<close>

definition update_basic :: "string \<Rightarrow> update_value \<Rightarrow> subscription \<Rightarrow> subscription" where
  "update_basic key v u =
     (if key = ''name'' then with_str v (\<lambda>s. u\<lparr>sub_Name := s\<rparr>) u
      else if key = ''alertGroup'' then with_str v (\<lambda>s. u\<lparr>AlertGroup := TrimSpace s\<rparr>) u
      else if key = ''enabled'' then
        with_bool v (\<lambda>b. let u1 = u\<lparr>sub_Enabled := b\<rparr> in if b then u1\<lparr>PausedUntil := None\<rparr> else u1) u
      else if key = ''pausedUntil'' then with_time v (\<lambda>t. u\<lparr>PausedUntil := t\<rparr>) u
      else if key = ''deliveryDays'' then with_strs v (\<lambda>ds. u\<lparr>DeliveryDays := normalizeDeliveryDays ds\<rparr>) u
      else if key = ''dispatcherId'' then with_int v (\<lambda>n. u\<lparr>DispatcherID := n\<rparr>) u
      else u)"

definition update_expression ::
    "expr_lib \<Rightarrow> string \<Rightarrow> string \<Rightarrow> subscription \<Rightarrow> update_error + subscription" where
  "update_expression lib key s u =
     (if key = ''containerExpression'' then
        (case compile_container lib s of
           None \<Rightarrow> Inl (CompileFailed CompileContainer)
         | Some p \<Rightarrow> Inr (u\<lparr>ContainerExpression := s, ContainerProgram := Some p\<rparr>))
      else if key = ''logExpression'' then
        (if s = [] then Inr (u\<lparr>LogExpression := [], LogProgram := None\<rparr>)
         else case compile_log lib s of
           None \<Rightarrow> Inl (CompileFailed CompileLog)
         | Some p \<Rightarrow> Inr (u\<lparr>LogExpression := s, LogProgram := Some p\<rparr>))
      else if key = ''metricExpression'' then
        (if s = [] then Inr (u\<lparr>MetricExpression := [], MetricProgram := None\<rparr>)
         else case compile_metric lib s of
           None \<Rightarrow> Inl (CompileFailed CompileMetric)
         | Some p \<Rightarrow> Inr (u\<lparr>MetricExpression := s, MetricProgram := Some p\<rparr>))
      else if key = ''eventExpression'' then
        (if s = [] then Inr (u\<lparr>EventExpression := [], EventProgram := None\<rparr>)
         else case compile_event lib s of
           None \<Rightarrow> Inl (CompileFailed CompileEvent)
         | Some p \<Rightarrow> Inr (u\<lparr>EventExpression := s, EventProgram := Some p\<rparr>))
      else Inr u)"

definition update_delivery :: "string \<Rightarrow> update_value \<Rightarrow> subscription \<Rightarrow> subscription" where
  "update_delivery key v u =
     (if key = ''cooldown'' then with_int v (\<lambda>n. u\<lparr>Cooldown := n\<rparr>) u
      else if key = ''sampleWindow'' then
        with_int v (\<lambda>n. u\<lparr>SampleWindow := n, MetricSampleBuffers := Some Map.empty\<rparr>) u
      else if key = ''ntfyTopic'' then with_str v (\<lambda>s. u\<lparr>sub_NtfyTopic := s\<rparr>) u
      else if key = ''ntfyPriority'' then with_int v (\<lambda>n. u\<lparr>sub_NtfyPriority := n\<rparr>) u
      else if key = ''ntfyTags'' then with_strs v (\<lambda>ts. u\<lparr>sub_NtfyTags := ts\<rparr>) u
      else if key = ''bypassQuietHours'' then with_bool v (\<lambda>b. u\<lparr>BypassQuietHours := b\<rparr>) u
      else if key = ''quietPriority'' then with_int v (\<lambda>n. u\<lparr>QuietPriority := n\<rparr>) u
      else if key = ''holdDuringQuiet'' then with_bool v (\<lambda>b. u\<lparr>HoldDuringQuiet := b\<rparr>) u
      else if key = ''holdClearWindow'' then with_int v (\<lambda>n. u\<lparr>HoldClearWindow := n\<rparr>) u
      else if key = ''burstCount'' then with_int v (\<lambda>n. u\<lparr>BurstCount := n\<rparr>) u
      else if key = ''burstWindow'' then with_int v (\<lambda>n. u\<lparr>BurstWindow := n\<rparr>) u
      else if key = ''burstPriority'' then with_int v (\<lambda>n. u\<lparr>BurstPriority := n\<rparr>) u
      else if key = ''burstNtfyTopic'' then with_str v (\<lambda>s. u\<lparr>BurstNtfyTopic := s\<rparr>) u
      else u)"

definition update_unique ::
    "expr_lib \<Rightarrow> string \<Rightarrow> update_value \<Rightarrow> subscription \<Rightarrow> update_error + subscription" where
  "update_unique lib key v u =
     (if key = ''uniqueKeyRegex'' then
        with_str v (\<lambda>s.
          let u1 = u\<lparr>UniqueKeyRegex := s\<rparr>
          in if s = [] then Inr (u1\<lparr>UniqueRegex := None, UniqueTrackers := Some Map.empty\<rparr>)
             else case CompileExpressions lib u1 of
                    (Some e, _) \<Rightarrow> Inl (CompileFailed e)
                  | (None, u2) \<Rightarrow> Inr (u2\<lparr>UniqueTrackers := Some Map.empty\<rparr>)) (Inr u)
      else if key = ''uniqueWindow'' then
        Inr (with_int v (\<lambda>n. u\<lparr>UniqueWindow := n, UniqueTrackers := Some Map.empty\<rparr>) u)
      else if key = ''uniqueThreshold'' then
        Inr (with_int v (\<lambda>n. u\<lparr>UniqueThreshold := n, UniqueTrackers := Some Map.empty\<rparr>) u)
      else Inr u)"

definition update_watchdog ::
    "expr_lib \<Rightarrow> string \<Rightarrow> update_value \<Rightarrow> subscription \<Rightarrow> update_error + subscription" where
  "update_watchdog lib key v u =
     (if key = ''watchdogPattern'' then
        with_str v (\<lambda>s.
          if s = []
          then Inr (u\<lparr>WatchdogPattern := [], WatchdogProgram := None, WatchdogEventProgram := None\<rparr>)
          else case compile_log lib s of
            None \<Rightarrow> Inl (CompileFailed CompileWatchdog)
          | Some p \<Rightarrow>
              (case compile_event lib s of
                 None \<Rightarrow> Inl (CompileFailed CompileWatchdog)
               | Some p' \<Rightarrow> Inr (u\<lparr>WatchdogPattern := s, WatchdogProgram := Some p,
                                  WatchdogEventProgram := Some p'\<rparr>))) (Inr u)
      else if key = ''watchdogWindow'' then Inr (with_int v (\<lambda>n. u\<lparr>WatchdogWindow := n\<rparr>) u)
      else if key = ''watchdogCooldown'' then Inr (with_int v (\<lambda>n. u\<lparr>WatchdogCooldown := n\<rparr>) u)
      else if key = ''watchdogTriggerMessage'' then Inr (with_str v (\<lambda>s. u\<lparr>WatchdogTriggerMessage := s\<rparr>) u)
      else if key = ''watchdogClearMessage'' then Inr (with_str v (\<lambda>s. u\<lparr>WatchdogClearMessage := s\<rparr>) u)
      else Inr u)"

definition update_restart :: "string \<Rightarrow> update_value \<Rightarrow> subscription \<Rightarrow> subscription" where
  "update_restart key v u =
     (if key = ''restartLoopEnabled'' then with_bool v (\<lambda>b. u\<lparr>RestartLoopEnabled := b\<rparr>) u
      else if key = ''restartLoopStateWindow'' then with_int v (\<lambda>n. u\<lparr>RestartLoopStateWindow := n\<rparr>) u
      else if key = ''restartLoopEventCount'' then with_int v (\<lambda>n. u\<lparr>RestartLoopEventCount := n\<rparr>) u
      else if key = ''restartLoopEventWindow'' then with_int v (\<lambda>n. u\<lparr>RestartLoopEventWindow := n\<rparr>) u
      else if key = ''restartLoopCooldown'' then with_int v (\<lambda>n. u\<lparr>RestartLoopCooldown := n\<rparr>) u
      else if key = ''restartLoopTriggerMessage'' then with_str v (\<lambda>s. u\<lparr>RestartLoopTriggerMessage := s\<rparr>) u
      else u)"

definition update_quiet :: "string \<Rightarrow> update_value \<Rightarrow> subscription \<Rightarrow> subscription" where
  "update_quiet key v u =
     (if key = ''alertQuietEnabled'' then with_bool v (\<lambda>b. u\<lparr>AlertQuietEnabled := b\<rparr>) u
      else if key = ''alertQuietStart'' then with_str v (\<lambda>s. u\<lparr>AlertQuietStart := s\<rparr>) u
      else if key = ''alertQuietEnd'' then with_str v (\<lambda>s. u\<lparr>AlertQuietEnd := s\<rparr>) u
      else if key = ''alertQuietTimezone'' then with_str v (\<lambda>s. u\<lparr>AlertQuietTimezone := s\<rparr>) u
      else if key = ''quietStackThreshold'' then with_int v (\<lambda>n. u\<lparr>QuietStackThreshold := n\<rparr>) u
      else if key = ''quietStackWindow'' then with_int v (\<lambda>n. u\<lparr>QuietStackWindow := n\<rparr>) u
      else u)"

text \<open>At most one of the groups knows the key, the others leave the clone alone.\<close>

definition update_field ::
    "expr_lib \<Rightarrow> subscription \<Rightarrow> string \<times> update_value \<Rightarrow> update_error + subscription" where
  "update_field lib u kv =
     (case kv of (key, v) \<Rightarrow>
        (case with_str v (\<lambda>s. update_expression lib key s u) (Inr u) of
           Inl e \<Rightarrow> Inl e
         | Inr u1 \<Rightarrow>
             (case update_unique lib key v u1 of
                Inl e \<Rightarrow> Inl e
              | Inr u2 \<Rightarrow>
                  (case update_watchdog lib key v u2 of
                     Inl e \<Rightarrow> Inl e
                   | Inr u3 \<Rightarrow>
                       Inr (update_quiet key v (update_restart key v (update_delivery key v (update_basic key v u3))))))))"

text \<open>
  The clone shares the maps of the old subscription, so stopping the old one's timers is seen by
  whichever of the two stays registered.
\<close>

definition UpdateSubscription ::
    "env_lib \<Rightarrow> int list \<Rightarrow> int \<Rightarrow> (string \<times> update_value) list \<Rightarrow> manager
       \<Rightarrow> update_error option \<times> manager" where
  "UpdateSubscription lib ks i updates m =
     (case m_subscriptions m i of
        None \<Rightarrow> (Some NotFound, m)
      | Some sub \<Rightarrow>
          (let stopped = StopRuntime sub
           in case foldE (update_field (compilers lib)) stopped updates of
                Inl e \<Rightarrow> (Some e, m\<lparr>m_subscriptions := (m_subscriptions m)(i \<mapsto> stopped)\<rparr>)
              | Inr updated \<Rightarrow>
                  (None, updateListeners ks (m\<lparr>m_subscriptions := (m_subscriptions m)(i \<mapsto> updated)\<rparr>))))"

subsection \<open>Reading the state\<close>

definition Subscriptions :: "int list \<Rightarrow> manager \<Rightarrow> subscription list" where
  "Subscriptions ks m = sort_key sub_ID (List.map_filter (m_subscriptions m) ks)"

record subscription_stats =
  ss_SubscriptionID :: int
  ss_TriggerCount :: int
  ss_LastTriggeredAt :: "gotime option"
  ss_TriggeredContainerIDs :: "string set"

definition GetNotificationStats :: "int list \<Rightarrow> manager \<Rightarrow> subscription_stats list" where
  "GetNotificationStats ks m =
     map (\<lambda>sub. \<lparr>ss_SubscriptionID = sub_ID sub, ss_TriggerCount = TriggerCount sub,
                 ss_LastTriggeredAt = (case LastTriggeredAt sub of
                                         None \<Rightarrow> None | Some t \<Rightarrow> if IsZero t then None else Some t),
                 ss_TriggeredContainerIDs = (case TriggeredContainerIDs sub of None \<Rightarrow> {} | Some ids \<Rightarrow> ids)\<rparr>)
       (List.map_filter (m_subscriptions m) ks)"

subsection \<open>Restoring cooldowns\<close>

text \<open>\<open>strings.LastIndex\<close> of one byte, as the text before and after it.\<close>

definition cut_last :: "char \<Rightarrow> string \<Rightarrow> (string \<times> string) option" where
  "cut_last d s =
     (if d \<in> set s
      then let t = takeWhile (\<lambda>c. c \<noteq> d) (rev s)
           in Some (take (length s - length t - 1) s, rev t)
      else None)"

definition parse_cooldown_key :: "string \<Rightarrow> (int \<times> string \<times> string) option" where
  "parse_cooldown_key key =
     (case index_byte (CHR '':'') key of
        None \<Rightarrow> None
      | Some i \<Rightarrow>
          (case cut_last (CHR '':'') (drop (i + 1) key) of
             None \<Rightarrow> None
           | Some (containerID, cooldownType) \<Rightarrow>
               (case Atoi (take i key) of
                  None \<Rightarrow> None
                | Some subID \<Rightarrow> Some (subID, containerID, cooldownType))))"

definition restore_cooldown :: "string \<times> gotime \<Rightarrow> (int \<rightharpoonup> subscription) \<Rightarrow> (int \<rightharpoonup> subscription)" where
  "restore_cooldown kv subs =
     (case kv of (key, expiresAt) \<Rightarrow>
        (case parse_cooldown_key key of
           None \<Rightarrow> subs
         | Some (subID, containerID, cooldownType) \<Rightarrow>
             (case subs subID of
                None \<Rightarrow> subs
              | Some sub \<Rightarrow>
                  (let lastTriggered = expiresAt - GetCooldownSeconds sub * Second;
                       put = map_option (\<lambda>f. f(containerID \<mapsto> lastTriggered));
                       sub' = (if cooldownType = ''log'' then sub\<lparr>LogCooldowns := put (LogCooldowns sub)\<rparr>
                               else if cooldownType = ''metric'' then sub\<lparr>MetricCooldowns := put (MetricCooldowns sub)\<rparr>
                               else if cooldownType = ''event'' then sub\<lparr>EventCooldowns := put (EventCooldowns sub)\<rparr>
                               else sub)
                   in subs(subID \<mapsto> sub')))))"

text \<open>\<open>ks\<close> is the order in which the loop visits the rows.\<close>

definition RestorePersistentState :: "faults \<Rightarrow> gotime \<Rightarrow> string list \<Rightarrow> manager \<Rightarrow> manager" where
  "RestorePersistentState bad now ks m =
     (case m_queue m of
        None \<Rightarrow> m
      | Some q \<Rightarrow>
          (case LoadCooldowns bad now q of
             Inl _ \<Rightarrow> m
           | Inr cooldowns \<Rightarrow>
               m\<lparr>m_subscriptions := fold restore_cooldown
                   (List.map_filter (\<lambda>k. map_option (Pair k) (cooldowns k)) ks) (m_subscriptions m)\<rparr>))"

subsection \<open>Delivering from the queue\<close>

definition send_via ::
    "web_lib \<Rightarrow> exchange \<Rightarrow> gotime \<Rightarrow> dref \<Rightarrow> notification \<Rightarrow> int option \<Rightarrow> manager \<Rightarrow> send_error option \<times> manager" where
  "send_via web ex now r n row m =
     (case Send web ex now n (m_heap m ! r) of (err, d) \<Rightarrow>
        (err, m\<lparr>m_heap := (m_heap m)[r := d],
                m_sends := m_sends m @ [\<lparr>sd_time = now, sd_dispatcher = r, sd_notification = n, sd_row = row\<rparr>]\<rparr>))"

definition with_queue :: "(queue \<Rightarrow> queue) \<Rightarrow> manager \<Rightarrow> manager" where
  "with_queue f m = m\<lparr>m_queue := map_option f (m_queue m)\<rparr>"

definition deliverQueuedNotification ::
    "env_lib \<Rightarrow> web_lib \<Rightarrow> exchange \<Rightarrow> faults \<Rightarrow> gotime \<Rightarrow> queued_notification \<Rightarrow> manager \<Rightarrow> manager" where
  "deliverQueuedNotification lib web ex bad now item m =
     (case getDispatcher (qn_DispatcherID item) m of
        None \<Rightarrow> with_queue (snd \<circ> MarkFailed bad now (qn_ID item) 3) m
      | Some d \<Rightarrow>
          (if \<not> isSubscriptionActive lib now (sub_ID (n_Subscription (qn_Notification item))) m
           then with_queue (snd \<circ> MarkSent bad (qn_ID item)) m
           else
             (case send_via web ex now d (qn_Notification item) (Some (qn_ID item)) m of
                (Some _, m1) \<Rightarrow> with_queue (snd \<circ> MarkFailed bad now (qn_ID item) (qn_Attempts item)) m1
              | (None, m1) \<Rightarrow> with_queue (snd \<circ> MarkSent bad (qn_ID item)) m1)))"

definition flush_summary ::
    "env_lib \<Rightarrow> faults \<Rightarrow> gotime \<Rightarrow> quiet_hours_config \<Rightarrow> quiet_summary \<Rightarrow> queue \<Rightarrow> queue" where
  "flush_summary lib bad now qh summary q =
     (let n = renderQuietSummary lib summary (MaxSummaryGroups qh)
      in case Enqueue bad now n now q of
           (Some _, q1) \<Rightarrow> q1
         | (None, q1) \<Rightarrow> snd (DeleteQuietSummary bad (qs_Key summary) q1))"

definition flushQuietSummaries :: "env_lib \<Rightarrow> faults \<Rightarrow> gotime \<Rightarrow> quiet_hours_config \<Rightarrow> queue \<Rightarrow> queue" where
  "flushQuietSummaries lib bad now qh q =
     (case DueQuietSummaries bad now q of
        Inl _ \<Rightarrow> q
      | Inr summaries \<Rightarrow> fold (flush_summary lib bad now qh) summaries q)"

definition cleanup_all :: "faults \<Rightarrow> gotime \<Rightarrow> queue \<Rightarrow> queue" where
  "cleanup_all bad now q =
     CleanupQuietPeriodModes bad now (CleanupCooldowns bad now (CleanupUniqueState bad now (49 * Hour)
       (CleanupAlertState bad now (25 * Hour) (Cleanup bad now (7 * 24 * Hour) q))))"

definition flushQueue ::
    "env_lib \<Rightarrow> web_lib \<Rightarrow> exchange \<Rightarrow> faults \<Rightarrow> gotime \<Rightarrow> manager \<Rightarrow> manager" where
  "flushQueue lib web ex bad now m =
     (case m_queue m of
        None \<Rightarrow> m
      | Some q \<Rightarrow>
          (case DrainReady bad now (flushQuietSummaries lib bad now (GetQuietHours m) q) of
             (_, Some _, q1) \<Rightarrow> m\<lparr>m_queue := Some q1\<rparr>
           | (items, None, q1) \<Rightarrow>
               (let m1 = m\<lparr>m_queue := Some q1\<rparr>;
                    m2 = (case items of
                            [] \<Rightarrow> m1
                          | item # _ \<Rightarrow> deliverQueuedNotification lib web ex bad now item m1)
                in with_queue (cleanup_all bad now) m2)))"

subsection \<open>Sending, holding or aggregating an alert\<close>

definition stack_threshold :: "quiet_hours_config \<Rightarrow> 'a subscription_config_scheme \<Rightarrow> int" where
  "stack_threshold qh sub =
     (if QuietStackThreshold sub > 0 then QuietStackThreshold sub
      else if StackThreshold qh \<le> 0 then 3 else StackThreshold qh)"

definition stack_window :: "quiet_hours_config \<Rightarrow> 'a subscription_config_scheme \<Rightarrow> int" where
  "stack_window qh sub =
     (if QuietStackWindow sub > 0 then QuietStackWindow sub
      else if StackWindow qh \<le> 0 then 900 else StackWindow qh)"

definition type_text :: "notification_type \<Rightarrow> string" where
  "type_text t = (case t of LogNotification \<Rightarrow> ''log'' | MetricNotification \<Rightarrow> ''metric'' | EventNotification \<Rightarrow> ''event'')"

definition applyQuietHoursBurstEscalation ::
    "env_lib \<Rightarrow> faults \<Rightarrow> gotime \<Rightarrow> quiet_hours_config \<Rightarrow> subscription \<Rightarrow> notification \<Rightarrow> queue
       \<Rightarrow> notification \<times> queue" where
  "applyQuietHoursBurstEscalation lib bad now qh sub n q =
     (let threshold = stack_threshold qh sub;
          window = stack_window qh sub;
          stackedPriority = (if StackedPriority qh \<le> 0 then 4 else StackedPriority qh);
          hst = nc_HostName (n_Container n);
          cname = nc_Name (n_Container n);
          fp = alertFingerprint lib (sub_Name sub) hst cname (type_text (n_Type n)) (n_Detail n)
      in case GetOrCreateAlertState bad now fp (sub_ID sub) hst cname (type_text (n_Type n)) q of
           (Inl _, q1) \<Rightarrow> (n, q1)
         | (Inr state, q1) \<Rightarrow>
             (let state1 = (if now > as_WindowStart state + time_Seconds window
                            then state\<lparr>as_Count := 0, as_StackedSent := False, as_WindowStart := now\<rparr>
                            else state);
                  state2 = state1\<lparr>as_Count := as_Count state1 + 1\<rparr>;
                  escalate = (as_Count state2 \<ge> threshold \<and> \<not> as_StackedSent state2);
                  state3 = (if escalate then state2\<lparr>as_StackedSent := True\<rparr> else state2);
                  n1 = (if escalate then n\<lparr>n_NtfyPriority := stackedPriority\<rparr> else n);
                  n2 = (if escalate \<and> StackedUsesQuietTopic qh \<and> QuietTopic qh \<noteq> []
                        then n1\<lparr>n_NtfyTopic := QuietTopic qh\<rparr> else n1);
                  n3 = (if escalate
                        then addContext ''Quiet-hours stack''
                               (show_int (as_Count state3) @ '' held alerts / '' @ formatDurationSeconds lib window) n2
                        else n2)
              in (n3, snd (UpsertAlertState bad now state3 q1))))"

definition go_send :: "dref \<Rightarrow> notification \<Rightarrow> int \<Rightarrow> gotime \<Rightarrow> manager \<Rightarrow> manager" where
  "go_send d n dispatcherID now m =
     m\<lparr>m_sending := m_sending m @
         [\<lparr>ps_dispatcher = d, ps_notification = n, ps_dispatcherID = dispatcherID, ps_attempt = 0, ps_due = now\<rparr>]\<rparr>"

definition hold_in_quiet ::
    "env_lib \<Rightarrow> faults \<Rightarrow> gotime \<Rightarrow> quiet_hours_config \<Rightarrow> gotime \<Rightarrow> subscription \<Rightarrow> notification \<Rightarrow> queue \<Rightarrow> queue" where
  "hold_in_quiet lib bad now qh quietEnd sub n q =
     (let (n1, q1) = applyQuietHoursBurstEscalation lib bad now qh sub n q;
          pendingCount = (case PendingCountForSubscription bad (sub_ID sub) q1 of Inl _ \<Rightarrow> 0 | Inr k \<Rightarrow> k);
          deliverAt = quietEnd + pendingCount * 2 * Second;
          n2 = addContext ''Delivery'' ''held during quiet hours'' n1;
          n3 = addContext ''Queued until'' (format_rfc3339 lib deliverAt) n2
      in snd (Enqueue bad now n3 deliverAt q1))"

definition after_quiet ::
    "env_lib \<Rightarrow> faults \<Rightarrow> gotime \<Rightarrow> dref \<Rightarrow> notification \<Rightarrow> subscription \<Rightarrow> manager \<Rightarrow> manager" where
  "after_quiet lib bad now d n sub m =
     (case m_queue m of
        Some q \<Rightarrow>
          (if HoldClearWindow sub > 0
           then let deliverAt = now + time_Seconds (HoldClearWindow sub);
                    n1 = addContext ''Delivery'' ''legacy hold window'' n;
                    n2 = addContext ''Queued until'' (format_rfc3339 lib deliverAt) n1
                in m\<lparr>m_queue := Some (snd (Enqueue bad now n2 deliverAt q))\<rparr>
           else go_send d n (DispatcherID sub) now m)
      | None \<Rightarrow> go_send d n (DispatcherID sub) now m)"

definition sendOrQueue ::
    "env_lib \<Rightarrow> faults \<Rightarrow> gotime \<Rightarrow> dref \<Rightarrow> notification \<Rightarrow> subscription \<Rightarrow> manager \<Rightarrow> manager" where
  "sendOrQueue lib bad now d n sub m =
     (let (inQuiet, quietEnd) = effectiveQuietHours (zones lib) (GetQuietHours m) sub now
      in if inQuiet
         then
           (let n1 = addModifierTag ''quiet-hours'' n
            in case m_queue m of
                 Some q \<Rightarrow>
                   (case shouldAggregateQuiet lib bad now (GetQuietHours m) sub (Some q) of
                      (True, mq) \<Rightarrow>
                        m\<lparr>m_queue := map_option
                            (snd \<circ> aggregateQuietNotification lib bad now (GetQuietHours m) n1 sub) mq\<rparr>
                    | (False, mq) \<Rightarrow>
                        m\<lparr>m_queue := map_option
                            (hold_in_quiet lib bad now (GetQuietHours m) quietEnd sub n1) mq\<rparr>)
               | None \<Rightarrow>
                   (let n2 = (if QuietPriority sub > 0 then n1\<lparr>n_NtfyPriority := QuietPriority sub\<rparr> else n1);
                        n3 = addContext ''Delivery'' ''quiet hours active; sent without queue'' n2
                    in after_quiet lib bad now d n3 sub m))
         else after_quiet lib bad now d n sub m)"

subsection \<open>Sending with retries\<close>

text \<open>
  One goroutine of \<open>sendWithRetry\<close>.  \<open>start_send\<close> is what it does before the loop, with the outcome of
  waiting for the semaphore; \<open>attempt_send\<close> is one iteration.  \<open>None\<close> means that it has ended.
\<close>

definition start_send :: "env_lib \<Rightarrow> bool \<Rightarrow> gotime \<Rightarrow> manager \<Rightarrow> pending_send \<Rightarrow> pending_send option" where
  "start_send lib acquired now m p =
     (if \<not> isSubscriptionActive lib now (sub_ID (n_Subscription (ps_notification p))) m then None
      else if \<not> acquired then None
      else Some (p\<lparr>ps_attempt := 1, ps_due := now\<rparr>))"

definition attempt_send ::
    "env_lib \<Rightarrow> web_lib \<Rightarrow> exchange \<Rightarrow> gotime \<Rightarrow> pending_send \<Rightarrow> manager \<Rightarrow> pending_send option \<times> manager" where
  "attempt_send lib web ex now p m =
     (if \<not> isSubscriptionActive lib now (sub_ID (n_Subscription (ps_notification p))) m then (None, m)
      else case send_via web ex now (ps_dispatcher p) (ps_notification p) None m of
             (None, m1) \<Rightarrow> (None, m1)
           | (Some _, m1) \<Rightarrow>
               (if ps_attempt p < 3
                then (Some (p\<lparr>ps_attempt := ps_attempt p + 1,
                              ps_due := now + ps_attempt p * ps_attempt p * 30 * Second\<rparr>), m1)
                else (None, m1)))"

end
