(* ===== verification/AlertProcessing.thy ===== *)
theory AlertProcessing
  imports NotifManager
begin

text \<open>
  The event handlers of \<open>internal/notification/processing.go\<close>: what a log line, a stat sample and a
  container event do to every subscription, and what the watchdog and restart-loop timers do when
  they fire.  A handler visits the subscriptions in the order \<open>ks\<close> and stops with a panic if one of
  them panics.  A restart-loop timer is described for a subscription that was not replaced since the
  timer was started.
\<close>

subsection \<open>Events\<close>

record container_event_entry =
  ee_Event :: container_event
  ee_Container :: container
  ee_Host :: host

record container_stat_event =
  se_Stat :: container_stat
  se_Container :: container
  se_Host :: host

subsection \<open>Building notifications\<close>

text \<open>The fields every alert copies from its subscription.\<close>

definition alert_config :: "int \<Rightarrow> subscription \<Rightarrow> subscription_config" where
  "alert_config priority sub = zero_SubscriptionConfig
     \<lparr>sub_ID := sub_ID sub, sub_Name := sub_Name sub, sub_Enabled := sub_Enabled sub,
      DispatcherID := DispatcherID sub, ContainerExpression := ContainerExpression sub,
      sub_NtfyTopic := sub_NtfyTopic sub, sub_NtfyPriority := priority,
      sub_NtfyTags := sub_NtfyTags sub, BypassQuietHours := BypassQuietHours sub\<rparr>"

definition alert ::
    "string \<Rightarrow> notification_type \<Rightarrow> string \<Rightarrow> notification_container \<Rightarrow> int \<Rightarrow> gotime \<Rightarrow> subscription
       \<Rightarrow> subscription_config \<Rightarrow> notification" where
  "alert i ty detail nc priority now sub cfg =
     \<lparr>n_ID = i, n_Type = ty, n_Detail = detail, n_Container = nc, n_Log = None, n_Stat = None,
      n_Event = None, n_Subscription = cfg, n_Timestamp = now, n_NtfyTopic = sub_NtfyTopic sub,
      n_NtfyPriority = priority, n_NtfyTags = sub_NtfyTags sub, n_Context = []\<rparr>"

definition formatLogMessage :: "env_lib \<Rightarrow> notif_message \<Rightarrow> string" where
  "formatLogMessage lib msg =
     (case msg of NText v \<Rightarrow> v | NMap kvs \<Rightarrow> json_text lib kvs | NNil \<Rightarrow> ''null''
      | NJson j \<Rightarrow> json_value_text lib j)"

definition mark_triggered :: "string \<Rightarrow> gotime \<Rightarrow> subscription \<Rightarrow> subscription" where
  "mark_triggered i now sub =
     (let s = AddTriggeredContainer i sub
      in s\<lparr>TriggerCount := TriggerCount s + 1, LastTriggeredAt := Some now\<rparr>)"

text \<open>Send through the subscription's dispatcher, if there is one.\<close>

definition dispatch :: "env_lib \<Rightarrow> faults \<Rightarrow> gotime \<Rightarrow> notification \<Rightarrow> subscription \<Rightarrow> manager \<Rightarrow> manager" where
  "dispatch lib bad now n sub m =
     (case getDispatcher (DispatcherID sub) m of
        None \<Rightarrow> m
      | Some d \<Rightarrow> sendOrQueue lib bad now d n sub m)"

definition aggregate_hit ::
    "env_lib \<Rightarrow> faults \<Rightarrow> gotime \<Rightarrow> notification \<Rightarrow> subscription \<Rightarrow> manager \<Rightarrow> manager" where
  "aggregate_hit lib bad now n sub m =
     with_queue (snd \<circ> aggregateQuietNotification lib bad now (GetQuietHours m) n sub) m"

text \<open>\<open>shouldAggregateQuiet\<close> and \<open>evaluateUnique\<close> on the manager's queue.\<close>

definition should_aggregate :: "env_lib \<Rightarrow> faults \<Rightarrow> gotime \<Rightarrow> subscription \<Rightarrow> manager \<Rightarrow> bool \<times> manager" where
  "should_aggregate lib bad now sub m =
     (case shouldAggregateQuiet lib bad now (GetQuietHours m) sub (m_queue m) of
        (b, mq) \<Rightarrow> (b, m\<lparr>m_queue := mq\<rparr>))"

definition persist_cooldown ::
    "faults \<Rightarrow> gotime \<Rightarrow> string \<Rightarrow> string \<Rightarrow> subscription \<Rightarrow> manager \<Rightarrow> manager" where
  "persist_cooldown bad now containerID kind sub m =
     with_queue (snd \<circ> SetCooldown bad (show_int (sub_ID sub) @ '':'' @ containerID @ '':'' @ kind)
                   (now + GetCooldownSeconds sub * Second)) m"

subsection \<open>Log lines\<close>

definition log_watchdog_clear ::
    "env_lib \<Rightarrow> faults \<Rightarrow> gotime \<Rightarrow> string \<Rightarrow> notification_container \<Rightarrow> notification_log \<Rightarrow> subscription
       \<Rightarrow> manager \<Rightarrow> bool \<times> manager" where
  "log_watchdog_clear lib bad now cid nc nl sub m =
     (case should_aggregate lib bad now sub m of
        (True, m1) \<Rightarrow> (True, m1)
      | (False, m1) \<Rightarrow>
          (False, dispatch lib bad now
             ((alert (cid @ ''-watchdog-clear-'' @ show_int now) LogNotification (WatchdogClearMessage sub)
                nc (sub_NtfyPriority sub) now sub
                ((alert_config (sub_NtfyPriority sub) sub)\<lparr>LogExpression := LogExpression sub\<rparr>))
                \<lparr>n_Log := Some nl\<rparr>) sub m1))"

definition watchdog_detail :: "subscription \<Rightarrow> string" where
  "watchdog_detail sub =
     (if WatchdogTriggerMessage sub \<noteq> [] then WatchdogTriggerMessage sub
      else if WatchdogPattern sub \<noteq> []
      then ''Watchdog: no follow-up received within '' @ show_int (WatchdogWindow sub) @ '' seconds''
      else ''Watchdog: no heartbeat seen for '' @ show_int (WatchdogWindow sub) @ '' seconds'')"

definition log_watchdog_trigger ::
    "env_lib \<Rightarrow> gotime \<Rightarrow> string \<Rightarrow> string \<Rightarrow> notification_container \<Rightarrow> notification_log \<Rightarrow> subscription
       \<Rightarrow> manager \<Rightarrow> go_panic + subscription" where
  "log_watchdog_trigger lib now containerID cid nc nl sub m =
     (if \<not> MatchesLog sub nl then Inr sub
      else case getDispatcher (DispatcherID sub) m of
        None \<Rightarrow> Inr sub
      | Some d \<Rightarrow>
          (case DetectBurst containerID (sub_NtfyPriority sub) now sub of
             ((priority, escalated, hits), sub1) \<Rightarrow>
               (let n = (alert (cid @ ''-watchdog-'' @ show_int now) LogNotification (watchdog_detail sub) nc
                           priority now sub
                           ((alert_config priority sub)\<lparr>LogExpression := LogExpression sub\<rparr>))
                        \<lparr>n_Log := Some nl\<rparr>
                in ResetWatchdogTimer containerID d (applyBurstModifier lib sub escalated hits n)
                     (WatchdogWindow sub) now sub1)))"

definition log_watchdog ::
    "env_lib \<Rightarrow> faults \<Rightarrow> gotime \<Rightarrow> string \<Rightarrow> string \<Rightarrow> notification_container \<Rightarrow> notification_log
       \<Rightarrow> subscription \<Rightarrow> manager \<Rightarrow> go_panic + subscription \<times> manager" where
  "log_watchdog lib bad now containerID cid nc nl sub m =
     (let trigger = (\<lambda>sub m. case log_watchdog_trigger lib now containerID cid nc nl sub m of
                               Inl p \<Rightarrow> Inl p | Inr sub' \<Rightarrow> Inr (sub', m))
      in if WatchdogProgram sub \<noteq> None \<and> MatchesWatchdog sub nl
         then (case CancelWatchdogTimer containerID sub of
                 Inl p \<Rightarrow> Inl p
               | Inr (wasActive, sub1) \<Rightarrow>
                   (if wasActive \<and> WatchdogClearMessage sub1 \<noteq> []
                    then (case log_watchdog_clear lib bad now cid nc nl sub1 m of
                            (True, m1) \<Rightarrow> Inr (sub1, m1)
                          | (False, m1) \<Rightarrow> trigger sub1 m1)
                    else trigger sub1 m))
         else trigger sub m)"

definition log_alert ::
    "env_lib \<Rightarrow> faults \<Rightarrow> gotime \<Rightarrow> string \<Rightarrow> string \<Rightarrow> notification_container \<Rightarrow> notification_log
       \<Rightarrow> subscription \<Rightarrow> manager \<Rightarrow> go_panic + subscription \<times> manager" where
  "log_alert lib bad now containerID cid nc nl sub m =
     (let detail = formatLogMessage lib (nl_Message nl)
      in case evaluateUnique lib bad now containerID detail (m_queue m) sub of
           Inl p \<Rightarrow> Inl p
         | Inr (unique, mq, sub1) \<Rightarrow>
             (let m1 = m\<lparr>m_queue := mq\<rparr>
              in if \<not> ud_Allowed unique then Inr (sub1, m1)
                 else case should_aggregate lib bad now sub1 m1 of
                   (True, m2) \<Rightarrow>
                     Inr (mark_triggered (nc_ID nc) now sub1,
                          aggregate_hit lib bad now
                            ((summaryNotification now sub1 LogNotification detail nc)\<lparr>n_Log := Some nl\<rparr>) sub1 m2)
                 | (False, m2) \<Rightarrow>
                     (if Cooldown sub1 > 0 \<and> IsLogCooldownActive sub1 containerID now then Inr (sub1, m2)
                      else
                        let sub2 = (if Cooldown sub1 > 0 then SetLogCooldown containerID now sub1 else sub1);
                            m3 = (if Cooldown sub1 > 0
                                  then persist_cooldown bad now containerID ''log'' sub1 m2 else m2);
                            sub3 = mark_triggered (nc_ID nc) now sub2
                        in case DetectBurst containerID (sub_NtfyPriority sub3) now sub3 of
                             ((priority, escalated, hits), sub4) \<Rightarrow>
                               (let n = (alert (cid @ ''-'' @ show_int now) LogNotification detail nc priority now sub4
                                           ((alert_config priority sub4)\<lparr>LogExpression := LogExpression sub4\<rparr>))
                                        \<lparr>n_Log := Some nl\<rparr>;
                                    n' = applyBurstModifier lib sub4 escalated hits (applyUniqueModifier lib unique n)
                                in Inr (sub4, dispatch lib bad now n' sub4 m3)))))"

definition log_one ::
    "env_lib \<Rightarrow> faults \<Rightarrow> gotime \<Rightarrow> string \<Rightarrow> string \<Rightarrow> notification_container \<Rightarrow> notification_log
       \<Rightarrow> subscription \<Rightarrow> manager \<Rightarrow> go_panic + subscription \<times> manager" where
  "log_one lib bad now containerID cid nc nl sub m =
     (if \<not> isSubscriptionProcessable lib now sub \<or> \<not> IsLogAlert sub then Inr (sub, m)
      else if \<not> MatchesContainer sub nc then Inr (sub, m)
      else if WatchdogWindow sub > 0 then log_watchdog lib bad now containerID cid nc nl sub m
      else if \<not> MatchesLog sub nl then Inr (sub, m)
      else log_alert lib bad now containerID cid nc nl sub m)"

text \<open>\<open>Range\<close> over the subscriptions with a handler for one of them.\<close>

definition visit ::
    "(subscription \<Rightarrow> manager \<Rightarrow> go_panic + subscription \<times> manager) \<Rightarrow> manager \<Rightarrow> int \<Rightarrow> go_panic + manager" where
  "visit f m i =
     (case m_subscriptions m i of
        None \<Rightarrow> Inr m
      | Some sub \<Rightarrow>
          (case f sub m of
             Inl p \<Rightarrow> Inl p
           | Inr (sub', m') \<Rightarrow> Inr (m'\<lparr>m_subscriptions := (m_subscriptions m')(i \<mapsto> sub')\<rparr>)))"

text \<open>\<open>find_container\<close> is \<open>FindContainerWithHost\<close> of the log listener.\<close>

definition processLogEvent ::
    "env_lib \<Rightarrow> faults \<Rightarrow> (string \<Rightarrow> (container \<times> host) option) \<Rightarrow> gotime \<Rightarrow> int list \<Rightarrow> log_event
       \<Rightarrow> manager \<Rightarrow> go_panic + manager" where
  "processLogEvent lib bad find_container now ks ev m =
     (case find_container (le_ContainerID ev) of
        None \<Rightarrow> Inr m
      | Some (c, h) \<Rightarrow>
          (if isDozzleContainer c then Inr m
           else foldE (visit (log_one lib bad now (le_ContainerID ev) (c_ID c) (FromContainerModel c h)
                                (FromLogEvent (strip_ansi lib) ev))) m ks))"

subsection \<open>Stat samples\<close>

text \<open>\<open>ks'\<close> is the order in which the container's mounts are visited.\<close>

definition alert_cores :: "container_stat_event \<Rightarrow> real" where
  "alert_cores ev =
     (let cores = c_CPULimit (se_Container ev);
          cores1 = (if cores \<le> 0 then of_int (h_NCPU (se_Host ev)) else cores)
      in if cores1 \<le> 0 then 1 else cores1)"

definition stat_of_event :: "string list \<Rightarrow> container_stat_event \<Rightarrow> notification_stat" where
  "stat_of_event ks' ev =
     \<lparr>ns_CPUPercent = st_CPUPercent (se_Stat ev) / alert_cores ev,
      ns_MemoryPercent = st_MemoryPercent (se_Stat ev), ns_MemoryUsage = st_MemoryUsage (se_Stat ev),
      ns_Mounts = FromContainerMounts ks' (se_Container ev)\<rparr>"

definition metric_alert ::
    "env_lib \<Rightarrow> faults \<Rightarrow> gotime \<Rightarrow> string \<Rightarrow> notification_container \<Rightarrow> notification_stat
       \<Rightarrow> subscription \<Rightarrow> manager \<Rightarrow> go_panic + subscription \<times> manager" where
  "metric_alert lib bad now cid nc ns sub m =
     (let detail = ''CPU: '' @ format_percent lib (ns_CPUPercent ns) @ ''%, Memory: ''
                     @ format_percent lib (ns_MemoryPercent ns) @ ''%''
      in case evaluateUnique lib bad now cid detail (m_queue m) sub of
           Inl p \<Rightarrow> Inl p
         | Inr (unique, mq, sub1) \<Rightarrow>
             (let m1 = m\<lparr>m_queue := mq\<rparr>
              in if \<not> ud_Allowed unique then Inr (sub1, m1)
                 else case should_aggregate lib bad now sub1 m1 of
                   (True, m2) \<Rightarrow>
                     Inr (mark_triggered cid now sub1,
                          aggregate_hit lib bad now
                            ((summaryNotification now sub1 MetricNotification detail nc)\<lparr>n_Stat := Some ns\<rparr>) sub1 m2)
                 | (False, m2) \<Rightarrow>
                     (case IsMetricCooldownActive sub1 cid now of
                        Inl p \<Rightarrow> Inl p
                      | Inr True \<Rightarrow> Inr (sub1, m2)
                      | Inr False \<Rightarrow>
                          (case SetMetricCooldown cid now sub1 of
                             Inl p \<Rightarrow> Inl p
                           | Inr sub2 \<Rightarrow>
                               (let m3 = (if Cooldown sub2 > 0
                                          then persist_cooldown bad now cid ''metric'' sub2 m2 else m2);
                                    sub3 = mark_triggered cid now sub2
                                in case DetectBurst cid (sub_NtfyPriority sub3) now sub3 of
                                     ((priority, escalated, hits), sub4) \<Rightarrow>
                                       (let n = (alert (cid @ ''-metric-'' @ show_int now) MetricNotification detail nc
                                                   priority now sub4
                                                   ((alert_config priority sub4)
                                                      \<lparr>MetricExpression := MetricExpression sub4,
                                                       Cooldown := Cooldown sub4, SampleWindow := SampleWindow sub4\<rparr>))
                                                \<lparr>n_Stat := Some ns\<rparr>;
                                            n' = applyBurstModifier lib sub4 escalated hits
                                                   (applyUniqueModifier lib unique n)
                                        in Inr (sub4, dispatch lib bad now n' sub4 m3)))))))"

definition stat_one ::
    "env_lib \<Rightarrow> faults \<Rightarrow> gotime \<Rightarrow> string \<Rightarrow> notification_container \<Rightarrow> notification_stat
       \<Rightarrow> subscription \<Rightarrow> manager \<Rightarrow> go_panic + subscription \<times> manager" where
  "stat_one lib bad now cid nc ns sub m =
     (if \<not> isSubscriptionProcessable lib now sub \<or> \<not> IsMetricAlert sub then Inr (sub, m)
      else if \<not> MatchesContainer sub nc then Inr (sub, m)
      else case RecordMetricSample cid (MatchesMetric sub ns) sub of
             Inl p \<Rightarrow> Inl p
           | Inr (False, sub1) \<Rightarrow> Inr (sub1, m)
           | Inr (True, sub1) \<Rightarrow> metric_alert lib bad now cid nc ns sub1 m)"

definition processStatEvent ::
    "env_lib \<Rightarrow> faults \<Rightarrow> gotime \<Rightarrow> string list \<Rightarrow> int list \<Rightarrow> container_stat_event \<Rightarrow> manager
       \<Rightarrow> go_panic + manager" where
  "processStatEvent lib bad now ks' ks ev m =
     foldE (visit (stat_one lib bad now (st_ID (se_Stat ev))
              (FromContainerModel (se_Container ev) (se_Host ev)) (stat_of_event ks' ev))) m ks"

subsection \<open>Restart loops\<close>

definition restart_config :: "int \<Rightarrow> subscription \<Rightarrow> subscription_config" where
  "restart_config priority sub = (alert_config priority sub)
     \<lparr>EventExpression := EventExpression sub, Cooldown := Cooldown sub,
      RestartLoopEnabled := RestartLoopEnabled sub, RestartLoopStateWindow := RestartLoopStateWindow sub,
      RestartLoopEventCount := RestartLoopEventCount sub, RestartLoopEventWindow := RestartLoopEventWindow sub,
      RestartLoopCooldown := RestartLoopCooldown sub,
      RestartLoopTriggerMessage := RestartLoopTriggerMessage sub\<rparr>"

definition fireRestartLoopAlert ::
    "env_lib \<Rightarrow> faults \<Rightarrow> gotime \<Rightarrow> string \<Rightarrow> notification_container \<Rightarrow> notification_event \<Rightarrow> string
       \<Rightarrow> subscription \<Rightarrow> manager \<Rightarrow> subscription \<times> manager" where
  "fireRestartLoopAlert lib bad now containerID nc ne detail sub m =
     (if \<not> isSubscriptionProcessable lib now sub then (sub, m)
      else if IsRestartLoopCooldownActive sub containerID now then (sub, m)
      else
        let sub1 = mark_triggered containerID now (SetRestartLoopCooldown containerID now sub)
        in case DetectBurst containerID (sub_NtfyPriority sub1) now sub1 of
             ((priority, escalated, hits), sub2) \<Rightarrow>
               (let text = (if RestartLoopTriggerMessage sub2 \<noteq> [] then RestartLoopTriggerMessage sub2 else detail);
                    n = (alert (containerID @ ''-restart-loop-'' @ show_int now) EventNotification text nc
                           priority now sub2 (restart_config priority sub2))\<lparr>n_Event := Some ne\<rparr>
                in (sub2, dispatch lib bad now (applyBurstModifier lib sub2 escalated hits n) sub2 m)))"

text \<open>The part of \<open>processRestartLoop\<close> that watches the state; \<open>True\<close> means that the handler returns.\<close>

definition restart_state ::
    "gotime \<Rightarrow> string \<Rightarrow> string \<Rightarrow> notification_container \<Rightarrow> notification_event \<Rightarrow> subscription
       \<Rightarrow> go_panic + bool \<times> subscription" where
  "restart_state now containerID state nc ne sub =
     (if state = ''restarting'' then
        (case RestartLoopFirstSeenAt sub of
           None \<Rightarrow> Inl NilDereference
         | Some seen \<Rightarrow>
             (if seen containerID \<noteq> None then Inr (False, sub)
              else case RestartLoopTimers sub of
                None \<Rightarrow> Inl NilDereference
              | Some timers \<Rightarrow>
                  Inr (False, sub\<lparr>RestartLoopFirstSeenAt := Some (seen(containerID \<mapsto> now)),
                     RestartLoopTimers := Some (timers(containerID \<mapsto>
                       \<lparr>rt_due = now + time_Seconds (RestartLoopStateWindow sub), rt_container = nc, rt_event = ne\<rparr>))\<rparr>)))
      else (case CancelRestartLoopTimer containerID sub of (b, sub') \<Rightarrow> Inr (b, sub')))"

definition restart_count ::
    "env_lib \<Rightarrow> faults \<Rightarrow> gotime \<Rightarrow> string \<Rightarrow> notification_container \<Rightarrow> notification_event \<Rightarrow> subscription
       \<Rightarrow> manager \<Rightarrow> go_panic + subscription \<times> manager" where
  "restart_count lib bad now containerID nc ne sub m =
     (if RestartLoopEventCount sub > 0 \<and> RestartLoopEventWindow sub > 0 \<and> ne_Name ne = ''restart'' then
        (case RestartLoopRestartStreaks sub of
           None \<Rightarrow> Inl NilDereference
         | Some streaks \<Rightarrow>
             (let cutoff = now + wrap64 (- time_Seconds (RestartLoopEventWindow sub));
                  old = (case streaks containerID of None \<Rightarrow> [] | Some ts \<Rightarrow> ts);
                  pruned = filter (\<lambda>t. t > cutoff) old @ [now];
                  sub1 = sub\<lparr>RestartLoopRestartStreaks := Some (streaks(containerID \<mapsto> pruned))\<rparr>
              in if int (length pruned) \<ge> RestartLoopEventCount sub1
                 then Inr (fireRestartLoopAlert lib bad now containerID nc ne
                             ''restart events exceeded threshold'' sub1 m)
                 else Inr (sub1, m)))
      else Inr (sub, m))"

definition processRestartLoop ::
    "env_lib \<Rightarrow> faults \<Rightarrow> gotime \<Rightarrow> string \<Rightarrow> string \<Rightarrow> notification_container \<Rightarrow> notification_event
       \<Rightarrow> subscription \<Rightarrow> manager \<Rightarrow> go_panic + subscription \<times> manager" where
  "processRestartLoop lib bad now containerID state nc ne sub m =
     (if IsRestartLoopCooldownActive sub containerID now then Inr (sub, m)
      else if RestartLoopStateWindow sub > 0 then
        (case restart_state now containerID state nc ne sub of
           Inl p \<Rightarrow> Inl p
         | Inr (True, sub1) \<Rightarrow> Inr (sub1, m)
         | Inr (False, sub1) \<Rightarrow> restart_count lib bad now containerID nc ne sub1 m)
      else restart_count lib bad now containerID nc ne sub m)"

subsection \<open>Container events\<close>

definition event_watchdog_clear ::
    "env_lib \<Rightarrow> faults \<Rightarrow> gotime \<Rightarrow> string \<Rightarrow> notification_container \<Rightarrow> notification_event \<Rightarrow> subscription
       \<Rightarrow> manager \<Rightarrow> manager" where
  "event_watchdog_clear lib bad now cid nc ne sub m =
     (case should_aggregate lib bad now sub m of
        (True, m1) \<Rightarrow> m1
      | (False, m1) \<Rightarrow>
          dispatch lib bad now
            ((alert (cid @ ''-watchdog-clear-'' @ show_int now) EventNotification (WatchdogClearMessage sub)
               nc (sub_NtfyPriority sub) now sub
               ((alert_config (sub_NtfyPriority sub) sub)\<lparr>EventExpression := EventExpression sub\<rparr>))
               \<lparr>n_Event := Some ne\<rparr>) sub m1)"

definition event_watchdog_detail :: "subscription \<Rightarrow> string" where
  "event_watchdog_detail sub =
     (if WatchdogTriggerMessage sub \<noteq> [] then WatchdogTriggerMessage sub
      else ''Watchdog: no follow-up received within '' @ show_int (WatchdogWindow sub) @ '' seconds'')"

definition event_watchdog_trigger ::
    "env_lib \<Rightarrow> gotime \<Rightarrow> string \<Rightarrow> notification_container \<Rightarrow> notification_event \<Rightarrow> dref \<Rightarrow> subscription
       \<Rightarrow> go_panic + subscription" where
  "event_watchdog_trigger lib now cid nc ne d sub =
     (case DetectBurst cid (sub_NtfyPriority sub) now sub of
        ((priority, escalated, hits), sub1) \<Rightarrow>
          (let n = (alert (cid @ ''-watchdog-'' @ show_int now) EventNotification (event_watchdog_detail sub) nc
                      priority now sub
                      ((alert_config priority sub)\<lparr>EventExpression := EventExpression sub\<rparr>))
                   \<lparr>n_Event := Some ne\<rparr>
           in ResetWatchdogTimer cid d (applyBurstModifier lib sub escalated hits n) (WatchdogWindow sub) now sub1))"

definition event_detail :: "notification_event \<Rightarrow> string" where
  "event_detail ne =
     (case ne_Attributes ne ''exitCode'' of
        Some exitCode \<Rightarrow>
          (if ne_Name ne = ''die''
           then ''Container event: '' @ ne_Name ne @ '' (exit code '' @ exitCode @ '')''
           else ''Container event: '' @ ne_Name ne)
      | None \<Rightarrow> ''Container event: '' @ ne_Name ne)"

definition event_alert ::
    "env_lib \<Rightarrow> faults \<Rightarrow> gotime \<Rightarrow> string \<Rightarrow> notification_container \<Rightarrow> notification_event
       \<Rightarrow> subscription \<Rightarrow> manager \<Rightarrow> go_panic + subscription \<times> manager" where
  "event_alert lib bad now cid nc ne sub m =
     (case evaluateUnique lib bad now cid (event_detail ne) (m_queue m) sub of
        Inl p \<Rightarrow> Inl p
      | Inr (unique, mq, sub1) \<Rightarrow>
          (let m1 = m\<lparr>m_queue := mq\<rparr>
           in if \<not> ud_Allowed unique then Inr (sub1, m1)
              else case should_aggregate lib bad now sub1 m1 of
                (True, m2) \<Rightarrow>
                  Inr (mark_triggered cid now sub1,
                       aggregate_hit lib bad now
                         ((summaryNotification now sub1 EventNotification (event_detail ne) nc)
                            \<lparr>n_Event := Some ne\<rparr>) sub1 m2)
              | (False, m2) \<Rightarrow>
                  (case IsEventCooldownActive sub1 cid now of
                     Inl p \<Rightarrow> Inl p
                   | Inr True \<Rightarrow> Inr (sub1, m2)
                   | Inr False \<Rightarrow>
                       (case (if Cooldown sub1 > 0 then SetEventCooldown cid now sub1 else Inr sub1) of
                          Inl p \<Rightarrow> Inl p
                        | Inr sub2 \<Rightarrow>
                            (let m3 = (if Cooldown sub1 > 0
                                       then persist_cooldown bad now cid ''event'' sub1 m2 else m2);
                                 sub3 = mark_triggered cid now sub2
                             in case DetectBurst cid (sub_NtfyPriority sub3) now sub3 of
                                  ((priority, escalated, hits), sub4) \<Rightarrow>
                                    (let n = (alert (cid @ ''-event-'' @ show_int now) EventNotification
                                                (event_detail ne) nc priority now sub4
                                                ((alert_config priority sub4)
                                                   \<lparr>EventExpression := EventExpression sub4, Cooldown := Cooldown sub4\<rparr>))
                                             \<lparr>n_Event := Some ne\<rparr>;
                                         n' = applyBurstModifier lib sub4 escalated hits
                                                (applyUniqueModifier lib unique n)
                                     in Inr (sub4, dispatch lib bad now n' sub4 m3)))))))"

definition event_plain ::
    "env_lib \<Rightarrow> faults \<Rightarrow> gotime \<Rightarrow> string \<Rightarrow> string \<Rightarrow> notification_container \<Rightarrow> notification_event
       \<Rightarrow> subscription \<Rightarrow> manager \<Rightarrow> go_panic + subscription \<times> manager" where
  "event_plain lib bad now cid state nc ne sub m =
     (if RestartLoopEnabled sub then processRestartLoop lib bad now cid state nc ne sub m
      else event_alert lib bad now cid nc ne sub m)"

definition event_one ::
    "env_lib \<Rightarrow> faults \<Rightarrow> gotime \<Rightarrow> string \<Rightarrow> string \<Rightarrow> notification_container \<Rightarrow> notification_event
       \<Rightarrow> subscription \<Rightarrow> manager \<Rightarrow> go_panic + subscription \<times> manager" where
  "event_one lib bad now cid state nc ne sub m =
     (if \<not> isSubscriptionProcessable lib now sub \<or> \<not> IsEventAlert sub then Inr (sub, m)
      else if \<not> MatchesContainer sub nc then Inr (sub, m)
      else if \<not> MatchesEvent sub ne then Inr (sub, m)
      else if WatchdogWindow sub > 0 then
        (if WatchdogEventProgram sub \<noteq> None \<and> MatchesWatchdogEvent sub ne then
           (case CancelWatchdogTimer cid sub of
              Inl p \<Rightarrow> Inl p
            | Inr (wasActive, sub1) \<Rightarrow>
                (if wasActive \<and> WatchdogClearMessage sub1 \<noteq> []
                 then Inr (sub1, event_watchdog_clear lib bad now cid nc ne sub1 m)
                 else Inr (sub1, m)))
         else case getDispatcher (DispatcherID sub) m of
                Some d \<Rightarrow>
                  (case event_watchdog_trigger lib now cid nc ne d sub of
                     Inl p \<Rightarrow> Inl p | Inr sub1 \<Rightarrow> Inr (sub1, m))
              | None \<Rightarrow> event_plain lib bad now cid state nc ne sub m)
      else event_plain lib bad now cid state nc ne sub m)"

definition processDockerEvent ::
    "env_lib \<Rightarrow> faults \<Rightarrow> gotime \<Rightarrow> int list \<Rightarrow> container_event_entry \<Rightarrow> manager \<Rightarrow> go_panic + manager" where
  "processDockerEvent lib bad now ks ev m =
     foldE (visit (event_one lib bad now (ev_ActorID (ee_Event ev)) (c_State (ee_Container ev))
              (FromContainerModel (ee_Container ev) (ee_Host ev))
              \<lparr>ne_Name = ev_Name (ee_Event ev), ne_ActorID = ev_ActorID (ee_Event ev),
               ne_Attributes = ev_ActorAttributes (ee_Event ev), ne_Timestamp = ev_Time (ee_Event ev)\<rparr>)) m ks"

subsection \<open>Timers\<close>

text \<open>
  A timer that is due fires once: a watchdog timer stays in the map after it has fired, a restart-loop
  timer removes itself.
\<close>

definition watchdog_fire ::
    "env_lib \<Rightarrow> faults \<Rightarrow> gotime \<Rightarrow> string \<Rightarrow> subscription \<Rightarrow> manager \<Rightarrow> subscription \<times> manager" where
  "watchdog_fire lib bad now cid sub m =
     (case (case WatchdogTimers sub of None \<Rightarrow> None | Some timers \<Rightarrow> map_option (Pair timers) (timers cid)) of
        None \<Rightarrow> (sub, m)
      | Some (timers, t) \<Rightarrow>
          (if \<not> wt_active t \<or> now < wt_due t then (sub, m)
           else
             let sub1 = sub\<lparr>WatchdogTimers := Some (timers(cid \<mapsto> t\<lparr>wt_active := False\<rparr>))\<rparr>
             in if IsWatchdogCooldownActive sub1 cid now then (sub1, m)
                else
                  let sub2 = mark_triggered (nc_ID (n_Container (wt_notification t))) now
                               (SetWatchdogCooldown cid now sub1)
                  in (sub2, sendOrQueue lib bad now (wt_dispatcher t) (wt_notification t) sub2 m)))"

definition restart_fire ::
    "env_lib \<Rightarrow> faults \<Rightarrow> gotime \<Rightarrow> string \<Rightarrow> subscription \<Rightarrow> manager \<Rightarrow> subscription \<times> manager" where
  "restart_fire lib bad now cid sub m =
     (case (case RestartLoopTimers sub of None \<Rightarrow> None | Some timers \<Rightarrow> map_option (Pair timers) (timers cid)) of
        None \<Rightarrow> (sub, m)
      | Some (timers, t) \<Rightarrow>
          (if now < rt_due t then (sub, m)
           else
             let sub1 = sub\<lparr>RestartLoopTimers := Some (timers(cid := None))\<rparr>
             in case (case RestartLoopFirstSeenAt sub1 of None \<Rightarrow> None | Some seen \<Rightarrow> seen cid) of
                  None \<Rightarrow> (sub1, m)
                | Some first \<Rightarrow>
                    (if now - first < time_Seconds (RestartLoopStateWindow sub1) then (sub1, m)
                     else if IsRestartLoopCooldownActive sub1 cid now then (sub1, m)
                     else fireRestartLoopAlert lib bad now cid (rt_container t) (rt_event t)
                            ''restarting state persisted'' sub1 m)))"

text \<open>Firing a timer of the subscription registered under \<open>i\<close>.\<close>

definition fire_timer ::
    "(subscription \<Rightarrow> manager \<Rightarrow> subscription \<times> manager) \<Rightarrow> int \<Rightarrow> manager \<Rightarrow> manager" where
  "fire_timer f i m =
     (case m_subscriptions m i of
        None \<Rightarrow> m
      | Some sub \<Rightarrow>
          (case f sub m of (sub', m') \<Rightarrow> m'\<lparr>m_subscriptions := (m_subscriptions m')(i \<mapsto> sub')\<rparr>))"

end
