(* ===== verification/Delivery.thy ===== *)
theory Delivery
  imports AlertProcessing
begin

text \<open>
  What the manager guarantees about the delivery of an alert: which of sending, holding and
  aggregating happens, how often a queued notification and a direct send are tried, and that
  cooldowns survive a restart.
\<close>

subsection \<open>Operations that leave the rows of the queue alone\<close>

definition rows_kept :: "queue \<Rightarrow> queue \<Rightarrow> bool" where
  "rows_kept q q' \<longleftrightarrow> q_rows q' = q_rows q \<and> q_last_id q' = q_last_id q"

named_theorems kept \<open>operations that change no row of the notification queue\<close>

lemma rows_kept_refl [kept, simp]: "rows_kept q q"
  by (simp add: rows_kept_def)

lemma rows_kept_trans: "rows_kept q q' \<Longrightarrow> rows_kept q' q'' \<Longrightarrow> rows_kept q q''"
  by (simp add: rows_kept_def)

lemma rows_kept_side [kept]:
  "rows_kept q (snd (GetOrCreateAlertState bad now fp sid h c t q))"
  "rows_kept q (snd (UpsertAlertState bad now s q))"
  "rows_kept q (CleanupAlertState bad now d q)"
  "rows_kept q (snd (GetOrCreateUniqueState bad now fp sid k q))"
  "rows_kept q (snd (UpsertUniqueState bad now u q))"
  "rows_kept q (CleanupUniqueState bad now d q)"
  "rows_kept q (snd (QuietPeriodGrouping bad k pe b q))"
  "rows_kept q (CleanupQuietPeriodModes bad now q)"
  "rows_kept q (snd (SetCooldown bad k pe q))"
  "rows_kept q (CleanupCooldowns bad now q)"
  "rows_kept q (snd (UpsertQuietSummary bad now s' q))"
  "rows_kept q (snd (DeleteQuietSummary bad k q))"
  by (auto simp: rows_kept_def GetOrCreateAlertState_def UpsertAlertState_def CleanupAlertState_def
      GetOrCreateUniqueState_def UpsertUniqueState_def CleanupUniqueState_def QuietPeriodGrouping_def
      CleanupQuietPeriodModes_def SetCooldown_def CleanupCooldowns_def UpsertQuietSummary_def
      DeleteQuietSummary_def Let_def split: option.splits)

lemma rows_kept_aggregate [kept]:
  "rows_kept q (snd (aggregateQuietNotification lib bad clock qh n sub q))"
  by (auto simp: aggregateQuietNotification_def Let_def kept split: prod.splits sum.splits db_error.splits)

lemma rows_kept_should:
  "shouldAggregateQuiet lib bad now qh sub (Some q) = (b, mq) \<Longrightarrow> \<exists>q'. mq = Some q' \<and> rows_kept q q'"
proof -
  assume b: "shouldAggregateQuiet lib bad now qh sub (Some q) = (b, mq)"
  obtain ps pe l where p: "quietSummaryPeriod (zones lib) qh sub now = (ps, pe, l)" by (metis prod_cases3)
  obtain g q1 where g: "QuietPeriodGrouping bad (show_int (sub_ID sub) @ '':'' @ show_int (Unix ps)) pe
      (GroupingEnabled qh) q = (g, q1)" by fastforce
  have "rows_kept q q1" using rows_kept_side(7) [of q bad "show_int (sub_ID sub) @ '':'' @ show_int (Unix ps)" pe
        "GroupingEnabled qh"] g by simp
  then show ?thesis
    using b p g by (auto simp: shouldAggregateQuiet_def Let_def split: if_splits sum.splits)
qed

lemma escalation_keeps:
  assumes "applyQuietHoursBurstEscalation lib bad now qh sub n q = (n', q')"
  shows "rows_kept q q' \<and> n_Subscription n' = n_Subscription n"
proof -
  let ?g = "GetOrCreateAlertState bad now (alertFingerprint lib (sub_Name sub) (nc_HostName (n_Container n))
    (nc_Name (n_Container n)) (type_text (n_Type n)) (n_Detail n)) (sub_ID sub) (nc_HostName (n_Container n))
    (nc_Name (n_Container n)) (type_text (n_Type n)) q"
  have "rows_kept q (snd ?g)" by (rule kept)
  then have kept: "rows_kept q (snd (UpsertAlertState bad now s (snd ?g)))" for s
    using rows_kept_trans rows_kept_side(2) by blast
  show ?thesis
    using assms kept \<open>rows_kept q (snd ?g)\<close>
    by (auto simp: applyQuietHoursBurstEscalation_def Let_def addContext_def split: prod.splits sum.splits if_splits)
qed

subsection \<open>Send, hold or aggregate\<close>

lemma hold_in_quiet_rows:
  assumes "\<not> bad InsertQueue" and "\<not> bad CountQueue"
    and "k = int (length (filter (\<lambda>r. qr_status r = Pending \<and> qr_subscription_id r = sub_ID sub) (q_rows q)))"
  shows "\<exists>r. q_rows (hold_in_quiet lib bad now qh quietEnd sub n q) = q_rows q @ [r]
    \<and> qr_status r = Pending \<and> qr_deliver_at r = quietEnd + k * 2 * Second
    \<and> qr_dispatcher_id r = DispatcherID (n_Subscription n) \<and> qr_attempts r = 0"
proof -
  obtain n1 q1 where e: "applyQuietHoursBurstEscalation lib bad now qh sub n q = (n1, q1)" by fastforce
  from escalation_keeps [OF this] show ?thesis
    using assms by (simp add: hold_in_quiet_def e PendingCountForSubscription_def Enqueue_def Let_def
        rows_kept_def addContext_def)
qed

lemma should_keeps_summaries:
  assumes "shouldAggregateQuiet lib bad now qh sub (Some q) = (b, Some q')"
  shows "q_summaries q' = q_summaries q"
proof -
  obtain ps pe l where p: "quietSummaryPeriod (zones lib) qh sub now = (ps, pe, l)" by (metis prod_cases3)
  have "q_summaries (snd (QuietPeriodGrouping bad k pe g q)) = q_summaries q" for k g
    by (simp add: QuietPeriodGrouping_def Let_def split: option.splits)
  then show ?thesis
    using assms p by (auto simp: shouldAggregateQuiet_def Let_def split: if_splits sum.splits prod.splits dest!: sndI)
qed

lemma summaries_cong:
  assumes "q_summaries q' = q_summaries q"
  shows "stored_summary q' key = stored_summary q key" "summary_total q' key = summary_total q key"
    "summary_groups q' key = summary_groups q key" "summary_readable q' key = summary_readable q key"
  using assms by (simp_all add: stored_summary_def summary_total_def summary_groups_def summary_readable_def GetQuietSummary_def)

text \<open>C3. While quiet hours silence an alert and the queue is available and its statements succeed, nothing is sent and the alert is kept: with
grouping no row is added and the summary of its subscription, container and quiet period has one hit more, counted in the group of
its message; without it exactly one pending row is added, for the
alert's dispatcher, due at the end of quiet hours plus two seconds for every alert of the
subscription that is already waiting.\<close>

theorem quiet_hours_hold:
  assumes "effectiveQuietHours (zones lib) (m_quietHours m) sub now = (True, quietEnd)"
    and "m_queue m = Some q" and "\<not> bad InsertQueue" "\<not> bad CountQueue" "\<not> bad SelectSummary" "\<not> bad UpsertSummary"
    and "k = int (length (filter (\<lambda>r. qr_status r = Pending \<and> qr_subscription_id r = sub_ID sub) (q_rows q)))"
    and "t = (if IsZero (n_Timestamp n) then now else n_Timestamp n)"
    and "key = summary_key (sub_ID sub) n (fst (quietSummaryPeriod (zones lib) (m_quietHours m) sub t))" and "summary_readable q key"
    and "m' = sendOrQueue lib bad now d n sub m"
  shows "m_sending m' = m_sending m \<and> m_sends m' = m_sends m
    \<and> (\<exists>q'. m_queue m' = Some q'
        \<and> (if fst (shouldAggregateQuiet lib bad now (m_quietHours m) sub (Some q))
           then q_rows q' = q_rows q
             \<and> (\<exists>s. stored_summary q' key = Some s \<and> qs_TotalCount s = summary_total q key + 1
                  \<and> qs_Groups s = bump_group (quietSummaryFingerprint lib (n_Detail n)) (truncateQuietExample (n_Detail n)) t (summary_groups q key))
           else \<exists>r. q_rows q' = q_rows q @ [r] \<and> qr_status r = Pending \<and> qr_attempts r = 0
                  \<and> qr_deliver_at r = quietEnd + k * 2 * Second
                  \<and> qr_dispatcher_id r = DispatcherID (n_Subscription n)))"
proof -
  obtain b mq where s: "shouldAggregateQuiet lib bad now (m_quietHours m) sub (Some q) = (b, mq)" by fastforce
  then obtain q1 where q1: "mq = Some q1" "q_rows q1 = q_rows q"
    using rows_kept_should by (fastforce simp: rows_kept_def)
  note sums = summaries_cong [OF should_keeps_summaries [OF s [unfolded q1(1)]]]
  define n1 where "n1 = addModifierTag ''quiet-hours'' n"
  have n1: "n_Subscription n1 = n_Subscription n" "n_Timestamp n1 = n_Timestamp n" "n_Detail n1 = n_Detail n" "n_Container n1 = n_Container n"
    by (simp_all add: n1_def addModifierTag_def)
  show ?thesis
  proof (cases b)
    case True
    then have "m' = m\<lparr>m_queue := Some (snd (aggregateQuietNotification lib bad now (m_quietHours m) n1 sub q1))\<rparr>"
      using assms(1,2,11) s q1 by (simp add: sendOrQueue_def GetQuietHours_def Let_def n1_def)
    moreover have "q_rows (snd (aggregateQuietNotification lib bad now (m_quietHours m) n1 sub q1)) = q_rows q1"
      using rows_kept_aggregate [of q1 lib bad now "m_quietHours m" n1 sub] by (simp add: rows_kept_def)
    moreover have t1: "t = (if IsZero (n_Timestamp n1) then now else n_Timestamp n1)" using assms(8) n1 by simp
    moreover have "key = summary_key (sub_ID sub) n1 (fst (quietSummaryPeriod (zones lib) (m_quietHours m) sub t))"
      using assms(9) n1 by (simp add: summary_key_def)
    from aggregate_files_hit [OF assms(5,6) t1 this, of q1] have
      "\<exists>s. stored_summary (snd (aggregateQuietNotification lib bad now (m_quietHours m) n1 sub q1)) key = Some s
        \<and> qs_TotalCount s = summary_total q key + 1
        \<and> qs_Groups s = bump_group (quietSummaryFingerprint lib (n_Detail n)) (truncateQuietExample (n_Detail n)) t (summary_groups q key)"
      using assms(10) n1 sums by simp
    ultimately show ?thesis using True s q1 by simp
  next
    case False
    then have "m' = m\<lparr>m_queue := Some (hold_in_quiet lib bad now (m_quietHours m) quietEnd sub n1 q1)\<rparr>"
      using assms(1,2,11) s q1 by (simp add: sendOrQueue_def GetQuietHours_def Let_def n1_def)
    moreover obtain r where "q_rows (hold_in_quiet lib bad now (m_quietHours m) quietEnd sub n1 q1) = q_rows q1 @ [r]"
      "qr_status r = Pending" "qr_deliver_at r = quietEnd + k * 2 * Second"
      "qr_dispatcher_id r = DispatcherID (n_Subscription n1)" "qr_attempts r = 0"
      using hold_in_quiet_rows [of bad k sub q1 lib now "m_quietHours m" quietEnd n1] assms(3,4,7) q1(2) by auto
    ultimately show ?thesis using False s q1 n1 by simp
  qed
qed

definition sample_sub :: subscription where
  "sample_sub = new_subscription (zero_SubscriptionConfig\<lparr>sub_ID := 1, sub_Enabled := True, DispatcherID := 1\<rparr>)"

definition sample_manager :: manager where
  "sample_manager = (NewManager (\<lambda>_. False) (Malformed []) ''db'' (Inr empty_queue))
     \<lparr>m_quietHours := sample_quiet\<lparr>GroupNotifications := Some False\<rparr>\<rparr>"

lemma sample_manager_simps [simp]:
  "m_queue sample_manager = Some empty_queue" "m_sending sample_manager = []" "m_sends sample_manager = []"
  "m_quietHours sample_manager = sample_quiet\<lparr>GroupNotifications := Some False\<rparr>"
  by (simp_all add: sample_manager_def NewManager_def Healthcheck_def empty_queue_def Let_def)

lemma sample_sub_simps [simp]:
  "sub_ID sample_sub = 1" "BypassQuietHours sample_sub = False" "AlertQuietEnabled sample_sub = False"
  "sub_Enabled sample_sub = True" "DispatcherID sample_sub = 1" "HoldClearWindow sample_sub = 0"
  "PausedUntil sample_sub = None" "DeliveryDays sample_sub = []" "AlertQuietTimezone sample_sub = []"
  by (simp_all add: sample_sub_def new_subscription_def subscription_config.defs zero_SubscriptionConfig_def)

lemma effective_grouping: "effectiveQuietHours db (qh\<lparr>GroupNotifications := g\<rparr>) sub now = effectiveQuietHours db qh sub now"
  by (simp add: effectiveQuietHours_def isQuietHours_def nextQuietEnd_def)

lemma sample_night:
  "effectiveQuietHours (zones sample_env) (sample_quiet\<lparr>GroupNotifications := Some False\<rparr>) sample_sub (84600 * Second)
     = (True, (86400 + 25200) * Second)"
  by (simp add: effectiveQuietHours_def isAlertQuietHours_def isQuietHours_def nextQuietEnd_def next_end_def
      sample_quiet_def sample_env_def sample_tz_def resolveLocation_def parse_sample in_window_def today_at_def
      time_Date_def local_to_unix_def local_day_def local_secs_def Unix_def time_Unix_def Second_def Hour_def Let_def)

theorem quiet_hours_hold_witness:
  "(\<exists>q' r. m_queue (sendOrQueue sample_env (\<lambda>_. False) (84600 * Second) 0 sample_alert sample_sub sample_manager) = Some q'
     \<and> q_rows q' = [r] \<and> qr_deliver_at r = (86400 + 25200) * Second)
   \<and> (\<exists>q' s. m_queue (sendOrQueue sample_env (\<lambda>_. False) (84600 * Second) 0 sample_alert sample_sub
         (sample_manager\<lparr>m_quietHours := sample_quiet\<rparr>)) = Some q'
       \<and> q_rows q' = [] \<and> stored_summary q' (summary_key 1 sample_alert (fst (quietSummaryPeriod sample_tz sample_quiet sample_sub
           (if IsZero (n_Timestamp sample_alert) then 84600 * Second else n_Timestamp sample_alert)))) = Some s \<and> qs_TotalCount s = 1)"
proof -
  let ?bad = "(\<lambda>_. False) :: faults" and ?t = "if IsZero (n_Timestamp sample_alert) then 84600 * Second else n_Timestamp sample_alert"
  have e: "q_rows empty_queue = []" "summary_readable empty_queue key" "summary_total empty_queue key = 0" for key
    by (simp_all add: empty_queue_def summary_readable_def summary_total_def stored_summary_def GetQuietSummary_def)
  have n: "effectiveQuietHours (zones sample_env) sample_quiet sample_sub (84600 * Second) = (True, (86400 + 25200) * Second)"
    using sample_night unfolding effective_grouping .
  have g: "\<not> fst (shouldAggregateQuiet sample_env ?bad (84600 * Second) (m_quietHours sample_manager) sample_sub (Some empty_queue))"
    "fst (shouldAggregateQuiet sample_env ?bad (84600 * Second) sample_quiet sample_sub (Some empty_queue))"
    using sample_night n
    by (auto simp: shouldAggregateQuiet_def QuietPeriodGrouping_def empty_queue_def GroupingEnabled_def sample_quiet_def split: prod.splits)
  have z: "zones sample_env = sample_tz" by (simp add: sample_env_def)
  have 1: "\<exists>q' r. m_queue (sendOrQueue sample_env ?bad (84600 * Second) 0 sample_alert sample_sub sample_manager) = Some q'
      \<and> q_rows q' = [r] \<and> qr_deliver_at r = (86400 + 25200) * Second"
    using quiet_hours_hold [OF _ _ _ _ _ _ _ refl refl _ refl, where lib = sample_env and m = sample_manager and q = empty_queue and bad = ?bad and k = 0
        and sub = sample_sub and n = sample_alert and d = 0, OF sample_night [folded sample_manager_simps(4)]] g(1) e by auto
  have 2: "\<exists>q' s. m_queue (sendOrQueue sample_env ?bad (84600 * Second) 0 sample_alert sample_sub (sample_manager\<lparr>m_quietHours := sample_quiet\<rparr>)) = Some q'
      \<and> q_rows q' = [] \<and> stored_summary q' (summary_key 1 sample_alert (fst (quietSummaryPeriod sample_tz sample_quiet sample_sub ?t))) = Some s
      \<and> qs_TotalCount s = 1"
    using quiet_hours_hold [OF _ _ _ _ _ _ _ refl refl _ refl, where lib = sample_env and m = "sample_manager\<lparr>m_quietHours := sample_quiet\<rparr>"
        and q = empty_queue and bad = ?bad and k = 0 and sub = sample_sub and n = sample_alert and d = 0 and now = "84600 * Second"] g(2) e n z by auto
  show ?thesis using 1 2 by blast
qed

text \<open>C16. An alert that quiet hours do not silence is handled once: without a hold window
(or without a queue) exactly one send is started, with the alert unchanged and for its dispatcher; with a hold window and a
queue nothing is sent, and exactly one pending row is added with the alert (lines of context added) for its dispatcher, due when the window, in
64-bit nanoseconds, has passed; when that row cannot be written the alert is lost.  When
quiet hours apply but there is no queue, the alert is sent at once with its tag, a line of context and the quiet priority if one is
set.\<close>

theorem not_silenced_once:
  assumes "effectiveQuietHours (zones lib) (m_quietHours m) sub now = (inQuiet, quietEnd)"
    and "inQuiet \<longrightarrow> m_queue m = None" and "m' = sendOrQueue lib bad now d n sub m"
  shows "if m_queue m \<noteq> None \<and> HoldClearWindow sub > 0
    then m_sending m' = m_sending m
      \<and> (if bad InsertQueue then m_queue m' = m_queue m
         else \<exists>q q' r ctx. m_queue m = Some q \<and> m_queue m' = Some q' \<and> q_rows q' = q_rows q @ [r]
          \<and> qr_status r = Pending \<and> qr_attempts r = 0 \<and> qr_deliver_at r = now + wrap64 (HoldClearWindow sub * Second)
          \<and> qr_dispatcher_id r = DispatcherID (n_Subscription n) \<and> qr_payload r = Payload (json_transit (n\<lparr>n_Context := n_Context n @ ctx\<rparr>)))
    else m_queue m' = m_queue m
      \<and> (\<exists>p. m_sending m' = m_sending m @ [p] \<and> ps_dispatcher p = d \<and> ps_dispatcherID p = DispatcherID sub
          \<and> ps_notification p = (if inQuiet
               then n\<lparr>n_NtfyTags := appendUniqueTag (n_NtfyTags n) ''quiet-hours'',
                      n_NtfyPriority := (if QuietPriority sub > 0 then QuietPriority sub else n_NtfyPriority n),
                      n_Context := n_Context n @ [\<lparr>nx_Label = ''Delivery'', nx_Value = ''quiet hours active; sent without queue''\<rparr>]\<rparr>
               else n))"
proof (cases inQuiet)
  case True
  then show ?thesis
    using assms by (simp add: sendOrQueue_def after_quiet_def go_send_def GetQuietHours_def addContext_def
        addModifierTag_def Let_def)
next
  case False
  have ctx: "\<exists>ctx. addContext l2 v2 (addContext l1 v1 n) = n\<lparr>n_Context := n_Context n @ ctx\<rparr>" for l1 v1 l2 v2
    by (cases "v1 = []"; cases "v2 = []") (auto simp: addContext_def intro: exI [of _ "[]"])
  have same: "n_Subscription (addContext l v n') = n_Subscription n'" for l v n' by (simp add: addContext_def)
  show ?thesis
    using False assms ctx [of "''Queued until''" "format_rfc3339 lib (now + time_Seconds (HoldClearWindow sub))" "''Delivery''" "''legacy hold window''"]
    by (cases "m_queue m")
      (auto simp: sendOrQueue_def after_quiet_def go_send_def GetQuietHours_def Enqueue_def Payload_of_def same time_Seconds_def Let_def)
qed

lemma sample_day:
  "effectiveQuietHours (zones sample_env) (sample_quiet\<lparr>GroupNotifications := Some False\<rparr>) sample_sub (43200 * Second)
     = (False, (86400 + 25200) * Second)"
  by (simp add: effectiveQuietHours_def isAlertQuietHours_def isQuietHours_def nextQuietEnd_def next_end_def
      sample_quiet_def sample_env_def sample_tz_def resolveLocation_def parse_sample in_window_def today_at_def
      time_Date_def local_to_unix_def local_day_def local_secs_def Unix_def time_Unix_def Second_def Hour_def Let_def)

theorem not_silenced_once_witness:
  "\<exists>p. m_sending (sendOrQueue sample_env (\<lambda>_. False) (43200 * Second) 0 sample_alert sample_sub sample_manager) = [p]
     \<and> ps_notification p = sample_alert"
  using not_silenced_once [of sample_env sample_manager sample_sub "43200 * Second" False "(86400 + 25200) * Second"
      _ "\<lambda>_. False" 0 sample_alert] sample_day by auto

end
