(* ===== verification/DeliverySteps.thy ===== *)
theory DeliverySteps
  imports Delivery
begin

text \<open>
  The manager as a state machine: every handler, timer, send attempt, queue round and configuration
  call is one step.  On it, a notification that waits in the queue is handed to a dispatcher at most
  three times, plus once for every round whose status update failed, and never again after a delivery that was recorded.
\<close>

subsection \<open>Steps\<close>

text \<open>
  The flag of a step says that a queue round could not record the fate of the row it handed out: the status update after a delivery only logs
  its failure.  \<open>manager_run k\<close> is a run with \<open>k\<close> such rounds.
\<close>

inductive manager_step :: "bool \<Rightarrow> manager \<Rightarrow> manager \<Rightarrow> bool" where
  flush: "manager_step (bad UpdateStatus) m (flushQueue lib web ex bad now m)"
| log: "processLogEvent lib bad find_container now ks ev m = Inr m' \<Longrightarrow> manager_step False m m'"
| stat: "processStatEvent lib bad now ks' ks sev m = Inr m' \<Longrightarrow> manager_step False m m'"
| event: "processDockerEvent lib bad now ks eev m = Inr m' \<Longrightarrow> manager_step False m m'"
| watchdog: "manager_step False m (fire_timer (watchdog_fire lib bad now cid) i m)"
| restart: "manager_step False m (fire_timer (restart_fire lib bad now cid) i m)"
| start: "m_sending m = ps @ p # ps' \<Longrightarrow> ps_attempt p = 0 \<Longrightarrow> start_send lib acquired now m p = r \<Longrightarrow>
    manager_step False m (m\<lparr>m_sending := ps @ (case r of None \<Rightarrow> [] | Some p' \<Rightarrow> [p']) @ ps'\<rparr>)"
| attempt: "m_sending m = ps @ p # ps' \<Longrightarrow> 1 \<le> ps_attempt p \<Longrightarrow> ps_due p \<le> now \<Longrightarrow>
    attempt_send lib web ex now p m = (r, m1) \<Longrightarrow>
    manager_step False m (m1\<lparr>m_sending := ps @ (case r of None \<Rightarrow> [] | Some p' \<Rightarrow> [p']) @ ps'\<rparr>)"
| cancelled: "m_sending m = ps @ p # ps' \<Longrightarrow> manager_step False m (m\<lparr>m_sending := ps @ ps'\<rparr>)"
| add: "AddSubscription lib ks sub m = (e, m') \<Longrightarrow> manager_step False m m'"
| remove: "manager_step False m (RemoveSubscription ks i m)"
| replace: "ReplaceSubscription lib ks sub m = (e, m') \<Longrightarrow> manager_step False m m'"
| update: "UpdateSubscription lib ks i ups m = (e', m') \<Longrightarrow> manager_step False m m'"
| add_dispatcher: "AddDispatcher d m = (i, m') \<Longrightarrow> manager_step False m m'"
| update_dispatcher: "manager_step False m (UpdateDispatcher i d m)"
| remove_dispatcher: "manager_step False m (RemoveDispatcher i m)"
| set_cloud: "manager_step False m (SetCloudDispatcher d m)"
| clear_cloud: "manager_step False m (ClearCloudDispatcher m)"
| reset_breaker: "manager_step False m (ResetCloudDispatcherBreaker m)"
| quiet: "manager_step False m (SetQuietHours cfg m)"
| restore: "manager_step False m (RestorePersistentState bad now kys m)"

inductive manager_run :: "nat \<Rightarrow> manager \<Rightarrow> manager \<Rightarrow> bool" where
  start: "manager_run 0 m m"
| more: "manager_run k m m' \<Longrightarrow> manager_step lost m' m'' \<Longrightarrow> manager_run (k + of_bool lost) m m''"

inductive_cases manager_runE: "manager_run k m m'"

subsection \<open>Steps that hand out no row\<close>

definition rows_ext :: "queue \<Rightarrow> queue \<Rightarrow> bool" where
  "rows_ext q q' \<longleftrightarrow> q_last_id q \<le> q_last_id q' \<and> (queue_inv q \<longrightarrow> queue_inv q')
     \<and> (\<forall>r'\<in>set (q_rows q'). qr_status r' = Pending \<longrightarrow> q_last_id q < qr_id r'
          \<or> (\<exists>r\<in>set (q_rows q). qr_id r = qr_id r' \<and> qr_status r = Pending \<and> qr_attempts r = qr_attempts r'))"

lemma rows_ext_refl [simp]: "rows_ext q q"
  by (auto simp: rows_ext_def)

lemma rows_ext_trans: "rows_ext q q' \<Longrightarrow> rows_ext q' q'' \<Longrightarrow> rows_ext q q''"
  unfolding rows_ext_def by (smt (verit, ccfv_SIG) order.strict_trans1 order_trans)

lemma rows_ext_kept: "rows_kept q q' \<Longrightarrow> (queue_inv q \<Longrightarrow> queue_inv q') \<Longrightarrow> rows_ext q q'"
  by (auto simp: rows_kept_def rows_ext_def)

lemma rows_ext_side:
  "rows_ext q (snd (GetOrCreateAlertState bad now fp sid h c t q))"
  "rows_ext q (snd (UpsertAlertState bad now s q))"
  "rows_ext q (CleanupAlertState bad now d q)"
  "rows_ext q (snd (GetOrCreateUniqueState bad now fp sid k q))"
  "rows_ext q (snd (UpsertUniqueState bad now u q))"
  "rows_ext q (CleanupUniqueState bad now d q)"
  "rows_ext q (snd (QuietPeriodGrouping bad k pe b q))"
  "rows_ext q (CleanupQuietPeriodModes bad now q)"
  "rows_ext q (snd (SetCooldown bad k pe q))"
  "rows_ext q (CleanupCooldowns bad now q)"
  "rows_ext q (snd (UpsertQuietSummary bad now s' q))"
  "rows_ext q (snd (DeleteQuietSummary bad k q))"
  by (intro rows_ext_kept kept; erule inv_intros)+

lemma rows_ext_Enqueue: "rows_ext q (snd (Enqueue bad now n t q))"
proof -
  have "queue_inv q \<Longrightarrow> queue_inv (snd (Enqueue bad now n t q))" by (rule Enqueue_inv)
  then show ?thesis by (auto simp: rows_ext_def Enqueue_def Let_def)
qed

lemma rows_ext_Cleanup: "rows_ext q (Cleanup bad now age q)"
  using Cleanup_inv [of q bad now age] by (auto simp: rows_ext_def Cleanup_def)

lemma rows_ext_drop: "rows_ext q (snd (drop_row bad i q))"
  using drop_row_inv [of q bad i] by (auto simp: rows_ext_def drop_row_def update_row_def split: if_splits)

lemma rows_ext_drain_rows: "rows_ext q (snd (snd (drain_rows bad rs acc q)))"
  by (induction bad rs acc q rule: drain_rows.induct) (auto simp: rows_ext_drop split: payload.splits)

lemma rows_ext_aggregate: "rows_ext q (snd (aggregateQuietNotification lib bad clock qh n sub q))"
  by (auto simp: aggregateQuietNotification_def Let_def rows_ext_side split: prod.splits sum.splits db_error.splits)

lemma rows_ext_escalation: "rows_ext q (snd (applyQuietHoursBurstEscalation lib bad now qh sub n q))"
proof -
  let ?g = "GetOrCreateAlertState bad now (alertFingerprint lib (sub_Name sub) (nc_HostName (n_Container n))
    (nc_Name (n_Container n)) (type_text (n_Type n)) (n_Detail n)) (sub_ID sub) (nc_HostName (n_Container n))
    (nc_Name (n_Container n)) (type_text (n_Type n)) q"
  have g: "rows_ext q (snd ?g)" by (rule rows_ext_side)
  then have "rows_ext q (snd (UpsertAlertState bad now s (snd ?g)))" for s
    using rows_ext_trans rows_ext_side(2) by blast
  with g show ?thesis
    by (auto simp: applyQuietHoursBurstEscalation_def Let_def split: prod.splits sum.splits)
qed

lemma rows_ext_hold: "rows_ext q (hold_in_quiet lib bad now qh quietEnd sub n q)"
  using rows_ext_trans [OF rows_ext_escalation rows_ext_Enqueue]
  by (simp add: hold_in_quiet_def Let_def split_beta)

lemma rows_ext_flush_summaries: "rows_ext q (flushQuietSummaries lib bad now qh q)"
proof -
  have one: "rows_ext q (flush_summary lib bad now qh s q)" for s q
  proof -
    obtain e q1 where e: "Enqueue bad now (renderQuietSummary lib s (MaxSummaryGroups qh)) now q = (e, q1)"
      by fastforce
    then have "rows_ext q q1" using rows_ext_Enqueue [of q bad now "renderQuietSummary lib s (MaxSummaryGroups qh)" now] by simp
    then show ?thesis
      using e rows_ext_trans [OF _ rows_ext_side(12), of q q1 bad "qs_Key s"]
      by (auto simp: flush_summary_def Let_def split: option.splits)
  qed
  have all: "rows_ext q (fold (flush_summary lib bad now qh) ss q)" for ss q
  proof (induction ss arbitrary: q)
    case (Cons s ss)
    show ?case using rows_ext_trans [OF one Cons.IH] by simp
  qed simp
  show ?thesis
  proof (cases "DueQuietSummaries bad now q")
    case (Inr ss)
    show ?thesis unfolding flushQuietSummaries_def Inr using all [of q ss] by (simp only: sum.case)
  qed (simp add: flushQuietSummaries_def)
qed

lemma rows_ext_cleanup_all: "rows_ext q (cleanup_all bad now q)"
  unfolding cleanup_all_def
  by (rule rows_ext_trans [OF rows_ext_trans [OF rows_ext_trans [OF rows_ext_trans
        [OF rows_ext_Cleanup rows_ext_side(3)] rows_ext_side(6)] rows_ext_side(10)] rows_ext_side(8)])

subsection \<open>Handlers only add rows\<close>

definition opt_ext :: "queue option \<Rightarrow> queue option \<Rightarrow> bool" where
  "opt_ext mq mq' \<longleftrightarrow>
     (case (mq, mq') of (None, None) \<Rightarrow> True | (Some q, Some q') \<Rightarrow> rows_ext q q' | _ \<Rightarrow> False)"

lemma opt_ext_refl [simp]: "opt_ext mq mq"
  by (simp add: opt_ext_def split: option.splits)

lemma opt_ext_trans: "opt_ext a b \<Longrightarrow> opt_ext b c \<Longrightarrow> opt_ext a c"
  by (auto simp: opt_ext_def split: option.splits elim: rows_ext_trans)

lemma opt_ext_map: "(\<And>q. rows_ext q (f q)) \<Longrightarrow> opt_ext mq (map_option f mq)"
  by (simp add: opt_ext_def split: option.splits)

definition row_sends :: "manager \<Rightarrow> send_record list" where
  "row_sends m = filter (\<lambda>s. sd_row s \<noteq> None) (m_sends m)"

definition calm :: "manager \<Rightarrow> manager \<Rightarrow> bool" where
  "calm m m' \<longleftrightarrow> row_sends m' = row_sends m \<and> opt_ext (m_queue m) (m_queue m')"

lemma calm_refl [simp]: "calm m m"
  by (simp add: calm_def)

lemma calm_trans: "calm a b \<Longrightarrow> calm b c \<Longrightarrow> calm a c"
  by (auto simp: calm_def elim: opt_ext_trans)

lemma calm_frame [simp]:
  "calm m (m'\<lparr>m_subscriptions := s\<rparr>) = calm m m'" "calm m (m'\<lparr>m_sending := ps\<rparr>) = calm m m'"
  "calm m (m'\<lparr>m_heap := h\<rparr>) = calm m m'" "calm m (m'\<lparr>m_dispatchers := ds\<rparr>) = calm m m'"
  "calm m (m'\<lparr>m_cloudDispatcher := cd\<rparr>) = calm m m'" "calm m (m'\<lparr>m_quietHours := qh\<rparr>) = calm m m'"
  "calm m (m'\<lparr>m_subscriptionCounter := k\<rparr>) = calm m m'" "calm m (m'\<lparr>m_dispatcherCounter := k\<rparr>) = calm m m'"
  "calm m (m'\<lparr>m_statsRunning := b\<rparr>) = calm m m'" "calm m (m'\<lparr>m_eventRunning := b\<rparr>) = calm m m'"
  by (simp_all add: calm_def row_sends_def)

lemma calm_queue: "opt_ext (m_queue m) mq \<Longrightarrow> calm m (m\<lparr>m_queue := mq\<rparr>)"
  by (simp add: calm_def row_sends_def)

lemma calm_with_queue: "(\<And>q. rows_ext q (f q)) \<Longrightarrow> calm m (with_queue f m)"
  by (simp add: with_queue_def calm_queue opt_ext_map)

lemma opt_ext_should: "shouldAggregateQuiet lib bad now qh sub mq = (b, mq') \<Longrightarrow> opt_ext mq mq'"
proof (cases mq)
  case (Some q)
  assume b: "shouldAggregateQuiet lib bad now qh sub mq = (b, mq')"
  obtain ps pe l where p: "quietSummaryPeriod (zones lib) qh sub now = (ps, pe, l)" by (metis prod_cases3)
  obtain g q1 where g: "QuietPeriodGrouping bad (show_int (sub_ID sub) @ '':'' @ show_int (Unix ps)) pe
      (GroupingEnabled qh) q = (g, q1)" by fastforce
  have "rows_ext q q1" using rows_ext_side(7) [of q bad "show_int (sub_ID sub) @ '':'' @ show_int (Unix ps)" pe
        "GroupingEnabled qh"] g by simp
  then show ?thesis
    using b p g Some by (auto simp: shouldAggregateQuiet_def opt_ext_def Let_def split: if_splits sum.splits)
qed (simp add: shouldAggregateQuiet_def)

lemma opt_ext_unique:
  assumes "evaluateUnique lib bad now c msg mq sub = Inr (d, mq', sub')"
  shows "opt_ext mq mq'"
proof -
  obtain key ok where k: "ExtractUniqueKey sub msg = (key, ok)" by fastforce
  define fp where "fp = alertFingerprint lib (sub_Name sub) [] c ''unique'' key"
  show ?thesis
  proof (cases mq)
    case None
    then show ?thesis using assms k
      by (cases ok) (auto simp: evaluateUnique_def Let_def split: sum.splits prod.splits)
  next
    case (Some q)
    obtain r q1 where g: "GetOrCreateUniqueState bad now fp (sub_ID sub) key q = (r, q1)" by fastforce
    have e1: "rows_ext q q1" using rows_ext_side(4) [of q bad now fp "sub_ID sub" key] g by simp
    then have e2: "rows_ext q (snd (UpsertUniqueState bad now u q1))" for u
      using rows_ext_trans rows_ext_side(5) by blast
    show ?thesis using assms k Some g e1 e2
      by (cases ok; cases r)
        (auto simp: evaluateUnique_def Let_def opt_ext_def fp_def [symmetric] split_beta split: sum.splits prod.splits)
  qed
qed

lemma calm_go_send [simp]: "calm m (go_send d n i now m)"
  by (simp add: go_send_def)

lemma calm_after_quiet: "calm m (after_quiet lib bad now d n sub m)"
  using rows_ext_Enqueue
  by (auto simp: after_quiet_def Let_def opt_ext_def intro!: calm_queue split: option.splits)

lemma calm_sendOrQueue: "calm m (sendOrQueue lib bad now d n sub m)"
proof -
  obtain inQ qe where e: "effectiveQuietHours (zones lib) (GetQuietHours m) sub now = (inQ, qe)" by fastforce
  show ?thesis
  proof (cases "inQ \<and> m_queue m \<noteq> None")
    case True
    then obtain q where q: "m_queue m = Some q" by blast
    obtain b mq where s: "shouldAggregateQuiet lib bad now (GetQuietHours m) sub (Some q) = (b, mq)" by fastforce
    note ext = opt_ext_should [OF s]
    have "opt_ext (Some q) (map_option (snd \<circ> aggregateQuietNotification lib bad now (GetQuietHours m) n' sub) mq)"
      "opt_ext (Some q) (map_option (hold_in_quiet lib bad now (GetQuietHours m) qe sub n') mq)" for n'
      by (rule opt_ext_trans [OF ext opt_ext_map]; simp add: rows_ext_aggregate rows_ext_hold)+
    then show ?thesis using True q s e
      by (cases b) (auto simp: sendOrQueue_def Let_def intro!: calm_queue)
  next
    case False
    then show ?thesis using e by (auto simp: sendOrQueue_def Let_def calm_after_quiet)
  qed
qed

lemma calm_dispatch: "calm m (dispatch lib bad now n sub m)"
  by (simp add: dispatch_def calm_sendOrQueue split: option.splits)

lemma calm_aggregate_hit: "calm m (aggregate_hit lib bad now n sub m)"
  unfolding aggregate_hit_def by (rule calm_with_queue) (simp add: rows_ext_aggregate)

lemma calm_persist: "calm m (persist_cooldown bad now c k sub m)"
  unfolding persist_cooldown_def by (rule calm_with_queue) (simp add: rows_ext_side)

lemma calm_should: "should_aggregate lib bad now sub m = (b, m') \<Longrightarrow> calm m m'"
  by (auto simp: should_aggregate_def intro!: calm_queue dest: opt_ext_should split: prod.splits)

lemmas calm_parts = calm_dispatch calm_aggregate_hit calm_persist

lemma calm_then_dispatch: "calm m m' \<Longrightarrow> calm m (dispatch lib bad now n sub m')"
  by (rule calm_trans [OF _ calm_dispatch])

lemma calm_then_aggregate: "calm m m' \<Longrightarrow> calm m (aggregate_hit lib bad now n sub m')"
  by (rule calm_trans [OF _ calm_aggregate_hit])

lemma calm_then_persist: "calm m m' \<Longrightarrow> calm m (persist_cooldown bad now c k sub m')"
  by (rule calm_trans [OF _ calm_persist])

lemmas calm_then = calm_then_dispatch calm_then_aggregate calm_then_persist

lemma calm_log_alert:
  assumes "log_alert lib bad now c cid nc nl sub m = Inr (sub', m')"
  shows "calm m m'"
proof (cases "evaluateUnique lib bad now c (formatLogMessage lib (nl_Message nl)) (m_queue m) sub")
  case (Inr r)
  obtain unique mq sub1 where r: "r = (unique, mq, sub1)" by (cases r)
  define m1 where "m1 = m\<lparr>m_queue := mq\<rparr>"
  have m1: "calm m m1" unfolding m1_def using Inr r by (intro calm_queue opt_ext_unique) simp
  obtain b m2 where s: "should_aggregate lib bad now sub1 m1 = (b, m2)" by fastforce
  have m2: "calm m m2" using calm_trans [OF m1 calm_should [OF s]] .
  show ?thesis
    using assms m1 m2 s by (cases b) (auto simp: log_alert_def Inr r m1_def [symmetric] Let_def
        intro!: calm_then split: if_splits prod.splits)
qed (use assms in \<open>simp add: log_alert_def Let_def\<close>)

lemma calm_metric_alert:
  assumes "metric_alert lib bad now cid nc ns sub m = Inr (sub', m')"
  shows "calm m m'"
proof (cases "evaluateUnique lib bad now cid (''CPU: '' @ format_percent lib (ns_CPUPercent ns) @ ''%, Memory: ''
                     @ format_percent lib (ns_MemoryPercent ns) @ ''%'') (m_queue m) sub")
  case (Inr r)
  obtain unique mq sub1 where r: "r = (unique, mq, sub1)" by (cases r)
  define m1 where "m1 = m\<lparr>m_queue := mq\<rparr>"
  have m1: "calm m m1" unfolding m1_def using Inr r by (intro calm_queue opt_ext_unique) simp
  obtain b m2 where s: "should_aggregate lib bad now sub1 m1 = (b, m2)" by fastforce
  have m2: "calm m m2" using calm_trans [OF m1 calm_should [OF s]] .
  show ?thesis
    using assms m1 m2 s by (cases b) (auto simp: metric_alert_def Inr r m1_def [symmetric] Let_def simp del: append_Cons
        intro!: calm_then split: if_splits prod.splits sum.splits bool.splits)
qed (use assms in \<open>simp add: metric_alert_def Let_def\<close>)

lemma calm_event_alert:
  assumes "event_alert lib bad now cid nc ne sub m = Inr (sub', m')"
  shows "calm m m'"
proof (cases "evaluateUnique lib bad now cid (event_detail ne) (m_queue m) sub")
  case (Inr r)
  obtain unique mq sub1 where r: "r = (unique, mq, sub1)" by (cases r)
  define m1 where "m1 = m\<lparr>m_queue := mq\<rparr>"
  have m1: "calm m m1" unfolding m1_def using Inr r by (intro calm_queue opt_ext_unique) simp
  obtain b m2 where s: "should_aggregate lib bad now sub1 m1 = (b, m2)" by fastforce
  have m2: "calm m m2" using calm_trans [OF m1 calm_should [OF s]] .
  show ?thesis
    using assms m1 m2 s by (cases b) (auto simp: event_alert_def Inr r m1_def [symmetric] Let_def
        intro!: calm_then split: if_splits prod.splits sum.splits bool.splits)
qed (use assms in \<open>simp add: event_alert_def\<close>)

lemma calm_log_watchdog_clear: "log_watchdog_clear lib bad now cid nc nl sub m = (b, m') \<Longrightarrow> calm m m'"
  by (auto simp: log_watchdog_clear_def intro: calm_then_dispatch dest: calm_should split: prod.splits bool.splits)

lemma calm_log_watchdog: "log_watchdog lib bad now c cid nc nl sub m = Inr (sub', m') \<Longrightarrow> calm m m'"
  by (auto simp: log_watchdog_def Let_def dest: calm_log_watchdog_clear
      split: if_splits sum.splits prod.splits bool.splits)

lemma calm_log_one: "log_one lib bad now c cid nc nl sub m = Inr (sub', m') \<Longrightarrow> calm m m'"
  by (auto simp: log_one_def dest: calm_log_alert calm_log_watchdog split: if_splits)

lemma calm_stat_one: "stat_one lib bad now cid nc ns sub m = Inr (sub', m') \<Longrightarrow> calm m m'"
  by (auto simp: stat_one_def dest: calm_metric_alert split: if_splits sum.splits prod.splits bool.splits)

lemma calm_fireRestartLoop: "calm m (snd (fireRestartLoopAlert lib bad now c nc ne detail sub m))"
  by (simp add: fireRestartLoopAlert_def Let_def calm_dispatch split: prod.splits)

lemma calm_restart_count: "restart_count lib bad now c nc ne sub m = Inr (sub', m') \<Longrightarrow> calm m m'"
  using calm_fireRestartLoop
  by (auto simp: restart_count_def Let_def split: if_splits option.splits dest!: sndI)

lemma calm_processRestartLoop: "processRestartLoop lib bad now c st nc ne sub m = Inr (sub', m') \<Longrightarrow> calm m m'"
  by (auto simp: processRestartLoop_def dest: calm_restart_count split: if_splits sum.splits prod.splits bool.splits)

lemma calm_event_plain: "event_plain lib bad now cid st nc ne sub m = Inr (sub', m') \<Longrightarrow> calm m m'"
  by (auto simp: event_plain_def dest: calm_processRestartLoop calm_event_alert split: if_splits)

lemma calm_event_clear: "calm m (event_watchdog_clear lib bad now cid nc ne sub m)"
  by (auto simp: event_watchdog_clear_def intro: calm_then_dispatch dest: calm_should split: prod.splits bool.splits)

lemma calm_event_one: "event_one lib bad now cid st nc ne sub m = Inr (sub', m') \<Longrightarrow> calm m m'"
  by (auto simp: event_one_def calm_event_clear dest: calm_event_plain
      split: if_splits sum.splits prod.splits option.splits)

lemma calm_visit:
  assumes "\<And>sub m sub' m'. f sub m = Inr (sub', m') \<Longrightarrow> calm m m'" and "visit f m i = Inr m'"
  shows "calm m m'"
  using assms(2) by (auto simp: visit_def dest: assms(1) split: option.splits sum.splits)

lemma calm_foldE_visit:
  assumes "\<And>sub m sub' m'. f sub m = Inr (sub', m') \<Longrightarrow> calm m m'" and "foldE (visit f) m ks = Inr m'"
  shows "calm m m'"
  using assms(2)
proof (induction ks arbitrary: m)
  case (Cons k ks)
  then obtain m1 where "visit f m k = Inr m1" "foldE (visit f) m1 ks = Inr m'" by (auto split: sum.splits)
  moreover from this(1) have "calm m m1" by (rule calm_visit [rotated]) (rule assms(1))
  ultimately show ?case using calm_trans Cons.IH by blast
qed simp

lemma calm_fire:
  assumes "\<And>sub m. calm m (snd (f sub m))"
  shows "calm m (fire_timer f i m)"
  using assms by (auto simp: fire_timer_def split: option.splits prod.splits dest!: sndI)

lemma calm_timers:
  "calm m (snd (watchdog_fire lib bad now cid sub m))" "calm m (snd (restart_fire lib bad now cid sub m))"
  by (auto simp: watchdog_fire_def restart_fire_def Let_def calm_sendOrQueue calm_fireRestartLoop split: option.splits)

subsection \<open>At most three deliveries\<close>

definition deliveries :: "int \<Rightarrow> manager \<Rightarrow> nat" where
  "deliveries i m = length (filter (\<lambda>s. sd_row s = Some i) (m_sends m))"

lemma deliveries_row_sends: "deliveries i m = length (filter (\<lambda>s. sd_row s = Some i) (row_sends m))"
  by (simp add: deliveries_def row_sends_def conj_commute cong: conj_cong)

definition delivery_inv :: "nat \<Rightarrow> manager \<Rightarrow> bool" where
  "delivery_inv k m \<longleftrightarrow> (\<forall>i. deliveries i m \<le> 3 + k)
     \<and> (\<forall>q. m_queue m = Some q \<longrightarrow> queue_inv q \<and> (\<forall>i. q_last_id q < i \<longrightarrow> deliveries i m = 0)
          \<and> (\<forall>r\<in>set (q_rows q). qr_status r = Pending \<longrightarrow> int (deliveries (qr_id r) m) \<le> qr_attempts r + int k))"

lemma delivery_inv_calm:
  assumes "calm m m'" and "delivery_inv k m"
  shows "delivery_inv k m'"
proof -
  have d: "deliveries i m' = deliveries i m" for i
    using assms(1) by (simp add: deliveries_row_sends calm_def)
  have "queue_inv q' \<and> (\<forall>i. q_last_id q' < i \<longrightarrow> deliveries i m = 0)
      \<and> (\<forall>r\<in>set (q_rows q'). qr_status r = Pending \<longrightarrow> int (deliveries (qr_id r) m) \<le> qr_attempts r + int k)"
    if q': "m_queue m' = Some q'" for q'
  proof -
    obtain q where q: "m_queue m = Some q" "rows_ext q q'"
      using assms(1) q' by (auto simp: calm_def opt_ext_def split: option.splits)
    have inv: "queue_inv q" "queue_inv q'" using assms(2) q by (auto simp: delivery_inv_def rows_ext_def)
    have "int (deliveries (qr_id r) m) \<le> qr_attempts r + int k" if r: "r \<in> set (q_rows q')" "qr_status r = Pending" for r
    proof -
      consider "q_last_id q < qr_id r" | r0 where "r0 \<in> set (q_rows q)" "qr_id r0 = qr_id r" "qr_status r0 = Pending"
          "qr_attempts r0 = qr_attempts r"
        using q(2) r unfolding rows_ext_def by blast
      then show ?thesis
      proof cases
        case 1
        then have "deliveries (qr_id r) m = 0" using assms(2) q by (simp add: delivery_inv_def)
        moreover have "0 \<le> qr_attempts r" using inv(2) r by (simp add: queue_inv_def list_all_iff row_ok_def)
        ultimately show ?thesis by simp
      next
        case 2
        then show ?thesis using assms(2) q by (force simp: delivery_inv_def)
      qed
    qed
    then show ?thesis using inv assms(2) q by (auto simp: delivery_inv_def rows_ext_def)
  qed
  then show ?thesis using assms(2) d by (simp add: delivery_inv_def)
qed

lemma drained_item:
  assumes "DrainReady bad now q = (items, None, q')"
  shows "q' = q \<and> (\<forall>item\<in>set items. \<exists>r\<in>set (q_rows q). qr_status r = Pending
    \<and> qr_id r = qn_ID item \<and> qr_attempts r = qn_Attempts item)"
proof -
  have "drain_rows bad rs acc q = (items, None, q') \<Longrightarrow> q' = q \<and> (\<forall>item\<in>set items.
      item \<in> set acc \<or> (\<exists>r\<in>set rs. qr_id r = qn_ID item \<and> qr_attempts r = qn_Attempts item))" for rs acc
  proof (induction bad rs acc q rule: drain_rows.induct)
    case (2 bad r rs acc q)
    then show ?case by (cases "qr_payload r") (fastforce+)
  qed auto
  then show ?thesis
    using assms by (fastforce simp: DrainReady_def set_ready_rows split: if_splits)
qed

lemma send_via_deliveries:
  "send_via web ex now d n row m = (e, m') \<Longrightarrow>
     m_queue m' = m_queue m \<and> deliveries i m' = deliveries i m + (if row = Some i then 1 else 0)"
  by (auto simp: send_via_def deliveries_def split: prod.splits)

lemma deliver_inv:
  assumes inv: "delivery_inv l m" and q: "m_queue m = Some q"
    and r: "r \<in> set (q_rows q)" "qr_status r = Pending" "qr_id r = qn_ID item" "qr_attempts r = qn_Attempts item"
  shows "delivery_inv (l + of_bool (bad UpdateStatus)) (deliverQueuedNotification lib web ex bad now item m)"
proof -
  let ?i = "qn_ID item" and ?l = "l + of_bool (bad UpdateStatus)"
  have q_inv: "queue_inv q" using inv q by (simp add: delivery_inv_def)
  have a: "0 \<le> qn_Attempts item" "qn_Attempts item < 3"
    using q_inv r by (auto simp: queue_inv_def list_all_iff row_ok_def)
  have di: "int (deliveries ?i m) \<le> qn_Attempts item + int l" using inv q r by (force simp: delivery_inv_def)
  have last: "?i \<le> q_last_id q" using q_inv r by (auto simp: queue_inv_def list_all_iff row_ok_def)
  have settle: "delivery_inv ?l (with_queue (snd \<circ> f) m1)"
    if m1: "m_queue m1 = Some q" "\<And>i. deliveries i m1 = deliveries i m + (if i = ?i then k else 0)" "k \<le> 1"
      and f: "queue_inv (snd (f q))" "q_last_id (snd (f q)) = q_last_id q"
      and rows: "\<And>r'. r' \<in> set (q_rows (snd (f q))) \<Longrightarrow> qr_status r' = Pending \<Longrightarrow>
        (r' \<in> set (q_rows q) \<and> (bad UpdateStatus \<or> qr_id r' \<noteq> ?i)) \<or> (qr_id r' = ?i \<and> qn_Attempts item + int k \<le> qr_attempts r')"
    for f m1 and k :: nat
  proof -
    have d: "deliveries i (with_queue (snd \<circ> f) m1) = deliveries i m1" for i
      by (simp add: with_queue_def deliveries_def)
    have three: "deliveries i m1 \<le> 3 + ?l" for i
    proof (cases "i = ?i")
      case False
      have "deliveries i m \<le> 3 + l" using inv by (simp add: delivery_inv_def)
      then show ?thesis using False m1(2) [of i] by simp
    qed (use m1(2) [of i] m1(3) di a in simp)
    have pend: "int (deliveries (qr_id r') m1) \<le> qr_attempts r' + int ?l"
      if r': "r' \<in> set (q_rows (snd (f q)))" "qr_status r' = Pending" for r'
    proof -
      consider "r' \<in> set (q_rows q)" "bad UpdateStatus" | "r' \<in> set (q_rows q)" "qr_id r' \<noteq> ?i"
        | "qr_id r' = ?i" "qn_Attempts item + int k \<le> qr_attempts r'" using rows [OF r'] by blast
      then show ?thesis
      proof cases
        case 1
        then have "int (deliveries (qr_id r') m) \<le> qr_attempts r' + int l" using inv q r'(2) by (simp add: delivery_inv_def)
        then show ?thesis using 1 m1(2) [of "qr_id r'"] m1(3) by auto
      next
        case 2
        then have "int (deliveries (qr_id r') m) \<le> qr_attempts r' + int l" using inv q r'(2) by (simp add: delivery_inv_def)
        then show ?thesis using 2 m1(2) [of "qr_id r'"] by simp
      next
        case 3
        then show ?thesis using m1(2) [of ?i] di by simp
      qed
    qed
    have "q_last_id q < i \<Longrightarrow> deliveries i m1 = 0" for i
      using inv q last m1(2) [of i] by (auto simp: delivery_inv_def)
    then show ?thesis
      using three pend f m1(1) by (auto simp: delivery_inv_def d) (auto simp: with_queue_def)
  qed
  have sent: "delivery_inv ?l (with_queue (snd \<circ> MarkSent bad ?i) m1)"
    if "m_queue m1 = Some q" "\<And>i. deliveries i m1 = deliveries i m + (if i = ?i then k else 0)" "k \<le> 1" for m1 and k :: nat
    using that MarkSent_inv [OF q_inv, of bad ?i]
    by (intro settle [of m1 k]) (auto simp: MarkSent_def update_row_def split: if_splits)
  have failed: "delivery_inv ?l (with_queue (snd \<circ> MarkFailed bad now ?i j) m1)"
    if "m_queue m1 = Some q" "\<And>i. deliveries i m1 = deliveries i m + (if i = ?i then k else 0)" "k \<le> 1"
      "qn_Attempts item \<le> j" for m1 j and k :: nat
  proof (rule settle [OF that(1-3)])
    show "queue_inv (snd (MarkFailed bad now ?i j q))" using MarkFailed_inv [OF q_inv] that(4) a by simp
    show "q_last_id (snd (MarkFailed bad now ?i j q)) = q_last_id q" by (simp add: MarkFailed_def update_row_def Let_def)
    fix r' assume "r' \<in> set (q_rows (snd (MarkFailed bad now ?i j q)))"
    then show "(r' \<in> set (q_rows q) \<and> (bad UpdateStatus \<or> qr_id r' \<noteq> ?i)) \<or> (qr_id r' = ?i \<and> qn_Attempts item + int k \<le> qr_attempts r')"
      using that(3,4) by (cases "bad UpdateStatus") (auto simp: MarkFailed_def update_row_def Let_def)
  qed
  show ?thesis
  proof (cases "getDispatcher (qn_DispatcherID item) m")
    case None
    then show ?thesis using failed [of m 0 3] q a by (simp add: deliverQueuedNotification_def)
  next
    case (Some d)
    obtain e m1 where s: "send_via web ex now d (qn_Notification item) (Some ?i) m = (e, m1)" by fastforce
    have m1: "m_queue m1 = Some q" "deliveries i m1 = deliveries i m + (if i = ?i then 1 else 0)" for i
      using send_via_deliveries [OF s] q by auto
    show ?thesis
      using Some s sent [of m 0] sent [of m1 1] failed [of m1 1 "qn_Attempts item"] m1 q
      by (cases e) (auto simp: deliverQueuedNotification_def)
  qed
qed

lemma delivery_inv_mono: "delivery_inv l m \<Longrightarrow> l \<le> l' \<Longrightarrow> delivery_inv l' m"
  unfolding delivery_inv_def by (meson add_left_mono dual_order.trans of_nat_mono)

text \<open>A round of the queue in its three parts: what is due, one delivery, cleaning up.\<close>

lemma flush_cases [consumes 1, case_names stopped empty delivered]:
  assumes "m_queue m = Some q"
  obtains q1 where "calm m (m\<lparr>m_queue := Some q1\<rparr>)" "flushQueue lib web ex bad now m = m\<lparr>m_queue := Some q1\<rparr>"
  | q1 where "calm m (m\<lparr>m_queue := Some q1\<rparr>)" "flushQueue lib web ex bad now m = with_queue (cleanup_all bad now) (m\<lparr>m_queue := Some q1\<rparr>)"
  | q1 item rest r where "calm m (m\<lparr>m_queue := Some q1\<rparr>)"
      "DrainReady bad now (flushQuietSummaries lib bad now (GetQuietHours m) q) = (item # rest, None, q1)"
      "r \<in> set (q_rows q1)" "qr_status r = Pending" "qr_id r = qn_ID item" "qr_attempts r = qn_Attempts item"
      "flushQueue lib web ex bad now m = with_queue (cleanup_all bad now) (deliverQueuedNotification lib web ex bad now item (m\<lparr>m_queue := Some q1\<rparr>))"
proof -
  define q0 where "q0 = flushQuietSummaries lib bad now (GetQuietHours m) q"
  obtain items e q1 where d: "DrainReady bad now q0 = (items, e, q1)" by (metis prod_cases3)
  have "rows_ext q q1"
    using rows_ext_trans [OF rows_ext_flush_summaries rows_ext_drain_rows] d
    by (auto simp: DrainReady_def q0_def rows_ext_flush_summaries split: if_splits dest!: sndI)
  then have c: "calm m (m\<lparr>m_queue := Some q1\<rparr>)" using assms by (intro calm_queue) (simp add: opt_ext_def)
  show thesis
  proof (cases e)
    case (Some e')
    then show thesis using that(1) [OF c] d assms by (simp add: flushQueue_def q0_def [symmetric])
  next
    case None
    show thesis
    proof (cases items)
      case Nil
      then show thesis using that(2) [OF c] d assms None by (simp add: flushQueue_def q0_def [symmetric])
    next
      case (Cons item rest)
      obtain r where "r \<in> set (q_rows q1)" "qr_status r = Pending" "qr_id r = qn_ID item" "qr_attempts r = qn_Attempts item"
        using drained_item [of bad now q0 items q1] d None Cons by auto
      then show thesis using that(3) [OF c] d assms None Cons by (simp add: flushQueue_def q0_def [symmetric])
    qed
  qed
qed

lemma calm_cleanup: "calm m (with_queue (cleanup_all bad now) m)"
  by (rule calm_with_queue) (rule rows_ext_cleanup_all)

lemma flush_inv:
  assumes "delivery_inv l m"
  shows "delivery_inv (l + of_bool (bad UpdateStatus)) (flushQueue lib web ex bad now m)"
proof (cases "m_queue m")
  case None
  then show ?thesis using delivery_inv_mono [OF assms] by (simp add: flushQueue_def)
next
  case (Some q)
  then show ?thesis
  proof (cases rule: flush_cases [of m q lib web ex bad now])
    case (stopped q1)
    then show ?thesis using delivery_inv_mono [OF delivery_inv_calm [OF stopped(1) assms]] by simp
  next
    case (empty q1)
    then show ?thesis using delivery_inv_mono [OF delivery_inv_calm [OF calm_trans [OF empty(1) calm_cleanup] assms]] by simp
  next
    case (delivered q1 item rest r)
    show ?thesis unfolding delivered(7)
      by (rule delivery_inv_calm [OF calm_cleanup deliver_inv [OF delivery_inv_calm [OF delivered(1) assms] _ delivered(3-6)]]) simp
  qed
qed

lemma calm_configuration:
  "calm m (updateListeners ks m)" "calm m (snd (AddSubscription lib ks sub m))" "calm m (RemoveSubscription ks i m)"
  "calm m (snd (ReplaceSubscription lib ks sub m))" "calm m (snd (UpdateSubscription lib ks i ups m))"
  "calm m (snd (AddDispatcher d m))" "calm m (UpdateDispatcher i d m)" "calm m (RemoveDispatcher i m)"
  "calm m (SetCloudDispatcher d m)" "calm m (ClearCloudDispatcher m)" "calm m (ResetCloudDispatcherBreaker m)"
  "calm m (SetQuietHours cfg m)" "calm m (RestorePersistentState bad now kys m)"
  by (simp_all add: updateListeners_def AddSubscription_def RemoveSubscription_def ReplaceSubscription_def
      UpdateSubscription_def AddDispatcher_def UpdateDispatcher_def RemoveDispatcher_def SetCloudDispatcher_def
      ClearCloudDispatcher_def ResetCloudDispatcherBreaker_def SetQuietHours_def RestorePersistentState_def
      alloc_def Let_def split: prod.splits option.splits sum.splits dispatcher.splits)

lemma calm_attempt: "attempt_send lib web ex now p m = (r, m') \<Longrightarrow> calm m m'"
  by (auto simp: attempt_send_def send_via_def calm_def row_sends_def
      split: if_splits prod.splits option.splits)

text \<open>Every step but a round of the queue leaves the rows that were handed out alone.\<close>

lemma calm_step:
  assumes "manager_step lost m m'"
  shows "(\<exists>lib web ex bad now. lost = bad UpdateStatus \<and> m' = flushQueue lib web ex bad now m) \<or> (\<not> lost \<and> calm m m')"
  using assms
proof (induction rule: manager_step.induct)
  case flush
  then show ?case by blast
next
  case (log lib bad find_container now ks ev m m')
  have "calm m m'"
    using log by (auto simp: processLogEvent_def split: option.splits if_splits elim!: calm_foldE_visit [OF calm_log_one, rotated])
  then show ?case by simp
next
  case (stat lib bad now ks' ks sev m m')
  then have "calm m m'" unfolding processStatEvent_def by (auto elim!: calm_foldE_visit [OF calm_stat_one, rotated])
  then show ?case by simp
next
  case (event lib bad now ks eev m m')
  then have "calm m m'" unfolding processDockerEvent_def by (auto elim!: calm_foldE_visit [OF calm_event_one, rotated])
  then show ?case by simp
next
  case (attempt m ps p ps' now lib web ex r m1)
  then show ?case by (simp add: calm_attempt)
qed (use calm_configuration calm_fire [OF calm_timers(1)] calm_fire [OF calm_timers(2)] in \<open>auto dest!: sndI\<close>)

lemma delivery_inv_step:
  assumes "manager_step lost m m'" and "delivery_inv l m"
  shows "delivery_inv (l + of_bool lost) m'"
  using calm_step [OF assms(1)]
proof (elim disjE exE conjE)
  fix lib web ex bad now
  assume "lost = bad UpdateStatus" "m' = flushQueue lib web ex bad now m"
  then show ?thesis using flush_inv [OF assms(2), of bad lib web ex now] by simp
qed (use delivery_inv_calm [of m m' l] assms(2) in auto)

lemma delivery_inv_run: "manager_run k m m' \<Longrightarrow> delivery_inv l m \<Longrightarrow> delivery_inv (l + k) m'"
proof (induction rule: manager_run.induct)
  case (more k m m' lost m'')
  then show ?case using delivery_inv_step [of lost m' m'' "l + k"] by (simp add: add.assoc)
qed simp

text \<open>C1. From a fresh start with an intact database, whatever sequence of log lines, samples, events,
timers, sends, queue rounds, settings and configuration changes follows, a notification in the queue
is handed to a dispatcher at most three times, plus once for every round of the queue in which the update of the row's status failed.\<close>

theorem queued_at_most_three:
  assumes "m_sends m0 = []" and "m_queue m0 = Some q0" and "queue_inv q0" and "manager_run k m0 m"
  shows "deliveries i m \<le> 3 + k"
proof -
  have "delivery_inv 0 m0"
    using assms(1-3) by (auto simp: delivery_inv_def deliveries_def queue_inv_def list_all_iff row_ok_def)
  from delivery_inv_run [OF assms(4) this] show ?thesis by (simp add: delivery_inv_def)
qed

text \<open>A round of the queue whose first item has a dispatcher and a subscription that is active.\<close>

lemma round_sends:
  assumes "m_queue m = Some q"
    and "DrainReady bad now (flushQuietSummaries lib bad now (GetQuietHours m) q) = (item # rest, None, q1)"
    and "getDispatcher (qn_DispatcherID item) m = Some d"
    and "isSubscriptionActive lib now (sub_ID (n_Subscription (qn_Notification item))) m"
    and "Send web ex now (qn_Notification item) (m_heap m ! d) = (e, d')"
  shows "\<exists>m1. flushQueue lib web ex bad now m = with_queue (cleanup_all bad now)
        (m1\<lparr>m_queue := Some (snd (if e = None then MarkSent bad (qn_ID item) q1 else MarkFailed bad now (qn_ID item) (qn_Attempts item) q1))\<rparr>)
      \<and> deliveries i m1 = deliveries i m + of_bool (i = qn_ID item)
      \<and> m_heap m1 = (m_heap m)[d := d'] \<and> m_dispatchers m1 = m_dispatchers m \<and> m_subscriptions m1 = m_subscriptions m"
proof -
  obtain m1 where s: "send_via web ex now d (qn_Notification item) (Some (qn_ID item)) (m\<lparr>m_queue := Some q1\<rparr>) = (e, m1)"
    "m_heap m1 = (m_heap m)[d := d']" "m_dispatchers m1 = m_dispatchers m" "m_subscriptions m1 = m_subscriptions m"
    using assms(5) by (simp add: send_via_def)
  have "deliveries i (m\<lparr>m_queue := Some q1\<rparr>) = deliveries i m" by (simp add: deliveries_def)
  then have "m_queue m1 = Some q1" "deliveries i m1 = deliveries i m + of_bool (i = qn_ID item)"
    using send_via_deliveries [OF s(1), of i] by auto
  moreover have "getDispatcher (qn_DispatcherID item) (m\<lparr>m_queue := Some q1\<rparr>) = Some d"
    "isSubscriptionActive lib now (sub_ID (n_Subscription (qn_Notification item))) (m\<lparr>m_queue := Some q1\<rparr>)"
    using assms(3,4) by (auto simp: getDispatcher_def isSubscriptionActive_def)
  ultimately show ?thesis
    using assms(1,2) s
    by (intro exI [of _ m1], cases e) (simp_all add: flushQueue_def deliverQueuedNotification_def with_queue_def)
qed

text \<open>
  The row of the sample queue is for dispatcher 3, a webhook that accepts everything.  As long as the
  status cannot be written, every round hands the same row out again.
\<close>

definition accepting :: exchange where
  "accepting = (\<lambda>_. Inr \<lparr>rs_StatusCode = 200, rs_RetryAfter = [], rs_Body = []\<rparr>)"

definition sample_hook :: dispatcher where
  "sample_hook = WebhookDispatcher \<lparr>wh_Name = ''w'', wh_URL = ''https:w'', wh_Template = None, wh_TemplateText = [], wh_Headers = Map.empty\<rparr>"

definition waiting_manager :: manager where
  "waiting_manager = UpdateDispatcher 3 sample_hook (sample_manager\<lparr>m_queue := Some sample_queue,
     m_subscriptions := [7 \<mapsto> new_subscription (zero_SubscriptionConfig\<lparr>sub_ID := 7, sub_Enabled := True, DispatcherID := 3\<rparr>)]\<rparr>)"

definition sample_round :: "faults \<Rightarrow> manager \<Rightarrow> manager" where
  "sample_round bad = flushQueue sample_env sample_web accepting bad 25"

definition waits :: "nat \<Rightarrow> manager \<Rightarrow> bool" where
  "waits k m \<longleftrightarrow> deliveries 1 m = k \<and> m_heap m = [sample_hook] \<and> m_dispatchers m = [3 \<mapsto> 0]
     \<and> m_subscriptions m = m_subscriptions waiting_manager
     \<and> (\<exists>q. m_queue m = Some q \<and> q_rows q = q_rows sample_queue \<and> q_last_id q = 1 \<and> q_summaries q = [])"

lemma waiting_waits: "waits 0 waiting_manager"
  by (simp add: waits_def waiting_manager_def UpdateDispatcher_def alloc_def sample_manager_def NewManager_def Let_def deliveries_def
      sample_queue_def Enqueue_def empty_queue_def)

lemma sample_drained:
  assumes "waits k m" and "\<not> bad SelectReady" and "\<not> bad SelectSummaries"
  shows "\<exists>item. DrainReady bad 25 (flushQuietSummaries sample_env bad 25 qh (the (m_queue m))) = ([item], None, the (m_queue m))
    \<and> qn_ID item = 1 \<and> qn_DispatcherID item = 3 \<and> sub_ID (n_Subscription (qn_Notification item)) = 7"
  using assms by (auto simp: waits_def flushQuietSummaries_def DueQuietSummaries_def DrainReady_def ready_rows_def sample_queue_def
      Enqueue_def empty_queue_def Let_def Payload_of_def json_transit_def sample_notification_def)

lemma sample_sends:
  assumes "waits k m"
  shows "getDispatcher 3 m = Some 0" "isSubscriptionActive sample_env now 7 m"
    "Send sample_web accepting now n (m_heap m ! 0) = (None, sample_hook)"
  using assms
  by (simp_all add: waits_def getDispatcher_def waiting_manager_def UpdateDispatcher_def alloc_def Let_def isSubscriptionActive_def
      isSubscriptionProcessable_def IsPaused_def IsDeliveryDay_def new_subscription_def subscription_config.defs
      zero_SubscriptionConfig_def sample_hook_def Send_def webhook_Send_def webhook_SendTest_def accepting_def sample_web_def success_status_def)

lemma lost_round:
  assumes "waits k m"
  shows "waits (k + 1) (sample_round (\<lambda>st. st = UpdateStatus) m)"
proof -
  obtain q item where q: "m_queue m = Some q"
    and d: "DrainReady (\<lambda>st. st = UpdateStatus) 25 (flushQuietSummaries sample_env (\<lambda>st. st = UpdateStatus) 25 (GetQuietHours m) q) = ([item], None, q)"
    and i: "qn_ID item = 1" "qn_DispatcherID item = 3" "sub_ID (n_Subscription (qn_Notification item)) = 7"
    using assms sample_drained [OF assms, of "\<lambda>st. st = UpdateStatus" "GetQuietHours m"] by (auto simp: waits_def)
  have s: "Send sample_web accepting 25 (qn_Notification item) (m_heap m ! 0) = (None, sample_hook)"
    using sample_sends [OF assms] by simp
  obtain m1 where m1: "sample_round (\<lambda>st. st = UpdateStatus) m = with_queue (cleanup_all (\<lambda>st. st = UpdateStatus) 25) (m1\<lparr>m_queue := Some q\<rparr>)"
      "deliveries 1 m1 = deliveries 1 m + 1" "m_heap m1 = (m_heap m)[0 := sample_hook]" "m_dispatchers m1 = m_dispatchers m"
      "m_subscriptions m1 = m_subscriptions m"
    using round_sends [OF q d _ _ s, of 1] i sample_sends [OF assms] by (auto simp: sample_round_def MarkSent_def)
  have "q_rows (cleanup_all (\<lambda>st. st = UpdateStatus) 25 q) = q_rows sample_queue" "q_last_id (cleanup_all (\<lambda>st. st = UpdateStatus) 25 q) = 1"
    "q_summaries (cleanup_all (\<lambda>st. st = UpdateStatus) 25 q) = []"
    using assms q by (auto simp: waits_def cleanup_all_def Cleanup_def CleanupQuietPeriodModes_def CleanupCooldowns_def CleanupUniqueState_def
        CleanupAlertState_def sample_queue_def Enqueue_def empty_queue_def Let_def)
  then show ?thesis using assms m1 by (simp add: waits_def with_queue_def deliveries_def)
qed

lemma lost_rounds: "manager_run k waiting_manager ((sample_round (\<lambda>st. st = UpdateStatus) ^^ k) waiting_manager)
    \<and> waits k ((sample_round (\<lambda>st. st = UpdateStatus) ^^ k) waiting_manager)"
proof (induction k)
  case 0
  then show ?case by (simp add: manager_run.start waiting_waits)
next
  case (Suc k)
  have "manager_step True m (sample_round (\<lambda>st. st = UpdateStatus) m)" for m
    using manager_step.flush [of "\<lambda>st. st = UpdateStatus" m] by (simp add: sample_round_def)
  then show ?case using Suc manager_run.more [of k waiting_manager _ True] lost_round by fastforce
qed

theorem queued_at_most_three_witness:
  "deliveries 1 ((sample_round (\<lambda>st. st = UpdateStatus) ^^ 5) waiting_manager) = 5 \<and> (5 :: nat) \<le> 3 + 5"
proof -
  have q: "m_sends waiting_manager = []" "m_queue waiting_manager = Some sample_queue" "queue_inv sample_queue"
    by (auto simp: waiting_manager_def UpdateDispatcher_def alloc_def Let_def sample_queue_def intro: inv_intros)
  show ?thesis using queued_at_most_three [OF q, of 5 _ 1] lost_rounds [of 5] by (simp add: waits_def)
qed

subsection \<open>An accepted notification is never sent again\<close>

text \<open>The row is settled: it was handed out and is no longer pending.\<close>

definition closed_row :: "int \<Rightarrow> manager \<Rightarrow> bool" where
  "closed_row i m \<longleftrightarrow> (\<forall>q. m_queue m = Some q \<longrightarrow> settled i q)"

definition offered_rows :: "env_lib \<times> faults \<times> gotime \<Rightarrow> manager \<Rightarrow> int set" where
  "offered_rows t m = (case (t, m_queue m) of ((lib, bad, now), Some q) \<Rightarrow> due_ids bad now (flushQuietSummaries lib bad now (GetQuietHours m) q) | _ \<Rightarrow> {})"

definition any_step :: "manager \<Rightarrow> manager \<Rightarrow> bool" where
  "any_step m m' \<longleftrightarrow> (\<exists>lost. manager_step lost m m')"

lemma settled_ext: "rows_ext q q' \<Longrightarrow> settled i q \<Longrightarrow> settled i q'"
  unfolding rows_ext_def settled_def by (metis dual_order.trans not_less)

lemma closed_calm: "calm m m' \<Longrightarrow> closed_row i m \<Longrightarrow> closed_row i m' \<and> deliveries i m' = deliveries i m"
  by (auto simp: closed_row_def calm_def opt_ext_def deliveries_row_sends settled_ext split: option.splits)

lemma settled_marked: "settled i q \<Longrightarrow> settled i (snd (MarkSent bad j q))" "settled i q \<Longrightarrow> i \<noteq> j \<Longrightarrow> settled i (snd (MarkFailed bad now j a q))"
  by (auto simp: MarkSent_def MarkFailed_def Let_def intro!: settled_update)

lemma closed_deliver:
  assumes "closed_row i m" and "i \<noteq> qn_ID item"
  shows "closed_row i (deliverQueuedNotification lib web ex bad now item m)
    \<and> deliveries i (deliverQueuedNotification lib web ex bad now item m) = deliveries i m"
proof -
  have w: "closed_row i (with_queue (snd \<circ> MarkSent bad (qn_ID item)) m1)" "closed_row i (with_queue (snd \<circ> MarkFailed bad now (qn_ID item) a) m1)"
    "deliveries i (with_queue f m1) = deliveries i m1" if "m_queue m1 = m_queue m" for m1 a f
    using assms that by (auto simp: closed_row_def with_queue_def deliveries_def settled_marked)
  show ?thesis
  proof (cases "getDispatcher (qn_DispatcherID item) m")
    case None
    then show ?thesis using w [of m] by (simp add: deliverQueuedNotification_def)
  next
    case (Some d)
    obtain e m1 where s: "send_via web ex now d (qn_Notification item) (Some (qn_ID item)) m = (e, m1)" by fastforce
    then show ?thesis using Some w [of m] w [of m1] send_via_deliveries [OF s, of i] assms(2)
      by (cases e) (auto simp: deliverQueuedNotification_def)
  qed
qed

lemma closed_flush:
  assumes "closed_row i m"
  shows "closed_row i (flushQueue lib web ex bad now m) \<and> deliveries i (flushQueue lib web ex bad now m) = deliveries i m"
proof (cases "m_queue m")
  case None
  then show ?thesis using assms by (simp add: flushQueue_def)
next
  case (Some q)
  then show ?thesis
  proof (cases rule: flush_cases [of m q lib web ex bad now])
    case (stopped q1)
    then show ?thesis using closed_calm [OF stopped(1) assms] by simp
  next
    case (empty q1)
    then show ?thesis using closed_calm [OF calm_trans [OF empty(1) calm_cleanup] assms] by simp
  next
    case (delivered q1 item rest r)
    let ?m1 = "m\<lparr>m_queue := Some q1\<rparr>"
    have c: "closed_row i ?m1" "deliveries i ?m1 = deliveries i m" using closed_calm [OF delivered(1) assms] by auto
    then have "i \<noteq> qn_ID item" using delivered(3-5) by (auto simp: closed_row_def settled_def)
    then show ?thesis using closed_deliver [OF c(1)] closed_calm [OF calm_cleanup] c(2) unfolding delivered(7) by metis
  qed
qed

lemma closed_step: "manager_step lost m m' \<Longrightarrow> closed_row i m \<Longrightarrow> closed_row i m' \<and> deliveries i m' = deliveries i m"
  using calm_step closed_calm closed_flush by metis

interpretation once: once_queue any_step closed_row offered_rows deliveries
proof
  show "i \<notin> offered_rows t m" if "closed_row i m" for i t m
    using that settled_not_due [OF settled_ext [OF rows_ext_flush_summaries]]
    by (auto simp: offered_rows_def closed_row_def split: prod.splits option.splits)
qed (auto simp: any_step_def dest: closed_step)

lemma run_steps: "manager_run k m m' \<Longrightarrow> any_step\<^sup>*\<^sup>* m m'"
  by (induction rule: manager_run.induct) (auto simp: any_step_def intro: rtranclp.rtrancl_into_rtrancl)

text \<open>C4. When a round of the queue hands a row to its dispatcher, the dispatcher accepts it and the row's status can be written, the row counts one
more delivery and never another: whatever happens afterwards, it is neither sent nor offered for delivery again.\<close>

theorem accepted_never_sent_again:
  assumes "m_queue m = Some q" and "queue_inv q"
    and "DrainReady bad now (flushQuietSummaries lib bad now (GetQuietHours m) q) = (item # rest, None, q1)"
    and "getDispatcher (qn_DispatcherID item) m = Some d"
    and "isSubscriptionActive lib now (sub_ID (n_Subscription (qn_Notification item))) m"
    and "fst (Send web ex now (qn_Notification item) (m_heap m ! d)) = None" and "\<not> bad UpdateStatus"
    and "manager_run k (flushQueue lib web ex bad now m) m'"
  shows "deliveries (qn_ID item) m' = deliveries (qn_ID item) m + 1 \<and> qn_ID item \<notin> offered_rows t m'"
proof -
  let ?i = "qn_ID item" and ?m = "flushQueue lib web ex bad now m"
  obtain d' where s: "Send web ex now (qn_Notification item) (m_heap m ! d) = (None, d')" using assms(6) by (metis prod.collapse)
  obtain m1 where m1: "?m = with_queue (cleanup_all bad now) (m1\<lparr>m_queue := Some (snd (MarkSent bad ?i q1))\<rparr>)"
      "deliveries ?i m1 = deliveries ?i m + 1"
    using round_sends [OF assms(1,3-5) s, of ?i] by auto
  have q1: "q1 = flushQuietSummaries lib bad now (GetQuietHours m) q" "\<exists>r\<in>set (q_rows q1). qr_id r = ?i"
    using drained_item [OF assms(3)] by auto
  then have "queue_inv q1" using rows_ext_flush_summaries assms(2) unfolding rows_ext_def by blast
  then have "settled ?i (snd (MarkSent bad ?i q1))"
    using q1(2) assms(7) by (auto simp: settled_def MarkSent_def update_row_def queue_inv_def list_all_iff row_ok_def)
  then have "closed_row ?i (m1\<lparr>m_queue := Some (snd (MarkSent bad ?i q1))\<rparr>)" by (simp add: closed_row_def)
  from closed_calm [OF calm_cleanup this] have c: "closed_row ?i ?m" "deliveries ?i ?m = deliveries ?i m + 1"
    using m1 by (simp_all add: deliveries_def)
  show ?thesis
    using once.handed_no_more [OF run_steps [OF assms(8)] c(1)] once.never_offered_again [OF run_steps [OF assms(8)] c(1)] c(2) by simp
qed

theorem accepted_never_sent_again_witness:
  "deliveries 1 (sample_round (\<lambda>_. False) (sample_round (\<lambda>_. False) waiting_manager)) = 1
    \<and> 1 \<notin> offered_rows (sample_env, (\<lambda>_. False), 30) (sample_round (\<lambda>_. False) (sample_round (\<lambda>_. False) waiting_manager))"
proof -
  let ?m = waiting_manager and ?m1 = "sample_round (\<lambda>_. False) waiting_manager"
  have q: "m_queue ?m = Some sample_queue" "queue_inv sample_queue" "deliveries 1 ?m = 0"
    using waiting_waits
    by (auto simp: waiting_manager_def UpdateDispatcher_def alloc_def Let_def sample_queue_def waits_def intro: inv_intros)
  obtain item where d: "DrainReady (\<lambda>_. False) 25 (flushQuietSummaries sample_env (\<lambda>_. False) 25 (GetQuietHours ?m) sample_queue) = ([item], None, sample_queue)"
    and i: "qn_ID item = 1" "qn_DispatcherID item = 3" "sub_ID (n_Subscription (qn_Notification item)) = 7"
    using sample_drained [OF waiting_waits, of "\<lambda>_. False" "GetQuietHours ?m"] q by auto
  note s = sample_sends [OF waiting_waits]
  have "manager_run 0 ?m1 (sample_round (\<lambda>_. False) ?m1)"
    using manager_run.more [OF manager_run.start manager_step.flush, of "\<lambda>_. False" ?m1] by (simp add: sample_round_def)
  then have r: "manager_run 0 (flushQueue sample_env sample_web accepting (\<lambda>_. False) 25 ?m) (sample_round (\<lambda>_. False) ?m1)"
    by (simp add: sample_round_def)
  show ?thesis using accepted_never_sent_again [OF q(1,2) d _ _ _ _ r, of 0] i s q(3) by simp
qed

subsection \<open>Direct sends are tried at most three times\<close>

text \<open>
  One goroutine run to its end: the worlds are the managers, clocks and network answers its iterations
  meet; the result is the instants at which it calls \<open>Send\<close>.
\<close>

fun run_send ::
    "env_lib \<Rightarrow> web_lib \<Rightarrow> (gotime \<times> exchange \<times> manager) list \<Rightarrow> pending_send \<Rightarrow> gotime list" where
  "run_send lib web [] p = []"
| "run_send lib web ((now, ex, m) # worlds) p =
     (if now < ps_due p then run_send lib web worlds p
      else if isSubscriptionActive lib now (sub_ID (n_Subscription (ps_notification p))) m
      then now # (case fst (attempt_send lib web ex now p m) of
                    None \<Rightarrow> [] | Some p' \<Rightarrow> run_send lib web worlds p')
      else [])"

lemma attempt_send_Some:
  "fst (attempt_send lib web ex now p m) = Some p' \<Longrightarrow>
     ps_attempt p < 3 \<and> ps_attempt p' = ps_attempt p + 1
     \<and> ps_due p' = now + ps_attempt p * ps_attempt p * 30 * Second"
  by (auto simp: attempt_send_def split: if_splits prod.splits option.splits)

lemma run_send_head: "run_send lib web worlds p = t # ts \<Longrightarrow> ps_due p \<le> t"
  by (induction lib web worlds p rule: run_send.induct) (auto split: if_splits prod.splits option.splits)

lemma run_send_bound: "ps_attempt p \<le> 3 \<Longrightarrow> int (length (run_send lib web worlds p)) \<le> 4 - ps_attempt p"
proof (induction lib web worlds p rule: run_send.induct)
  case (2 lib web now ex m worlds p)
  show ?case
  proof (cases "fst (attempt_send lib web ex now p m)")
    case None
    then show ?thesis using 2(1,3) by simp
  next
    case (Some p')
    note p' = attempt_send_Some [OF Some]
    show ?thesis
    proof (cases "now < ps_due p")
      case True
      then show ?thesis using 2(1,3) by simp
    next
      case False
      then show ?thesis using 2(2) [OF False _ Some] 2(3) p' Some by auto
    qed
  qed
qed simp

text \<open>C21. A direct send, once it has started, calls the dispatcher at most three times; the second call comes
at least 30 seconds after the first and the third at least 120 seconds after the second.\<close>

theorem direct_send_schedule:
  assumes "start_send lib acquired now m p = Some p'"
  shows "length (run_send lib web worlds p') \<le> 3
    \<and> (\<forall>t1 t2 ts. run_send lib web worlds p' = t1 # t2 # ts \<longrightarrow> t1 + 30 * Second \<le> t2)
    \<and> (\<forall>t1 t2 t3 ts. run_send lib web worlds p' = t1 # t2 # t3 # ts \<longrightarrow> t2 + 120 * Second \<le> t3)"
proof -
  have a: "ps_attempt p' = 1" using assms by (auto simp: start_send_def split: if_splits)
  have next_send: "\<exists>p'' worlds'. ts = run_send lib web worlds' p'' \<and> ps_attempt p'' = ps_attempt p + 1
      \<and> ps_due p'' = t + ps_attempt p * ps_attempt p * 30 * Second"
    if "run_send lib web worlds p = t # t' # us" "ts = t' # us" for worlds p t t' us ts
    using that
  proof (induction lib web worlds p rule: run_send.induct)
    case (2 lib web now ex m worlds p)
    show ?case
    proof (cases "fst (attempt_send lib web ex now p m)")
      case None
      then show ?thesis using 2(1,3,4) by (auto split: if_splits)
    next
      case (Some p'')
      then show ?thesis using 2(1,3,4) attempt_send_Some [OF Some]
        by (auto split: if_splits intro!: exI [of _ p''] exI [of _ worlds])
    qed
  qed simp
  have gap1: "t1 + 30 * Second \<le> t2" if r: "run_send lib web worlds p' = t1 # t2 # ts" for t1 t2 ts
  proof -
    obtain p'' w where p'': "t2 # ts = run_send lib web w p''" "ps_due p'' = t1 + 30 * Second"
      using next_send [OF r refl] a by auto
    show ?thesis using run_send_head [OF p''(1) [symmetric]] p''(2) by simp
  qed
  have gap2: "t2 + 120 * Second \<le> t3" if r: "run_send lib web worlds p' = t1 # t2 # t3 # ts" for t1 t2 t3 ts
  proof -
    obtain p2 w where p2: "t2 # t3 # ts = run_send lib web w p2" "ps_attempt p2 = 2"
      using next_send [OF r refl] a by auto
    obtain p3 w' where p3: "t3 # ts = run_send lib web w' p3" "ps_due p3 = t2 + 120 * Second"
      using next_send [OF p2(1) [symmetric] refl] p2(2) by auto
    show ?thesis using run_send_head [OF p3(1) [symmetric]] p3(2) by simp
  qed
  show ?thesis using run_send_bound [of p' lib web worlds] a gap1 gap2 by auto
qed

definition sample_pending :: pending_send where
  "sample_pending = \<lparr>ps_dispatcher = 0, ps_notification = sample_alert, ps_dispatcherID = 1, ps_attempt = 0, ps_due = 0\<rparr>"

theorem direct_send_schedule_witness:
  "length (run_send sample_env sample_web
     [(0, (\<lambda>_. Inl BlockedAddress), waiting_manager), (time_Unix 30, (\<lambda>_. Inl BlockedAddress), waiting_manager),
      (time_Unix 150, (\<lambda>_. Inl BlockedAddress), waiting_manager), (time_Unix 900, (\<lambda>_. Inl BlockedAddress), waiting_manager)]
     (sample_pending\<lparr>ps_attempt := 1, ps_due := 0\<rparr>)) \<le> 3"
proof -
  have "sub_ID (n_Subscription (ps_notification sample_pending)) = 0"
    by (simp add: sample_pending_def sample_alert_def zero_SubscriptionConfig_def)
  then have "start_send sample_env True 0 waiting_manager sample_pending
      = Some (sample_pending\<lparr>ps_attempt := 1, ps_due := 0\<rparr>)"
    by (simp add: start_send_def isSubscriptionActive_def)
  from direct_send_schedule [OF this] show ?thesis by blast
qed

end
