(* ===== verification/Cooldowns.thy ===== *)
theory Cooldowns
  imports Delivery
begin

text \<open>
  Cooldowns end to end: the key under which a cooldown is stored is read back exactly, a cooldown
  survives a restart of the process, and the alerts a log subscription raises for a container are
  at least one cooldown apart.
\<close>

subsection \<open>The key of a stored cooldown\<close>

definition cooldown_key :: "int \<Rightarrow> string \<Rightarrow> string \<Rightarrow> string" where
  "cooldown_key i c kind = show_int i @ '':'' @ c @ '':'' @ kind"

lemma cut_last_append: "d \<notin> set t \<Longrightarrow> cut_last d (s @ d # t) = Some (s, t)"
proof -
  assume d: "d \<notin> set t"
  have "takeWhile (\<lambda>c. c \<noteq> d) (rev t @ d # rev s) = rev t"
    using d by (subst takeWhile_append2) auto
  then show ?thesis by (simp add: cut_last_def)
qed

lemma parse_cooldown_key_key:
  assumes "in_int64 i" and "CHR '':'' \<notin> set kind"
  shows "parse_cooldown_key (cooldown_key i c kind) = Some (i, c, kind)"
proof -
  have "index_byte (CHR '':'') (cooldown_key i c kind) = Some (length (show_int i))"
    unfolding cooldown_key_def using index_byte_append [OF show_int_no_colon [of i]] by simp
  moreover have "drop (length (show_int i) + 1) (cooldown_key i c kind) = c @ CHR '':'' # kind"
    "take (length (show_int i)) (cooldown_key i c kind) = show_int i"
    by (simp_all add: cooldown_key_def)
  ultimately show ?thesis
    using cut_last_append [OF assms(2), of c] Atoi_show_int [OF assms(1)] by (simp add: parse_cooldown_key_def)
qed

text \<open>Every key of the table was written by the program.\<close>

definition canonical_keys :: "queue \<Rightarrow> bool" where
  "canonical_keys q \<longleftrightarrow> (\<forall>k\<in>dom (q_cooldowns q). \<exists>i c kind. in_int64 i \<and> CHR '':'' \<notin> set kind \<and> k = cooldown_key i c kind)"

lemma canonical_key_unique:
  assumes "canonical_keys q" and "k \<in> dom (q_cooldowns q)" and "parse_cooldown_key k = Some (i, c, kind)"
  shows "k = cooldown_key i c kind"
proof -
  obtain i' c' kind' where k: "in_int64 i'" "CHR '':'' \<notin> set kind'" "k = cooldown_key i' c' kind'"
    using assms(1,2) unfolding canonical_keys_def by blast
  then show ?thesis using parse_cooldown_key_key [OF k(1,2), of c'] assms(3) by simp
qed

subsection \<open>Restoring\<close>

text \<open>The log cooldown of container \<open>c\<close> in subscription \<open>i\<close>, whose settings are those of \<open>sub\<close>.\<close>

definition log_cooldown_is :: "int \<Rightarrow> string \<Rightarrow> subscription \<Rightarrow> gotime option \<Rightarrow> (int \<rightharpoonup> subscription) \<Rightarrow> bool" where
  "log_cooldown_is i c sub t subs \<longleftrightarrow>
     (\<exists>s m. subs i = Some s \<and> Cooldown s = Cooldown sub \<and> LogCooldowns s = Some m \<and> m c = t)"

lemma restore_cooldown_log:
  assumes "log_cooldown_is i c sub t subs"
  shows "log_cooldown_is i c sub
    (if parse_cooldown_key k = Some (i, c, ''log'') then Some (e - GetCooldownSeconds sub * Second) else t)
    (restore_cooldown (k, e) subs)"
proof -
  obtain s m where s: "subs i = Some s" "Cooldown s = Cooldown sub" "LogCooldowns s = Some m" "m c = t"
    using assms by (auto simp: log_cooldown_is_def)
  show ?thesis
  proof (cases "parse_cooldown_key k")
    case None
    then show ?thesis using assms by (simp add: restore_cooldown_def)
  next
    case (Some r)
    obtain j c' kd where r: "r = (j, c', kd)" by (cases r)
    show ?thesis
    proof (cases "j = i")
      case True
      then show ?thesis
        using s Some r by (simp add: restore_cooldown_def log_cooldown_is_def GetCooldownSeconds_def Let_def)
    next
      case False
      then have "restore_cooldown (k, e) subs i = subs i"
        using Some r by (simp add: restore_cooldown_def Let_def split: option.splits)
      then show ?thesis using False Some r s by (simp add: log_cooldown_is_def)
    qed
  qed
qed

lemma restore_all_log:
  assumes "log_cooldown_is i c sub t subs"
    and "\<And>k e. (k, e) \<in> set kvs \<Longrightarrow> parse_cooldown_key k = Some (i, c, ''log'') \<Longrightarrow> k = key \<and> e = expires"
    and "parse_cooldown_key key = Some (i, c, ''log'')"
  shows "log_cooldown_is i c sub
    (if (key, expires) \<in> set kvs then Some (expires - GetCooldownSeconds sub * Second) else t)
    (fold restore_cooldown kvs subs)"
  using assms(1,2)
proof (induction kvs arbitrary: subs t)
  case (Cons kv kvs)
  obtain k e where kv: "kv = (k, e)" by (cases kv)
  let ?t = "if parse_cooldown_key k = Some (i, c, ''log'') then Some (e - GetCooldownSeconds sub * Second) else t"
  have "log_cooldown_is i c sub ?t (restore_cooldown kv subs)"
    unfolding kv by (rule restore_cooldown_log [OF Cons.prems(1)])
  then have ih: "log_cooldown_is i c sub
      (if (key, expires) \<in> set kvs then Some (expires - GetCooldownSeconds sub * Second) else ?t)
      (fold restore_cooldown kvs (restore_cooldown kv subs))"
    by (rule Cons.IH) (use Cons.prems(2) in auto)
  show ?case
  proof (cases "parse_cooldown_key k = Some (i, c, ''log'')")
    case True
    then have "k = key" "e = expires" using Cons.prems(2) [of k e] kv by auto
    then show ?thesis using ih True kv by (auto split: if_splits)
  next
    case False
    then have "k \<noteq> key" using assms(3) by auto
    moreover have "log_cooldown_is i c sub
        (if (key, expires) \<in> set kvs then Some (expires - GetCooldownSeconds sub * Second) else t)
        (fold restore_cooldown kvs (restore_cooldown kv subs))"
      using ih False by (simp only: if_False)
    moreover have "(key, expires) \<in> set (kv # kvs) \<longleftrightarrow> (key, expires) \<in> set kvs"
      using calculation(1) kv by auto
    ultimately show ?thesis by (simp only: fold.simps comp_apply)
  qed
qed simp

text \<open>C28. A log cooldown survives a restart: if it was stored when the alert fired, then after the process
comes back, loads the same subscription with empty cooldown maps and restores the table, the
container is in cooldown exactly until the original end, cut off to whole seconds.\<close>

theorem cooldown_survives_restart:
  assumes "m_queue m = Some q" and "canonical_keys q" and "in_int64 (sub_ID sub)" and "\<not> bad UpsertCooldown"
    and "0 < Cooldown sub"
    and "m_queue (persist_cooldown bad fired c ''log'' sub m) = Some q1"
    and "m_queue m2 = Some q1" and "m_subscriptions m2 (sub_ID sub) = Some sub2"
    and "Cooldown sub2 = Cooldown sub" and "LogCooldowns sub2 = Some Map.empty"
    and "\<not> bad SelectCooldowns" and "set ks = dom (q_cooldowns q1)"
    and "restart \<le> now"
    and "m_subscriptions (RestorePersistentState bad restart ks m2) (sub_ID sub) = Some sub3"
  shows "IsLogCooldownActive sub3 c now
    \<longleftrightarrow> now < time_Unix (Unix (fired + GetCooldownSeconds sub * Second))"
proof -
  let ?i = "sub_ID sub" and ?until = "Unix (fired + GetCooldownSeconds sub * Second)"
  let ?key = "cooldown_key ?i c ''log''"
  have q1: "q_cooldowns q1 = (q_cooldowns q)(?key \<mapsto> ?until)"
    using assms(1,4,6) by (auto simp: persist_cooldown_def with_queue_def SetCooldown_def cooldown_key_def)
  have colon: "CHR '':'' \<notin> set ''log''" by simp
  have parse: "parse_cooldown_key ?key = Some (?i, c, ''log'')"
    by (rule parse_cooldown_key_key [OF assms(3) colon])
  have "\<exists>i c' kind. in_int64 i \<and> CHR '':'' \<notin> set kind \<and> ?key = cooldown_key i c' kind"
    using assms(3) colon by blast
  then have canon: "canonical_keys q1"
    using assms(2) unfolding canonical_keys_def q1 by auto
  define cds where "cds = (\<lambda>k. case q_cooldowns q1 k of None \<Rightarrow> None
      | Some e \<Rightarrow> if e > Unix restart then Some (time_Unix e) else None)"
  define kvs where "kvs = List.map_filter (\<lambda>k. map_option (Pair k) (cds k)) ks"
  have mem: "(k, e) \<in> set kvs \<longleftrightarrow> cds k = Some e" for k e
    using assms(12) by (auto simp: kvs_def List.map_filter_def cds_def dom_def image_iff split: option.splits if_splits)
  have uniq: "k = ?key \<and> e = time_Unix ?until"
    if "(k, e) \<in> set kvs" "parse_cooldown_key k = Some (?i, c, ''log'')" for k e
  proof -
    have "k \<in> dom (q_cooldowns q1)" using that(1) mem by (auto simp: cds_def split: option.splits)
    then have "k = ?key" by (rule canonical_key_unique [OF canon _ that(2)])
    then show ?thesis using that(1) mem q1 by (auto simp: cds_def split: if_splits)
  qed
  have "log_cooldown_is ?i c sub None (m_subscriptions m2)"
    using assms(8-10) by (simp add: log_cooldown_is_def)
  then have "log_cooldown_is ?i c sub
      (if (?key, time_Unix ?until) \<in> set kvs then Some (time_Unix ?until - GetCooldownSeconds sub * Second) else None)
      (m_subscriptions (RestorePersistentState bad restart ks m2))"
    using restore_all_log [OF _ uniq parse, of sub None "m_subscriptions m2"] assms(7,11)
    by (simp add: RestorePersistentState_def LoadCooldowns_def cds_def [symmetric] kvs_def [symmetric])
  then obtain lm where lm: "Cooldown sub3 = Cooldown sub" "LogCooldowns sub3 = Some lm"
    "lm c = (if (?key, time_Unix ?until) \<in> set kvs then Some (time_Unix ?until - GetCooldownSeconds sub * Second) else None)"
    using assms(14) by (auto simp: log_cooldown_is_def)
  have in_kvs: "(?key, time_Unix ?until) \<in> set kvs \<longleftrightarrow> Unix restart < ?until"
    unfolding mem by (simp add: cds_def q1)
  have gone: "\<not> now < time_Unix ?until" if "\<not> Unix restart < ?until"
    using that assms(13) Unix_mono [of restart now] by (simp add: lt_time_Unix_iff)
  show ?thesis
    using lm in_kvs gone assms(5) by (auto simp: IsLogCooldownActive_def cooling_def GetCooldownSeconds_def)
qed

definition cooling_sub :: subscription where
  "cooling_sub = sample_sub\<lparr>Cooldown := 60, LogCooldowns := Some Map.empty\<rparr>"

definition restarted :: manager where
  "restarted = (persist_cooldown (\<lambda>_. False) (time_Unix 100) ''c1'' ''log'' cooling_sub sample_manager)
     \<lparr>m_subscriptions := [1 \<mapsto> cooling_sub]\<rparr>"

theorem cooldown_survives_restart_witness:
  "\<exists>s. m_subscriptions (RestorePersistentState (\<lambda>_. False) (time_Unix 120) [cooldown_key 1 ''c1'' ''log''] restarted) 1 = Some s
     \<and> IsLogCooldownActive s ''c1'' (time_Unix 159) \<and> \<not> IsLogCooldownActive s ''c1'' (time_Unix 160)"
proof -
  let ?bad = "(\<lambda>_. False) :: faults" and ?k = "cooldown_key 1 ''c1'' ''log''"
  obtain q1 where q1: "m_queue (persist_cooldown ?bad (time_Unix 100) ''c1'' ''log'' cooling_sub sample_manager) = Some q1"
    by (simp add: persist_cooldown_def with_queue_def)
  then have dom: "dom (q_cooldowns q1) = {?k}"
    by (auto simp: persist_cooldown_def with_queue_def SetCooldown_def empty_queue_def cooldown_key_def cooling_sub_def
        split: if_splits)
  have sec: "GetCooldownSeconds cooling_sub = 60"
    by (simp add: GetCooldownSeconds_def clampCooldownSeconds_def maxCooldownSeconds_def cooling_sub_def)
  have rest: "m_queue restarted = Some q1" "m_subscriptions restarted (sub_ID cooling_sub) = Some cooling_sub"
    using q1 by (simp_all add: restarted_def cooling_sub_def)
  have "log_cooldown_is 1 ''c1'' cooling_sub None (m_subscriptions restarted)"
    by (simp add: log_cooldown_is_def restarted_def cooling_sub_def)
  then have "\<exists>s. fold restore_cooldown kvs (m_subscriptions restarted) 1 = Some s" for kvs
  proof -
    have "\<exists>s. subs 1 = Some s \<Longrightarrow> \<exists>s. fold restore_cooldown kvs subs 1 = Some s" for subs :: "int \<rightharpoonup> subscription"
      by (induction kvs arbitrary: subs)
        (auto simp: restore_cooldown_def Let_def split: option.splits prod.splits)
    then show ?thesis by (simp add: restarted_def)
  qed
  then obtain s where s: "m_subscriptions (RestorePersistentState ?bad (time_Unix 120) [?k] restarted) 1 = Some s"
    using rest by (auto simp: RestorePersistentState_def LoadCooldowns_def)
  have active: "IsLogCooldownActive s ''c1'' now \<longleftrightarrow> now < time_Unix 160" if "time_Unix 120 \<le> now" for now
  proof -
    have "fst (time_Unix 100, 60 * Second) + 60 * Second = time_Unix 160" by (simp add: time_Unix_def Second_def)
    then show ?thesis
      using cooldown_survives_restart [of sample_manager empty_queue cooling_sub ?bad "time_Unix 100" "''c1''" q1
          restarted cooling_sub "[?k]" "time_Unix 120" now s] rest q1 dom s sec that
      by (simp add: canonical_keys_def empty_queue_def cooling_sub_def in_int64_def)
  qed
  show ?thesis using s active [of "time_Unix 159"] active [of "time_Unix 160"] by (auto simp: time_Unix_def)
qed

subsection \<open>Log alerts of a container are one cooldown apart\<close>

text \<open>What the cooldown of a subscription depends on.\<close>

definition same_cooldown :: "subscription \<Rightarrow> subscription \<Rightarrow> bool" where
  "same_cooldown s s' \<longleftrightarrow> Cooldown s' = Cooldown s \<and> LogCooldowns s' = LogCooldowns s \<and> WatchdogWindow s' = WatchdogWindow s"

lemma same_cooldown_refl [simp]: "same_cooldown s s"
  by (simp add: same_cooldown_def)

lemma same_cooldown_trans: "same_cooldown a b \<Longrightarrow> same_cooldown b c \<Longrightarrow> same_cooldown a c"
  by (simp add: same_cooldown_def)

lemma same_cooldown_ops [simp]:
  "same_cooldown s (mark_triggered i now s') = same_cooldown s s'"
  "DetectBurst c p now s' = (r, s'') \<Longrightarrow> same_cooldown s s'' = same_cooldown s s'"
  by (auto simp: same_cooldown_def mark_triggered_def AddTriggeredContainer_def DetectBurst_def Let_def
      split: if_splits option.splits)

lemma same_cooldown_unique:
  assumes "evaluateUnique lib bad now c msg mq s = Inr (d, mq', s')"
  shows "same_cooldown s s'"
proof -
  have mem: "evaluateUniqueInMemory fp key th now w s = Inr (d', s'') \<Longrightarrow> same_cooldown s s''" for fp key th w d' s''
    by (auto simp: evaluateUniqueInMemory_def same_cooldown_def Let_def split: option.splits)
  show ?thesis
    using assms by (auto simp: evaluateUnique_def Let_def split_beta dest: mem
        split: prod.splits bool.splits option.splits sum.splits)
qed

text \<open>An alert was sent or queued.\<close>

definition alerted :: "manager \<Rightarrow> manager \<Rightarrow> bool" where
  "alerted m m' \<longleftrightarrow> m_sending m' \<noteq> m_sending m \<or> map_option q_rows (m_queue m') \<noteq> map_option q_rows (m_queue m)"

lemma not_alerted_aggregate:
  "should_aggregate lib bad now s m = (b, m') \<Longrightarrow> alerted m0 m' = alerted m0 m"
  "alerted m0 (aggregate_hit lib bad now n s m) = alerted m0 m"
proof -
  show "should_aggregate lib bad now s m = (b, m') \<Longrightarrow> alerted m0 m' = alerted m0 m"
    using rows_kept_should [of lib bad now "GetQuietHours m" s]
    by (cases "m_queue m")
      (auto simp: should_aggregate_def alerted_def shouldAggregateQuiet_def rows_kept_def split: prod.splits, fastforce+)
  show "alerted m0 (aggregate_hit lib bad now n s m) = alerted m0 m"
    using rows_kept_aggregate [of _ lib bad now "GetQuietHours m" n s]
    by (auto simp: aggregate_hit_def alerted_def with_queue_def rows_kept_def option.map_comp comp_def)
qed

lemma alerted_refl [simp]: "\<not> alerted m m"
  by (simp add: alerted_def)

lemma not_alerted_unique:
  assumes "evaluateUnique lib bad now c msg (m_queue m) s = Inr (d, mq, s')"
  shows "\<not> alerted m (m\<lparr>m_queue := mq\<rparr>)"
proof (cases "m_queue m")
  case None
  then show ?thesis using assms
    by (auto simp: evaluateUnique_def alerted_def Let_def split: prod.splits bool.splits sum.splits)
next
  case (Some q)
  obtain key ok where k: "ExtractUniqueKey s msg = (key, ok)" by fastforce
  define fp where "fp = alertFingerprint lib (sub_Name s) [] c ''unique'' key"
  obtain r q1 where g: "GetOrCreateUniqueState bad now fp (sub_ID s) key q = (r, q1)" by fastforce
  have e1: "rows_kept q q1" using rows_kept_side(4) [of q bad now fp "sub_ID s" key] g by simp
  then have e2: "rows_kept q (snd (UpsertUniqueState bad now u q1))" for u
    using rows_kept_trans rows_kept_side(5) by blast
  show ?thesis using assms k Some g e1 e2
    by (cases ok; cases r)
      (auto simp: evaluateUnique_def alerted_def rows_kept_def Let_def fp_def [symmetric] split_beta
        split: sum.splits prod.splits)
qed

text \<open>One log line on one subscription either leaves its cooldown alone and raises nothing, or passes
the cooldown and restarts it.\<close>

lemma log_one_cooldown:
  assumes "log_one lib bad now c cid nc nl s m = Inr (s', m')" and "0 < Cooldown s" and "WatchdogWindow s \<le> 0"
  shows "(same_cooldown s s' \<and> \<not> alerted m m')
    \<or> (\<not> IsLogCooldownActive s c now \<and> same_cooldown (SetLogCooldown c now s) s')"
proof (cases "s' = s \<and> m' = m")
  case False
  then have la: "log_alert lib bad now c cid nc nl s m = Inr (s', m')"
    using assms(1,3) by (auto simp: log_one_def split: if_splits)
  obtain unique mq s1 where u: "evaluateUnique lib bad now c (formatLogMessage lib (nl_Message nl)) (m_queue m) s
      = Inr (unique, mq, s1)"
    using la by (auto simp: log_alert_def Let_def split: sum.splits)
  define m1 where "m1 = m\<lparr>m_queue := mq\<rparr>"
  have s1: "same_cooldown s s1" "\<not> alerted m m1"
    using same_cooldown_unique [OF u] not_alerted_unique [OF u] by (simp_all add: m1_def)
  have cd: "0 < Cooldown s1" "IsLogCooldownActive s1 c now = IsLogCooldownActive s c now"
    "same_cooldown (SetLogCooldown c now s) (SetLogCooldown c now s1)"
    using s1(1) assms(2)
    by (auto simp: same_cooldown_def IsLogCooldownActive_def SetLogCooldown_def GetCooldownSeconds_def split: option.splits)
  obtain b m2 where a: "should_aggregate lib bad now s1 m1 = (b, m2)" by fastforce
  have m2: "\<not> alerted m m2" using not_alerted_aggregate(1) [OF a] s1(2) by blast
  show ?thesis
  proof (cases "ud_Allowed unique \<and> \<not> b \<and> \<not> IsLogCooldownActive s1 c now")
    case True
    obtain r s4 where d: "DetectBurst c (sub_NtfyPriority (mark_triggered (nc_ID nc) now (SetLogCooldown c now s1))) now
        (mark_triggered (nc_ID nc) now (SetLogCooldown c now s1)) = (r, s4)" by fastforce
    have "s' = s4" using la True cd d a u
      by (auto simp: log_alert_def Let_def m1_def [symmetric] split: prod.splits)
    then show ?thesis using True cd d by simp
  next
    case False
    then show ?thesis using la s1 cd a u m2 not_alerted_aggregate(2)
      by (cases b) (auto simp: log_alert_def Let_def m1_def [symmetric] split: if_splits)
  qed
qed simp

text \<open>
  A run of log lines on one subscription: each comes with its clock and the state the manager is in by
  then.  The result lists the lines that raised an alert (sent, queued, or with no dispatcher to send
  it), with their container.
\<close>

fun log_run ::
    "env_lib \<Rightarrow> faults \<Rightarrow> (gotime \<times> string \<times> string \<times> notification_container \<times> notification_log \<times> manager) list
       \<Rightarrow> subscription \<Rightarrow> (string \<times> gotime) list" where
  "log_run lib bad [] s = []"
| "log_run lib bad ((now, c, cid, nc, nl, m) # evs) s =
     (case log_one lib bad now c cid nc nl s m of
        Inl _ \<Rightarrow> []
      | Inr r \<Rightarrow> (if alerted m (snd r) \<or> LogCooldowns (fst r) \<noteq> LogCooldowns s then [(c, now)] else [])
                  @ log_run lib bad evs (fst r))"

lemma fires_same: "same_cooldown s s' \<Longrightarrow> log_cd.fires s' hits = log_cd.fires s hits"
proof (induction s hits arbitrary: s' rule: log_cd.fires.induct)
  case (2 s c t hits)
  have a: "IsLogCooldownActive s' c t = IsLogCooldownActive s c t"
    "same_cooldown (SetLogCooldown c t s) (SetLogCooldown c t s')"
    using 2(3) by (auto simp: same_cooldown_def IsLogCooldownActive_def SetLogCooldown_def GetCooldownSeconds_def split: option.splits)
  show ?case
  proof (cases "IsLogCooldownActive s c t")
    case True
    then show ?thesis using 2(1) [OF True 2(3)] a(1) by simp
  next
    case False
    then show ?thesis using 2(2) [OF False a(2)] a(1) by simp
  qed
qed simp

lemma log_run_fires:
  assumes "0 < Cooldown s" and "WatchdogWindow s \<le> 0"
  shows "log_cd.fires s (log_run lib bad evs s) = log_run lib bad evs s"
  using assms
proof (induction lib bad evs s rule: log_run.induct)
  case (2 lib bad now c cid nc nl m evs s)
  show ?case
  proof (cases "log_one lib bad now c cid nc nl s m")
    case (Inr r)
    obtain s' m' where r: "r = (s', m')" by (cases r)
    note step = log_one_cooldown [OF Inr [unfolded r] 2(2,3)]
    show ?thesis
    proof (cases "same_cooldown s s' \<and> \<not> alerted m m'")
      case True
      then have "log_cd.fires s' (log_run lib bad evs s') = log_run lib bad evs s'"
        using 2(1) [OF Inr] 2(2,3) r by (simp add: same_cooldown_def)
      then show ?thesis using True Inr r fires_same [of s s'] by (simp add: same_cooldown_def)
    next
      case False
      then have f: "\<not> IsLogCooldownActive s c now" "same_cooldown (SetLogCooldown c now s) s'" using step by auto
      have ext: "Cooldown (SetLogCooldown c now s) = Cooldown s" "WatchdogWindow (SetLogCooldown c now s) = WatchdogWindow s"
        by (simp_all add: SetLogCooldown_def split: option.splits)
      then have "log_cd.fires s' (log_run lib bad evs s') = log_run lib bad evs s'"
        using 2(1) [OF Inr] 2(2,3) r f(2) by (simp add: same_cooldown_def)
      then show ?thesis using False f Inr r ext fires_same [OF f(2)]
        by (auto simp: same_cooldown_def)
    qed
  qed simp
qed simp

text \<open>C37. Whatever log lines a subscription with a cooldown and without a watchdog window sees, in whatever state the manager is, two alerts
it raises for the same container are at least one cooldown period apart; quiet hours, unique
suppression and bursts do not change that.  A subscription with a watchdog window is another mode, in which \<open>Cooldown\<close> is not looked at.\<close>

theorem log_alerts_spaced:
  assumes "0 < Cooldown s" and "LogCooldowns s \<noteq> None" and "WatchdogWindow s \<le> 0"
    and "log_run lib bad evs s = xs @ (c, t) # ys @ (c, t') # zs"
  shows "t + GetCooldownSeconds s * Second \<le> t'"
  using log_cd.fires_spaced [of s "log_run lib bad evs s" xs c t ys t' zs] log_run_fires [of s lib bad evs] assms
  by (simp add: log_ready_def log_period_def)

definition noisy_sub :: subscription where
  "noisy_sub = cooling_sub\<lparr>LogExpression := ''true'', LogProgram := Some (\<lambda>_. ExprBool True),
     ContainerProgram := Some (\<lambda>_. ExprBool True), BypassQuietHours := True\<rparr>"

definition noisy_lines :: "(gotime \<times> string \<times> string \<times> notification_container \<times> notification_log \<times> manager) list" where
  "noisy_lines = map (\<lambda>t. (time_Unix t, ''c1'', ''c1'', n_Container sample_alert, zero_log,
     NewManager (\<lambda>_. False) (Malformed []) [] (Inl NoRows))) [100, 130, 160]"

lemma noisy_run: "log_run sample_env (\<lambda>_. False) noisy_lines noisy_sub = [(''c1'', time_Unix 100), (''c1'', time_Unix 160)]"
proof -
  have sub: "IsLogAlert noisy_sub" "MatchesContainer noisy_sub nc" "MatchesLog noisy_sub nl" "WatchdogWindow noisy_sub = 0"
    "isSubscriptionProcessable sample_env now noisy_sub" "UniqueWindow noisy_sub = 0" "BurstCount noisy_sub = 0"
    "GetCooldownSeconds noisy_sub = 60" "Cooldown noisy_sub = 60" "BypassQuietHours noisy_sub" "DispatcherID noisy_sub = 1"
    "LogCooldowns noisy_sub = Some Map.empty" for nc nl now
    by (simp_all add: IsLogAlert_def MatchesContainer_def MatchesLog_def run_bool_def isSubscriptionProcessable_def
        IsPaused_def IsDeliveryDay_def GetCooldownSeconds_def clampCooldownSeconds_def maxCooldownSeconds_def
        noisy_sub_def cooling_sub_def sample_sub_def new_subscription_def subscription_config.defs
        zero_SubscriptionConfig_def)
  define calm where "calm s \<longleftrightarrow> (\<forall>nc nl now. IsLogAlert s \<and> MatchesContainer s nc \<and> MatchesLog s nl
     \<and> WatchdogWindow s = 0 \<and> isSubscriptionProcessable sample_env now s \<and> UniqueWindow s = 0 \<and> BurstCount s = 0
     \<and> GetCooldownSeconds s = 60 \<and> Cooldown s = 60 \<and> BypassQuietHours s \<and> DispatcherID s = 1)" for s :: subscription
  let ?m = "NewManager (\<lambda>_. False) (Malformed []) [] (Inl NoRows)"
  have one: "\<exists>s'. log_one sample_env (\<lambda>_. False) now ''c1'' ''c1'' nc nl s ?m = Inr (s', ?m) \<and> calm s'
      \<and> LogCooldowns s' = (if cooling lm ''c1'' 60 now then Some lm else Some (lm(''c1'' \<mapsto> now)))"
    if "calm s" "LogCooldowns s = Some lm" for s lm nc nl now
  proof (cases "cooling lm ''c1'' 60 now")
    case True
    then show ?thesis using that
      by (auto simp: log_one_def log_alert_def calm_def evaluateUnique_def ExtractUniqueKey_def allow_decision_def
          should_aggregate_def shouldAggregateQuiet_def IsLogCooldownActive_def Let_def NewManager_def)
  next
    case False
    let ?s' = "mark_triggered (nc_ID nc) now (SetLogCooldown ''c1'' now s)"
    have same: "IsLogAlert ?s' = IsLogAlert s" "MatchesContainer ?s' = MatchesContainer s" "MatchesLog ?s' = MatchesLog s"
      "isSubscriptionProcessable e t ?s' = isSubscriptionProcessable e t s" "GetCooldownSeconds ?s' = GetCooldownSeconds s"
      "WatchdogWindow ?s' = WatchdogWindow s" "UniqueWindow ?s' = UniqueWindow s" "BurstCount ?s' = BurstCount s"
      "Cooldown ?s' = Cooldown s" "BypassQuietHours ?s' = BypassQuietHours s" "DispatcherID ?s' = DispatcherID s" for t e
      using that(2) by (simp_all add: mark_triggered_def AddTriggeredContainer_def SetLogCooldown_def IsLogAlert_def fun_eq_iff
          MatchesContainer_def MatchesLog_def isSubscriptionProcessable_def IsPaused_def IsDeliveryDay_def
          GetCooldownSeconds_def Let_def)
    have upd: "calm ?s'" using that(1) unfolding calm_def same .
    have facts: "isSubscriptionProcessable sample_env now s" "IsLogAlert s" "MatchesContainer s nc" "MatchesLog s nl"
      "WatchdogWindow s = 0" "UniqueWindow s = 0" "BypassQuietHours s" "Cooldown s = 60" "GetCooldownSeconds s = 60"
      "BurstCount ?s' = 0" "DispatcherID ?s' = 1"
      using that(1) upd by (simp_all add: calm_def)
    have "LogCooldowns ?s' = Some (lm(''c1'' \<mapsto> now))"
      using that by (simp add: mark_triggered_def AddTriggeredContainer_def SetLogCooldown_def Let_def)
    moreover have "log_one sample_env (\<lambda>_. False) now ''c1'' ''c1'' nc nl s ?m = Inr (?s', ?m)"
      using facts False that(2)
      by (simp add: log_one_def log_alert_def evaluateUnique_def ExtractUniqueKey_def allow_decision_def
          should_aggregate_def shouldAggregateQuiet_def IsLogCooldownActive_def DetectBurst_def
          persist_cooldown_def with_queue_def dispatch_def getDispatcher_def Let_def NewManager_def)
    ultimately show ?thesis using upd False by simp
  qed
  have c0: "calm noisy_sub" using sub by (simp add: calm_def)
  obtain s1 where s1: "log_one sample_env (\<lambda>_. False) (time_Unix 100) ''c1'' ''c1'' (n_Container sample_alert) zero_log noisy_sub ?m = Inr (s1, ?m)"
    "calm s1" "LogCooldowns s1 = Some [''c1'' \<mapsto> time_Unix 100]"
    using one [OF c0 sub(12)] by (force simp: cooling_def)
  obtain s2 where s2: "log_one sample_env (\<lambda>_. False) (time_Unix 130) ''c1'' ''c1'' (n_Container sample_alert) zero_log s1 ?m = Inr (s2, ?m)"
    "calm s2" "LogCooldowns s2 = Some [''c1'' \<mapsto> time_Unix 100]"
    using one [OF s1(2,3), of "time_Unix 130" "n_Container sample_alert" zero_log]
    by (auto simp: cooling_def time_Unix_def Second_def)
  obtain s3 where s3: "log_one sample_env (\<lambda>_. False) (time_Unix 160) ''c1'' ''c1'' (n_Container sample_alert) zero_log s2 ?m = Inr (s3, ?m)"
    "LogCooldowns s3 = Some [''c1'' \<mapsto> time_Unix 160]"
    using one [OF s2(2,3), of "time_Unix 160" "n_Container sample_alert" zero_log]
    by (auto simp: cooling_def time_Unix_def Second_def)
  have "[''c1'' \<mapsto> time_Unix 160] \<noteq> [''c1'' \<mapsto> time_Unix 100]" by (simp add: fun_eq_iff time_Unix_def)
  then show ?thesis using s1 s2 s3 sub(12) by (auto simp: noisy_lines_def fun_eq_iff)
qed

theorem log_alerts_spaced_witness:
  "log_run sample_env (\<lambda>_. False) noisy_lines noisy_sub = [(''c1'', time_Unix 100), (''c1'', time_Unix 160)]
    \<and> time_Unix 100 + GetCooldownSeconds noisy_sub * Second \<le> time_Unix 160"
  using noisy_run log_alerts_spaced [of noisy_sub sample_env "\<lambda>_. False" noisy_lines "[]" "''c1''" "time_Unix 100" "[]"
      "time_Unix 160" "[]"]
  by (simp add: noisy_sub_def cooling_sub_def sample_sub_def new_subscription_def subscription_config.defs
      zero_SubscriptionConfig_def)

end
