(* ===== verification/NotifConfig.thy ===== *)
theory NotifConfig
  imports Delivery
begin

text \<open>
  Configuration files of the notification engine: \<open>config.go\<close>, \<open>cloud_config.go\<close> and \<open>persist.go\<close> of
  \<open>internal/notification\<close>.

  The YAML encoder and decoder are a parameter (\<open>yaml_lib\<close>), and so is the outcome of every file
  operation (\<open>disk\<close>).  The files are a map from paths to contents.  \<open>ks\<close> and \<open>ds\<close> are the orders in which the
  concurrent maps of subscriptions and dispatchers are visited.
\<close>

subsection \<open>Data\<close>

record config =
  cf_Subscriptions :: "subscription_config list"
  cf_Dispatchers :: "dispatcher_config list"
  cf_QuietHours :: quiet_hours_config

record cloud_config =
  cc_APIKey :: string
  cc_Prefix :: string
  cc_ExpiresAt :: "gotime option"
  cc_StreamLogs :: "bool option"

record yaml_lib =
  yaml_config :: "config \<Rightarrow> string"
  parse_config :: "string \<Rightarrow> config option"
  yaml_cloud :: "cloud_config \<Rightarrow> string"
  parse_cloud :: "string \<Rightarrow> cloud_config option"

datatype config_error = DecodeFailed | LoadFailed string compile_error

datatype create_error = UnknownDispatcherType string | Rejected dispatcher_error

subsection \<open>Writing\<close>

text \<open>Only the fields with a YAML name are written: the configuration part of a subscription.\<close>

definition config_of_manager :: "int list \<Rightarrow> int list \<Rightarrow> manager \<Rightarrow> config" where
  "config_of_manager ks ds m =
     \<lparr>cf_Subscriptions = map subscription_config.truncate (Subscriptions ks m),
      cf_Dispatchers = filter (\<lambda>d. dc_Type d \<noteq> ''cloud'') (Dispatchers ds m),
      cf_QuietHours = GetQuietHours m\<rparr>"

definition WriteConfig :: "yaml_lib \<Rightarrow> int list \<Rightarrow> int list \<Rightarrow> manager \<Rightarrow> string" where
  "WriteConfig yl ks ds m = yaml_config yl (config_of_manager ks ds m)"

subsection \<open>Loading\<close>

definition createDispatcher :: "web_lib \<Rightarrow> dispatcher_config \<Rightarrow> create_error + dispatcher" where
  "createDispatcher web c =
     (if dc_Type c = ''webhook'' then
        (case NewWebhookDispatcher web (dc_Name c) (dc_URL c) (dc_Template c) (dc_Headers c) of
           Inl e \<Rightarrow> Inl (Rejected e) | Inr w \<Rightarrow> Inr (WebhookDispatcher w))
      else if dc_Type c = ''ntfy'' then
        (case NewNtfyDispatcher web (dc_Name c) (dc_URL c) (dc_Topic c) (dc_Priority c) (dc_Token c)
                (dc_TitleTemplate c) (dc_MessageTemplate c) of
           Inl e \<Rightarrow> Inl (Rejected e) | Inr d \<Rightarrow> Inr (NtfyDispatcher d))
      else Inl (UnknownDispatcherType (dc_Type c)))"

definition or_new :: "('a \<rightharpoonup> 'b) option \<Rightarrow> ('a \<rightharpoonup> 'b) option" where
  "or_new x = Some (case x of None \<Rightarrow> Map.empty | Some f \<Rightarrow> f)"

definition init_maps :: "subscription \<Rightarrow> subscription" where
  "init_maps s = s\<lparr>
     MetricCooldowns := or_new (MetricCooldowns s), MetricSampleBuffers := or_new (MetricSampleBuffers s),
     EventCooldowns := or_new (EventCooldowns s), LogCooldowns := or_new (LogCooldowns s),
     BurstTrackers := or_new (BurstTrackers s), UniqueTrackers := or_new (UniqueTrackers s),
     WatchdogTimers := or_new (WatchdogTimers s), WatchdogCooldowns := or_new (WatchdogCooldowns s),
     RestartLoopTimers := or_new (RestartLoopTimers s),
     RestartLoopCooldowns := or_new (RestartLoopCooldowns s),
     RestartLoopFirstSeenAt := or_new (RestartLoopFirstSeenAt s),
     RestartLoopRestartStreaks := or_new (RestartLoopRestartStreaks s)\<rparr>"

definition loadSubscription :: "env_lib \<Rightarrow> subscription \<Rightarrow> manager \<Rightarrow> compile_error + manager" where
  "loadSubscription lib sub m =
     (case CompileExpressions (compilers lib) (NormalizeDeliverySchedule sub) of
        (Some e, _) \<Rightarrow> Inl e
      | (None, s) \<Rightarrow> Inr (m\<lparr>m_subscriptions := (m_subscriptions m)(sub_ID s \<mapsto> init_maps s)\<rparr>))"

text \<open>What a replaced subscription hands on to its successor.\<close>

definition carry_stats :: "subscription \<Rightarrow> subscription \<Rightarrow> subscription" where
  "carry_stats old s = s\<lparr>
     TriggerCount := TriggerCount old, LastTriggeredAt := LastTriggeredAt old,
     TriggeredContainerIDs := Some (case TriggeredContainerIDs old of None \<Rightarrow> {} | Some ids \<Rightarrow> ids),
     MetricCooldowns := or_new (MetricCooldowns old), EventCooldowns := or_new (EventCooldowns old)\<rparr>"

text \<open>
  The loop over the incoming subscriptions.  \<open>existing\<close> is the snapshot taken before; stopping the old
  object is visible in the map until its successor is stored.  The first error ends the loop and
  leaves what was loaded so far.
\<close>

fun replace_subs ::
    "env_lib \<Rightarrow> (int \<rightharpoonup> subscription) \<Rightarrow> int list \<Rightarrow> subscription_config list \<Rightarrow> manager
       \<Rightarrow> config_error option \<times> manager" where
  "replace_subs lib existing seen [] m = (None, m)"
| "replace_subs lib existing seen (c # cs) m =
     (let s = (case existing (sub_ID c) of
                 None \<Rightarrow> new_subscription c | Some old \<Rightarrow> carry_stats old (new_subscription c));
          m1 = (case existing (sub_ID c) of
                  None \<Rightarrow> m
                | Some old \<Rightarrow>
                    if sub_ID c \<in> set seen then m
                    else m\<lparr>m_subscriptions := (m_subscriptions m)(sub_ID c \<mapsto> StopRuntime old)\<rparr>)
      in case loadSubscription lib s m1 of
           Inl e \<Rightarrow> (Some (LoadFailed (sub_Name c) e), m1)
         | Inr m2 \<Rightarrow> replace_subs lib existing (sub_ID c # seen) cs m2)"

definition load_dispatcher :: "web_lib \<Rightarrow> dispatcher_config \<Rightarrow> manager \<Rightarrow> manager" where
  "load_dispatcher web c m =
     (if dc_Type c = ''cloud'' then m
      else case createDispatcher web c of
             Inl _ \<Rightarrow> m
           | Inr d \<Rightarrow> (let (r, m1) = alloc d m in m1\<lparr>m_dispatchers := (m_dispatchers m)(dc_ID c \<mapsto> r)\<rparr>))"

definition HandleNotificationConfig ::
    "env_lib \<Rightarrow> web_lib \<Rightarrow> int list \<Rightarrow> subscription_config list \<Rightarrow> dispatcher_config list \<Rightarrow> manager
       \<Rightarrow> config_error option \<times> manager" where
  "HandleNotificationConfig lib web ks subs dispatchers m =
     (let existing = m_subscriptions m;
          m1 = m\<lparr>m_subscriptions := (\<lambda>i. if i \<in> sub_ID ` set subs then existing i else None),
                 m_dispatchers := Map.empty,
                 m_subscriptionCounter := wrap32 (foldl max 0 (map sub_ID subs)),
                 m_dispatcherCounter := wrap32 (foldl max 0 (map dc_ID dispatchers))\<rparr>
      in case replace_subs lib existing [] subs m1 of
           (Some e, m2) \<Rightarrow> (Some e, m2)
         | (None, m2) \<Rightarrow> (None, updateListeners ks (fold (load_dispatcher web) dispatchers m2)))"

definition LoadConfig ::
    "env_lib \<Rightarrow> web_lib \<Rightarrow> yaml_lib \<Rightarrow> int list \<Rightarrow> string \<Rightarrow> manager \<Rightarrow> config_error option \<times> manager" where
  "LoadConfig lib web yl ks text m =
     (case parse_config yl text of
        None \<Rightarrow> (Some DecodeFailed, m)
      | Some cfg \<Rightarrow>
          HandleNotificationConfig lib web ks (cf_Subscriptions cfg)
            (map (\<lambda>d. d\<lparr>dc_Prefix := []\<rparr>) (cf_Dispatchers cfg)) (SetQuietHours (cf_QuietHours cfg) m))"

subsection \<open>Cloud configuration and files\<close>

definition StreamLogsEnabled :: "cloud_config option \<Rightarrow> bool" where
  "StreamLogsEnabled c =
     (case c of None \<Rightarrow> True | Some cc \<Rightarrow> (case cc_StreamLogs cc of None \<Rightarrow> True | Some b \<Rightarrow> b))"

definition WriteCloudConfig :: "yaml_lib \<Rightarrow> cloud_config \<Rightarrow> string" where
  "WriteCloudConfig yl cc = yaml_cloud yl cc"

definition LoadCloudConfig :: "yaml_lib \<Rightarrow> string \<Rightarrow> cloud_config option" where
  "LoadCloudConfig yl text = parse_cloud yl text"

text \<open>
  File operations: opening, creating with the parent directories, writing and removing.  A failed write
  leaves what \<open>torn\<close> says of the text.
\<close>

record disk =
  can_open :: "string \<Rightarrow> bool"
  can_create :: "string \<Rightarrow> bool"
  can_write :: "string \<Rightarrow> bool"
  can_remove :: "string \<Rightarrow> bool"
  torn :: "string \<Rightarrow> string"

type_synonym files = "string \<rightharpoonup> string"

definition read_file :: "disk \<Rightarrow> string \<Rightarrow> files \<Rightarrow> string option" where
  "read_file dk p fs = (if can_open dk p then fs p else None)"

definition save_file :: "disk \<Rightarrow> string \<Rightarrow> string \<Rightarrow> files \<Rightarrow> files" where
  "save_file dk p text fs =
     (if \<not> can_create dk p then fs
      else if can_write dk p then fs(p \<mapsto> text) else fs(p \<mapsto> torn dk text))"

record persister =
  p_Manager :: manager
  p_NotificationPath :: string
  p_CloudPath :: string
  p_cloudConfig :: "cloud_config option"

text \<open>\<open>env\<close> is the value of the environment variable read by \<open>NewCloudDispatcher\<close>.\<close>

definition applyCloudDispatcher :: "string \<Rightarrow> cloud_config option \<Rightarrow> manager \<Rightarrow> manager" where
  "applyCloudDispatcher env c m =
     (case c of
        None \<Rightarrow> m
      | Some cc \<Rightarrow>
          (case NewCloudDispatcher env ''Dozzle Cloud'' (cc_APIKey cc) (cc_Prefix cc) (cc_ExpiresAt cc) of
             Inl _ \<Rightarrow> m
           | Inr d \<Rightarrow> SetCloudDispatcher (CloudDispatcher d) m))"

definition persister_Load ::
    "env_lib \<Rightarrow> web_lib \<Rightarrow> yaml_lib \<Rightarrow> disk \<Rightarrow> string \<Rightarrow> int list \<Rightarrow> files \<Rightarrow> persister \<Rightarrow> persister" where
  "persister_Load lib web yl dk env ks fs p =
     (let p1 = (case read_file dk (p_NotificationPath p) fs of
                  None \<Rightarrow> p
                | Some text \<Rightarrow> p\<lparr>p_Manager := snd (LoadConfig lib web yl ks text (p_Manager p))\<rparr>)
      in case read_file dk (p_CloudPath p) fs of
           None \<Rightarrow> p1
         | Some text \<Rightarrow>
             (case LoadCloudConfig yl text of
                None \<Rightarrow> p1
              | Some cc \<Rightarrow> p1\<lparr>p_cloudConfig := Some cc,
                             p_Manager := applyCloudDispatcher env (Some cc) (p_Manager p1)\<rparr>))"

definition SaveNotifications ::
    "yaml_lib \<Rightarrow> disk \<Rightarrow> int list \<Rightarrow> int list \<Rightarrow> persister \<Rightarrow> files \<Rightarrow> files" where
  "SaveNotifications yl dk ks ds p fs =
     save_file dk (p_NotificationPath p) (WriteConfig yl ks ds (p_Manager p)) fs"

definition SaveCloud :: "yaml_lib \<Rightarrow> disk \<Rightarrow> persister \<Rightarrow> files \<Rightarrow> files" where
  "SaveCloud yl dk p fs =
     (case p_cloudConfig p of
        None \<Rightarrow> fs
      | Some cc \<Rightarrow> save_file dk (p_CloudPath p) (WriteCloudConfig yl cc) fs)"

definition SetCloudConfig ::
    "yaml_lib \<Rightarrow> disk \<Rightarrow> string \<Rightarrow> cloud_config option \<Rightarrow> persister \<times> files \<Rightarrow> persister \<times> files" where
  "SetCloudConfig yl dk env cc st =
     (let p = (fst st)\<lparr>p_cloudConfig := cc, p_Manager := applyCloudDispatcher env cc (p_Manager (fst st))\<rparr>
      in (p, SaveCloud yl dk p (snd st)))"

definition SetCloudStreamLogs :: "yaml_lib \<Rightarrow> disk \<Rightarrow> bool \<Rightarrow> persister \<times> files \<Rightarrow> persister \<times> files" where
  "SetCloudStreamLogs yl dk b st =
     (case p_cloudConfig (fst st) of
        None \<Rightarrow> st
      | Some cc \<Rightarrow>
          (let p = (fst st)\<lparr>p_cloudConfig := Some (cc\<lparr>cc_StreamLogs := Some b\<rparr>)\<rparr>
           in (p, SaveCloud yl dk p (snd st))))"

definition RemoveCloudConfig :: "disk \<Rightarrow> persister \<times> files \<Rightarrow> persister \<times> files" where
  "RemoveCloudConfig dk st =
     (let p = (fst st)\<lparr>p_cloudConfig := None, p_Manager := ClearCloudDispatcher (p_Manager (fst st))\<rparr>
      in (p, if can_remove dk (p_CloudPath p) then (snd st)(p_CloudPath p := None) else snd st))"

subsection \<open>Replacing the subscriptions\<close>

text \<open>Compilation reads only the configuration and the programs, so it commutes with carrying over stats.\<close>

lemma carry_fields [simp]:
  "subscription_config.truncate (carry_stats old s) = subscription_config.truncate s"
  "ContainerExpression (carry_stats old s) = ContainerExpression s" "LogExpression (carry_stats old s) = LogExpression s"
  "MetricExpression (carry_stats old s) = MetricExpression s" "EventExpression (carry_stats old s) = EventExpression s"
  "WatchdogPattern (carry_stats old s) = WatchdogPattern s" "UniqueKeyRegex (carry_stats old s) = UniqueKeyRegex s"
  "sub_ID (carry_stats old s) = sub_ID s" "DeliveryDays (carry_stats old s) = DeliveryDays s"
  "WatchdogProgram (carry_stats old s) = WatchdogProgram s"
  "WatchdogEventProgram (carry_stats old s) = WatchdogEventProgram s"
  by (simp_all add: carry_stats_def subscription_config.defs)

lemma carry_updates [simp]:
  "(carry_stats old s)\<lparr>ContainerProgram := c\<rparr> = carry_stats old (s\<lparr>ContainerProgram := c\<rparr>)"
  "(carry_stats old s)\<lparr>LogProgram := l\<rparr> = carry_stats old (s\<lparr>LogProgram := l\<rparr>)"
  "(carry_stats old s)\<lparr>MetricProgram := mp\<rparr> = carry_stats old (s\<lparr>MetricProgram := mp\<rparr>)"
  "(carry_stats old s)\<lparr>EventProgram := e\<rparr> = carry_stats old (s\<lparr>EventProgram := e\<rparr>)"
  "(carry_stats old s)\<lparr>WatchdogProgram := l\<rparr> = carry_stats old (s\<lparr>WatchdogProgram := l\<rparr>)"
  "(carry_stats old s)\<lparr>WatchdogEventProgram := e\<rparr> = carry_stats old (s\<lparr>WatchdogEventProgram := e\<rparr>)"
  "(carry_stats old s)\<lparr>UniqueRegex := r\<rparr> = carry_stats old (s\<lparr>UniqueRegex := r\<rparr>)"
  "(carry_stats old s)\<lparr>DeliveryDays := ds\<rparr> = carry_stats old (s\<lparr>DeliveryDays := ds\<rparr>)"
  by (simp_all add: carry_stats_def)

lemma blocks_carry:
  "compile_container_block lib (carry_stats old s) = apsnd (carry_stats old) (compile_container_block lib s)"
  "compile_log_block lib (carry_stats old s) = apsnd (carry_stats old) (compile_log_block lib s)"
  "compile_metric_block lib (carry_stats old s) = apsnd (carry_stats old) (compile_metric_block lib s)"
  "compile_event_block lib (carry_stats old s) = apsnd (carry_stats old) (compile_event_block lib s)"
  "compile_regex_block lib (carry_stats old s) = apsnd (carry_stats old) (compile_regex_block lib s)"
  by (simp_all add: compile_container_block_def compile_log_block_def compile_metric_block_def
      compile_event_block_def compile_regex_block_def split: option.split)

lemma watchdog_carry:
  "compile_watchdog_block lib (carry_stats old s) = apsnd (carry_stats old) (compile_watchdog_block lib s)"
proof -
  have "compile_watchdog lib (carry_stats old s) = apsnd (carry_stats old) (compile_watchdog lib s)"
    by (cases "compile_log lib (WatchdogPattern s)"; cases "compile_event lib (WatchdogPattern s)")
      (simp_all add: compile_watchdog_def Let_def)
  then show ?thesis by (simp add: compile_watchdog_block_def)
qed

lemma and_then_apsnd:
  assumes "\<And>s. f (g s) = apsnd g (f s)"
  shows "and_then (apsnd g r) f = apsnd g (and_then r f)"
  using assms by (cases r) (auto simp: and_then_def split: option.split)

lemma compile_carry:
  "CompileExpressions lib (NormalizeDeliverySchedule (carry_stats old s))
     = apsnd (carry_stats old) (CompileExpressions lib (NormalizeDeliverySchedule s))"
  unfolding CompileExpressions_def NormalizeDeliverySchedule_def
  by (simp add: blocks_carry watchdog_carry and_then_apsnd)

text \<open>Compilation changes the programs only.\<close>

lemma compile_blocks_config:
  "subscription_config.truncate (snd (compile_container_block lib s)) = subscription_config.truncate s"
  "subscription_config.truncate (snd (compile_log_block lib s)) = subscription_config.truncate s"
  "subscription_config.truncate (snd (compile_metric_block lib s)) = subscription_config.truncate s"
  "subscription_config.truncate (snd (compile_event_block lib s)) = subscription_config.truncate s"
  "subscription_config.truncate (snd (compile_watchdog_block lib s)) = subscription_config.truncate s"
  "subscription_config.truncate (snd (compile_regex_block lib s)) = subscription_config.truncate s"
  by (simp_all add: compile_container_block_def compile_log_block_def compile_metric_block_def
      compile_event_block_def compile_regex_block_def compile_watchdog_block_def compile_watchdog_def Let_def
      subscription_config.defs split: option.split)

lemma and_then_config:
  assumes "\<And>s. subscription_config.truncate (snd (f s)) = subscription_config.truncate s"
    and "subscription_config.truncate (snd r) = x"
  shows "subscription_config.truncate (snd (and_then r f)) = x"
  using assms by (cases r) (auto simp: and_then_def split: option.split)

lemma compile_config:
  "subscription_config.truncate (snd (CompileExpressions lib s)) = subscription_config.truncate s"
  unfolding CompileExpressions_def
  by (intro and_then_config compile_blocks_config)

definition start_of :: "(int \<rightharpoonup> subscription) \<Rightarrow> subscription_config \<Rightarrow> subscription" where
  "start_of existing c = (case existing (sub_ID c) of
     None \<Rightarrow> new_subscription c | Some old \<Rightarrow> carry_stats old (new_subscription c))"

definition compiles :: "env_lib \<Rightarrow> subscription_config \<Rightarrow> bool" where
  "compiles lib c \<longleftrightarrow> fst (CompileExpressions (compilers lib) (NormalizeDeliverySchedule (new_subscription c))) = None"

definition compiled :: "env_lib \<Rightarrow> subscription_config \<Rightarrow> subscription" where
  "compiled lib c = snd (CompileExpressions (compilers lib) (NormalizeDeliverySchedule (new_subscription c)))"

definition loaded :: "env_lib \<Rightarrow> (int \<rightharpoonup> subscription) \<Rightarrow> subscription_config \<Rightarrow> subscription" where
  "loaded lib existing c = init_maps (case existing (sub_ID c) of
     None \<Rightarrow> compiled lib c | Some old \<Rightarrow> carry_stats old (compiled lib c))"

lemma compiled_config: "subscription_config.truncate (compiled lib c) = c\<lparr>DeliveryDays := normalizeDeliveryDays (DeliveryDays c)\<rparr>"
proof -
  have "subscription_config.truncate (compiled lib c) = subscription_config.truncate (NormalizeDeliverySchedule (new_subscription c))"
    by (simp only: compiled_def compile_config)
  then show ?thesis by (simp add: NormalizeDeliverySchedule_def new_subscription_def subscription_config.defs)
qed

lemma sub_ID_truncate: "sub_ID (subscription_config.truncate s) = sub_ID s"
  by (simp add: subscription_config.defs)

lemma sub_ID_compiled [simp]: "sub_ID (compiled lib c) = sub_ID c"
  using arg_cong [OF compiled_config, of sub_ID] by (simp add: sub_ID_truncate)

lemma load_start:
  "loadSubscription lib (start_of existing c) m =
     (if compiles lib c then Inr (m\<lparr>m_subscriptions := (m_subscriptions m)(sub_ID c \<mapsto> loaded lib existing c)\<rparr>)
      else Inl (the (fst (CompileExpressions (compilers lib) (NormalizeDeliverySchedule (new_subscription c))))))"
  by (cases "CompileExpressions (compilers lib) (NormalizeDeliverySchedule (new_subscription c))"; cases "existing (sub_ID c)")
    (auto simp: loadSubscription_def start_of_def compile_carry compiles_def loaded_def
      simp flip: sub_ID_compiled [of lib c] simp: compiled_def split: option.split)

text \<open>The map after the loop, when everything compiles.\<close>

definition loaded_map :: "env_lib \<Rightarrow> (int \<rightharpoonup> subscription) \<Rightarrow> subscription_config list \<Rightarrow> int \<rightharpoonup> subscription" where
  "loaded_map lib existing cs = map_of (map (\<lambda>c. (sub_ID c, loaded lib existing c)) cs)"

lemma loaded_map_simps [simp]:
  "loaded_map lib existing [] = Map.empty"
  "loaded_map lib existing (c # cs) = (loaded_map lib existing cs)(sub_ID c \<mapsto> loaded lib existing c)"
  by (simp_all add: loaded_map_def)

lemma dom_loaded_map [simp]: "dom (loaded_map lib existing cs) = sub_ID ` set cs"
  by (simp add: loaded_map_def dom_map_of_conv_image_fst image_image)

lemma loaded_map_None: "loaded_map lib existing cs i = None \<longleftrightarrow> i \<notin> sub_ID ` set cs"
  using domIff [of i "loaded_map lib existing cs"] by simp

lemma loaded_map_Some: "distinct (map sub_ID cs) \<Longrightarrow> c \<in> set cs \<Longrightarrow> loaded_map lib existing cs (sub_ID c) = Some (loaded lib existing c)"
  by (auto simp: loaded_map_def map_of_eq_Some_iff comp_def intro: rev_image_eqI)

lemma map_add_upd_other: "k \<notin> dom g \<Longrightarrow> f(k \<mapsto> v) ++ g = (f ++ g)(k \<mapsto> v)"
  by (auto simp: fun_eq_iff map_add_def split: option.split)

lemma replace_subs_step:
  "replace_subs lib existing seen (c # cs) m =
     (let m1 = (if existing (sub_ID c) = None \<or> sub_ID c \<in> set seen then m
                else m\<lparr>m_subscriptions := (m_subscriptions m)(sub_ID c \<mapsto> StopRuntime (the (existing (sub_ID c))))\<rparr>)
      in case loadSubscription lib (start_of existing c) m1 of
           Inl e \<Rightarrow> (Some (LoadFailed (sub_Name c) e), m1)
         | Inr m2 \<Rightarrow> replace_subs lib existing (sub_ID c # seen) cs m2)"
  by (cases "existing (sub_ID c)"; cases "sub_ID c \<in> set seen") (simp_all add: start_of_def Let_def split: sum.split)

lemma replace_subs_append:
  assumes "\<forall>c\<in>set cs. compiles lib c" and "distinct (map sub_ID cs)" and "set seen \<inter> sub_ID ` set cs = {}"
  shows "\<exists>seen'. set seen' = set seen \<union> sub_ID ` set cs \<and> replace_subs lib existing seen (cs @ ds) m
    = replace_subs lib existing seen' ds (m\<lparr>m_subscriptions := m_subscriptions m ++ loaded_map lib existing cs\<rparr>)"
  using assms
proof (induction cs arbitrary: seen m)
  case (Cons c cs)
  let ?m = "m\<lparr>m_subscriptions := (m_subscriptions m)(sub_ID c \<mapsto> loaded lib existing c)\<rparr>"
  have "replace_subs lib existing seen ((c # cs) @ ds) m = replace_subs lib existing (sub_ID c # seen) (cs @ ds) ?m"
    using Cons.prems(1) by (simp add: replace_subs_step load_start Let_def del: replace_subs.simps)
  moreover have "m_subscriptions ?m ++ loaded_map lib existing cs = m_subscriptions m ++ loaded_map lib existing (c # cs)"
    using Cons.prems(2) by (simp add: map_add_upd_other)
  moreover have "\<forall>c\<in>set cs. compiles lib c" "distinct (map sub_ID cs)" "set (sub_ID c # seen) \<inter> sub_ID ` set cs = {}"
    using Cons.prems by auto
  from Cons.IH [OF this, of ?m] obtain seen' where "set seen' = set (sub_ID c # seen) \<union> sub_ID ` set cs"
    "replace_subs lib existing (sub_ID c # seen) (cs @ ds) ?m
       = replace_subs lib existing seen' ds (?m\<lparr>m_subscriptions := m_subscriptions ?m ++ loaded_map lib existing cs\<rparr>)"
    by blast
  ultimately have "replace_subs lib existing seen ((c # cs) @ ds) m
      = replace_subs lib existing seen' ds (m\<lparr>m_subscriptions := m_subscriptions m ++ loaded_map lib existing (c # cs)\<rparr>)"
    "set seen' = set seen \<union> sub_ID ` set (c # cs)"
    by (simp_all del: replace_subs.simps)
  then show ?case by blast
qed (auto intro: exI [of _ seen])

lemma replace_subs_ok:
  assumes "\<forall>c\<in>set cs. compiles lib c" and "distinct (map sub_ID cs)"
  shows "replace_subs lib existing [] cs m = (None, m\<lparr>m_subscriptions := m_subscriptions m ++ loaded_map lib existing cs\<rparr>)"
  using replace_subs_append [OF assms, of "[]" existing "[]" m] by auto

lemma replace_subs_fails:
  assumes "\<forall>c\<in>set pre. compiles lib c" and "\<not> compiles lib c" and "distinct (map sub_ID (pre @ c # post))"
  shows "\<exists>e m'. replace_subs lib existing [] (pre @ c # post) m = (Some (LoadFailed (sub_Name c) e), m')
    \<and> m' = m\<lparr>m_subscriptions := (case existing (sub_ID c) of
          None \<Rightarrow> m_subscriptions m ++ loaded_map lib existing pre
        | Some old \<Rightarrow> (m_subscriptions m ++ loaded_map lib existing pre)(sub_ID c \<mapsto> StopRuntime old))\<rparr>"
proof -
  obtain seen' where seen: "set seen' = sub_ID ` set pre"
    and eq: "replace_subs lib existing [] (pre @ c # post) m
      = replace_subs lib existing seen' (c # post) (m\<lparr>m_subscriptions := m_subscriptions m ++ loaded_map lib existing pre\<rparr>)"
    using replace_subs_append [OF assms(1), of "[]" existing "c # post" m] assms(3) by auto
  have "sub_ID c \<notin> set seen'" using seen assms(3) by auto
  then show ?thesis using assms(2)
    by (cases "existing (sub_ID c)") (simp_all add: eq replace_subs_step load_start Let_def del: replace_subs.simps)
qed

lemma first_failure:
  assumes "\<not> (\<forall>c\<in>set cs. compiles lib c)"
  obtains pre c post where "cs = pre @ c # post" "\<forall>c\<in>set pre. compiles lib c" "\<not> compiles lib c"
  using split_list_first_prop [of cs "\<lambda>c. \<not> compiles lib c"] assms by blast

lemma dispatchers_keep_subs:
  "m_subscriptions (fold (load_dispatcher web) ds m) = m_subscriptions m"
  "m_quietHours (fold (load_dispatcher web) ds m) = m_quietHours m"
  by (induction ds arbitrary: m) (auto simp: load_dispatcher_def alloc_def Let_def split: sum.split)

lemma listeners_keep:
  "m_subscriptions (updateListeners ks m) = m_subscriptions m" "m_dispatchers (updateListeners ks m) = m_dispatchers m"
  "m_heap (updateListeners ks m) = m_heap m" "m_quietHours (updateListeners ks m) = m_quietHours m"
  by (simp_all add: updateListeners_def Let_def)

text \<open>The state the loop starts from.\<close>

definition cleared :: "subscription_config list \<Rightarrow> dispatcher_config list \<Rightarrow> manager \<Rightarrow> manager" where
  "cleared subs ds m = m\<lparr>m_subscriptions := (\<lambda>i. if i \<in> sub_ID ` set subs then m_subscriptions m i else None),
     m_dispatchers := Map.empty, m_subscriptionCounter := wrap32 (foldl max 0 (map sub_ID subs)),
     m_dispatcherCounter := wrap32 (foldl max 0 (map dc_ID ds))\<rparr>"

lemma Handle_ok:
  assumes "\<forall>c\<in>set subs. compiles lib c" and "distinct (map sub_ID subs)"
  shows "HandleNotificationConfig lib web ks subs ds m = (None, updateListeners ks (fold (load_dispatcher web) ds
    ((cleared subs ds m)\<lparr>m_subscriptions := loaded_map lib (m_subscriptions m) subs\<rparr>)))"
proof -
  have "m_subscriptions (cleared subs ds m) ++ loaded_map lib (m_subscriptions m) subs = loaded_map lib (m_subscriptions m) subs"
  proof
    fix i
    show "(m_subscriptions (cleared subs ds m) ++ loaded_map lib (m_subscriptions m) subs) i = loaded_map lib (m_subscriptions m) subs i"
      by (cases "i \<in> sub_ID ` set subs")
        (auto simp: cleared_def map_add_dom_app_simps loaded_map_None [THEN iffD2] map_add_def split: option.split
          dest: loaded_map_None [THEN iffD1])
  qed
  then show ?thesis
    using replace_subs_ok [OF assms, of "m_subscriptions m" "cleared subs ds m"]
    by (simp add: HandleNotificationConfig_def cleared_def Let_def)
qed

lemma Handle_fails:
  assumes "\<forall>c\<in>set pre. compiles lib c" and "\<not> compiles lib c" and "distinct (map sub_ID (pre @ c # post))"
  shows "\<exists>e m'. HandleNotificationConfig lib web ks (pre @ c # post) ds m = (Some (LoadFailed (sub_Name c) e), m')
    \<and> m' = (cleared (pre @ c # post) ds m)\<lparr>m_subscriptions := (\<lambda>i.
        if i \<in> sub_ID ` set pre then loaded_map lib (m_subscriptions m) pre i
        else if i = sub_ID c then map_option StopRuntime (m_subscriptions m i)
        else if i \<in> sub_ID ` set post then m_subscriptions m i else None)\<rparr>"
proof -
  let ?cs = "pre @ c # post"
  obtain e m' where r: "replace_subs lib (m_subscriptions m) [] ?cs (cleared ?cs ds m) = (Some (LoadFailed (sub_Name c) e), m')"
    and m': "m' = (cleared ?cs ds m)\<lparr>m_subscriptions := (case m_subscriptions m (sub_ID c) of
          None \<Rightarrow> m_subscriptions (cleared ?cs ds m) ++ loaded_map lib (m_subscriptions m) pre
        | Some old \<Rightarrow> (m_subscriptions (cleared ?cs ds m) ++ loaded_map lib (m_subscriptions m) pre)(sub_ID c \<mapsto> StopRuntime old))\<rparr>"
    using replace_subs_fails [OF assms, of "m_subscriptions m" "cleared ?cs ds m"] by blast
  have miss: "(f ++ loaded_map lib (m_subscriptions m) pre) i = f i" if "i \<notin> sub_ID ` set pre" for i f
    using that by (intro map_add_dom_app_simps(3)) simp
  have hit: "(f ++ loaded_map lib (m_subscriptions m) pre) i = loaded_map lib (m_subscriptions m) pre i"
    if "i \<in> sub_ID ` set pre" for i f
    using that by (intro map_add_dom_app_simps(1)) simp
  have "m_subscriptions m' = (\<lambda>i.
        if i \<in> sub_ID ` set pre then loaded_map lib (m_subscriptions m) pre i
        else if i = sub_ID c then map_option StopRuntime (m_subscriptions m i)
        else if i \<in> sub_ID ` set post then m_subscriptions m i else None)"
  proof
    fix i
    show "m_subscriptions m' i =
       (if i \<in> sub_ID ` set pre then loaded_map lib (m_subscriptions m) pre i
        else if i = sub_ID c then map_option StopRuntime (m_subscriptions m i)
        else if i \<in> sub_ID ` set post then m_subscriptions m i else None)"
    proof (cases "i \<in> sub_ID ` set pre")
      case True
      moreover have "sub_ID c \<notin> sub_ID ` set pre" using assms(3) by auto
      ultimately have "i \<noteq> sub_ID c" by blast
      with True show ?thesis by (simp add: m' hit split: option.split)
    next
      case False
      then show ?thesis
        by (cases "i = sub_ID c") (auto simp: m' miss cleared_def image_Un loaded_map_None split: option.split)
    qed
  qed
  then have "m' = (cleared ?cs ds m)\<lparr>m_subscriptions := (\<lambda>i.
        if i \<in> sub_ID ` set pre then loaded_map lib (m_subscriptions m) pre i
        else if i = sub_ID c then map_option StopRuntime (m_subscriptions m i)
        else if i \<in> sub_ID ` set post then m_subscriptions m i else None)\<rparr>"
    unfolding m' by simp
  moreover have "HandleNotificationConfig lib web ks ?cs ds m = (Some (LoadFailed (sub_Name c) e), m')"
    using r by (simp add: HandleNotificationConfig_def cleared_def Let_def)
  ultimately show ?thesis by blast
qed

text \<open>What a loaded subscription looks like.\<close>

lemma init_maps_fields [simp]:
  "subscription_config.truncate (init_maps s) = subscription_config.truncate s"
  "TriggerCount (init_maps s) = TriggerCount s" "LastTriggeredAt (init_maps s) = LastTriggeredAt s"
  "TriggeredContainerIDs (init_maps s) = TriggeredContainerIDs s"
  "MetricCooldowns (init_maps s) = or_new (MetricCooldowns s)" "EventCooldowns (init_maps s) = or_new (EventCooldowns s)"
  "LogCooldowns (init_maps s) = or_new (LogCooldowns s)" "UniqueTrackers (init_maps s) = or_new (UniqueTrackers s)"
  "WatchdogTimers (init_maps s) = or_new (WatchdogTimers s)"
  "WatchdogCooldowns (init_maps s) = or_new (WatchdogCooldowns s)"
  by (simp_all add: init_maps_def subscription_config.defs)

definition run_stats :: "subscription \<Rightarrow> int \<times> gotime option \<times> string set option \<times> (string \<rightharpoonup> gotime) option list" where
  "run_stats s = (TriggerCount s, LastTriggeredAt s, TriggeredContainerIDs s,
     [MetricCooldowns s, EventCooldowns s, LogCooldowns s])"

lemma compile_blocks_runtime:
  "run_stats (snd (compile_container_block lib s)) = run_stats s" "run_stats (snd (compile_log_block lib s)) = run_stats s"
  "run_stats (snd (compile_metric_block lib s)) = run_stats s" "run_stats (snd (compile_event_block lib s)) = run_stats s"
  "run_stats (snd (compile_watchdog_block lib s)) = run_stats s" "run_stats (snd (compile_regex_block lib s)) = run_stats s"
  by (simp_all add: compile_container_block_def compile_log_block_def compile_metric_block_def
      compile_event_block_def compile_regex_block_def compile_watchdog_block_def compile_watchdog_def Let_def
      run_stats_def split: option.split)

lemma and_then_keeps:
  assumes "\<And>s. g (snd (f s)) = g s" and "g (snd r) = x"
  shows "g (snd (and_then r f)) = x"
  using assms by (cases r) (auto simp: and_then_def split: option.split)

lemma compiled_runtime:
  "TriggerCount (compiled lib c) = 0" "LastTriggeredAt (compiled lib c) = None"
  "TriggeredContainerIDs (compiled lib c) = None" "MetricCooldowns (compiled lib c) = None"
  "EventCooldowns (compiled lib c) = None" "LogCooldowns (compiled lib c) = None"
proof -
  have "run_stats (snd (CompileExpressions (compilers lib) s)) = run_stats s" for s
    unfolding CompileExpressions_def by (intro and_then_keeps [where g = run_stats] compile_blocks_runtime)
  then have "run_stats (compiled lib c) = (0, None, None, [None, None, None])"
    by (simp add: compiled_def) (simp add: run_stats_def NormalizeDeliverySchedule_def new_subscription_def subscription_config.defs)
  then show "TriggerCount (compiled lib c) = 0" "LastTriggeredAt (compiled lib c) = None"
    "TriggeredContainerIDs (compiled lib c) = None" "MetricCooldowns (compiled lib c) = None"
    "EventCooldowns (compiled lib c) = None" "LogCooldowns (compiled lib c) = None"
    by (simp_all add: run_stats_def)
qed

definition hands_on :: "subscription option \<Rightarrow> subscription \<Rightarrow> bool" where
  "hands_on old s = (case old of
     None \<Rightarrow> TriggerCount s = 0 \<and> LastTriggeredAt s = None \<and> TriggeredContainersCount s = 0
   | Some o' \<Rightarrow> TriggerCount s = TriggerCount o' \<and> LastTriggeredAt s = LastTriggeredAt o'
       \<and> TriggeredContainersCount s = TriggeredContainersCount o'
       \<and> MetricCooldowns s = or_new (MetricCooldowns o') \<and> EventCooldowns s = or_new (EventCooldowns o'))"

lemma loaded_props:
  "subscription_config.truncate (loaded lib existing c) = c\<lparr>DeliveryDays := normalizeDeliveryDays (DeliveryDays c)\<rparr>"
  "hands_on (existing (sub_ID c)) (loaded lib existing c)"
  "LogCooldowns (loaded lib existing c) = Some Map.empty"
proof -
  have "TriggerCount (carry_stats old s) = TriggerCount old" "LastTriggeredAt (carry_stats old s) = LastTriggeredAt old"
    "TriggeredContainerIDs (carry_stats old s) = Some (case TriggeredContainerIDs old of None \<Rightarrow> {} | Some ids \<Rightarrow> ids)"
    "MetricCooldowns (carry_stats old s) = or_new (MetricCooldowns old)"
    "EventCooldowns (carry_stats old s) = or_new (EventCooldowns old)" "LogCooldowns (carry_stats old s) = LogCooldowns s" for old s
    by (simp_all add: carry_stats_def)
  moreover have "or_new (or_new x) = or_new x" for x :: "('x \<rightharpoonup> 'y) option" by (simp add: or_new_def)
  ultimately show "subscription_config.truncate (loaded lib existing c) = c\<lparr>DeliveryDays := normalizeDeliveryDays (DeliveryDays c)\<rparr>"
    "hands_on (existing (sub_ID c)) (loaded lib existing c)" "LogCooldowns (loaded lib existing c) = Some Map.empty"
    by (cases "existing (sub_ID c)";
        simp add: loaded_def hands_on_def compiled_runtime compiled_config TriggeredContainersCount_def
          or_new_def split: option.split)+
qed

text \<open>C38. A configuration pushed by the main server, when every expression in it compiles, replaces the
subscriptions exactly: those that are not in it are gone, each that is in it has the pushed settings
with a normalised delivery schedule, and one that existed keeps its trigger count, last trigger time,
triggered containers and its metric and event cooldowns.  Its log cooldowns start empty.\<close>

theorem config_replaces_subscriptions:
  assumes "HandleNotificationConfig lib web ks subs ds m = (None, m')" and "distinct (map sub_ID subs)"
  shows "dom (m_subscriptions m') = sub_ID ` set subs
    \<and> (\<forall>c\<in>set subs. \<exists>s. m_subscriptions m' (sub_ID c) = Some s
         \<and> subscription_config.truncate s = c\<lparr>DeliveryDays := normalizeDeliveryDays (DeliveryDays c)\<rparr>
         \<and> hands_on (m_subscriptions m (sub_ID c)) s \<and> LogCooldowns s = Some Map.empty)"
proof -
  have "\<forall>c\<in>set subs. compiles lib c"
  proof (rule ccontr)
    assume "\<not> ?thesis"
    then obtain pre c post where "subs = pre @ c # post" "\<forall>c\<in>set pre. compiles lib c" "\<not> compiles lib c"
      by (rule first_failure)
    then show False using Handle_fails [of pre lib c post web ks ds m] assms by auto
  qed
  from Handle_ok [OF this assms(2), of web ks ds m] assms(1)
  have "m_subscriptions m' = loaded_map lib (m_subscriptions m) subs"
    by (auto simp: dispatchers_keep_subs listeners_keep)
  then show ?thesis using loaded_map_Some [OF assms(2)] loaded_props by force
qed

text \<open>When one subscription of a pushed configuration does not compile, the call reports an error but has
already changed the state: all dispatchers and the subscriptions that are not in the configuration are
gone, the subscriptions before the faulty one are replaced, the faulty one has lost its watchdog timers and
those after it are the old ones.\<close>

theorem config_error_is_not_atomic:
  assumes "subs = pre @ c # post" and "distinct (map sub_ID subs)"
    and "list_all (compiles lib) pre" and "\<not> compiles lib c"
    and "HandleNotificationConfig lib web ks subs ds m = (err, m')"
  shows "(\<exists>e. err = Some (LoadFailed (sub_Name c) e)) \<and> m_dispatchers m' = Map.empty
    \<and> dom (m_subscriptions m') \<subseteq> sub_ID ` set subs
    \<and> (\<forall>c'\<in>set pre. m_subscriptions m' (sub_ID c') = Some (loaded lib (m_subscriptions m) c'))
    \<and> m_subscriptions m' (sub_ID c) = map_option StopRuntime (m_subscriptions m (sub_ID c))
    \<and> (\<forall>c'\<in>set post. m_subscriptions m' (sub_ID c') = m_subscriptions m (sub_ID c'))"
proof -
  obtain e where e: "err = Some (LoadFailed (sub_Name c) e)"
    and m': "m' = (cleared subs ds m)\<lparr>m_subscriptions := (\<lambda>i.
        if i \<in> sub_ID ` set pre then loaded_map lib (m_subscriptions m) pre i
        else if i = sub_ID c then map_option StopRuntime (m_subscriptions m i)
        else if i \<in> sub_ID ` set post then m_subscriptions m i else None)\<rparr>"
    using Handle_fails [of pre lib c post web ks ds m] assms by (auto simp: list_all_iff)
  have "sub_ID c \<notin> sub_ID ` set pre" "sub_ID ` set pre \<inter> sub_ID ` set post = {}" "distinct (map sub_ID pre)"
    "sub_ID c \<notin> sub_ID ` set post"
    using assms(1,2) by auto
  moreover from this have "sub_ID c' \<noteq> sub_ID c" if "c' \<in> set post" for c' using that by (metis image_eqI)
  ultimately show ?thesis
    using e loaded_map_Some [of pre _ lib "m_subscriptions m"]
    by (auto simp: m' cleared_def assms(1) split: if_splits)
qed

subsection \<open>Saving and reloading\<close>

text \<open>Two subscriptions with the same settings and the same compiled programs.\<close>

definition same_settings :: "subscription \<Rightarrow> subscription \<Rightarrow> bool" where
  "same_settings s t \<longleftrightarrow> subscription_config.truncate s = subscription_config.truncate t
     \<and> ContainerProgram s = ContainerProgram t \<and> LogProgram s = LogProgram t \<and> MetricProgram s = MetricProgram t
     \<and> EventProgram s = EventProgram t \<and> WatchdogProgram s = WatchdogProgram t
     \<and> WatchdogEventProgram s = WatchdogEventProgram t \<and> UniqueRegex s = UniqueRegex t"

text \<open>A subscription whose programs are those its own settings compile to.\<close>

definition well_compiled :: "env_lib \<Rightarrow> subscription \<Rightarrow> bool" where
  "well_compiled lib s \<longleftrightarrow> compiles lib (subscription_config.truncate s)
     \<and> same_settings (compiled lib (subscription_config.truncate s)) s"

lemma normalize_new: "NormalizeDeliverySchedule (new_subscription (c\<lparr>DeliveryDays := normalizeDeliveryDays (DeliveryDays c)\<rparr>))
    = NormalizeDeliverySchedule (new_subscription c)"
proof -
  have "new_subscription (c\<lparr>DeliveryDays := ds\<rparr>) = (new_subscription c)\<lparr>DeliveryDays := ds\<rparr>" for ds
    by (simp add: new_subscription_def subscription_config.defs)
  moreover have "DeliveryDays (new_subscription c) = DeliveryDays c" by (simp add: new_subscription_def subscription_config.defs)
  ultimately show ?thesis by (simp add: NormalizeDeliverySchedule_def normalizeDeliveryDays_idem)
qed

lemma programs_kept:
  "same_settings (init_maps s) t \<longleftrightarrow> same_settings s t" "same_settings (carry_stats old s) t \<longleftrightarrow> same_settings s t"
  by (simp_all add: same_settings_def) (simp_all add: init_maps_def carry_stats_def)

text \<open>Loading establishes it.\<close>

lemma loaded_well_compiled:
  assumes "compiles lib c"
  shows "well_compiled lib (loaded lib existing c)"
proof -
  let ?c = "c\<lparr>DeliveryDays := normalizeDeliveryDays (DeliveryDays c)\<rparr>"
  have "compiles lib ?c" "compiled lib ?c = compiled lib c"
    using assms by (simp_all add: compiles_def compiled_def normalize_new)
  moreover have "same_settings (loaded lib existing c) (compiled lib c)"
    by (cases "existing (sub_ID c)") (simp_all add: loaded_def programs_kept, simp_all add: same_settings_def)
  ultimately show ?thesis by (simp add: well_compiled_def loaded_props(1)) (simp add: same_settings_def)
qed

lemma TrimRight_idem: "TrimRight c (TrimRight c s) = TrimRight c s"
  by (simp add: TrimRight_def dropWhile_idem)

text \<open>A dispatcher that the constructor returned is rebuilt from its own configuration.\<close>

lemma createDispatcher_config:
  assumes "createDispatcher web cfg = Inr d" and "\<forall>u. url_scheme web (TrimRight (CHR ''/'') u) = url_scheme web u"
  shows "\<exists>c. config_of i d = Some c \<and> dc_ID c = i \<and> dc_Type c \<noteq> ''cloud'' \<and> createDispatcher web (c\<lparr>dc_Prefix := []\<rparr>) = Inr d"
proof (cases "dc_Type cfg = ''webhook''")
  case True
  then obtain w where w: "d = WebhookDispatcher w"
    "NewWebhookDispatcher web (dc_Name cfg) (dc_URL cfg) (dc_Template cfg) (dc_Headers cfg) = Inr w"
    using assms(1) by (auto simp: createDispatcher_def split: sum.splits)
  then have "NewWebhookDispatcher web (wh_Name w) (wh_URL w) (wh_TemplateText w) (wh_Headers w) = Inr w"
    by (auto simp: NewWebhookDispatcher_def Let_def split: option.splits if_splits)
  then show ?thesis using w by (simp add: config_of_def createDispatcher_def zero_DispatcherConfig_def)
next
  case False
  then obtain n where n: "dc_Type cfg = ''ntfy''" "d = NtfyDispatcher n"
    "NewNtfyDispatcher web (dc_Name cfg) (dc_URL cfg) (dc_Topic cfg) (dc_Priority cfg) (dc_Token cfg)
       (dc_TitleTemplate cfg) (dc_MessageTemplate cfg) = Inr n"
    using assms(1) by (auto simp: createDispatcher_def split: sum.splits if_splits)
  then have "NewNtfyDispatcher web (nt_Name n) (nt_ServerURL n) (nt_DefaultTopic n) (nt_DefaultPriority n) (nt_Token n)
       (nt_TitleTemplate n) (nt_MessageTemplate n) = Inr n"
    using assms(2) by (auto simp: NewNtfyDispatcher_def TrimRight_idem Let_def split: option.splits if_splits sum.splits)
  then show ?thesis using n by (simp add: config_of_def createDispatcher_def zero_DispatcherConfig_def)
qed

lemma load_dispatcher_other:
  "i \<notin> dc_ID ` set cs \<Longrightarrow> m_dispatchers (fold (load_dispatcher web) cs m) i = m_dispatchers m i"
  by (induction cs arbitrary: m) (auto simp: load_dispatcher_def alloc_def Let_def split: sum.split)

lemma load_dispatcher_heap:
  "r < length (m_heap m) \<Longrightarrow> m_heap (fold (load_dispatcher web) cs m) ! r = m_heap m ! r"
proof (induction cs arbitrary: m)
  case (Cons c cs)
  have "length (m_heap m) \<le> length (m_heap (load_dispatcher web c m))"
    "m_heap (load_dispatcher web c m) ! r = m_heap m ! r"
    using Cons.prems by (auto simp: load_dispatcher_def alloc_def Let_def nth_append split: sum.split)
  then show ?case using Cons by simp
qed simp

lemma load_dispatcher_hit:
  assumes "distinct (map dc_ID cs)" and "c \<in> set cs" and "createDispatcher web c = Inr d" and "dc_Type c \<noteq> ''cloud''"
  shows "\<exists>r. m_dispatchers (fold (load_dispatcher web) cs m) (dc_ID c) = Some r \<and> m_heap (fold (load_dispatcher web) cs m) ! r = d"
  using assms
proof (induction cs arbitrary: m)
  case (Cons a cs)
  show ?case
  proof (cases "c = a")
    case True
    let ?m = "load_dispatcher web a m"
    have "m_dispatchers ?m (dc_ID c) = Some (length (m_heap m))" "m_heap ?m = m_heap m @ [d]"
      using Cons.prems True by (auto simp: load_dispatcher_def alloc_def Let_def)
    moreover have "dc_ID c \<notin> dc_ID ` set cs" using Cons.prems True by auto
    ultimately show ?thesis
      using load_dispatcher_other [of "dc_ID c" cs web ?m] load_dispatcher_heap [of "length (m_heap m)" ?m web cs] by simp
  qed (use Cons in auto)
qed simp

lemma map_filter_dom: "set ks \<subseteq> dom f \<Longrightarrow> List.map_filter f ks = map (\<lambda>k. the (f k)) ks"
  by (induction ks) (auto simp: List.map_filter_simps split: option.split)

lemma distinct_sort_key:
  assumes "distinct ks" and "\<And>k. k \<in> set ks \<Longrightarrow> g (h k) = k"
  shows "distinct (map g (sort_key g (map h ks)))"
proof -
  have "map g (map h ks) = ks" using assms(2) by (simp add: map_idI)
  moreover have "mset (map g (sort_key g xs)) = mset (map g xs)" for xs by simp
  ultimately show ?thesis using assms(1) mset_eq_imp_distinct_iff by metis
qed

lemma saved_subscriptions:
  assumes "enumerates ks (m_subscriptions m)" and "\<forall>i s. m_subscriptions m i = Some s \<longrightarrow> sub_ID s = i"
  shows "distinct (map sub_ID (Subscriptions ks m))" "set (Subscriptions ks m) = ran (m_subscriptions m)"
proof -
  have ids: "sub_ID (the (m_subscriptions m k)) = k" if "k \<in> set ks" for k
    using that assms by (auto simp: enumerates_def)
  have eq: "List.map_filter (m_subscriptions m) ks = map (\<lambda>k. the (m_subscriptions m k)) ks"
    using assms(1) by (intro map_filter_dom) (simp add: enumerates_def)
  show "distinct (map sub_ID (Subscriptions ks m))"
    using assms(1) ids unfolding Subscriptions_def eq by (intro distinct_sort_key) (simp_all add: enumerates_def)
  have "set (Subscriptions ks m) = (\<lambda>k. the (m_subscriptions m k)) ` dom (m_subscriptions m)"
    using assms(1) by (simp add: Subscriptions_def eq enumerates_def)
  then show "set (Subscriptions ks m) = ran (m_subscriptions m)" by (force simp: ran_def)
qed

definition saved_dispatchers :: "int list \<Rightarrow> manager \<Rightarrow> dispatcher_config list" where
  "saved_dispatchers ds m = map (\<lambda>d. d\<lparr>dc_Prefix := []\<rparr>) (filter (\<lambda>d. dc_Type d \<noteq> ''cloud'') (Dispatchers ds m))"

lemma saved_dispatchers_set:
  assumes "enumerates ds (m_dispatchers m)"
    and "\<forall>i r. m_dispatchers m i = Some r \<longrightarrow> (\<exists>c. config_of i (m_heap m ! r) = Some c \<and> dc_ID c = i \<and> dc_Type c \<noteq> ''cloud'')"
  shows "distinct (map dc_ID (saved_dispatchers ds m))"
    "set (saved_dispatchers ds m) = {c\<lparr>dc_Prefix := []\<rparr> | c i r. m_dispatchers m i = Some r \<and> config_of i (m_heap m ! r) = Some c}"
proof -
  let ?f = "\<lambda>i. case m_dispatchers m i of None \<Rightarrow> None | Some r \<Rightarrow> config_of i (m_heap m ! r)"
  have f: "?f i = Some (the (?f i))" "dc_ID (the (?f i)) = i" "dc_Type (the (?f i)) \<noteq> ''cloud''" if "i \<in> set ds" for i
    using that assms by (auto simp: enumerates_def) (metis option.sel)+
  then have dom: "set ds \<subseteq> dom ?f" by blast
  define cloud where "cloud = (case m_cloudDispatcher m of None \<Rightarrow> [] | Some r \<Rightarrow>
      (case m_heap m ! r of CloudDispatcher cd \<Rightarrow> [zero_DispatcherConfig
          \<lparr>dc_ID := 0, dc_Name := cd_Name cd, dc_Type := ''cloud'', dc_Prefix := cd_Prefix cd\<rparr>] | _ \<Rightarrow> []))"
  have "filter (\<lambda>d. dc_Type d \<noteq> ''cloud'') cloud = []"
    by (auto simp: cloud_def split: option.split dispatcher.split)
  moreover have "Dispatchers ds m = sort_key dc_ID (cloud @ List.map_filter ?f ds)"
    by (simp add: Dispatchers_def cloud_def Let_def)
  ultimately have saved: "filter (\<lambda>d. dc_Type d \<noteq> ''cloud'') (Dispatchers ds m) = sort_key dc_ID (map (\<lambda>i. the (?f i)) ds)"
    using f(3) by (simp add: filter_sort map_filter_dom [OF dom] filter_map comp_def)
  have "distinct (map dc_ID (sort_key dc_ID (map (\<lambda>i. the (?f i)) ds)))"
    using assms(1) f(2) by (intro distinct_sort_key) (simp_all add: enumerates_def)
  then show "distinct (map dc_ID (saved_dispatchers ds m))"
    by (simp add: saved_dispatchers_def saved comp_def)
  have "set (saved_dispatchers ds m) = (\<lambda>i. (the (?f i))\<lparr>dc_Prefix := []\<rparr>) ` dom (m_dispatchers m)"
    using assms(1) by (auto simp: saved_dispatchers_def saved enumerates_def)
  also have "\<dots> = {c\<lparr>dc_Prefix := []\<rparr> | c i r. m_dispatchers m i = Some r \<and> config_of i (m_heap m ! r) = Some c}"
    (is "_ = ?R")
  proof (intro equalityI subsetI)
    fix x assume "x \<in> (\<lambda>i. (the (?f i))\<lparr>dc_Prefix := []\<rparr>) ` dom (m_dispatchers m)"
    then obtain i r where "m_dispatchers m i = Some r" "x = (the (config_of i (m_heap m ! r)))\<lparr>dc_Prefix := []\<rparr>" by auto
    with assms(2) show "x \<in> ?R" by force
  qed force
  finally show "set (saved_dispatchers ds m) = ?R" .
qed

text \<open>A subscription that a process had and the one a fresh process loads: the same settings, with the names of the delivery days in their normal
form, and the programs that these settings compile to.  The programs in memory before may have been others: an update of the watchdog
pattern alone compiles it both for log lines and for events, loading only for the kind the subscription has.\<close>

definition reloaded :: "env_lib \<Rightarrow> subscription \<Rightarrow> subscription \<Rightarrow> bool" where
  "reloaded lib s' s \<longleftrightarrow> subscription_config.truncate s' = (subscription_config.truncate s)\<lparr>DeliveryDays := normalizeDeliveryDays (DeliveryDays s)\<rparr>
     \<and> same_settings s' (compiled lib (subscription_config.truncate s))"

text \<open>C40. When the expressions of every subscription compile, saving the notification settings and loading the file in a fresh process restores them: the same
subscriptions with the same settings (delivery days in normal form) and the programs these settings compile to, the same webhook and ntfy
dispatchers under the same ids, and the same quiet hours.\<close>

theorem saved_config_reloads:
  assumes "enumerates ks (m_subscriptions m)" and "enumerates ds (m_dispatchers m)"
    and "\<forall>i s. m_subscriptions m i = Some s \<longrightarrow> sub_ID s = i \<and> compiles lib (subscription_config.truncate s)"
    and "\<forall>i r. m_dispatchers m i = Some r \<longrightarrow> (\<exists>cfg. createDispatcher web cfg = Inr (m_heap m ! r))"
    and "\<forall>u. url_scheme web (TrimRight (CHR ''/'') u) = url_scheme web u"
    and "parse_config yl (WriteConfig yl ks ds m) = Some (config_of_manager ks ds m)"
    and "m_subscriptions m0 = Map.empty"
    and "LoadConfig lib web yl ks' (WriteConfig yl ks ds m) m0 = (err, m')"
  shows "err = None \<and> m_quietHours m' = m_quietHours m
    \<and> (\<forall>i. rel_option (reloaded lib) (m_subscriptions m' i) (m_subscriptions m i))
    \<and> (\<forall>i. map_option (\<lambda>r. m_heap m' ! r) (m_dispatchers m' i) = map_option (\<lambda>r. m_heap m ! r) (m_dispatchers m i))"
proof -
  let ?subs = "map subscription_config.truncate (Subscriptions ks m)" and ?ds = "saved_dispatchers ds m"
  let ?m0 = "SetQuietHours (m_quietHours m) m0"
  have cfg: "\<exists>c. config_of i (m_heap m ! r) = Some c \<and> dc_ID c = i \<and> dc_Type c \<noteq> ''cloud''
      \<and> createDispatcher web (c\<lparr>dc_Prefix := []\<rparr>) = Inr (m_heap m ! r)" if "m_dispatchers m i = Some r" for i r
    using createDispatcher_config that assms(4,5) by blast
  have subs: "distinct (map sub_ID (Subscriptions ks m))" "set (Subscriptions ks m) = ran (m_subscriptions m)"
    using saved_subscriptions [OF assms(1)] assms(3) by auto
  have saved: "distinct (map dc_ID ?ds)"
    "set ?ds = {c\<lparr>dc_Prefix := []\<rparr> | c i r. m_dispatchers m i = Some r \<and> config_of i (m_heap m ! r) = Some c}"
    using saved_dispatchers_set [OF assms(2)] cfg by blast+
  have "HandleNotificationConfig lib web ks' ?subs ?ds ?m0 = (err, m')"
    using assms(6,8) by (simp add: LoadConfig_def config_of_manager_def saved_dispatchers_def GetQuietHours_def)
  moreover have comp: "\<forall>c\<in>set ?subs. compiles lib c" using subs(2) assms(3) by (auto simp: ran_def)
  moreover have dist: "distinct (map sub_ID ?subs)" using subs(1) by (simp add: comp_def sub_ID_truncate)
  moreover define m1 where "m1 = (cleared ?subs ?ds ?m0)\<lparr>m_subscriptions := loaded_map lib Map.empty ?subs\<rparr>"
  ultimately have "err = None" and m': "m' = updateListeners ks' (fold (load_dispatcher web) ?ds m1)"
    using Handle_ok [OF comp dist, of web ks' ?ds ?m0] assms(7) by (auto simp: SetQuietHours_def)
  moreover have "m_quietHours m' = m_quietHours m"
    by (simp add: m' listeners_keep dispatchers_keep_subs m1_def cleared_def SetQuietHours_def)
  moreover have "rel_option (reloaded lib) (m_subscriptions m' i) (m_subscriptions m i)" for i
  proof (cases "m_subscriptions m i")
    case None
    then have "i \<notin> sub_ID ` set ?subs" using subs(2) assms(3) by (auto simp: ran_def sub_ID_truncate)
    then show ?thesis using None by (simp add: m' listeners_keep dispatchers_keep_subs m1_def loaded_map_None)
  next
    case (Some s)
    let ?c = "subscription_config.truncate s"
    have "?c \<in> set ?subs" "sub_ID ?c = i" using Some subs(2) assms(3) by (auto simp: ran_def sub_ID_truncate)
    then have "m_subscriptions m' i = Some (init_maps (compiled lib ?c))"
      using loaded_map_Some [OF dist, of ?c lib Map.empty]
      by (simp add: m' listeners_keep dispatchers_keep_subs m1_def loaded_def)
    moreover have "same_settings (init_maps (compiled lib ?c)) (compiled lib ?c)" by (simp add: programs_kept) (simp add: same_settings_def)
    moreover have "DeliveryDays ?c = DeliveryDays s" by (simp add: subscription_config.defs)
    ultimately show ?thesis using Some compiled_config [of lib ?c] by (simp add: reloaded_def same_settings_def)
  qed
  moreover have "map_option (\<lambda>r. m_heap m' ! r) (m_dispatchers m' i) = map_option (\<lambda>r. m_heap m ! r) (m_dispatchers m i)" for i
  proof (cases "m_dispatchers m i")
    case None
    then have "i \<notin> dc_ID ` set ?ds" using saved(2) cfg by force
    then show ?thesis using None
      by (simp add: m' listeners_keep load_dispatcher_other m1_def cleared_def)
  next
    case (Some r)
    then obtain c where c: "config_of i (m_heap m ! r) = Some c" "dc_ID c = i" "dc_Type c \<noteq> ''cloud''"
      "createDispatcher web (c\<lparr>dc_Prefix := []\<rparr>) = Inr (m_heap m ! r)" using cfg by blast
    then have "c\<lparr>dc_Prefix := []\<rparr> \<in> set ?ds" using saved(2) Some by blast
    from load_dispatcher_hit [OF saved(1) this c(4), of m1] c(2,3) show ?thesis
      using Some by (auto simp: m' listeners_keep)
  qed
  ultimately show ?thesis by blast
qed

subsection \<open>Samples\<close>

definition office_env :: env_lib where
  "office_env = sample_env\<lparr>compilers := (compilers sample_env)
     \<lparr>compile_log := (\<lambda>e. if e = ''bad'' then None else Some (\<lambda>_. ExprBool True))\<rparr>\<rparr>"

definition office_web :: web_lib where
  "office_web = sample_web\<lparr>url_scheme := (\<lambda>_. Some ''https'')\<rparr>"

definition desk_cfg :: subscription_config where
  "desk_cfg = zero_SubscriptionConfig\<lparr>sub_ID := 1, sub_Name := ''disk'', LogExpression := ''level'', DeliveryDays := ['' Mon'']\<rparr>"

definition broken_cfg :: subscription_config where
  "broken_cfg = zero_SubscriptionConfig\<lparr>sub_ID := 2, sub_Name := ''broken'', LogExpression := ''bad''\<rparr>"

lemma office_compiles: "compiles office_env desk_cfg" "\<not> compiles office_env broken_cfg" "sub_ID desk_cfg = 1" "sub_ID broken_cfg = 2"
  by (simp_all add: compiles_def CompileExpressions_def and_then_def compile_container_block_def compile_log_block_def
      compile_metric_block_def compile_event_block_def compile_watchdog_block_def compile_regex_block_def
      desk_cfg_def broken_cfg_def office_env_def NormalizeDeliverySchedule_def new_subscription_def
      subscription_config.defs zero_SubscriptionConfig_def)

theorem config_replaces_subscriptions_witness:
  "dom (m_subscriptions (snd (HandleNotificationConfig office_env office_web [1] [desk_cfg] [] sample_manager))) = {1}"
proof -
  have "fst (HandleNotificationConfig office_env office_web [1] [desk_cfg] [] sample_manager) = None"
    by (subst Handle_ok) (simp_all add: office_compiles)
  then have "HandleNotificationConfig office_env office_web [1] [desk_cfg] [] sample_manager
      = (None, snd (HandleNotificationConfig office_env office_web [1] [desk_cfg] [] sample_manager))"
    by (simp add: prod_eq_iff)
  from config_replaces_subscriptions [OF this] show ?thesis by (simp add: office_compiles)
qed

theorem config_error_is_not_atomic_witness:
  "let m' = snd (HandleNotificationConfig office_env office_web [1] [desk_cfg, broken_cfg] []
              (sample_manager\<lparr>m_dispatchers := [1 \<mapsto> 0]\<rparr>))
   in m_dispatchers m' = Map.empty \<and> m_subscriptions m' 1 \<noteq> None"
  using config_error_is_not_atomic [of "[desk_cfg, broken_cfg]" "[desk_cfg]" broken_cfg "[]" office_env office_web "[1]" "[]"
      "sample_manager\<lparr>m_dispatchers := [1 \<mapsto> 0]\<rparr>"]
  by (simp add: office_compiles Let_def prod_eq_iff)

definition desk_hook :: dispatcher_config where
  "desk_hook = zero_DispatcherConfig\<lparr>dc_ID := 1, dc_Type := ''webhook'', dc_URL := ''https://hooks.example''\<rparr>"

definition desk_dispatcher :: dispatcher where
  "desk_dispatcher = WebhookDispatcher \<lparr>wh_Name = [], wh_URL = ''https://hooks.example'', wh_Template = None,
     wh_TemplateText = [], wh_Headers = Map.empty\<rparr>"

lemma desk_created: "createDispatcher office_web desk_hook = Inr desk_dispatcher"
proof -
  have "ToLower ''https'' = ''https''" by code_simp
  then show ?thesis
    by (simp add: createDispatcher_def NewWebhookDispatcher_def desk_hook_def zero_DispatcherConfig_def office_web_def
        desk_dispatcher_def)
qed

definition saved_manager :: manager where
  "saved_manager = sample_manager\<lparr>m_subscriptions := [1 \<mapsto> loaded office_env Map.empty desk_cfg],
     m_heap := [desk_dispatcher], m_dispatchers := [1 \<mapsto> 0]\<rparr>"

definition saved_yaml :: yaml_lib where
  "saved_yaml = \<lparr>yaml_config = (\<lambda>_. []), parse_config = (\<lambda>_. Some (config_of_manager [1] [1] saved_manager)),
     yaml_cloud = (\<lambda>_. []), parse_cloud = (\<lambda>_. None)\<rparr>"

theorem saved_config_reloads_witness:
  "\<exists>r s. m_dispatchers (snd (LoadConfig office_env office_web saved_yaml [1] (WriteConfig saved_yaml [1] [1] saved_manager) sample_manager)) 1 = Some r
    \<and> m_subscriptions (snd (LoadConfig office_env office_web saved_yaml [1] (WriteConfig saved_yaml [1] [1] saved_manager) sample_manager)) 1 = Some s
    \<and> reloaded office_env s (loaded office_env Map.empty desk_cfg)"
proof -
  let ?r = "LoadConfig office_env office_web saved_yaml [1] (WriteConfig saved_yaml [1] [1] saved_manager) sample_manager"
  have "\<forall>i s. m_subscriptions saved_manager i = Some s \<longrightarrow> sub_ID s = i \<and> compiles office_env (subscription_config.truncate s)"
    using loaded_well_compiled [OF office_compiles(1), of Map.empty] arg_cong [OF loaded_props(1) [of office_env Map.empty desk_cfg], of sub_ID]
    by (auto simp: saved_manager_def sub_ID_truncate office_compiles well_compiled_def split: if_splits)
  moreover have "\<forall>i r. m_dispatchers saved_manager i = Some r \<longrightarrow> (\<exists>cfg. createDispatcher office_web cfg = Inr (m_heap saved_manager ! r))"
    using desk_created by (auto simp: saved_manager_def split: if_splits)
  moreover have "enumerates [1] (m_subscriptions saved_manager)" "enumerates [1] (m_dispatchers saved_manager)"
    by (simp_all add: enumerates_def saved_manager_def)
  moreover have "m_subscriptions sample_manager = Map.empty" by (simp add: sample_manager_def NewManager_def)
  ultimately have "map_option (\<lambda>r. m_heap (snd ?r) ! r) (m_dispatchers (snd ?r) 1) = map_option (\<lambda>r. m_heap saved_manager ! r) (m_dispatchers saved_manager 1)
      \<and> rel_option (reloaded office_env) (m_subscriptions (snd ?r) 1) (m_subscriptions saved_manager 1)"
    using saved_config_reloads [of "[1]" saved_manager "[1]" office_env office_web saved_yaml sample_manager "[1]" "fst ?r" "snd ?r"]
    by (simp add: office_web_def saved_yaml_def)
  then show ?thesis by (auto simp: saved_manager_def option_rel_Some2)
qed

end
