(* ===== verification/Listeners.thy ===== *)
theory Listeners
  imports AlertProcessing
begin

text \<open>
  Where alerts get their input: the log, stats and event listeners of \<open>internal/notification\<close>, the TTL
  cache they share and the expiring cache of \<open>internal/cache\<close>.

  A client service is seen through its answers at the moment of a call (\<open>client_view\<close>); the clients
  are a list and a client is its position.  A log stream is a goroutine with a cancellation context: the
  streams started so far are a list, and a context is a position in it.  Sending on a channel appends to
  a list of at most its capacity.
\<close>

subsection \<open>TTL cache\<close>

record 'v ttl_entry =
  te_value :: 'v
  te_expiresAt :: gotime

record ('k, 'v) ttl_cache =
  tc_entries :: "'k \<rightharpoonup> 'v ttl_entry"
  tc_ttl :: duration

definition NewTTLCache :: "duration \<Rightarrow> ('k, 'v) ttl_cache" where
  "NewTTLCache ttl = \<lparr>tc_entries = Map.empty, tc_ttl = ttl\<rparr>"

definition sweepInterval :: "duration \<Rightarrow> duration" where
  "sweepInterval ttl = max (ttl * 2) (60 * Second)"

definition ttl_Load :: "gotime \<Rightarrow> 'k \<Rightarrow> ('k, 'v) ttl_cache \<Rightarrow> 'v option" where
  "ttl_Load now k c =
     (case tc_entries c k of
        None \<Rightarrow> None
      | Some e \<Rightarrow> if te_expiresAt e < now then None else Some (te_value e))"

definition ttl_Store :: "gotime \<Rightarrow> 'k \<Rightarrow> 'v \<Rightarrow> ('k, 'v) ttl_cache \<Rightarrow> ('k, 'v) ttl_cache" where
  "ttl_Store now k v c =
     c\<lparr>tc_entries := (tc_entries c)(k \<mapsto> \<lparr>te_value = v, te_expiresAt = now + tc_ttl c\<rparr>)\<rparr>"

definition evict :: "gotime \<Rightarrow> ('k, 'v) ttl_cache \<Rightarrow> ('k, 'v) ttl_cache" where
  "evict now c = c\<lparr>tc_entries := delete_where (\<lambda>_ e. te_expiresAt e < now) (tc_entries c)\<rparr>"

subsection \<open>Expiring cache\<close>

text \<open>
  \<open>f\<close> is the result of the loading function, a value and possibly an error; the value is kept even
  with an error.  The clock is read before and after the call.
\<close>

record 'a expire_cache =
  xc_Timestamp :: gotime
  xc_Duration :: duration
  xc_Data :: 'a

definition GetWithHit ::
    "gotime \<Rightarrow> gotime \<Rightarrow> 'a \<times> 'e option \<Rightarrow> 'a expire_cache \<Rightarrow> ('a \<times> 'e option \<times> bool) \<times> 'a expire_cache" where
  "GetWithHit now after f c =
     (if IsZero (xc_Timestamp c) \<or> now - xc_Timestamp c > xc_Duration c
      then (let c1 = c\<lparr>xc_Data := fst f\<rparr>
            in case snd f of
                 Some e \<Rightarrow> ((fst f, Some e, False), c1)
               | None \<Rightarrow> ((fst f, None, False), c1\<lparr>xc_Timestamp := after\<rparr>))
      else ((xc_Data c, None, True), c))"

definition expire_Get ::
    "gotime \<Rightarrow> gotime \<Rightarrow> 'a \<times> 'e option \<Rightarrow> 'a expire_cache \<Rightarrow> ('a \<times> 'e option) \<times> 'a expire_cache" where
  "expire_Get now after f c = (let ((d, e, _), c1) = GetWithHit now after f c in ((d, e), c1))"

subsection \<open>Clients\<close>

text \<open>\<open>Host\<close> returns a value beside its error; some callers use it anyway.\<close>

record client_view =
  cv_Find :: "string \<Rightarrow> container option"
  cv_List :: "container list option"
  cv_Host :: "host \<times> bool"

type_synonym container_info = "container \<times> host"

fun findContainerWithHost :: "client_view list \<Rightarrow> string \<Rightarrow> container_info option" where
  "findContainerWithHost [] i = None"
| "findContainerWithHost (v # vs) i =
     (case cv_Find v i of
        None \<Rightarrow> findContainerWithHost vs i
      | Some c \<Rightarrow> if snd (cv_Host v) then Some (c, fst (cv_Host v)) else findContainerWithHost vs i)"

subsection \<open>Stats\<close>

record stats_listener =
  sl_channel :: "container_stat_event list"
  sl_cache :: "(string, container_info) ttl_cache"
  sl_running :: bool

definition NewContainerStatsListener :: stats_listener where
  "NewContainerStatsListener = \<lparr>sl_channel = [], sl_cache = NewTTLCache (5 * Second), sl_running = False\<rparr>"

definition stats_Start :: "stats_listener \<Rightarrow> stats_listener" where
  "stats_Start l = (if sl_running l then l else l\<lparr>sl_running := True\<rparr>)"

definition stats_Stop :: "stats_listener \<Rightarrow> stats_listener" where
  "stats_Stop l = (if \<not> sl_running l then l else l\<lparr>sl_running := False\<rparr>)"

definition stats_resolveContainer ::
    "gotime \<Rightarrow> client_view list \<Rightarrow> string \<Rightarrow> (string, container_info) ttl_cache
       \<Rightarrow> container_info option \<times> (string, container_info) ttl_cache" where
  "stats_resolveContainer now views i c =
     (case ttl_Load now i c of
        Some v \<Rightarrow> (Some v, c)
      | None \<Rightarrow>
          (case findContainerWithHost views i of
             None \<Rightarrow> (None, c)
           | Some v \<Rightarrow> (Some v, ttl_Store now i v c)))"

text \<open>One round of \<open>enrich\<close>: the stat is dropped when the channel is full.\<close>

definition stats_enrich :: "gotime \<Rightarrow> client_view list \<Rightarrow> container_stat \<Rightarrow> stats_listener \<Rightarrow> stats_listener" where
  "stats_enrich now views stat l =
     (let (r, cache) = stats_resolveContainer now views (st_ID stat) (sl_cache l);
          l1 = l\<lparr>sl_cache := cache\<rparr>
      in case r of
           None \<Rightarrow> l1
         | Some (c, h) \<Rightarrow>
             (if isDozzleContainer c then l1
              else if length (sl_channel l1) < 1000
              then l1\<lparr>sl_channel := sl_channel l1 @ [\<lparr>se_Stat = stat, se_Container = c, se_Host = h\<rparr>]\<rparr>
              else l1))"

subsection \<open>Events\<close>

definition allowedEventNames :: "string list" where
  "allowedEventNames = [''start'', ''stop'', ''die'', ''restart'', ''health_status'', ''oom'', ''kill'']"

record event_listener =
  el_channel :: "container_event_entry list"
  el_cache :: "(string, container_info) ttl_cache"
  el_running :: bool

definition NewContainerEventListener :: event_listener where
  "NewContainerEventListener = \<lparr>el_channel = [], el_cache = NewTTLCache (30 * Second), el_running = False\<rparr>"

definition event_Start :: "event_listener \<Rightarrow> event_listener" where
  "event_Start l = (if el_running l then l else l\<lparr>el_running := True\<rparr>)"

definition event_Stop :: "event_listener \<Rightarrow> event_listener" where
  "event_Stop l = (if \<not> el_running l then l else l\<lparr>el_running := False\<rparr>)"

definition event_resolveContainer ::
    "gotime \<Rightarrow> client_view list \<Rightarrow> string \<Rightarrow> (string, container_info) ttl_cache
       \<Rightarrow> container_info option \<times> (string, container_info) ttl_cache" where
  "event_resolveContainer now views i c =
     (case ttl_Load now i c of
        Some v \<Rightarrow> (Some v, c)
      | None \<Rightarrow>
          (case findContainerWithHost views i of
             None \<Rightarrow> (None, c)
           | Some v \<Rightarrow> (Some v, ttl_Store now i v c)))"

definition event_enrich :: "gotime \<Rightarrow> client_view list \<Rightarrow> container_event \<Rightarrow> event_listener \<Rightarrow> event_listener" where
  "event_enrich now views ev l =
     (if ev_Name ev \<notin> set allowedEventNames then l
      else let (r, cache) = event_resolveContainer now views (ev_ActorID ev) (el_cache l);
               l1 = l\<lparr>el_cache := cache\<rparr>
           in case r of
                None \<Rightarrow> l1
              | Some (c, h) \<Rightarrow>
                  (if isDozzleContainer c then l1
                   else if length (el_channel l1) < 1000
                   then l1\<lparr>el_channel := el_channel l1 @ [\<lparr>ee_Event = ev, ee_Container = c, ee_Host = h\<rparr>]\<rparr>
                   else l1))"

subsection \<open>Logs\<close>

record log_stream =
  ls_container :: string
  ls_client :: nat
  ls_since :: gotime
  ls_cancelled :: bool
  ls_ended :: bool

record log_listener =
  ll_containerClients :: "string \<rightharpoonup> nat"
  ll_activeStreams :: "string \<rightharpoonup> nat"
  ll_streams :: "log_stream list"
  ll_subscribed :: "nat list"
  ll_cache :: "(string, container_info) ttl_cache"

definition NewContainerLogListener :: log_listener where
  "NewContainerLogListener =
     \<lparr>ll_containerClients = Map.empty, ll_activeStreams = Map.empty, ll_streams = [], ll_subscribed = [],
      ll_cache = NewTTLCache (30 * Second)\<rparr>"

definition cancel_stream :: "nat \<Rightarrow> log_listener \<Rightarrow> log_listener" where
  "cancel_stream i l = l\<lparr>ll_streams := (ll_streams l)[i := (ll_streams l ! i)\<lparr>ls_cancelled := True\<rparr>]\<rparr>"

definition startListening :: "container \<Rightarrow> nat \<Rightarrow> gotime \<Rightarrow> log_listener \<Rightarrow> log_listener" where
  "startListening c k since l =
     (let l1 = (case ll_activeStreams l (c_ID c) of None \<Rightarrow> l | Some old \<Rightarrow> cancel_stream old l)
      in l1\<lparr>ll_streams := ll_streams l1 @ [\<lparr>ls_container = c_ID c, ls_client = k, ls_since = since,
                                           ls_cancelled = False, ls_ended = False\<rparr>],
            ll_activeStreams := (ll_activeStreams l1)(c_ID c \<mapsto> length (ll_streams l1)),
            ll_containerClients := (ll_containerClients l1)(c_ID c \<mapsto> k)\<rparr>)"

definition cleanupStream :: "string \<Rightarrow> nat \<Rightarrow> log_listener \<Rightarrow> log_listener" where
  "cleanupStream cid i l =
     (if ll_activeStreams l cid = Some i
      then l\<lparr>ll_activeStreams := (ll_activeStreams l)(cid := None),
             ll_containerClients := (ll_containerClients l)(cid := None)\<rparr>
      else l)"

text \<open>The goroutine of a stream returns, for whatever reason.\<close>

definition stream_ends :: "nat \<Rightarrow> log_listener \<Rightarrow> log_listener" where
  "stream_ends i l =
     cleanupStream (ls_container (ll_streams l ! i)) i
       (l\<lparr>ll_streams := (ll_streams l)[i := (ll_streams l ! i)\<lparr>ls_ended := True\<rparr>]\<rparr>)"

definition stopListening :: "string \<Rightarrow> log_listener \<Rightarrow> log_listener" where
  "stopListening cid l =
     (case ll_activeStreams l cid of
        None \<Rightarrow> l
      | Some i \<Rightarrow>
          (cancel_stream i l)\<lparr>ll_activeStreams := (ll_activeStreams l)(cid := None),
                              ll_containerClients := (ll_containerClients l)(cid := None)\<rparr>)"

definition isListening :: "string \<Rightarrow> log_listener \<Rightarrow> bool" where
  "isListening cid l \<longleftrightarrow> ll_activeStreams l cid \<noteq> None"

text \<open>The matcher is the manager; it is asked with the host the client reported, even with an error.\<close>

definition start_client ::
    "gotime \<Rightarrow> (container \<Rightarrow> host \<Rightarrow> bool) \<Rightarrow> nat \<times> client_view \<Rightarrow> log_listener \<Rightarrow> log_listener" where
  "start_client now matcher kv l =
     (case cv_List (snd kv) of
        None \<Rightarrow> l
      | Some cs \<Rightarrow>
          (fold (\<lambda>c l. if matcher c (fst (cv_Host (snd kv))) then startListening c (fst kv) now l else l) cs l)
            \<lparr>ll_subscribed := ll_subscribed l @ [fst kv]\<rparr>)"

definition log_Start :: "gotime \<Rightarrow> (container \<Rightarrow> host \<Rightarrow> bool) \<Rightarrow> client_view list \<Rightarrow> log_listener \<Rightarrow> log_listener" where
  "log_Start now matcher views l = fold (start_client now matcher) (List.enumerate 0 views) l"

definition update_one ::
    "gotime \<Rightarrow> (container \<Rightarrow> host \<Rightarrow> bool) \<Rightarrow> nat \<times> host \<times> container \<Rightarrow> log_listener \<Rightarrow> log_listener" where
  "update_one now matcher x l =
     (let c = snd (snd x); shouldListen = matcher c (fst (snd x)); listening = isListening (c_ID c) l
      in if shouldListen \<and> \<not> listening then startListening c (fst x) now l
         else if \<not> shouldListen \<and> listening then stopListening (c_ID c) l
         else l)"

definition listed :: "client_view list \<Rightarrow> (nat \<times> host \<times> container) list" where
  "listed views = concat (map (\<lambda>(k, v). case cv_List v of None \<Rightarrow> [] | Some cs \<Rightarrow> map (\<lambda>c. (k, fst (cv_Host v), c)) cs)
     (List.enumerate 0 views))"

definition UpdateStreams :: "gotime \<Rightarrow> (container \<Rightarrow> host \<Rightarrow> bool) \<Rightarrow> client_view list \<Rightarrow> log_listener \<Rightarrow> log_listener" where
  "UpdateStreams now matcher views l = fold (update_one now matcher) (listed views) l"

fun by_id_loop ::
    "(container \<Rightarrow> host \<Rightarrow> bool) \<Rightarrow> container \<Rightarrow> (nat \<times> client_view) list \<Rightarrow> log_listener \<Rightarrow> log_listener" where
  "by_id_loop matcher c [] l = l"
| "by_id_loop matcher c ((k, v) # vs) l =
     (case cv_Find v (c_ID c) of
        None \<Rightarrow> by_id_loop matcher c vs l
      | Some found \<Rightarrow>
          (if matcher found (fst (cv_Host v)) then startListening found k (c_StartedAt c) l else l))"

definition startListeningByIDWithMatcher ::
    "(container \<Rightarrow> host \<Rightarrow> bool) \<Rightarrow> client_view list \<Rightarrow> container \<Rightarrow> log_listener \<Rightarrow> log_listener" where
  "startListeningByIDWithMatcher matcher views c l = by_id_loop matcher c (List.enumerate 0 views) l"

definition log_FindContainer :: "client_view list \<Rightarrow> string \<Rightarrow> log_listener \<Rightarrow> container option" where
  "log_FindContainer views i l =
     (case ll_containerClients l i of None \<Rightarrow> None | Some k \<Rightarrow> cv_Find (views ! k) i)"

text \<open>What the owning client answers now.\<close>

definition owner_answer :: "(string \<rightharpoonup> nat) \<times> client_view list \<Rightarrow> string \<Rightarrow> container_info option" where
  "owner_answer w i =
     (case fst w i of
        None \<Rightarrow> None
      | Some k \<Rightarrow>
          (case cv_Find (snd w ! k) i of
             None \<Rightarrow> None
           | Some c \<Rightarrow> if snd (cv_Host (snd w ! k)) then Some (c, fst (cv_Host (snd w ! k))) else None))"

definition cached_owner ::
    "gotime \<Rightarrow> (string \<rightharpoonup> nat) \<times> client_view list \<Rightarrow> string \<Rightarrow> (string, container_info) ttl_cache
       \<Rightarrow> container_info option \<times> (string, container_info) ttl_cache" where
  "cached_owner now w i c =
     (case ttl_Load now i c of
        Some v \<Rightarrow> (Some v, c)
      | None \<Rightarrow> (case owner_answer w i of None \<Rightarrow> (None, c) | Some v \<Rightarrow> (Some v, ttl_Store now i v c)))"

definition FindContainerWithHost ::
    "gotime \<Rightarrow> client_view list \<Rightarrow> string \<Rightarrow> log_listener \<Rightarrow> container_info option \<times> log_listener" where
  "FindContainerWithHost now views i l =
     (let (r, c) = cached_owner now (ll_containerClients l, views) i (ll_cache l) in (r, l\<lparr>ll_cache := c\<rparr>))"

definition listener_ListContainers :: "client_view list \<Rightarrow> container list" where
  "listener_ListContainers views = concat (map (\<lambda>v. case cv_List v of None \<Rightarrow> [] | Some cs \<Rightarrow> cs) views)"

subsection \<open>Cached metadata is bounded in age\<close>

text \<open>The three lookups through a TTL cache share one contract.\<close>

fun lookup_run ::
    "(gotime \<Rightarrow> 'w \<Rightarrow> string \<Rightarrow> (string, 'v) ttl_cache \<Rightarrow> 'v option \<times> (string, 'v) ttl_cache)
       \<Rightarrow> (gotime \<times> 'w \<times> string) list \<Rightarrow> (string, 'v) ttl_cache \<Rightarrow> 'v option list" where
  "lookup_run resolve [] c = []"
| "lookup_run resolve ((t, w, k) # qs) c =
     fst (resolve t w k c) # lookup_run resolve qs (snd (resolve t w k c))"

definition fresh_answer :: "('w \<Rightarrow> string \<Rightarrow> 'v option) \<Rightarrow> duration \<Rightarrow> (gotime \<times> 'w \<times> string) list \<Rightarrow> nat \<Rightarrow> 'v \<Rightarrow> bool" where
  "fresh_answer fetch ttl qs n v \<longleftrightarrow>
     (\<exists>m\<le>n. snd (snd (qs ! m)) = snd (snd (qs ! n)) \<and> fetch (fst (snd (qs ! m))) (snd (snd (qs ! n))) = Some v
        \<and> fst (qs ! n) \<le> fst (qs ! m) + ttl)"

locale ttl_lookup =
  fixes ttl :: duration
    and fetch :: "'w \<Rightarrow> string \<Rightarrow> 'v option"
    and resolve :: "gotime \<Rightarrow> 'w \<Rightarrow> string \<Rightarrow> (string, 'v) ttl_cache \<Rightarrow> 'v option \<times> (string, 'v) ttl_cache"
  assumes ttl_nonneg: "0 \<le> ttl"
    and hit: "ttl_Load now k c = Some v \<Longrightarrow> resolve now w k c = (Some v, c)"
    and miss: "ttl_Load now k c = None \<Longrightarrow> fetch w k = None \<Longrightarrow> resolve now w k c = (None, c)"
    and fetched: "ttl_Load now k c = None \<Longrightarrow> fetch w k = Some v \<Longrightarrow> resolve now w k c = (Some v, ttl_Store now k v c)"
begin

text \<open>Every entry of the cache stems from an earlier question.\<close>

definition backed :: "(gotime \<times> 'w \<times> string) list \<Rightarrow> (string, 'v) ttl_cache \<Rightarrow> bool" where
  "backed past c \<longleftrightarrow> tc_ttl c = ttl \<and> (\<forall>k e. tc_entries c k = Some e \<longrightarrow>
     (\<exists>(t, w, k') \<in> set past. k' = k \<and> fetch w k = Some (te_value e) \<and> te_expiresAt e = t + ttl))"

lemma backed_resolve:
  assumes "backed past c"
  shows "backed (past @ [(now, w, k)]) (snd (resolve now w k c))"
proof (cases "ttl_Load now k c")
  case None
  then show ?thesis using assms miss [of now k c w] fetched [of now k c w]
    by (cases "fetch w k") (fastforce simp: backed_def ttl_Store_def)+
qed (use assms hit in \<open>fastforce simp: backed_def\<close>)

lemma resolve_fresh:
  assumes "backed past c" and "fst (resolve now w k c) = Some v"
  shows "\<exists>(t, w', k') \<in> set (past @ [(now, w, k)]). k' = k \<and> fetch w' k = Some v \<and> now \<le> t + ttl"
proof (cases "ttl_Load now k c")
  case None
  then show ?thesis using assms(2) ttl_nonneg miss [of now k c w] fetched [of now k c w] by (cases "fetch w k") auto
next
  case (Some v')
  then have "v' = v" using assms(2) hit by simp
  then show ?thesis using Some assms(1) by (fastforce simp: backed_def ttl_Load_def split: option.splits if_splits)
qed

lemma run_fresh:
  assumes "backed past c" and "n < length qs" and "lookup_run resolve qs c ! n = Some v"
  shows "fresh_answer fetch ttl (past @ qs) (length past + n) v"
  using assms
proof (induction qs arbitrary: past c n)
  case (Cons q qs)
  obtain t w k where q: "q = (t, w, k)" by (cases q) auto
  show ?case
  proof (cases n)
    case 0
    then have "fst (resolve t w k c) = Some v" using Cons.prems(3) by (simp add: q)
    from resolve_fresh [OF Cons.prems(1) this] obtain m where "m < length (past @ [(t, w, k)])"
      "snd (snd ((past @ [(t, w, k)]) ! m)) = k" "fetch (fst (snd ((past @ [(t, w, k)]) ! m))) k = Some v"
      "t \<le> fst ((past @ [(t, w, k)]) ! m) + ttl"
      unfolding Bex_def in_set_conv_nth by fastforce
    then show ?thesis using 0 unfolding fresh_answer_def q
      by (intro exI [of _ m]) (auto simp: nth_append split: if_splits)
  next
    case (Suc n')
    then show ?thesis
      using Cons.IH [OF backed_resolve [OF Cons.prems(1), of t w k], of n'] Cons.prems(2,3) by (simp add: q)
  qed
qed simp

lemma lookups_fresh:
  assumes "n < length qs" and "lookup_run resolve qs (NewTTLCache ttl) ! n = Some v"
  shows "fresh_answer fetch ttl qs n v"
  using run_fresh [of "[]" "NewTTLCache ttl" n qs v] assms by (simp add: backed_def NewTTLCache_def)

end

interpretation stats_meta: ttl_lookup "5 * Second" findContainerWithHost stats_resolveContainer
  by unfold_locales (simp_all add: stats_resolveContainer_def Second_def)

interpretation event_meta: ttl_lookup "30 * Second" findContainerWithHost event_resolveContainer
  by unfold_locales (simp_all add: event_resolveContainer_def Second_def)

interpretation log_meta: ttl_lookup "30 * Second" owner_answer cached_owner
  by unfold_locales (simp_all add: cached_owner_def Second_def)

text \<open>Whatever sequence of lookups the stats listener makes, the container, its host and its mount
figures that an alert expression sees are an answer one of the clients gave for that container at most
five seconds earlier.\<close>

theorem stats_metadata_fresh:
  assumes "n < length qs" and "lookup_run stats_resolveContainer qs (sl_cache NewContainerStatsListener) ! n = Some v"
  shows "fresh_answer findContainerWithHost (5 * Second) qs n v"
  using assms stats_meta.lookups_fresh by (simp add: NewContainerStatsListener_def)

definition one_view :: "container \<Rightarrow> host \<Rightarrow> client_view" where
  "one_view c h = \<lparr>cv_Find = (\<lambda>i. if i = c_ID c then Some c else None), cv_List = Some [c], cv_Host = (h, True)\<rparr>"

definition home_host :: host where
  "home_host = \<lparr>h_Name = ''home'', h_ID = ''h'', h_CertPath = [], h_CACertPath = [], h_KeyPath = [], h_ValidCerts = False,
     h_NCPU = 4, h_MemTotal = 0, h_Endpoint = [], h_DockerVersion = [], h_Runtime = [], h_AgentVersion = [],
     h_Type = ''local'', h_Available = True, h_Swarm = False, h_Group = []\<rparr>"

definition home_container :: container where
  "home_container = sample_container\<lparr>c_ID := ''c1''\<rparr>"

theorem stats_metadata_fresh_witness:
  "fresh_answer findContainerWithHost (5 * Second)
     [(time_Unix 100, [one_view home_container home_host], ''c1''), (time_Unix 104, [], ''c1'')] 1 (home_container, home_host)"
proof -
  have "lookup_run stats_resolveContainer
     [(time_Unix 100, [one_view home_container home_host], ''c1''), (time_Unix 104, [], ''c1'')]
     (sl_cache NewContainerStatsListener) ! 1 = Some (home_container, home_host)"
    by (simp add: stats_resolveContainer_def ttl_Load_def ttl_Store_def NewContainerStatsListener_def NewTTLCache_def
        one_view_def home_container_def time_Unix_def Second_def)
  from stats_metadata_fresh [OF _ this] show ?thesis by simp
qed

subsection \<open>One stream per container\<close>

inductive listener_step :: "log_listener \<Rightarrow> log_listener \<Rightarrow> bool" where
  Begin: "listener_step l (log_Start now matcher views l)"
| Update: "listener_step l (UpdateStreams now matcher views l)"
| Appeared: "listener_step l (startListeningByIDWithMatcher matcher views c l)"
| Ended: "i < length (ll_streams l) \<Longrightarrow> \<not> ls_ended (ll_streams l ! i) \<Longrightarrow> listener_step l (stream_ends i l)"
| Looked: "listener_step l (snd (FindContainerWithHost now views cid l))"

definition live :: "log_listener \<Rightarrow> nat \<Rightarrow> bool" where
  "live l i \<longleftrightarrow> i < length (ll_streams l) \<and> \<not> ls_cancelled (ll_streams l ! i) \<and> \<not> ls_ended (ll_streams l ! i)"

definition streams_inv :: "log_listener \<Rightarrow> bool" where
  "streams_inv l \<longleftrightarrow>
     (\<forall>cid i. ll_activeStreams l cid = Some i \<longleftrightarrow> live l i \<and> ls_container (ll_streams l ! i) = cid)
     \<and> (\<forall>cid. ll_containerClients l cid = map_option (\<lambda>i. ls_client (ll_streams l ! i)) (ll_activeStreams l cid))"

text \<open>A stream that ends or is cancelled leaves both maps together.\<close>

definition retire :: "nat \<Rightarrow> log_stream \<Rightarrow> log_listener \<Rightarrow> log_listener" where
  "retire i s l = l\<lparr>ll_streams := (ll_streams l)[i := s],
     ll_activeStreams := (ll_activeStreams l)(ls_container s := None),
     ll_containerClients := (ll_containerClients l)(ls_container s := None)\<rparr>"

lemma streams_inv_retire:
  assumes "streams_inv l" and "ll_activeStreams l (ls_container s) = Some i" and "ls_cancelled s \<or> ls_ended s"
  shows "streams_inv (retire i s l)"
proof -
  have i: "i < length (ll_streams l)" "ls_container (ll_streams l ! i) = ls_container s"
    using assms(1,2) by (simp_all add: streams_inv_def live_def)
  have live: "live (retire i s l) j \<longleftrightarrow> live l j \<and> j \<noteq> i" for j
    using i assms(3) by (auto simp: retire_def live_def nth_list_update)
  have other: "ll_streams (retire i s l) ! j = ll_streams l ! j" if "j \<noteq> i" for j
    using that by (simp add: retire_def)
  have act: "ll_activeStreams (retire i s l) = (ll_activeStreams l)(ls_container s := None)"
    "ll_containerClients (retire i s l) = (ll_containerClients l)(ls_container s := None)" by (simp_all add: retire_def)
  have "ll_activeStreams (retire i s l) cid = Some j \<longleftrightarrow> live (retire i s l) j \<and> ls_container (ll_streams (retire i s l) ! j) = cid"
    for cid j
  proof (cases "j = i")
    case True
    have "ll_activeStreams l cid \<noteq> Some i" if "cid \<noteq> ls_container s" using that i assms(1) by (simp add: streams_inv_def)
    then show ?thesis using True by (auto simp: act live)
  next
    case False
    have "ll_activeStreams l (ls_container s) \<noteq> Some j" using assms(2) False by simp
    then show ?thesis using False assms(1) by (auto simp: act live other streams_inv_def)
  qed
  moreover have "ll_containerClients (retire i s l) cid
      = map_option (\<lambda>j. ls_client (ll_streams (retire i s l) ! j)) (ll_activeStreams (retire i s l) cid)" for cid
  proof (cases "cid = ls_container s")
    case False
    then have "ll_activeStreams l cid \<noteq> Some i" using i assms(1) by (simp add: streams_inv_def)
    then have "ll_streams (retire i s l) ! j = ll_streams l ! j" if "ll_activeStreams l cid = Some j" for j
      using that by (intro other) auto
    moreover have "ll_containerClients l cid = map_option (\<lambda>j. ls_client (ll_streams l ! j)) (ll_activeStreams l cid)"
      using assms(1) by (simp add: streams_inv_def)
    ultimately show ?thesis using False by (cases "ll_activeStreams l cid") (simp_all add: act)
  qed (simp add: act)
  ultimately show ?thesis by (simp add: streams_inv_def)
qed

lemma stopListening_retire:
  assumes "streams_inv l" and "ll_activeStreams l cid = Some i"
  shows "stopListening cid l = retire i ((ll_streams l ! i)\<lparr>ls_cancelled := True\<rparr>) l"
proof -
  have "ls_container (ll_streams l ! i) = cid" using assms by (simp add: streams_inv_def)
  then show ?thesis using assms(2) by (simp add: stopListening_def retire_def cancel_stream_def)
qed

lemma streams_inv_stop [inv_intros]:
  assumes "streams_inv l"
  shows "streams_inv (stopListening cid l)"
proof (cases "ll_activeStreams l cid")
  case (Some i)
  moreover have "ls_container (ll_streams l ! i) = cid" using Some assms by (simp add: streams_inv_def)
  ultimately show ?thesis using assms by (simp add: stopListening_retire) (rule streams_inv_retire, simp_all)
qed (use assms in \<open>simp add: stopListening_def\<close>)

text \<open>Starting a stream is stopping the old one and adding the new one.\<close>

lemma startListening_stop: "startListening c k since l = startListening c k since (stopListening (c_ID c) l)"
  by (cases "ll_activeStreams l (c_ID c)") (simp_all add: startListening_def stopListening_def cancel_stream_def Let_def)

lemma streams_inv_add:
  assumes "streams_inv l" and "ll_activeStreams l (c_ID c) = None"
  shows "streams_inv (startListening c k since l)"
proof -
  let ?l = "startListening c k since l" and ?n = "length (ll_streams l)"
  have str: "ll_streams ?l = ll_streams l @ [\<lparr>ls_container = c_ID c, ls_client = k, ls_since = since, ls_cancelled = False, ls_ended = False\<rparr>]"
    and act: "ll_activeStreams ?l = (ll_activeStreams l)(c_ID c \<mapsto> ?n)" "ll_containerClients ?l = (ll_containerClients l)(c_ID c \<mapsto> k)"
    using assms(2) by (simp_all add: startListening_def)
  have live: "live ?l j \<longleftrightarrow> live l j \<or> j = ?n" for j by (auto simp: live_def str nth_append)
  have none: "ll_activeStreams l cid \<noteq> Some ?n" for cid using assms(1) by (simp add: streams_inv_def live_def)
  have "ll_activeStreams ?l cid = Some j \<longleftrightarrow> live ?l j \<and> ls_container (ll_streams ?l ! j) = cid" for cid j
  proof (cases "j = ?n")
    case False
    have "ls_container (ll_streams ?l ! j) = ls_container (ll_streams l ! j)" if "live l j"
      using that by (simp add: str nth_append live_def)
    moreover have "\<not> (live l j \<and> ls_container (ll_streams l ! j) = c_ID c)"
      using assms by (metis option.distinct(1) streams_inv_def)
    ultimately show ?thesis using False assms(1) by (auto simp: act live streams_inv_def)
  qed (use none in \<open>auto simp: act live str\<close>)
  moreover have "ll_containerClients ?l cid = map_option (\<lambda>i. ls_client (ll_streams ?l ! i)) (ll_activeStreams ?l cid)" for cid
    using assms(1) by (auto simp: act str nth_append streams_inv_def live_def intro!: option.map_cong)
  ultimately show ?thesis by (simp add: streams_inv_def)
qed

lemma streams_inv_start [inv_intros]:
  assumes "streams_inv l"
  shows "streams_inv (startListening c k since l)"
proof (subst startListening_stop, rule streams_inv_add)
  show "ll_activeStreams (stopListening (c_ID c) l) (c_ID c) = None"
    by (simp add: stopListening_def split: option.split)
qed (rule streams_inv_stop [OF assms])

lemma streams_inv_end [inv_intros]:
  assumes "streams_inv l" and "i < length (ll_streams l)"
  shows "streams_inv (stream_ends i l)"
proof (cases "ll_activeStreams l (ls_container (ll_streams l ! i)) = Some i")
  case True
  then have "stream_ends i l = retire i ((ll_streams l ! i)\<lparr>ls_ended := True\<rparr>) l"
    by (simp add: stream_ends_def cleanupStream_def retire_def)
  then show ?thesis using streams_inv_retire [OF assms(1), of "(ll_streams l ! i)\<lparr>ls_ended := True\<rparr>" i] True by simp
next
  case False
  then have "\<not> live l i" using assms(1) by (auto simp: streams_inv_def)
  then have "live (stream_ends i l) j = live l j" for j
    using False assms(2) by (auto simp: stream_ends_def cleanupStream_def live_def nth_list_update)
  moreover have "ll_activeStreams (stream_ends i l) = ll_activeStreams l"
    "ll_containerClients (stream_ends i l) = ll_containerClients l"
    using False by (simp_all add: stream_ends_def cleanupStream_def)
  moreover have "ls_container (ll_streams (stream_ends i l) ! j) = ls_container (ll_streams l ! j)"
    "ls_client (ll_streams (stream_ends i l) ! j) = ls_client (ll_streams l ! j)" for j
    using assms(2) False by (auto simp: stream_ends_def cleanupStream_def nth_list_update)
  ultimately show ?thesis using assms(1) by (simp add: streams_inv_def)
qed

lemma streams_inv_cong:
  "ll_streams l' = ll_streams l \<Longrightarrow> ll_activeStreams l' = ll_activeStreams l
     \<Longrightarrow> ll_containerClients l' = ll_containerClients l \<Longrightarrow> streams_inv l \<Longrightarrow> streams_inv l'"
  by (simp add: streams_inv_def live_def)

lemma streams_inv_step: "listener_step l l' \<Longrightarrow> streams_inv l \<Longrightarrow> streams_inv l'"
proof (induction rule: listener_step.induct)
  case (Begin l now matcher views)
  have "streams_inv (start_client now matcher kv l)" if "streams_inv l" for kv l
  proof (cases "cv_List (snd kv)")
    case (Some cs)
    have "streams_inv (fold (\<lambda>c l. if matcher c (fst (cv_Host (snd kv))) then startListening c (fst kv) now l else l) cs l)"
      (is "streams_inv ?l") using that by (intro fold_inv [where P = streams_inv]) (auto intro: streams_inv_start)
    then show ?thesis by (rule streams_inv_cong [of _ ?l, rotated 3]) (simp_all add: start_client_def Some)
  qed (use that in \<open>simp add: start_client_def\<close>)
  then show ?case using Begin unfolding log_Start_def by (auto intro!: fold_inv [where P = streams_inv])
next
  case (Update l now matcher views)
  have "streams_inv (update_one now matcher x l)" if "streams_inv l" for x l
    using that by (auto simp: update_one_def Let_def intro: streams_inv_start streams_inv_stop)
  then show ?case using Update unfolding UpdateStreams_def by (auto intro!: fold_inv [where P = streams_inv])
next
  case (Appeared l matcher views c)
  have "streams_inv (by_id_loop matcher c vs l)" for vs
    using Appeared by (induction vs) (auto split: option.split intro: streams_inv_start)
  then show ?case by (simp add: startListeningByIDWithMatcher_def)
next
  case (Ended i l)
  then show ?case by (intro streams_inv_end)
next
  case (Looked l now views cid)
  then show ?case
    by (rule streams_inv_cong [rotated 3]) (simp_all add: FindContainerWithHost_def split: prod.split)
qed

lemma streams_inv_reachable:
  "listener_step\<^sup>*\<^sup>* NewContainerLogListener l \<Longrightarrow> streams_inv l"
proof (induction rule: rtranclp_induct)
  case base
  then show ?case by (simp add: streams_inv_def NewContainerLogListener_def live_def)
qed (rule streams_inv_step)

text \<open>Whatever containers come, go and restart and however the subscriptions change, no container is
ever streamed twice: two running streams of one container are the same stream, a container counts as
listened to exactly when a stream of it runs, and a log line is attributed to the client that streams it.  In
particular the clean-up of an old stream never removes the stream that replaced it.\<close>

theorem one_stream_per_container:
  assumes "listener_step\<^sup>*\<^sup>* NewContainerLogListener l"
  shows "(\<forall>i j. live l i \<and> live l j \<and> ls_container (ll_streams l ! i) = ls_container (ll_streams l ! j) \<longrightarrow> i = j)
    \<and> (\<forall>cid. isListening cid l \<longleftrightarrow> (\<exists>i. live l i \<and> ls_container (ll_streams l ! i) = cid))
    \<and> (\<forall>i. live l i \<longrightarrow> ll_containerClients l (ls_container (ll_streams l ! i)) = Some (ls_client (ll_streams l ! i)))"
proof -
  have act: "ll_activeStreams l cid = Some i \<longleftrightarrow> live l i \<and> ls_container (ll_streams l ! i) = cid" for cid i
    using streams_inv_reachable [OF assms] by (simp add: streams_inv_def)
  have cl: "ll_containerClients l cid = map_option (\<lambda>i. ls_client (ll_streams l ! i)) (ll_activeStreams l cid)" for cid
    using streams_inv_reachable [OF assms] by (simp add: streams_inv_def)
  have "i = j" if "live l i" "live l j" "ls_container (ll_streams l ! i) = ls_container (ll_streams l ! j)" for i j
    using act [of "ls_container (ll_streams l ! i)" i] act [of "ls_container (ll_streams l ! i)" j] that by simp
  moreover have "isListening cid l \<longleftrightarrow> (\<exists>i. live l i \<and> ls_container (ll_streams l ! i) = cid)" for cid
    using act [of cid] by (auto simp: isListening_def)
  moreover have "ll_containerClients l (ls_container (ll_streams l ! i)) = Some (ls_client (ll_streams l ! i))" if "live l i" for i
    using act [of "ls_container (ll_streams l ! i)" i] cl that by simp
  ultimately show ?thesis by blast
qed

definition restarted :: log_listener where
  "restarted = startListeningByIDWithMatcher (\<lambda>_ _. True) [one_view home_container home_host] home_container
     (log_Start 0 (\<lambda>_ _. True) [one_view home_container home_host] NewContainerLogListener)"

theorem one_stream_per_container_witness:
  "live restarted 1 \<and> ls_container (ll_streams restarted ! 1) = ''c1'' \<and> ll_containerClients restarted ''c1'' = Some 0"
proof -
  have "listener_step\<^sup>*\<^sup>* NewContainerLogListener restarted"
    unfolding restarted_def
    by (rule rtranclp_trans [OF r_into_rtranclp r_into_rtranclp]) (rule listener_step.intros)+
  note one = one_stream_per_container [OF this]
  have "live restarted 1" "ls_container (ll_streams restarted ! 1) = ''c1''" "ls_client (ll_streams restarted ! 1) = 0"
    by (simp_all add: restarted_def live_def startListeningByIDWithMatcher_def log_Start_def start_client_def one_view_def
        startListening_def cancel_stream_def NewContainerLogListener_def home_container_def)
  then show ?thesis using one by metis
qed

subsection \<open>Streams follow the rules\<close>

lemma update_one_active:
  assumes "x = (k, h, c)"
  shows "isListening (c_ID c) (update_one now matcher x l) \<longleftrightarrow> matcher c h"
    "cid \<noteq> c_ID c \<Longrightarrow> isListening cid (update_one now matcher x l) \<longleftrightarrow> isListening cid l"
  using assms by (auto simp: update_one_def Let_def isListening_def startListening_def stopListening_def cancel_stream_def
      split: option.split)

lemma update_all_active:
  assumes "distinct (map (\<lambda>(k, h, c). c_ID c) xs)"
  shows "isListening cid (fold (update_one now matcher) xs l) \<longleftrightarrow>
    (case find (\<lambda>(k, h, c). c_ID c = cid) xs of None \<Rightarrow> isListening cid l | Some (k, h, c) \<Rightarrow> matcher c h)"
  using assms
proof (induction xs arbitrary: l)
  case (Cons x xs)
  obtain k h c where x: "x = (k, h, c)" by (cases x) auto
  show ?case
  proof (cases "c_ID c = cid")
    case True
    then have "find (\<lambda>(k, h, c). c_ID c = cid) xs = None" using Cons.prems x by (force simp: find_None_iff)
    then show ?thesis using Cons x True update_one_active(1) [OF x, of now matcher l] by simp
  next
    case False
    then show ?thesis using Cons x update_one_active(2) [OF x, of cid now matcher l] by (simp split: option.split)
  qed
qed simp

text \<open>After the rules change, exactly the containers that some log rule wants are streamed, among those the
clients list; a container that no reachable client lists keeps what it had.\<close>

theorem update_streams_follow_rules:
  assumes "distinct (map (\<lambda>(k, h, c). c_ID c) (listed views))" and "l' = UpdateStreams now matcher views l"
  shows "(\<forall>(k, h, c)\<in>set (listed views). isListening (c_ID c) l' \<longleftrightarrow> matcher c h)
    \<and> (\<forall>cid. cid \<notin> (\<lambda>(k, h, c). c_ID c) ` set (listed views) \<longrightarrow> (isListening cid l' \<longleftrightarrow> isListening cid l))"
proof -
  have hit: "find (\<lambda>(k, h, c). c_ID c = c_ID c') xs = Some (k', h', c')"
    if "distinct (map (\<lambda>(k, h, c). c_ID c) xs)" "(k', h', c') \<in> set xs" for xs :: "(nat \<times> host \<times> container) list" and k' h' c'
    using that by (induction xs) (force split: prod.split)+
  have miss: "find (\<lambda>(k, h, c). c_ID c = cid) (listed views) = None"
    if "cid \<notin> (\<lambda>(k, h, c). c_ID c) ` set (listed views)" for cid
    using that by (force simp: find_None_iff)
  show ?thesis
    using hit [OF assms(1)] miss update_all_active [OF assms(1), of _ now matcher l] unfolding assms(2) UpdateStreams_def
    by fastforce
qed

theorem update_streams_follow_rules_witness:
  "isListening ''c1'' (UpdateStreams 0 (\<lambda>_ _. True) [one_view home_container home_host] NewContainerLogListener)"
proof -
  have "listed [one_view home_container home_host] = [(0, home_host, home_container)]" by (simp add: listed_def one_view_def)
  then show ?thesis
    using update_streams_follow_rules [of "[one_view home_container home_host]" _ 0 "\<lambda>_ _. True" NewContainerLogListener]
    by (simp add: home_container_def)
qed

end
