(* ===== verification/LogStore.thy ===== *)
theory LogStore
  imports ContainerTypes
begin

text \<open>
  The log cache of \<open>internal/log_storage/store.go\<close>: log events in one NDJSON file per host, container and
  day, and an SQLite index of these files.

  A UTC day is its number since 1970-01-01; the text \<open>2006-01-02\<close> of the code has the same order.  A path is
  the host directory, the first twelve characters of the container id and the day.  The contents of files and
  write buffers are byte strings; JSON encoding is a parameter (\<open>store_lib\<close>) and so is the outcome of every
  file and database operation (\<open>store_faults\<close>).  A buffered writer keeps all bytes until \<open>flush\<close>; the real one passes a full
  buffer on earlier, which no operation can tell, since every read flushes first, except when that write fails: then \<open>sf_write\<close> counts the
  bytes that reached the file.  A writer that failed once fails ever after, as \<open>bufio.Writer\<close> does, and its errors are dropped by \<open>flush\<close>.  \<open>flushIndex\<close> releases the lock between taking the pending
  deltas and applying them: it is two steps with other operations possible between them.  Tables are maps;
  \<open>ks\<close> is the order in which a query visits the rows.
\<close>

subsection \<open>Data\<close>

type_synonym log_path = "string \<times> string \<times> int"
type_synonym chunk_key = "string \<times> string \<times> int"

record event_key =
  ek_timestamp :: int
  ek_id :: "32 word"
  ek_raw :: string

definition eventKey :: "log_event \<Rightarrow> event_key" where
  "eventKey ev = \<lparr>ek_timestamp = le_Timestamp ev, ek_id = le_Id ev, ek_raw = le_RawMessage ev\<rparr>"

record chunk_delta =
  dl_identity :: string
  dl_path :: log_path
  dl_firstTS :: int
  dl_lastTS :: int
  dl_lines :: int

record chunk_row =
  cr_identity :: string
  cr_path :: log_path
  cr_first_ts :: int
  cr_last_ts :: int
  cr_lines :: int
  cr_updated_at :: int

record cached_row =
  ch_identity :: string
  ch_state :: string
  ch_finished_at :: int
  ch_payload :: string
  ch_updated_at :: int

record log_store =
  sto_disk :: "log_path \<rightharpoonup> string"
  sto_writers :: "log_path \<rightharpoonup> string"
  sto_broken :: "log_path \<Rightarrow> bool"
  sto_recent :: "log_path \<Rightarrow> event_key option"
  sto_pending :: "chunk_key \<rightharpoonup> chunk_delta"
  sto_opened :: bool
  sto_chunks :: "chunk_key \<rightharpoonup> chunk_row"
  sto_cached :: "string \<times> string \<rightharpoonup> cached_row"

record store_lib =
  encode_event :: "log_event \<Rightarrow> string option"
  decode_event :: "string \<Rightarrow> log_event option"
  encode_container :: "container \<Rightarrow> string option"
  decode_container :: "string \<Rightarrow> container option"

record store_faults =
  sf_openDB :: bool
  sf_begin :: bool
  sf_exec :: "chunk_key \<Rightarrow> bool"
  sf_commit :: bool
  sf_query :: bool
  sf_mkdir :: "log_path \<Rightarrow> bool"
  sf_open :: "log_path \<Rightarrow> bool"
  sf_write :: "log_path \<Rightarrow> nat option"
  sf_remove :: "log_path \<Rightarrow> bool"
  sf_read :: "log_path \<Rightarrow> nat \<Rightarrow> bool"

datatype store_error = DBError | FileError | EncodeError

definition retentionDays :: int where "retentionDays = 4"

definition day_of :: "gotime \<Rightarrow> int" where "day_of t = t div (24 * Hour)"

definition NewStore :: log_store where
  "NewStore = \<lparr>sto_disk = Map.empty, sto_writers = Map.empty, sto_broken = (\<lambda>_. False), sto_recent = (\<lambda>_. None), sto_pending = Map.empty,
     sto_opened = False, sto_chunks = Map.empty, sto_cached = Map.empty\<rparr>"

subsection \<open>Opening the index\<close>

definition new_identity :: "store_lib \<Rightarrow> cached_row \<Rightarrow> string option" where
  "new_identity lib r =
     (if ch_identity r \<noteq> [] then None
      else case decode_container lib (ch_payload r) of
             None \<Rightarrow> None
           | Some c \<Rightarrow> if LogIdentity c = [] then None else Some (LogIdentity c))"

definition migrateCachedIdentities :: "store_lib \<Rightarrow> log_store \<Rightarrow> log_store" where
  "migrateCachedIdentities lib s =
     s\<lparr>sto_cached := (\<lambda>k. map_option (\<lambda>r. case new_identity lib r of None \<Rightarrow> r | Some i \<Rightarrow> r\<lparr>ch_identity := i\<rparr>) (sto_cached s k)),
       sto_chunks := (\<lambda>(h, c, d). map_option (\<lambda>r.
          if cr_identity r \<noteq> [] then r
          else case Option.bind (sto_cached s (h, c)) (new_identity lib) of
                 None \<Rightarrow> r | Some i \<Rightarrow> r\<lparr>cr_identity := i\<rparr>) (sto_chunks s (h, c, d)))\<rparr>"

definition openDB :: "store_lib \<Rightarrow> store_faults \<Rightarrow> log_store \<Rightarrow> store_error + log_store" where
  "openDB lib flt s =
     (if sto_opened s then Inr s
      else if sf_openDB flt then Inl DBError
      else Inr ((migrateCachedIdentities lib s)\<lparr>sto_opened := True\<rparr>))"

subsection \<open>Writing\<close>

definition containerDir :: "string \<Rightarrow> string \<Rightarrow> string \<times> string" where
  "containerDir h cid = (if h = [] then ''unknown'' else h, if length cid > 12 then take 12 cid else cid)"

definition filePath :: "string \<Rightarrow> string \<Rightarrow> gotime \<Rightarrow> log_path" where
  "filePath h cid t = (fst (containerDir h cid), snd (containerDir h cid), day_of t)"

text \<open>Everything after the last newline, once the surrounding blanks are gone.\<close>

definition lastEventKey :: "store_lib \<Rightarrow> string option \<Rightarrow> event_key option" where
  "lastEventKey lib file =
     (case file of
        None \<Rightarrow> None
      | Some text \<Rightarrow>
          (let d = TrimSpace text
           in if d = [] then None
              else map_option eventKey (decode_event lib (last (split_on (CHR 0x0A) d)))))"

definition open_writer :: "store_lib \<Rightarrow> store_faults \<Rightarrow> log_path \<Rightarrow> log_store \<Rightarrow> store_error + log_store" where
  "open_writer lib flt p s =
     (case sto_writers s p of
        Some _ \<Rightarrow> Inr s
      | None \<Rightarrow>
          (if sf_mkdir flt p \<or> sf_open flt p then Inl FileError
           else let disk = (case sto_disk s p of None \<Rightarrow> (sto_disk s)(p \<mapsto> []) | Some _ \<Rightarrow> sto_disk s)
                in Inr (s\<lparr>sto_disk := disk, sto_writers := (sto_writers s)(p \<mapsto> []), sto_broken := (sto_broken s)(p := False),
                          sto_recent := (sto_recent s)(p := lastEventKey lib (disk p))\<rparr>)))"

definition add_delta :: "string \<Rightarrow> log_path \<Rightarrow> int \<Rightarrow> chunk_delta option \<Rightarrow> chunk_delta" where
  "add_delta ident p ts old =
     (let d = (case old of None \<Rightarrow> \<lparr>dl_identity = [], dl_path = p, dl_firstTS = ts, dl_lastTS = ts, dl_lines = 0\<rparr>
                         | Some d \<Rightarrow> d)
      in d\<lparr>dl_identity := ident, dl_path := p, dl_firstTS := min (dl_firstTS d) ts,
           dl_lastTS := max (dl_lastTS d) ts, dl_lines := dl_lines d + 1\<rparr>)"

definition append_event :: "string \<Rightarrow> log_event \<Rightarrow> string \<Rightarrow> string \<Rightarrow> log_store \<Rightarrow> log_store" where
  "append_event h ev ident text s =
     (let ts = time_UnixMilli (le_Timestamp ev);
          p = filePath h (le_ContainerID ev) ts;
          k = (h, le_ContainerID ev, day_of ts)
      in s\<lparr>sto_writers := (sto_writers s)(p \<mapsto> the (sto_writers s p) @ text @ [CHR 0x0A]),
           sto_recent := (sto_recent s)(p := Some (eventKey ev)),
           sto_pending := (sto_pending s)(k \<mapsto> add_delta ident p (le_Timestamp ev) (sto_pending s k))\<rparr>)"

text \<open>A write that fails, or that meets a writer which failed before: a line that overflows the buffer makes the writer pass its bytes on.\<close>

definition writerSize :: nat where "writerSize = 64 * 1024"

definition write_fails :: "store_faults \<Rightarrow> log_path \<Rightarrow> string \<Rightarrow> log_store \<Rightarrow> bool" where
  "write_fails flt p line s \<longleftrightarrow>
     sto_broken s p \<or> (writerSize < length (the (sto_writers s p)) + length line \<and> sf_write flt p \<noteq> None)"

definition failed_write :: "store_faults \<Rightarrow> log_path \<Rightarrow> string \<Rightarrow> log_store \<Rightarrow> log_store" where
  "failed_write flt p line s =
     (if sto_broken s p then s
      else let bytes = the (sto_writers s p) @ line; n = the (sf_write flt p)
           in s\<lparr>sto_disk := (sto_disk s)(p := map_option (\<lambda>t. t @ take n bytes) (sto_disk s p)),
                sto_writers := (sto_writers s)(p \<mapsto> drop n bytes), sto_broken := (sto_broken s)(p := True)\<rparr>)"

definition log_write ::
    "store_lib \<Rightarrow> store_faults \<Rightarrow> string \<Rightarrow> log_event \<Rightarrow> string \<Rightarrow> log_store \<Rightarrow> store_error option \<times> log_store" where
  "log_write lib flt h ev ident s =
     (if le_ContainerID ev = [] then (None, s)
      else let p = filePath h (le_ContainerID ev) (time_UnixMilli (le_Timestamp ev))
           in case open_writer lib flt p s of
                Inl e \<Rightarrow> (Some e, s)
              | Inr s1 \<Rightarrow>
                  (if sto_recent s1 p = Some (eventKey ev) then (None, s1)
                   else case encode_event lib ev of
                          None \<Rightarrow> (Some EncodeError, s1)
                        | Some text \<Rightarrow>
                            (if write_fails flt p (text @ [CHR 0x0A]) s1 then (Some FileError, failed_write flt p (text @ [CHR 0x0A]) s1)
                             else (None, append_event h ev ident text s1))))"

definition store_Append :: "store_lib \<Rightarrow> store_faults \<Rightarrow> string \<Rightarrow> log_event \<Rightarrow> log_store \<Rightarrow> store_error option \<times> log_store" where
  "store_Append lib flt h ev s = log_write lib flt h ev [] s"

definition AppendForContainer ::
    "store_lib \<Rightarrow> store_faults \<Rightarrow> container \<Rightarrow> log_event \<Rightarrow> log_store \<Rightarrow> store_error option \<times> log_store" where
  "AppendForContainer lib flt c ev s = log_write lib flt (c_Host c) ev (LogIdentity c) s"

subsection \<open>Flushing\<close>

text \<open>What a \<open>Flush\<close> moves: the bytes that reach the file, those that stay in the buffer, and whether the writer has failed.\<close>

definition write_out :: "nat option \<Rightarrow> string \<Rightarrow> string \<times> string \<times> bool" where
  "write_out fault b =
     (if b = [] then ([], [], False)
      else case fault of None \<Rightarrow> (b, [], False) | Some n \<Rightarrow> (take n b, drop n b, True))"

definition flush_writer :: "store_faults \<Rightarrow> log_store \<Rightarrow> log_path \<Rightarrow> string \<times> string \<times> bool" where
  "flush_writer flt s p =
     (case sto_writers s p of
        None \<Rightarrow> ([], [], False)
      | Some b \<Rightarrow> if sto_broken s p then ([], b, True) else write_out (sf_write flt p) b)"

text \<open>A writer whose file was removed keeps writing to the removed file.\<close>

definition store_flush :: "store_faults \<Rightarrow> log_store \<Rightarrow> log_store" where
  "store_flush flt s =
     s\<lparr>sto_disk := (\<lambda>p. map_option (\<lambda>text. text @ fst (flush_writer flt s p)) (sto_disk s p)),
       sto_writers := (\<lambda>p. map_option (\<lambda>_. fst (snd (flush_writer flt s p))) (sto_writers s p)),
       sto_broken := (\<lambda>p. snd (snd (flush_writer flt s p)))\<rparr>"

definition closeAll :: "store_faults \<Rightarrow> log_store \<Rightarrow> log_store" where
  "closeAll flt s = (store_flush flt s)\<lparr>sto_writers := Map.empty, sto_broken := (\<lambda>_. False)\<rparr>"

definition take_pending :: "log_store \<Rightarrow> (chunk_key \<rightharpoonup> chunk_delta) \<times> log_store" where
  "take_pending s = (sto_pending s, s\<lparr>sto_pending := Map.empty\<rparr>)"

definition merge_back :: "chunk_delta \<Rightarrow> chunk_delta option \<Rightarrow> chunk_delta" where
  "merge_back d newer =
     (case newer of
        None \<Rightarrow> d
      | Some n \<Rightarrow> n\<lparr>dl_firstTS := min (dl_firstTS n) (dl_firstTS d), dl_lastTS := max (dl_lastTS n) (dl_lastTS d),
                    dl_lines := dl_lines n + dl_lines d\<rparr>)"

definition restore_pending :: "(chunk_key \<rightharpoonup> chunk_delta) \<Rightarrow> log_store \<Rightarrow> log_store" where
  "restore_pending taken s =
     s\<lparr>sto_pending := (\<lambda>k. case taken k of None \<Rightarrow> sto_pending s k | Some d \<Rightarrow> Some (merge_back d (sto_pending s k)))\<rparr>"

definition upsert_chunk :: "int \<Rightarrow> chunk_delta \<Rightarrow> chunk_row option \<Rightarrow> chunk_row" where
  "upsert_chunk now d old =
     (case old of
        None \<Rightarrow> \<lparr>cr_identity = dl_identity d, cr_path = dl_path d, cr_first_ts = dl_firstTS d,
                cr_last_ts = dl_lastTS d, cr_lines = dl_lines d, cr_updated_at = now\<rparr>
      | Some r \<Rightarrow> r\<lparr>cr_identity := dl_identity d, cr_path := dl_path d,
                    cr_first_ts := min (cr_first_ts r) (dl_firstTS d), cr_last_ts := max (cr_last_ts r) (dl_lastTS d),
                    cr_lines := cr_lines r + dl_lines d, cr_updated_at := now\<rparr>)"

text \<open>The second half: one transaction, which is rolled back and undone by \<open>restore\<close> at any failure.\<close>

definition apply_pending ::
    "store_lib \<Rightarrow> store_faults \<Rightarrow> gotime \<Rightarrow> (chunk_key \<rightharpoonup> chunk_delta) \<Rightarrow> log_store \<Rightarrow> log_store" where
  "apply_pending lib flt now taken s =
     (case openDB lib flt s of
        Inl _ \<Rightarrow> restore_pending taken s
      | Inr s1 \<Rightarrow>
          (if sf_begin flt \<or> (\<exists>k \<in> dom taken. sf_exec flt k) \<or> sf_commit flt then restore_pending taken s1
           else s1\<lparr>sto_chunks := (\<lambda>k. case taken k of
                                        None \<Rightarrow> sto_chunks s1 k
                                      | Some d \<Rightarrow> Some (upsert_chunk (Unix now) d (sto_chunks s1 k)))\<rparr>))"

definition flushIndex :: "store_lib \<Rightarrow> store_faults \<Rightarrow> gotime \<Rightarrow> log_store \<Rightarrow> log_store" where
  "flushIndex lib flt now s =
     (if sto_pending s = Map.empty then s
      else let (taken, s1) = take_pending s in apply_pending lib flt now taken s1)"

definition syncForRead :: "store_lib \<Rightarrow> store_faults \<Rightarrow> gotime \<Rightarrow> log_store \<Rightarrow> log_store" where
  "syncForRead lib flt now s = flushIndex lib flt now (store_flush flt s)"

subsection \<open>Container metadata\<close>

definition RecordContainer ::
    "store_lib \<Rightarrow> store_faults \<Rightarrow> gotime \<Rightarrow> container \<Rightarrow> log_store \<Rightarrow> store_error option \<times> log_store" where
  "RecordContainer lib flt now c s =
     (if c_ID c = [] then (None, s)
      else case openDB lib flt s of
             Inl e \<Rightarrow> (Some e, s)
           | Inr s1 \<Rightarrow>
               (let c1 = c\<lparr>c_Stats := None, c_Env := [], c_Ports := []\<rparr>
                in case encode_container lib c1 of
                     None \<Rightarrow> (Some EncodeError, s1)
                   | Some payload \<Rightarrow>
                       (if sf_query flt then (Some DBError, s1)
                        else (None, s1\<lparr>sto_cached := (sto_cached s1)((c_Host c1, c_ID c1) \<mapsto>
                               \<lparr>ch_identity = LogIdentity c1, ch_state = c_State c1,
                                ch_finished_at = (if IsZero (c_FinishedAt c1) then 0 else Unix (c_FinishedAt c1)),
                                ch_payload = payload, ch_updated_at = Unix now\<rparr>)\<rparr>))))"

text \<open>The \<open>EXISTS\<close> subquery that ties a cached container to its chunks.\<close>

definition has_chunk :: "log_store \<Rightarrow> string \<times> string \<Rightarrow> cached_row \<Rightarrow> bool" where
  "has_chunk s k r \<longleftrightarrow>
     (\<exists>(h, c, d) \<in> dom (sto_chunks s). h = fst k
        \<and> (c = snd k \<or> (ch_identity r \<noteq> [] \<and> cr_identity (the (sto_chunks s (h, c, d))) = ch_identity r)))"

definition CachedContainers ::
    "store_lib \<Rightarrow> store_faults \<Rightarrow> gotime \<Rightarrow> (string \<times> string) list \<Rightarrow> string \<Rightarrow> log_store
       \<Rightarrow> store_error + container list" where
  "CachedContainers lib flt now ks h s0 =
     (case openDB lib flt (syncForRead lib flt now s0) of
        Inl e \<Rightarrow> Inl e
      | Inr s \<Rightarrow>
          (if sf_query flt then Inl DBError
           else let rows = List.map_filter (\<lambda>k. case sto_cached s k of
                             None \<Rightarrow> None
                           | Some r \<Rightarrow> if has_chunk s k r \<and> (h = [] \<or> fst k = h) then Some r else None) ks;
                    newest = rev (sort_key ch_updated_at (rev rows))
                in Inr (List.map_filter (\<lambda>r. case decode_container lib (ch_payload r) of
                          None \<Rightarrow> None
                        | Some c \<Rightarrow>
                            if c_State c = ''exited'' \<and> \<not> IsZero (c_FinishedAt c) \<and> now - c_FinishedAt c > 24 * Hour
                            then None else Some (c\<lparr>c_State := ''offline'', c_Stats := None\<rparr>)) newest)))"

subsection \<open>Retention\<close>

definition cutoff_day :: "gotime \<Rightarrow> int" where "cutoff_day now = day_of now - retentionDays"

definition stale_chunk :: "gotime \<Rightarrow> chunk_row \<Rightarrow> bool" where
  "stale_chunk now r \<longleftrightarrow> cr_last_ts r < cutoff_day now * 86400 * 1000"

definition cleanup_index :: "store_faults \<Rightarrow> gotime \<Rightarrow> log_store \<Rightarrow> log_store" where
  "cleanup_index flt now s =
     (let stale = (\<lambda>k. case sto_chunks s k of None \<Rightarrow> False | Some r \<Rightarrow> stale_chunk now r);
          gone = (\<lambda>p. \<exists>k \<in> dom (sto_chunks s). stale k \<and> cr_path (the (sto_chunks s k)) = p \<and> \<not> sf_remove flt p);
          s1 = s\<lparr>sto_disk := (\<lambda>p. if gone p then None else sto_disk s p),
                 sto_chunks := (\<lambda>k. if stale k then None else sto_chunks s k)\<rparr>;
          s2 = s1\<lparr>sto_cached := delete_where (\<lambda>k r. \<not> has_chunk s1 k r) (sto_cached s1)\<rparr>
      in s2\<lparr>sto_cached := delete_where (\<lambda>k r. ch_state r = ''exited'' \<and> ch_finished_at r > 0
                            \<and> ch_finished_at r < Unix (now - 24 * Hour)) (sto_cached s2)\<rparr>)"

text \<open>The sweep over the directories goes by the date in the file name.\<close>

definition cleanup_files :: "store_faults \<Rightarrow> gotime \<Rightarrow> log_store \<Rightarrow> log_store" where
  "cleanup_files flt now s =
     s\<lparr>sto_disk := (\<lambda>p. if snd (snd p) < cutoff_day now \<and> \<not> sf_remove flt p then None else sto_disk s p)\<rparr>"

definition store_cleanup :: "store_lib \<Rightarrow> store_faults \<Rightarrow> gotime \<Rightarrow> log_store \<Rightarrow> log_store" where
  "store_cleanup lib flt now s0 =
     (let s = syncForRead lib flt now s0
      in cleanup_files flt now
           (case openDB lib flt s of
              Inl _ \<Rightarrow> s
            | Inr s1 \<Rightarrow> if sf_query flt then s1 else cleanup_index flt now s1))"

text \<open>One round of the loop of \<open>Start\<close>, for each of its channels.\<close>

datatype store_event = LogArrived log_event | FlushTick | CleanupTick | ShutDown

definition store_round :: "store_lib \<Rightarrow> store_faults \<Rightarrow> gotime \<Rightarrow> store_event \<Rightarrow> log_store \<Rightarrow> log_store" where
  "store_round lib flt now e s =
     (case e of
        LogArrived ev \<Rightarrow> snd (log_write lib flt ''unknown'' ev [] s)
      | FlushTick \<Rightarrow> flushIndex lib flt now (store_flush flt s)
      | CleanupTick \<Rightarrow> store_cleanup lib flt now (closeAll flt (flushIndex lib flt now (store_flush flt s)))
      | ShutDown \<Rightarrow> flushIndex lib flt now (closeAll flt s))"

subsection \<open>Which chunks belong to a container\<close>

definition HasLogs :: "store_lib \<Rightarrow> store_faults \<Rightarrow> gotime \<Rightarrow> chunk_key list \<Rightarrow> string \<Rightarrow> string \<Rightarrow> log_store \<Rightarrow> bool" where
  "HasLogs lib flt now ks h cid s0 =
     (let s1 = syncForRead lib flt now s0
      in case openDB lib flt s1 of
           Inl _ \<Rightarrow> (\<exists>p \<in> dom (sto_disk s1). (fst p, fst (snd p)) = containerDir h cid)
         | Inr s \<Rightarrow> \<not> sf_query flt \<and> list_ex (\<lambda>(h', c', d). sto_chunks s (h', c', d) \<noteq> None \<and> h' = h \<and> c' = cid) ks)"

definition belongs :: "string \<Rightarrow> string \<Rightarrow> string \<Rightarrow> chunk_key \<Rightarrow> chunk_row \<Rightarrow> bool" where
  "belongs h cid ident k r \<longleftrightarrow>
     fst k = h \<and> (fst (snd k) = cid \<or> (ident \<noteq> [] \<and> cr_identity r = ident))"

definition matching :: "log_store \<Rightarrow> (chunk_key \<Rightarrow> chunk_row \<Rightarrow> bool) \<Rightarrow> chunk_key list \<Rightarrow> chunk_row list" where
  "matching s P ks = List.map_filter (\<lambda>k. case sto_chunks s k of None \<Rightarrow> None | Some r \<Rightarrow> if P k r then Some r else None) ks"

definition HasLogsForContainer ::
    "store_lib \<Rightarrow> store_faults \<Rightarrow> gotime \<Rightarrow> chunk_key list \<Rightarrow> container \<Rightarrow> log_store \<Rightarrow> bool" where
  "HasLogsForContainer lib flt now ks c s0 =
     (let s1 = syncForRead lib flt now s0; ident = LogIdentity c
      in if c_ID c = [] then False
         else if ident = [] then HasLogs lib flt now ks (c_Host c) (c_ID c) s1
         else case openDB lib flt s1 of
                Inl _ \<Rightarrow> HasLogs lib flt now ks (c_Host c) (c_ID c) s1
              | Inr s \<Rightarrow> \<not> sf_query flt \<and> matching s (belongs (c_Host c) (c_ID c) ident) ks \<noteq> [])"

definition LastTimestampForContainer ::
    "store_lib \<Rightarrow> store_faults \<Rightarrow> gotime \<Rightarrow> chunk_key list \<Rightarrow> container \<Rightarrow> log_store \<Rightarrow> gotime option" where
  "LastTimestampForContainer lib flt now ks c s0 =
     (if c_ID c = [] then None
      else case openDB lib flt (syncForRead lib flt now s0) of
             Inl _ \<Rightarrow> None
           | Inr s \<Rightarrow>
               (let ts = map cr_last_ts (matching s (belongs (c_Host c) (c_ID c) (LogIdentity c)) ks)
                in if sf_query flt \<or> ts = [] \<or> foldr max ts 0 \<le> 0 then None
                   else Some (time_UnixMilli (foldr max ts 0))))"

subsection \<open>Reading forwards\<close>

definition newline :: char where "newline = CHR 0x0A"

text \<open>The decoder stops at the first line that is not a log event.\<close>

fun read_lines :: "store_lib \<Rightarrow> gotime \<Rightarrow> gotime \<Rightarrow> string list \<Rightarrow> log_event list" where
  "read_lines lib from to [] = []"
| "read_lines lib from to (l # ls) =
     (if TrimSpace l = [] then read_lines lib from to ls
      else case decode_event lib (TrimSpace l) of
             None \<Rightarrow> []
           | Some ev \<Rightarrow>
               (let ts = time_UnixMilli (le_Timestamp ev)
                in if ts < from \<or> to < ts then read_lines lib from to ls else ev # read_lines lib from to ls))"

definition readFile :: "store_lib \<Rightarrow> store_faults \<Rightarrow> gotime \<Rightarrow> gotime \<Rightarrow> log_path \<Rightarrow> log_store \<Rightarrow> log_event list" where
  "readFile lib flt from to p s =
     (if sf_open flt p then []
      else case sto_disk s p of
             None \<Rightarrow> []
           | Some text \<Rightarrow> read_lines lib from to (split_on newline text))"

text \<open>\<open>GROUP BY path\<close> ordered by a function of the rows of each path.\<close>

definition paths_by :: "(chunk_row list \<Rightarrow> int) \<Rightarrow> chunk_row list \<Rightarrow> log_path list" where
  "paths_by f rows = sort_key (\<lambda>p. f (filter (\<lambda>r. cr_path r = p) rows)) (remdups (map cr_path rows))"

definition logsBetweenDates ::
    "store_lib \<Rightarrow> store_faults \<Rightarrow> gotime \<Rightarrow> chunk_key list \<Rightarrow> string \<Rightarrow> string \<Rightarrow> string \<Rightarrow> gotime \<Rightarrow> gotime \<Rightarrow> log_store
       \<Rightarrow> store_error + log_event list" where
  "logsBetweenDates lib flt now ks h cid ident from to s0 =
     (case openDB lib flt (syncForRead lib flt now s0) of
        Inl e \<Rightarrow> Inl e
      | Inr s \<Rightarrow>
          (if sf_query flt then Inr []
           else let rows = matching s (\<lambda>k r. belongs h cid ident k r \<and> day_of from \<le> snd (snd k) \<and> snd (snd k) \<le> day_of to) ks
                in Inr (concat (map (\<lambda>p. readFile lib flt from to p s)
                          (paths_by (\<lambda>rs. Min (cr_first_ts ` set rs)) rows)))))"

definition store_LogsBetweenDates ::
    "store_lib \<Rightarrow> store_faults \<Rightarrow> gotime \<Rightarrow> chunk_key list \<Rightarrow> string \<Rightarrow> string \<Rightarrow> gotime \<Rightarrow> gotime \<Rightarrow> log_store
       \<Rightarrow> store_error + log_event list" where
  "store_LogsBetweenDates lib flt now ks h cid from to s = logsBetweenDates lib flt now ks h cid [] from to s"

definition LogsBetweenDatesForContainer ::
    "store_lib \<Rightarrow> store_faults \<Rightarrow> gotime \<Rightarrow> chunk_key list \<Rightarrow> container \<Rightarrow> gotime \<Rightarrow> gotime \<Rightarrow> log_store
       \<Rightarrow> store_error + log_event list" where
  "LogsBetweenDatesForContainer lib flt now ks c from to s =
     logsBetweenDates lib flt now ks (c_Host c) (c_ID c) (LogIdentity c) from to s"

subsection \<open>Reading backwards\<close>

type_synonym matcher = "(log_event \<Rightarrow> bool) option"

definition reverse_line :: "store_lib \<Rightarrow> gotime \<Rightarrow> gotime \<Rightarrow> matcher \<Rightarrow> string \<Rightarrow> log_event option" where
  "reverse_line lib from to match line =
     (let l = TrimSpace line
      in if l = [] then None
         else case decode_event lib l of
                None \<Rightarrow> None
              | Some ev \<Rightarrow>
                  (let ts = time_UnixMilli (le_Timestamp ev)
                   in if ts < from \<or> \<not> ts < to then None
                      else if (case match of None \<Rightarrow> False | Some f \<Rightarrow> \<not> f ev) then None
                      else Some ev))"

definition decodeReverseLine ::
    "store_lib \<Rightarrow> gotime \<Rightarrow> gotime \<Rightarrow> matcher \<Rightarrow> string \<Rightarrow> log_event list \<Rightarrow> bool \<times> log_event list" where
  "decodeReverseLine lib from to match line result =
     (case reverse_line lib from to match line of None \<Rightarrow> (False, result) | Some ev \<Rightarrow> (True, result @ [ev]))"

text \<open>The inner loop, over the lines of a block from the last to the second.\<close>

fun scan_lines ::
    "store_lib \<Rightarrow> gotime \<Rightarrow> gotime \<Rightarrow> matcher \<Rightarrow> nat \<Rightarrow> string list \<Rightarrow> log_event list \<Rightarrow> bool \<times> log_event list" where
  "scan_lines lib from to match stopAfter [] result = (False, result)"
| "scan_lines lib from to match stopAfter (l # ls) result =
     (let r = decodeReverseLine lib from to match l result
      in if fst r \<and> length (snd r) \<ge> stopAfter then (True, snd r)
         else scan_lines lib from to match stopAfter ls (snd r))"

definition chunkSize :: nat where "chunkSize = 64 * 1024"

datatype reverse_outcome = More | Done | ReadFailed

function reverse_loop ::
    "store_lib \<Rightarrow> (nat \<Rightarrow> bool) \<Rightarrow> gotime \<Rightarrow> gotime \<Rightarrow> matcher \<Rightarrow> nat \<Rightarrow> string \<Rightarrow> nat \<Rightarrow> string \<Rightarrow> log_event list
       \<Rightarrow> reverse_outcome \<times> log_event list" where
  "reverse_loop lib bad from to match stopAfter text pos pending result =
     (if pos > 0 then
        (let n = (if pos < chunkSize then pos else chunkSize);
             pos1 = pos - n;
             buf = take n (drop pos1 text);
             parts = split_on newline (buf @ pending);
             r = scan_lines lib from to match stopAfter (rev (tl parts)) result
         in if bad pos1 then (ReadFailed, result)
            else if fst r then (More, snd r)
            else reverse_loop lib bad from to match stopAfter text pos1 (hd parts) (snd r))
      else let r = decodeReverseLine lib from to match pending result
           in if pending \<noteq> [] \<and> fst r \<and> length (snd r) \<ge> stopAfter then (More, snd r)
              else (Done, if pending = [] then result else snd r))"
  by pat_completeness auto

termination
  by (relation "measure (\<lambda>(lib, bad, from, to, match, stopAfter, text, pos, pending, result). pos)")
    (auto simp: chunkSize_def)

declare reverse_loop.simps [simp del]

definition readFileReverse ::
    "store_lib \<Rightarrow> store_faults \<Rightarrow> gotime \<Rightarrow> gotime \<Rightarrow> matcher \<Rightarrow> nat \<Rightarrow> log_path \<Rightarrow> log_store \<Rightarrow> log_event list
       \<Rightarrow> reverse_outcome \<times> log_event list" where
  "readFileReverse lib flt from to match stopAfter p s result =
     (if sf_open flt p then (ReadFailed, result)
      else case sto_disk s p of
             None \<Rightarrow> (ReadFailed, result)
           | Some text \<Rightarrow> reverse_loop lib (sf_read flt p) from to match stopAfter text (length text) [] result)"

text \<open>\<open>limit\<close> is the caller's; values that are not positive mean 200.  The loop over the paths:\<close>

fun search_paths ::
    "store_lib \<Rightarrow> store_faults \<Rightarrow> gotime \<Rightarrow> gotime \<Rightarrow> matcher \<Rightarrow> nat \<Rightarrow> log_store \<Rightarrow> log_path list \<Rightarrow> log_event list
       \<Rightarrow> log_event list \<times> bool" where
  "search_paths lib flt from before match limit s [] result = (result, False)"
| "search_paths lib flt from before match limit s (p # ps) result =
     (let r = readFileReverse lib flt from before match (limit + 1) p s result
      in if fst r = ReadFailed then search_paths lib flt from before match limit s ps (snd r)
         else if fst r = More \<or> length (snd r) > limit then (take limit (snd r), True)
         else search_paths lib flt from before match limit s ps (snd r))"

definition searchBefore ::
    "store_lib \<Rightarrow> store_faults \<Rightarrow> gotime \<Rightarrow> chunk_key list \<Rightarrow> string \<Rightarrow> string \<Rightarrow> string \<Rightarrow> gotime \<Rightarrow> int \<Rightarrow> matcher
       \<Rightarrow> log_store \<Rightarrow> store_error + log_event list \<times> bool" where
  "searchBefore lib flt now ks h cid ident before0 limit0 match s0 =
     (let limit = (if limit0 \<le> 0 then 200 else limit0);
          before = (if IsZero before0 then now else before0);
          from = before - retentionDays * 24 * Hour
      in case openDB lib flt (syncForRead lib flt now s0) of
           Inl e \<Rightarrow> Inl e
         | Inr s \<Rightarrow>
             (if sf_query flt then Inl DBError
              else let rows = matching s (\<lambda>k r. belongs h cid ident k r \<and> day_of from \<le> snd (snd k)
                                \<and> snd (snd k) \<le> day_of before \<and> cr_first_ts r < UnixMilli before) ks
                   in Inr (search_paths lib flt from before match (nat limit) s
                        (paths_by (\<lambda>rs. - Max (cr_last_ts ` set rs)) rows) [])))"

definition SearchBefore ::
    "store_lib \<Rightarrow> store_faults \<Rightarrow> gotime \<Rightarrow> chunk_key list \<Rightarrow> string \<Rightarrow> string \<Rightarrow> gotime \<Rightarrow> int \<Rightarrow> matcher
       \<Rightarrow> log_store \<Rightarrow> store_error + log_event list \<times> bool" where
  "SearchBefore lib flt now ks h cid before limit match s = searchBefore lib flt now ks h cid [] before limit match s"

definition SearchBeforeForContainer ::
    "store_lib \<Rightarrow> store_faults \<Rightarrow> gotime \<Rightarrow> chunk_key list \<Rightarrow> container \<Rightarrow> gotime \<Rightarrow> int \<Rightarrow> matcher
       \<Rightarrow> log_store \<Rightarrow> store_error + log_event list \<times> bool" where
  "SearchBeforeForContainer lib flt now ks c before limit match s =
     searchBefore lib flt now ks (c_Host c) (c_ID c) (LogIdentity c) before limit match s"

definition previousChunkRange ::
    "store_lib \<Rightarrow> store_faults \<Rightarrow> gotime \<Rightarrow> chunk_key list \<Rightarrow> string \<Rightarrow> string \<Rightarrow> string \<Rightarrow> gotime \<Rightarrow> log_store
       \<Rightarrow> store_error + (gotime \<times> gotime) option" where
  "previousChunkRange lib flt now ks h cid ident before0 s0 =
     (let before = (if IsZero before0 then now else before0);
          from = before - retentionDays * 24 * Hour
      in case openDB lib flt (syncForRead lib flt now s0) of
           Inl e \<Rightarrow> Inl e
         | Inr s \<Rightarrow>
             (if sf_query flt then Inl DBError
              else case rev (sort_key cr_last_ts (matching s (\<lambda>k r. belongs h cid ident k r
                          \<and> day_of from \<le> snd (snd k) \<and> snd (snd k) \<le> day_of before
                          \<and> cr_last_ts r < UnixMilli before) ks)) of
                     [] \<Rightarrow> Inr None
                   | r # _ \<Rightarrow> Inr (Some (time_UnixMilli (cr_first_ts r), time_UnixMilli (cr_last_ts r)))))"

definition PreviousChunkRange ::
    "store_lib \<Rightarrow> store_faults \<Rightarrow> gotime \<Rightarrow> chunk_key list \<Rightarrow> string \<Rightarrow> string \<Rightarrow> gotime \<Rightarrow> log_store
       \<Rightarrow> store_error + (gotime \<times> gotime) option" where
  "PreviousChunkRange lib flt now ks h cid before s = previousChunkRange lib flt now ks h cid [] before s"

definition PreviousChunkRangeForContainer ::
    "store_lib \<Rightarrow> store_faults \<Rightarrow> gotime \<Rightarrow> chunk_key list \<Rightarrow> container \<Rightarrow> gotime \<Rightarrow> log_store
       \<Rightarrow> store_error + (gotime \<times> gotime) option" where
  "PreviousChunkRangeForContainer lib flt now ks c before s =
     previousChunkRange lib flt now ks (c_Host c) (c_ID c) (LogIdentity c) before s"

subsection \<open>A small store\<close>

definition demo_event :: "int \<Rightarrow> log_event" where
  "demo_event ts = \<lparr>le_Type = LogTypeSingle, le_Message = MString ''up'', le_RawMessage = ''up'', le_Timestamp = ts,
     le_Id = 1, le_Level = ''info'', le_Stream = ''stdout'', le_ContainerID = ''web''\<rparr>"

definition demo_codec :: store_lib where
  "demo_codec = \<lparr>encode_event = (\<lambda>ev. Some (if le_Timestamp ev = 1000 then ''a'' else ''b'')),
     decode_event = (\<lambda>t. if t = ''a'' then Some (demo_event 1000) else if t = ''b'' then Some (demo_event 2000) else None),
     encode_container = (\<lambda>_. None), decode_container = (\<lambda>_. None)\<rparr>"

definition demo_calm :: store_faults where
  "demo_calm = \<lparr>sf_openDB = False, sf_begin = False, sf_exec = (\<lambda>_. False), sf_commit = False, sf_query = False,
     sf_mkdir = (\<lambda>_. False), sf_open = (\<lambda>_. False), sf_write = (\<lambda>_. None), sf_remove = (\<lambda>_. False), sf_read = (\<lambda>_ _. False)\<rparr>"

definition demo_first :: log_store where
  "demo_first = snd (log_write demo_codec demo_calm ''h1'' (demo_event 1000) [] NewStore)"

definition demo_store :: log_store where
  "demo_store = snd (log_write demo_codec demo_calm ''h1'' (demo_event 2000) [] demo_first)"

definition demo_opened :: log_store where
  "demo_opened = projr (openDB demo_codec demo_calm (syncForRead demo_codec demo_calm 0 demo_store))"

lemmas demo_basics = demo_codec_def demo_calm_def demo_event_def NewStore_def log_write_def open_writer_def lastEventKey_def
  append_event_def add_delta_def filePath_def containerDir_def day_of_def time_UnixMilli_def Hour_def Second_def eventKey_def
  write_fails_def

lemma demo_first_eq:
  "demo_first = \<lparr>sto_disk = [(''h1'', ''web'', 0) \<mapsto> []], sto_writers = [(''h1'', ''web'', 0) \<mapsto> [CHR ''a'', newline]],
     sto_broken = (\<lambda>_. False), sto_recent = (\<lambda>_. None)((''h1'', ''web'', 0) := Some (eventKey (demo_event 1000))),
     sto_pending = [(''h1'', ''web'', 0) \<mapsto>
       \<lparr>dl_identity = [], dl_path = (''h1'', ''web'', 0), dl_firstTS = 1000, dl_lastTS = 1000, dl_lines = 1\<rparr>],
     sto_opened = False, sto_chunks = Map.empty, sto_cached = Map.empty\<rparr>"
  by (simp add: demo_first_def demo_basics newline_def TrimSpace_def Let_def fun_upd_idem)

lemma demo_store_eq:
  "demo_store = \<lparr>sto_disk = [(''h1'', ''web'', 0) \<mapsto> []], sto_writers = [(''h1'', ''web'', 0) \<mapsto> [CHR ''a'', newline, CHR ''b'', newline]],
     sto_broken = (\<lambda>_. False), sto_recent = (\<lambda>_. None)((''h1'', ''web'', 0) := Some (eventKey (demo_event 2000))),
     sto_pending = [(''h1'', ''web'', 0) \<mapsto>
       \<lparr>dl_identity = [], dl_path = (''h1'', ''web'', 0), dl_firstTS = 1000, dl_lastTS = 2000, dl_lines = 2\<rparr>],
     sto_opened = False, sto_chunks = Map.empty, sto_cached = Map.empty\<rparr>"
  by (simp add: demo_store_def demo_first_eq demo_basics newline_def TrimSpace_def Let_def)

lemma demo_opened_eq:
  "demo_opened = demo_store\<lparr>sto_disk := [(''h1'', ''web'', 0) \<mapsto> [CHR ''a'', newline, CHR ''b'', newline]],
     sto_writers := [(''h1'', ''web'', 0) \<mapsto> []], sto_pending := Map.empty, sto_opened := True,
     sto_chunks := [(''h1'', ''web'', 0) \<mapsto> \<lparr>cr_identity = [], cr_path = (''h1'', ''web'', 0), cr_first_ts = 1000,
       cr_last_ts = 2000, cr_lines = 2, cr_updated_at = 0\<rparr>]\<rparr>"
  and demo_opens: "openDB demo_codec demo_calm (syncForRead demo_codec demo_calm 0 demo_store) = Inr demo_opened"
  by (simp_all add: demo_opened_def demo_store_eq syncForRead_def store_flush_def flush_writer_def write_out_def flushIndex_def take_pending_def apply_pending_def
      openDB_def demo_calm_def migrateCachedIdentities_def upsert_chunk_def Unix_def fun_eq_iff)

lemma demo_codec_simps [simp]:
  "decode_event demo_codec ''a'' = Some (demo_event 1000)" "decode_event demo_codec ''b'' = Some (demo_event 2000)"
  "decode_event demo_codec ''?'' = None" "encode_event demo_codec (demo_event 1000) = Some ''a''"
  "encode_event demo_codec (demo_event 2000) = Some ''b''" "le_Timestamp (demo_event t) = t" "le_ContainerID (demo_event t) = ''web''"
  "TrimSpace ''a'' = ''a''" "TrimSpace ''b'' = ''b''" "TrimSpace ''?'' = ''?''"
  by (simp_all add: demo_codec_def demo_event_def TrimSpace_def is_space_def)

lemma demo_calm_simps [simp]:
  "\<not> sf_query demo_calm" "\<not> sf_open demo_calm p" "\<not> sf_read demo_calm p n" "\<not> sf_remove demo_calm p"
  by (simp_all add: demo_calm_def)

end
