(* ===== verification/LogStoreReads.thy ===== *)
theory LogStoreReads
  imports LogStore
begin

text \<open>
  The two ways of reading the log cache: the backwards search in blocks of 64 KiB is equivalent to reading
  all lines from the last to the first, and the forward reader loses what follows a broken line.
\<close>

subsection \<open>Splitting into lines\<close>

lemma split_on_append_any:
  "split_on d (a @ b) = butlast (split_on d a) @ (last (split_on d a) @ hd (split_on d b)) # tl (split_on d b)"
proof (induction a)
  case Nil
  then show ?case by (cases "split_on d b") (use split_on_nonempty [of d b] in auto)
next
  case (Cons x a)
  then show ?case by (cases "split_on d a") (use split_on_nonempty [of d a] in \<open>auto split: list.split\<close>)
qed

lemma split_on_append_plain:
  "d \<notin> set b \<Longrightarrow> split_on d (a @ b) = butlast (split_on d a) @ [last (split_on d a) @ b]"
  by (simp add: split_on_append_any split_on_plain)

lemma hd_split_no_sep: "d \<notin> set (hd (split_on d s))"
  by (rule split_on_no_sep [of _ d s]) simp

text \<open>Prepending a block only touches the first of the lines that were already there.\<close>

lemma split_block:
  assumes "parts = split_on d (buf @ hd (split_on d rest))"
  shows "hd parts = hd (split_on d (buf @ rest))" and "tl parts @ tl (split_on d rest) = tl (split_on d (buf @ rest))"
proof -
  have parts: "parts = butlast (split_on d buf) @ [last (split_on d buf) @ hd (split_on d rest)]"
    unfolding assms by (rule split_on_append_plain [OF hd_split_no_sep])
  have all: "split_on d (buf @ rest) = parts @ tl (split_on d rest)"
    by (simp add: parts split_on_append_any)
  have "parts \<noteq> []" by (simp add: parts)
  with all show "hd parts = hd (split_on d (buf @ rest))" "tl parts @ tl (split_on d rest) = tl (split_on d (buf @ rest))"
    by simp_all
qed

subsection \<open>Reference\<close>

definition lines_backwards :: "store_lib \<Rightarrow> gotime \<Rightarrow> gotime \<Rightarrow> matcher \<Rightarrow> string \<Rightarrow> log_event list" where
  "lines_backwards lib from to match data =
     List.map_filter (reverse_line lib from to match) (rev (split_on newline data))"

text \<open>Collecting until \<open>stopAfter\<close> results are there.\<close>

definition cut :: "nat \<Rightarrow> 'a list \<Rightarrow> bool \<times> 'a list" where
  "cut n xs = (n \<le> length xs, take n xs)"

lemma scan_lines_cut:
  assumes "length result < stopAfter"
  shows "scan_lines lib from to match stopAfter ls result
    = cut stopAfter (result @ List.map_filter (reverse_line lib from to match) ls)"
  using assms
proof (induction ls arbitrary: result)
  case Nil
  then show ?case by (simp add: cut_def List.map_filter_simps)
next
  case (Cons l ls)
  show ?case
  proof (cases "reverse_line lib from to match l")
    case None
    then show ?thesis using Cons by (simp add: decodeReverseLine_def List.map_filter_simps)
  next
    case (Some ev)
    show ?thesis
    proof (cases "length (result @ [ev]) < stopAfter")
      case True
      then show ?thesis using Cons.IH [OF True] Some by (simp add: decodeReverseLine_def List.map_filter_simps)
    next
      case False
      then have "Suc (length result) = stopAfter" using Cons.prems by simp
      then show ?thesis using Some by (auto simp: decodeReverseLine_def List.map_filter_simps cut_def)
    qed
  qed
qed

definition outcome :: "bool \<times> 'a list \<Rightarrow> reverse_outcome \<times> 'a list" where
  "outcome r = (if fst r then More else Done, snd r)"

lemma cut_append:
  assumes "\<not> n \<le> length xs"
  shows "cut n (xs @ ys) = cut n (snd (cut n xs) @ ys)"
  using assms by (simp add: cut_def)

lemma cut_full: "n \<le> length xs \<Longrightarrow> cut n (xs @ ys) = cut n xs"
  by (simp add: cut_def)

lemma reverse_loop_cut:
  assumes "\<And>n. \<not> bad n" and "pos \<le> length data" and "length result < stopAfter" and "newline \<notin> set pending"
  shows "reverse_loop lib bad from to match stopAfter data pos pending result
    = outcome (cut stopAfter (result @ List.map_filter (reverse_line lib from to match)
        (rev (split_on newline (take pos data @ pending)))))"
  using assms
proof (induction lib bad "from" to match stopAfter data pos pending result rule: reverse_loop.induct)
  case (1 lib bad lo hi match stopAfter data pos pending result)
  let ?f = "List.map_filter (reverse_line lib lo hi match)"
  show ?case
  proof (cases "pos > 0")
    case False
    then have "split_on newline (take pos data @ pending) = [pending]" using 1(5) by (simp add: split_on_plain)
    then show ?thesis using False 1(4)
      by (subst reverse_loop.simps)
        (auto simp: List.map_filter_simps decodeReverseLine_def reverse_line_def cut_def outcome_def Let_def
          split: option.splits if_splits)
  next
    case True
    define n where "n = (if pos < chunkSize then pos else chunkSize)"
    define pos1 where "pos1 = pos - n"
    define buf where "buf = take n (drop pos1 data)"
    define parts where "parts = split_on newline (buf @ pending)"
    define r where "r = scan_lines lib lo hi match stopAfter (rev (tl parts)) result"
    have n: "n \<le> pos" "pos1 \<le> length data" using True 1(3) by (simp_all add: n_def pos1_def)
    then have "take pos data = take pos1 data @ buf"
      using take_add [of pos1 n data] by (simp add: buf_def pos1_def)
    then have all: "split_on newline (take pos data @ pending)
        = split_on newline (take pos1 data @ hd parts) @ tl parts"
      using split_on_append_any [of newline "take pos1 data" "buf @ pending"]
        split_on_append_plain [OF hd_split_no_sep, of newline "take pos1 data" "buf @ pending"]
      by (simp add: parts_def)
    have r: "r = cut stopAfter (result @ ?f (rev (tl parts)))"
      unfolding r_def by (rule scan_lines_cut [OF 1(4)])
    have step: "reverse_loop lib bad lo hi match stopAfter data pos pending result
        = (if fst r then (More, snd r) else reverse_loop lib bad lo hi match stopAfter data pos1 (hd parts) (snd r))"
      using True 1(2) by (subst reverse_loop.simps) (simp add: Let_def n_def pos1_def buf_def parts_def r_def)
    show ?thesis
    proof (cases "fst r")
      case True
      then show ?thesis using step r by (simp add: all map_filter_append cut_full outcome_def) (simp add: cut_def)
    next
      case False
      then have sr: "snd r = result @ ?f (rev (tl parts))" "length (snd r) < stopAfter" using r by (auto simp: cut_def)
      have "newline \<notin> set (hd parts)" unfolding parts_def by (rule hd_split_no_sep)
      then have "reverse_loop lib bad lo hi match stopAfter data pos1 (hd parts) (snd r)
          = outcome (cut stopAfter (snd r @ ?f (rev (split_on newline (take pos1 data @ hd parts)))))"
        by (intro 1(1) [OF True n_def pos1_def buf_def parts_def r_def]) (use 1(2) n(2) sr False in blast)+
      then show ?thesis unfolding step sr(1) using False by (simp add: all map_filter_append)
    qed
  qed
qed

lemma readFileReverse_cut:
  assumes "sto_disk s p = Some data" and "\<not> sf_open flt p" and "\<And>n. \<not> sf_read flt p n" and "length result < stopAfter"
  shows "readFileReverse lib flt from to match stopAfter p s result
    = outcome (cut stopAfter (result @ lines_backwards lib from to match data))"
  using assms reverse_loop_cut [of "sf_read flt p" "length data" data result stopAfter "[]" lib "from" to match]
  by (simp add: readFileReverse_def lines_backwards_def)

definition readable :: "store_faults \<Rightarrow> log_store \<Rightarrow> log_path \<Rightarrow> bool" where
  "readable flt s p \<longleftrightarrow> (\<exists>data. sto_disk s p = Some data \<and> \<not> sf_open flt p \<and> (\<forall>n. \<not> sf_read flt p n))"

lemma search_paths_reference:
  assumes "list_all (readable flt s) ps"
    and "hits = concat (map (\<lambda>p. lines_backwards lib from before match (the (sto_disk s p))) ps)"
  shows "search_paths lib flt from before match limit s ps [] = (take limit hits, length hits > limit)"
proof -
  have "search_paths lib flt from before match limit s ps result
      = (take limit (result @ concat (map (\<lambda>p. lines_backwards lib from before match (the (sto_disk s p))) ps)),
         length (result @ concat (map (\<lambda>p. lines_backwards lib from before match (the (sto_disk s p))) ps)) > limit)"
    if "length result \<le> limit" for result
    using assms(1) that
  proof (induction ps arbitrary: result)
    case (Cons p ps)
    then obtain data where t: "sto_disk s p = Some data" "\<not> sf_open flt p" "\<And>n. \<not> sf_read flt p n" by (auto simp: readable_def)
    let ?all = "result @ lines_backwards lib from before match data"
    have r: "readFileReverse lib flt from before match (Suc limit) p s result = outcome (cut (Suc limit) ?all)"
      using readFileReverse_cut [OF t(1,2), of result "limit + 1" lib "from" before match] t(3) Cons.prems(2) by simp
    show ?case
    proof (cases "length ?all > limit")
      case True
      then show ?thesis using t(1) Cons.prems(2) by (auto simp: r outcome_def cut_def min_def)
    next
      case False
      then show ?thesis using Cons.IH [of ?all] Cons.prems(1) t(1) by (simp add: r outcome_def cut_def)
    qed
  qed simp
  from this [of "[]"] show ?thesis using assms(2) by simp
qed

text \<open>The files of a container that may hold events before a time, most recent first.\<close>

definition search_files :: "chunk_key list \<Rightarrow> string \<Rightarrow> string \<Rightarrow> string \<Rightarrow> gotime \<Rightarrow> log_store \<Rightarrow> log_path list" where
  "search_files ks h cid ident before s =
     paths_by (\<lambda>rs. - Max (cr_last_ts ` set rs))
       (matching s (\<lambda>k r. belongs h cid ident k r \<and> day_of (before - retentionDays * 24 * Hour) \<le> snd (snd k)
          \<and> snd (snd k) \<le> day_of before \<and> cr_first_ts r < UnixMilli before) ks)"

lemma searchBefore_reference:
  assumes "openDB lib flt (syncForRead lib flt now s0) = Inr s" and "\<not> sf_query flt"
    and "\<not> IsZero before" and "0 < limit"
    and "list_all (readable flt s) (search_files ks h cid ident before s)"
    and "hits = concat (map (\<lambda>p. lines_backwards lib (before - retentionDays * 24 * Hour) before match (the (sto_disk s p)))
                  (search_files ks h cid ident before s))"
  shows "searchBefore lib flt now ks h cid ident before limit match s0
    = Inr (take (nat limit) hits, length hits > nat limit)"
proof -
  have "search_paths lib flt (before - retentionDays * 24 * Hour) before match (nat limit) s
      (search_files ks h cid ident before s) [] = (take (nat limit) hits, length hits > nat limit)"
    by (rule search_paths_reference [OF assms(5,6)])
  then show ?thesis using assms(1-4) unfolding search_files_def by (simp add: searchBefore_def Let_def)
qed

text \<open>C34. Searching the cached logs backwards, in blocks of 64 KiB and stopping early, gives exactly the first
\<open>limit\<close> events of the reference that decodes all lines of the container's files from the last to the first,
and reports that there are more exactly when the reference has more.\<close>

theorem search_equals_reference:
  assumes "openDB lib flt (syncForRead lib flt now s0) = Inr s" and "\<not> sf_query flt"
    and "\<not> IsZero before" and "0 < limit"
    and "list_all (readable flt s) (search_files ks h cid ident before s)"
    and "hits = concat (map (\<lambda>p. lines_backwards lib (before - retentionDays * 24 * Hour) before match (the (sto_disk s p)))
                  (search_files ks h cid ident before s))"
  shows "searchBefore lib flt now ks h cid ident before limit match s0
    = Inr (take (nat limit) hits, length hits > nat limit)"
  by (rule searchBefore_reference [OF assms])

subsection \<open>Broken lines\<close>

lemma read_lines_append:
  "list_all (\<lambda>l. TrimSpace l = [] \<or> decode_event lib (TrimSpace l) \<noteq> None) good
    \<Longrightarrow> read_lines lib from to (good @ ls) = read_lines lib from to good @ read_lines lib from to ls"
  by (induction good) (auto simp: Let_def)

text \<open>One line that is not a log event, such as a line torn by a crash, hides everything written to the file
after it from the forward reader, while the backward search still finds it.\<close>

theorem broken_line_hides_rest:
  assumes "split_on newline data = good @ broken # later"
    and "list_all (\<lambda>l. TrimSpace l = [] \<or> decode_event lib (TrimSpace l) \<noteq> None) good"
    and "TrimSpace broken \<noteq> []" and "decode_event lib (TrimSpace broken) = None"
    and "sto_disk s p = Some data" and "\<not> sf_open flt p"
    and "line \<in> set later" and "reverse_line lib from to None line = Some ev"
  shows "readFile lib flt from to p s = read_lines lib from to good \<and> ev \<in> set (lines_backwards lib from to None data)"
proof -
  have "readFile lib flt from to p s = read_lines lib from to good"
    using assms read_lines_append [OF assms(2), of "from" to "broken # later"] by (simp add: readFile_def)
  moreover have "ev \<in> set (lines_backwards lib from to None data)"
    using assms(1,7,8) by (force simp: lines_backwards_def List.map_filter_def image_iff)
  ultimately show ?thesis by blast
qed

text \<open>The two lines of the sample store, found from the last to the first; with a limit of one there is more.\<close>

lemma demo_chars [simp]: "CHR ''a'' \<noteq> newline" "CHR ''b'' \<noteq> newline" "CHR ''?'' \<noteq> newline" "TrimSpace [] = []"
  by (simp_all add: newline_def TrimSpace_def)

lemma demo_hits:
  "search_files [(''h1'', ''web'', 0)] ''h1'' ''web'' [] (24 * Hour) demo_opened = [(''h1'', ''web'', 0)]"
  "lines_backwards demo_codec (24 * Hour - retentionDays * 24 * Hour) (24 * Hour) None
     (the (sto_disk demo_opened (''h1'', ''web'', 0))) = [demo_event 2000, demo_event 1000]"
   apply (simp add: search_files_def paths_by_def matching_def belongs_def demo_opened_eq List.map_filter_def day_of_def
      retentionDays_def Hour_def Second_def UnixMilli_def)
  apply (simp add: demo_opened_eq List.map_filter_def lines_backwards_def reverse_line_def time_UnixMilli_def
      retentionDays_def Hour_def Second_def)
  done

theorem search_equals_reference_witness:
  "searchBefore demo_codec demo_calm 0 [(''h1'', ''web'', 0)] ''h1'' ''web'' [] (24 * Hour) 1 None demo_store
     = Inr ([demo_event 2000], True)"
proof -
  let ?k = "[(''h1'', ''web'', 0)] :: chunk_key list"
  have "list_all (readable demo_calm demo_opened) (search_files ?k ''h1'' ''web'' [] (24 * Hour) demo_opened)"
    by (simp add: demo_hits) (simp add: readable_def demo_opened_eq)
  moreover have "\<not> IsZero (24 * Hour)" by (simp add: IsZero_def zero_time_def Hour_def Second_def)
  ultimately show ?thesis
    using search_equals_reference [OF demo_opens, of "24 * Hour" 1 ?k "''h1''" "''web''" "[]"
        "[demo_event 2000, demo_event 1000]" None] demo_hits by simp
qed

theorem broken_line_hides_rest_witness:
  "readFile demo_codec demo_calm 0 (24 * Hour) (''h1'', ''web'', 0)
     (demo_store\<lparr>sto_disk := [(''h1'', ''web'', 0) \<mapsto> [CHR ''a'', newline, CHR ''?'', newline, CHR ''b'']]\<rparr>) = [demo_event 1000]
   \<and> demo_event 2000 \<in> set (lines_backwards demo_codec 0 (24 * Hour) None [CHR ''a'', newline, CHR ''?'', newline, CHR ''b''])"
proof -
  have "reverse_line demo_codec 0 (24 * Hour) None ''b'' = Some (demo_event 2000)"
    "read_lines demo_codec 0 (24 * Hour) [''a''] = [demo_event 1000]"
    by (simp_all add: reverse_line_def time_UnixMilli_def Hour_def Second_def)
  then show ?thesis
    using broken_line_hides_rest [of "[CHR ''a'', newline, CHR ''?'', newline, CHR ''b'']" "[''a'']" "''?''" "[''b'']" demo_codec
        "demo_store\<lparr>sto_disk := [(''h1'', ''web'', 0) \<mapsto> [CHR ''a'', newline, CHR ''?'', newline, CHR ''b'']]\<rparr>"
        "(''h1'', ''web'', 0)" demo_calm "''b''" 0 "24 * Hour" "demo_event 2000"]
    by (simp del: read_lines.simps)
qed

end
