(* ===== verification/LogStoreWrites.thy ===== *)
theory LogStoreWrites
  imports LogStore "HOL-Library.Multiset"
begin

text \<open>
  What was written to the log cache is what is read back.  A ghost history holds the events that were
  accepted; writes, flushes, index flushes that fail or are overtaken by writes, and reopening are steps in
  any order.  The invariant ties the files and the index to the history.
\<close>

declare split_paired_All [simp del] split_paired_Ex [simp del]

subsection \<open>Histories\<close>

type_synonym written = "string \<times> log_event \<times> string"

definition w_path :: "written \<Rightarrow> log_path" where
  "w_path x = filePath (fst x) (le_ContainerID (fst (snd x))) (time_UnixMilli (le_Timestamp (fst (snd x))))"

definition w_key :: "written \<Rightarrow> chunk_key" where
  "w_key x = (fst x, le_ContainerID (fst (snd x)), day_of (time_UnixMilli (le_Timestamp (fst (snd x)))))"

definition w_ts :: "written \<Rightarrow> int" where "w_ts x = le_Timestamp (fst (snd x))"

definition key_path :: "chunk_key \<Rightarrow> log_path" where
  "key_path k = (fst (containerDir (fst k) (fst (snd k))), snd (containerDir (fst k) (fst (snd k))), snd (snd k))"

lemma key_path_w_key: "key_path (w_key x) = w_path x"
  by (simp add: key_path_def w_key_def w_path_def filePath_def)

text \<open>Whether a write adds a line.\<close>

definition accepts :: "store_lib \<Rightarrow> store_faults \<Rightarrow> string \<Rightarrow> log_event \<Rightarrow> log_store \<Rightarrow> bool" where
  "accepts lib flt h ev s \<longleftrightarrow>
     (let p = filePath h (le_ContainerID ev) (time_UnixMilli (le_Timestamp ev))
      in le_ContainerID ev \<noteq> [] \<and> encode_event lib ev \<noteq> None
         \<and> (case open_writer lib flt p s of
               Inl _ \<Rightarrow> False
             | Inr s1 \<Rightarrow> sto_recent s1 p \<noteq> Some (eventKey ev) \<and> \<not> write_fails flt p (the (encode_event lib ev) @ [newline]) s1))"

text \<open>\<open>sr_failed\<close> collects the files to which a write failed: accepted lines may be missing there.\<close>

record store_run =
  sr_store :: log_store
  sr_flights :: "(chunk_key \<rightharpoonup> chunk_delta) list"
  sr_written :: "written list"
  sr_failed :: "log_path set"

definition broken :: "log_store \<Rightarrow> log_path set" where
  "broken s = Collect (sto_broken s)"

inductive store_step :: "store_lib \<Rightarrow> store_run \<Rightarrow> store_run \<Rightarrow> bool" for lib where
  Wrote: "store_step lib (\<lparr>sr_store = s, sr_flights = fl, sr_written = H, sr_failed = F\<rparr>)
    (\<lparr>sr_store = snd (log_write lib flt h ev ident s), sr_flights = fl,
     sr_written = (if accepts lib flt h ev s then H @ [(h, ev, ident)] else H),
     sr_failed = F \<union> broken (snd (log_write lib flt h ev ident s))\<rparr>)"
| Flushed: "store_step lib (\<lparr>sr_store = s, sr_flights = fl, sr_written = H, sr_failed = F\<rparr>)
    (\<lparr>sr_store = store_flush flt s, sr_flights = fl, sr_written = H, sr_failed = F \<union> broken (store_flush flt s)\<rparr>)"
| Closed: "store_step lib (\<lparr>sr_store = s, sr_flights = fl, sr_written = H, sr_failed = F\<rparr>)
    (\<lparr>sr_store = closeAll flt s, sr_flights = fl, sr_written = H, sr_failed = F \<union> broken (store_flush flt s)\<rparr>)"
| Took: "store_step lib (\<lparr>sr_store = s, sr_flights = fl, sr_written = H, sr_failed = F\<rparr>)
    (\<lparr>sr_store = snd (take_pending s), sr_flights = fst (take_pending s) # fl, sr_written = H, sr_failed = F\<rparr>)"
| Applied: "store_step lib (\<lparr>sr_store = s, sr_flights = fl1 @ t # fl2, sr_written = H, sr_failed = F\<rparr>)
    (\<lparr>sr_store = apply_pending lib flt now t s, sr_flights = fl1 @ fl2, sr_written = H, sr_failed = F\<rparr>)"
| Recorded: "store_step lib (\<lparr>sr_store = s, sr_flights = fl, sr_written = H, sr_failed = F\<rparr>)
    (\<lparr>sr_store = snd (RecordContainer lib flt now c s), sr_flights = fl, sr_written = H, sr_failed = F\<rparr>)"

subsection \<open>The index\<close>

text \<open>What the index, the pending deltas and the flushes under way say of a chunk: path, first, last and number of lines.\<close>

type_synonym span = "log_path \<times> int \<times> int \<times> int"

definition row_span :: "chunk_row \<Rightarrow> span" where
  "row_span r = (cr_path r, cr_first_ts r, cr_last_ts r, cr_lines r)"

definition delta_span :: "chunk_delta \<Rightarrow> span" where
  "delta_span d = (dl_path d, dl_firstTS d, dl_lastTS d, dl_lines d)"

definition opt_list :: "'a option \<Rightarrow> 'a list" where
  "opt_list x = (case x of None \<Rightarrow> [] | Some y \<Rightarrow> [y])"

lemma opt_list_simps [simp]: "opt_list None = []" "opt_list (Some y) = [y]"
  by (simp_all add: opt_list_def)

definition spans :: "log_store \<Rightarrow> (chunk_key \<rightharpoonup> chunk_delta) list \<Rightarrow> chunk_key \<Rightarrow> span list" where
  "spans s fl k = opt_list (map_option row_span (sto_chunks s k)) @ opt_list (map_option delta_span (sto_pending s k))
     @ concat (map (\<lambda>t. opt_list (map_option delta_span (t k))) fl)"

definition span_ok :: "chunk_key \<Rightarrow> span \<Rightarrow> bool" where
  "span_ok k x \<longleftrightarrow> (case x of (p, a, b, n) \<Rightarrow> p = key_path k \<and> day_of (time_UnixMilli a) = snd (snd k)
     \<and> day_of (time_UnixMilli b) = snd (snd k) \<and> 1 \<le> n)"

definition covers :: "chunk_key \<Rightarrow> span list \<Rightarrow> int list \<Rightarrow> bool" where
  "covers k xs ts \<longleftrightarrow> list_all (span_ok k) xs \<and> (\<Sum>(p, a, b, n)\<leftarrow>xs. n) = int (length ts)
     \<and> (\<forall>t\<in>set ts. (\<exists>(p, a, b, n)\<in>set xs. a \<le> t) \<and> (\<exists>(p, a, b, n)\<in>set xs. t \<le> b))"

lemma covers_perm: "mset xs = mset ys \<Longrightarrow> covers k xs ts \<Longrightarrow> covers k ys ts"
proof -
  assume m: "mset xs = mset ys" and c: "covers k xs ts"
  from m have "set xs = set ys" by (rule mset_eq_setD)
  moreover have "(\<Sum>(p, a, b, n)\<leftarrow>xs. n) = (\<Sum>(p, a, b, n)\<leftarrow>ys. n)"
    using m by (metis mset_map sum_mset_sum_list)
  ultimately show ?thesis using c by (simp add: covers_def list_all_iff)
qed

lemma covers_merge:
  assumes "covers k ((p, a, b, n) # (p', a', b', n') # xs) ts"
  shows "covers k ((p, min a a', max b b', n + n') # xs) ts"
proof -
  have "span_ok k (p, min a a', max b b', n + n')"
    using assms by (auto simp: covers_def span_ok_def min_def max_def)
  then show ?thesis using assms by (auto simp: covers_def min_le_iff_disj le_max_iff_disj)
qed

lemma covers_add_new:
  assumes "covers k xs ts" and "day_of (time_UnixMilli t) = snd (snd k)"
  shows "covers k ((key_path k, t, t, 1) # xs) (ts @ [t])"
  using assms by (auto simp: covers_def span_ok_def)

lemma covers_swap: "covers k (x # xs @ y # ys) ts \<Longrightarrow> covers k (x # y # xs @ ys) ts"
  by (erule covers_perm [rotated]) simp

definition index_inv :: "log_store \<Rightarrow> (chunk_key \<rightharpoonup> chunk_delta) list \<Rightarrow> written list \<Rightarrow> bool" where
  "index_inv s fl H \<longleftrightarrow> (\<forall>k. covers k (spans s fl k) (map w_ts (filter (\<lambda>x. w_key x = k) H)))"

text \<open>Merging two spans of the same chunk.\<close>

definition join_span :: "span \<Rightarrow> span \<Rightarrow> span" where
  "join_span x y = (case (x, y) of ((p, a, b, n), (p', a', b', n')) \<Rightarrow> (p, min a a', max b b', n + n'))"

lemma covers_join: "covers k (x # y # xs) ts \<Longrightarrow> covers k (join_span x y # xs) ts"
  by (cases x; cases y) (auto simp: join_span_def intro: covers_merge)

subsection \<open>Steps keep the index in line\<close>

lemma index_inv_cong:
  assumes "\<And>k. map_option row_span (sto_chunks s' k) = map_option row_span (sto_chunks s k)" and "sto_pending s' = sto_pending s"
    and "index_inv s fl H"
  shows "index_inv s' fl H"
  using assms by (simp add: index_inv_def spans_def)

lemma open_writer_fields:
  assumes "open_writer lib flt p s = Inr s1"
  shows "sto_chunks s1 = sto_chunks s" "sto_pending s1 = sto_pending s" "sto_writers s1 p \<noteq> None" "sto_opened s1 = sto_opened s"
  using assms by (auto simp: open_writer_def Let_def split: option.splits if_splits)

lemma failed_write_fields [simp]:
  "sto_chunks (failed_write flt p line s) = sto_chunks s" "sto_pending (failed_write flt p line s) = sto_pending s"
  by (simp_all add: failed_write_def Let_def)

lemma newline_code: "[CHR 0x0A] = [newline]" by (simp add: newline_def)

lemma log_write_cases [consumes 1, case_names kept failed appended]:
  assumes "open_writer lib flt (filePath h (le_ContainerID ev) (time_UnixMilli (le_Timestamp ev))) s = Inr s1"
  obtains "snd (log_write lib flt h ev ident s) \<in> {s, s1}" "\<not> accepts lib flt h ev s"
  | line where "snd (log_write lib flt h ev ident s) = failed_write flt (filePath h (le_ContainerID ev) (time_UnixMilli (le_Timestamp ev))) line s1"
      "\<not> accepts lib flt h ev s" "write_fails flt (filePath h (le_ContainerID ev) (time_UnixMilli (le_Timestamp ev))) line s1"
  | data where "encode_event lib ev = Some data" "snd (log_write lib flt h ev ident s) = append_event h ev ident data s1"
      "accepts lib flt h ev s" "\<not> sto_broken s1 (filePath h (le_ContainerID ev) (time_UnixMilli (le_Timestamp ev)))"
proof -
  let ?p = "filePath h (le_ContainerID ev) (time_UnixMilli (le_Timestamp ev))"
  show thesis
  proof (cases "le_ContainerID ev = [] \<or> sto_recent s1 ?p = Some (eventKey ev) \<or> encode_event lib ev = None")
    case True
    then show thesis using assms that(1) by (auto simp: log_write_def accepts_def Let_def)
  next
    case False
    then obtain data where d: "encode_event lib ev = Some data" by auto
    show thesis
    proof (cases "write_fails flt ?p (data @ [newline]) s1")
      case True
      then show thesis using assms that(2) [of "data @ [newline]"] False d
        by (simp add: log_write_def accepts_def Let_def newline_code)
    next
      case nf: False
      then have "\<not> sto_broken s1 ?p" by (simp add: write_fails_def)
      then show thesis using nf assms that(3) [OF d] False d
        by (simp add: log_write_def accepts_def Let_def newline_code)
    qed
  qed
qed

lemma log_write_stays:
  assumes "open_writer lib flt (filePath h (le_ContainerID ev) (time_UnixMilli (le_Timestamp ev))) s = Inl e"
  shows "snd (log_write lib flt h ev ident s) = s" "\<not> accepts lib flt h ev s"
  using assms by (simp_all add: log_write_def accepts_def Let_def)

lemma index_inv_append:
  assumes "index_inv s fl H"
  shows "index_inv (append_event h ev ident data s) fl (H @ [(h, ev, ident)])"
proof -
  let ?x = "(h, ev, ident)" and ?s = "append_event h ev ident data s"
  have "covers k (spans ?s fl k) (map w_ts (filter (\<lambda>x. w_key x = k) (H @ [?x])))" for k
  proof (cases "w_key ?x = k")
    case False
    then have "spans ?s fl k = spans s fl k" by (auto simp: spans_def append_event_def w_key_def Let_def)
    then show ?thesis using False assms by (simp add: index_inv_def)
  next
    case True
    let ?t = "le_Timestamp ev" and ?rows = "opt_list (map_option row_span (sto_chunks s k))"
      and ?fls = "concat (map (\<lambda>t. opt_list (map_option delta_span (t k))) fl)"
    let ?ts = "map w_ts (filter (\<lambda>x. w_key x = k) H) @ [?t]"
    have day: "day_of (time_UnixMilli ?t) = snd (snd k)" and p: "filePath h (le_ContainerID ev) (time_UnixMilli ?t) = key_path k"
      using True by (auto simp: w_key_def key_path_def filePath_def)
    have "covers k ((key_path k, ?t, ?t, 1) # spans s fl k) ?ts"
      using assms by (intro covers_add_new day) (simp add: index_inv_def)
    then have c: "covers k ((key_path k, ?t, ?t, 1) # opt_list (map_option delta_span (sto_pending s k)) @ ?rows @ ?fls) ?ts"
      by (rule covers_perm [rotated]) (simp add: spans_def)
    have new: "sto_pending ?s k = Some (add_delta ident (key_path k) ?t (sto_pending s k))" "sto_chunks ?s = sto_chunks s"
      using True p by (auto simp: append_event_def w_key_def Let_def)
    have "covers k (delta_span (add_delta ident (key_path k) ?t (sto_pending s k)) # ?rows @ ?fls) ?ts"
    proof (cases "sto_pending s k")
      case None
      then show ?thesis using c by (simp add: add_delta_def delta_span_def)
    next
      case (Some d)
      then have "covers k (join_span (key_path k, ?t, ?t, 1) (delta_span d) # ?rows @ ?fls) ?ts"
        using c covers_join by simp
      then show ?thesis using Some by (simp add: add_delta_def delta_span_def join_span_def min.commute max.commute add.commute)
    qed
    then have "covers k (spans ?s fl k) ?ts"
      by (rule covers_perm [rotated]) (simp add: spans_def new)
    then show ?thesis using True by (simp add: w_ts_def)
  qed
  then show ?thesis by (simp add: index_inv_def)
qed

lemma log_write_index:
  assumes "index_inv s fl H"
  shows "index_inv (snd (log_write lib flt h ev ident s)) fl (if accepts lib flt h ev s then H @ [(h, ev, ident)] else H)"
proof (cases "open_writer lib flt (filePath h (le_ContainerID ev) (time_UnixMilli (le_Timestamp ev))) s")
  case (Inl e)
  then show ?thesis using log_write_stays [OF Inl] assms by simp
next
  case (Inr s1)
  have i: "index_inv s1 fl H" using assms open_writer_fields [OF Inr] by (intro index_inv_cong [of s1 s]) simp_all
  from Inr show ?thesis
  proof (cases rule: log_write_cases [where ident = ident])
    case kept
    then show ?thesis using assms i by auto
  next
    case (failed line)
    then show ?thesis using index_inv_cong [OF _ _ i, of "failed_write flt (filePath h (le_ContainerID ev) (time_UnixMilli (le_Timestamp ev))) line s1"]
      by simp
  next
    case (appended data)
    then show ?thesis using index_inv_append [OF i] by simp
  qed
qed

lemma migrate_spans: "map_option row_span (sto_chunks (migrateCachedIdentities lib s) k) = map_option row_span (sto_chunks s k)"
  by (cases k) (auto simp: migrateCachedIdentities_def row_span_def option.map_comp comp_def
      intro!: option.map_cong split: option.split)

lemma openDB_index:
  assumes "openDB lib flt s = Inr s1"
  shows "map_option row_span (sto_chunks s1 k) = map_option row_span (sto_chunks s k)" "sto_pending s1 = sto_pending s"
    "sto_disk s1 = sto_disk s" "sto_writers s1 = sto_writers s" "sto_broken s1 = sto_broken s"
  using assms migrate_spans [of lib s k]
  by (auto simp: openDB_def migrateCachedIdentities_def split: if_splits)

lemma index_inv_restore:
  assumes "index_inv s (fl1 @ t # fl2) H"
  shows "index_inv (restore_pending t s) (fl1 @ fl2) H"
proof -
  have "covers k (spans (restore_pending t s) (fl1 @ fl2) k) ts" if c: "covers k (spans s (fl1 @ t # fl2) k) ts" for k ts
  proof (cases "t k")
    case None
    then show ?thesis using c by (simp add: spans_def restore_pending_def)
  next
    case (Some d)
    let ?rest = "opt_list (map_option row_span (sto_chunks s k)) @ concat (map (\<lambda>t. opt_list (map_option delta_span (t k))) (fl1 @ fl2))"
    have "covers k (opt_list (map_option delta_span (sto_pending s k)) @ delta_span d # ?rest) ts"
      using c Some by (elim covers_perm [rotated]) (simp add: spans_def)
    then have "covers k (delta_span (merge_back d (sto_pending s k)) # ?rest) ts"
    proof (cases "sto_pending s k")
      case (Some n)
      then show ?thesis using \<open>covers k (opt_list _ @ _) ts\<close> covers_join [of k "delta_span n" "delta_span d" ?rest ts]
        by (simp add: merge_back_def join_span_def delta_span_def)
    qed (simp add: merge_back_def)
    then show ?thesis using Some by (elim covers_perm [rotated]) (simp add: spans_def restore_pending_def)
  qed
  then show ?thesis using assms by (simp add: index_inv_def)
qed

lemma index_inv_upsert:
  assumes "index_inv s (fl1 @ t # fl2) H"
    and "s' = s\<lparr>sto_chunks := (\<lambda>k. case t k of None \<Rightarrow> sto_chunks s k | Some d \<Rightarrow> Some (upsert_chunk now d (sto_chunks s k)))\<rparr>"
  shows "index_inv s' (fl1 @ fl2) H"
proof -
  have "covers k (spans s' (fl1 @ fl2) k) ts" if c: "covers k (spans s (fl1 @ t # fl2) k) ts" for k ts
  proof (cases "t k")
    case None
    then show ?thesis using c by (simp add: spans_def assms(2))
  next
    case (Some d)
    let ?rest = "opt_list (map_option delta_span (sto_pending s k)) @ concat (map (\<lambda>t. opt_list (map_option delta_span (t k))) (fl1 @ fl2))"
    have c': "covers k (delta_span d # opt_list (map_option row_span (sto_chunks s k)) @ ?rest) ts"
      using c Some by (elim covers_perm [rotated]) (simp add: spans_def)
    have "covers k (row_span (upsert_chunk now d (sto_chunks s k)) # ?rest) ts"
    proof (cases "sto_chunks s k")
      case None
      then show ?thesis using c' by (simp add: upsert_chunk_def row_span_def delta_span_def)
    next
      case (Some r)
      then show ?thesis using c' covers_join [of k "delta_span d" "row_span r" ?rest ts]
        by (simp add: upsert_chunk_def join_span_def delta_span_def row_span_def min.commute max.commute add.commute)
    qed
    then show ?thesis using Some by (simp add: spans_def assms(2))
  qed
  then show ?thesis using assms(1) by (simp add: index_inv_def)
qed

lemma apply_pending_index:
  assumes "index_inv s (fl1 @ t # fl2) H"
  shows "index_inv (apply_pending lib flt now t s) (fl1 @ fl2) H"
proof (cases "openDB lib flt s")
  case (Inl e)
  then show ?thesis using index_inv_restore [OF assms] by (simp add: apply_pending_def)
next
  case (Inr s1)
  then have "index_inv s1 (fl1 @ t # fl2) H"
    using openDB_index [OF Inr] assms by (intro index_inv_cong [of s1 s]) simp_all
  then show ?thesis using Inr index_inv_restore index_inv_upsert by (auto simp: apply_pending_def)
qed

subsection \<open>The files\<close>

definition w_line :: "store_lib \<Rightarrow> written \<Rightarrow> string" where
  "w_line lib x = the (encode_event lib (fst (snd x))) @ [newline]"

definition visible :: "log_store \<Rightarrow> log_path \<Rightarrow> string" where
  "visible s p = (case sto_disk s p of None \<Rightarrow> [] | Some t \<Rightarrow> t) @ (case sto_writers s p of None \<Rightarrow> [] | Some b \<Rightarrow> b)"

definition files_inv :: "store_lib \<Rightarrow> log_store \<Rightarrow> written list \<Rightarrow> log_path set \<Rightarrow> bool" where
  "files_inv lib s H F \<longleftrightarrow> (\<forall>p. p \<notin> F \<longrightarrow> visible s p = concat (map (w_line lib) (filter (\<lambda>x. w_path x = p) H)))
     \<and> (\<forall>p. sto_writers s p \<noteq> None \<longrightarrow> sto_disk s p \<noteq> None) \<and> broken s \<subseteq> F"

lemma files_inv_cong:
  "sto_disk s' = sto_disk s \<Longrightarrow> sto_writers s' = sto_writers s \<Longrightarrow> sto_broken s' = sto_broken s \<Longrightarrow> files_inv lib s H F \<Longrightarrow> files_inv lib s' H F"
  by (simp add: files_inv_def visible_def broken_def)

lemma files_inv_more: "files_inv lib s H F \<Longrightarrow> files_inv lib s H (F \<union> broken s)"
  by (auto simp: files_inv_def)

lemma files_inv_open:
  assumes "files_inv lib s H F" and "open_writer lib flt p s = Inr s1"
  shows "files_inv lib s1 H F"
proof -
  have "visible s1 q = visible s q" for q
    using assms(2) by (auto simp: open_writer_def visible_def Let_def split: option.splits if_splits)
  moreover have "\<forall>q. sto_writers s1 q \<noteq> None \<longrightarrow> sto_disk s1 q \<noteq> None" "broken s1 \<subseteq> F"
    using assms by (auto simp: files_inv_def open_writer_def broken_def Let_def split: option.splits if_splits)
  ultimately show ?thesis using assms(1) by (simp add: files_inv_def)
qed

lemma files_inv_append:
  assumes "files_inv lib s H F" and "encode_event lib ev = Some data"
    and "sto_writers s (filePath h (le_ContainerID ev) (time_UnixMilli (le_Timestamp ev))) = Some b"
  shows "files_inv lib (append_event h ev ident data s) (H @ [(h, ev, ident)]) F"
proof -
  let ?x = "(h, ev, ident)" and ?s = "append_event h ev ident data s"
  have w: "sto_writers ?s = (sto_writers s)(w_path ?x \<mapsto> b @ w_line lib ?x)" "sto_disk ?s = sto_disk s" "sto_broken ?s = sto_broken s"
    using assms(2,3) by (simp_all add: append_event_def w_path_def w_line_def Let_def newline_def)
  have b: "sto_writers s (w_path ?x) = Some b" using assms(3) by (simp add: w_path_def)
  have "visible ?s p = concat (map (w_line lib) (filter (\<lambda>x. w_path x = p) (H @ [?x])))" if "p \<notin> F" for p
  proof -
    have old: "visible s p = concat (map (w_line lib) (filter (\<lambda>x. w_path x = p) H))"
      using assms(1) that unfolding files_inv_def by blast
    show ?thesis
    proof (cases "w_path ?x = p")
      case True
      then show ?thesis using old [unfolded visible_def] b w by (simp add: visible_def)
    qed (use old w in \<open>auto simp: visible_def\<close>)
  qed
  moreover have "\<forall>p. sto_writers ?s p \<noteq> None \<longrightarrow> sto_disk ?s p \<noteq> None" "broken ?s \<subseteq> F"
    using assms(1) b w by (auto simp: files_inv_def broken_def)
  ultimately show ?thesis by (simp add: files_inv_def)
qed

lemma files_inv_failed:
  assumes "files_inv lib s H F" and "write_fails flt p line s" and "sto_writers s p \<noteq> None"
  shows "files_inv lib (failed_write flt p line s) H (F \<union> broken (failed_write flt p line s))"
proof (cases "sto_broken s p")
  case True
  then show ?thesis using files_inv_more [OF assms(1)] by (simp add: failed_write_def)
next
  case False
  then show ?thesis using assms
    by (auto simp: files_inv_def failed_write_def broken_def visible_def Let_def)
qed

lemma log_write_files:
  assumes "files_inv lib s H F"
  shows "files_inv lib (snd (log_write lib flt h ev ident s)) (if accepts lib flt h ev s then H @ [(h, ev, ident)] else H)
    (F \<union> broken (snd (log_write lib flt h ev ident s)))"
proof (cases "open_writer lib flt (filePath h (le_ContainerID ev) (time_UnixMilli (le_Timestamp ev))) s")
  case (Inl e)
  then show ?thesis using log_write_stays [OF Inl] files_inv_more [OF assms] by simp
next
  case (Inr s1)
  note f = files_inv_open [OF assms Inr]
  obtain b where b: "sto_writers s1 (filePath h (le_ContainerID ev) (time_UnixMilli (le_Timestamp ev))) = Some b"
    using open_writer_fields(3) [OF Inr] by auto
  from Inr show ?thesis
  proof (cases rule: log_write_cases [where ident = ident])
    case kept
    then show ?thesis using files_inv_more [OF assms] files_inv_more [OF f] by auto
  next
    case (failed line)
    then show ?thesis using files_inv_failed [OF f failed(3)] b by simp
  next
    case (appended data)
    then show ?thesis using files_inv_more [OF files_inv_append [OF f appended(1) b]] by simp
  qed
qed

lemma flush_visible:
  assumes "files_inv lib s H F"
  shows "visible (store_flush flt s) p = visible s p"
proof (cases "sto_disk s p")
  case None
  then have "sto_writers s p = None" using assms by (metis files_inv_def)
  then show ?thesis using None by (simp add: visible_def store_flush_def)
qed (auto simp: visible_def store_flush_def flush_writer_def write_out_def split: option.split)

lemma files_inv_flush:
  assumes "files_inv lib s H F"
  shows "files_inv lib (store_flush flt s) H (F \<union> broken (store_flush flt s))"
    and "files_inv lib (closeAll flt s) H (F \<union> broken (store_flush flt s))"
proof -
  have sub: "\<forall>p. sto_writers s p \<noteq> None \<longrightarrow> sto_disk s p \<noteq> None" using assms by (simp add: files_inv_def)
  have "visible (closeAll flt s) p = visible (store_flush flt s) p" if "p \<notin> broken (store_flush flt s)" for p
    using that by (auto simp: visible_def closeAll_def store_flush_def flush_writer_def write_out_def broken_def split: option.splits if_splits)
  moreover have "\<forall>p. sto_writers (store_flush flt s) p \<noteq> None \<longrightarrow> sto_disk (store_flush flt s) p \<noteq> None"
    using sub by (simp add: store_flush_def)
  moreover have "\<forall>p. sto_writers (closeAll flt s) p = None" "broken (closeAll flt s) = {}" by (simp_all add: closeAll_def broken_def)
  ultimately show "files_inv lib (store_flush flt s) H (F \<union> broken (store_flush flt s))"
    "files_inv lib (closeAll flt s) H (F \<union> broken (store_flush flt s))"
    using assms flush_visible [OF assms] by (simp_all add: files_inv_def)
qed

lemma apply_pending_files:
  "sto_disk (apply_pending lib flt now t s) = sto_disk s" "sto_writers (apply_pending lib flt now t s) = sto_writers s"
  "sto_broken (apply_pending lib flt now t s) = sto_broken s"
  by (cases "openDB lib flt s"; simp add: apply_pending_def restore_pending_def openDB_index)+

definition run_inv :: "store_lib \<Rightarrow> store_run \<Rightarrow> bool" where
  "run_inv lib r \<longleftrightarrow> index_inv (sr_store r) (sr_flights r) (sr_written r) \<and> files_inv lib (sr_store r) (sr_written r) (sr_failed r)"

lemma record_keeps:
  "map_option row_span (sto_chunks (snd (RecordContainer lib flt now c s)) k) = map_option row_span (sto_chunks s k)"
  "sto_pending (snd (RecordContainer lib flt now c s)) = sto_pending s"
  "sto_disk (snd (RecordContainer lib flt now c s)) = sto_disk s" "sto_writers (snd (RecordContainer lib flt now c s)) = sto_writers s"
  "sto_broken (snd (RecordContainer lib flt now c s)) = sto_broken s"
  by (cases "openDB lib flt s"; simp add: RecordContainer_def Let_def openDB_index split: option.split)+

lemma run_inv_step: "store_step lib r r' \<Longrightarrow> run_inv lib r \<Longrightarrow> run_inv lib r'"
proof (induction rule: store_step.induct)
  case (Wrote s fl H F flt h ev ident)
  then show ?case
    using log_write_index [of s fl H lib flt h ev ident] log_write_files [of lib s H F flt h ev ident]
    by (simp add: run_inv_def)
next
  case (Flushed s fl H F flt)
  then show ?case using files_inv_flush index_inv_cong [of "store_flush flt s" s fl H]
    by (simp add: run_inv_def) (simp add: store_flush_def)
next
  case (Closed s fl H F flt)
  then show ?case using files_inv_flush index_inv_cong [of "closeAll flt s" s fl H]
    by (simp add: run_inv_def) (simp add: store_flush_def closeAll_def)
next
  case (Took s fl H F)
  have "covers k (spans (snd (take_pending s)) (fst (take_pending s) # fl) k) ts" if "covers k (spans s fl k) ts" for k ts
    using that by (elim covers_perm [rotated]) (simp add: spans_def take_pending_def)
  then show ?case using Took files_inv_cong [of "snd (take_pending s)" s lib H F]
    by (simp add: run_inv_def index_inv_def) (simp add: take_pending_def)
next
  case (Applied s fl1 t fl2 H F flt now)
  then show ?case
    using apply_pending_index [of s fl1 t fl2 H lib flt now] files_inv_cong [of "apply_pending lib flt now t s" s lib H F]
    by (simp add: run_inv_def apply_pending_files)
next
  case (Recorded s fl H F flt now c)
  then show ?case
    using index_inv_cong [of "snd (RecordContainer lib flt now c s)" s fl H] files_inv_cong [of "snd (RecordContainer lib flt now c s)" s lib H F]
    by (simp add: run_inv_def record_keeps)
qed

definition fresh_run :: store_run where
  "fresh_run = \<lparr>sr_store = NewStore, sr_flights = [], sr_written = [], sr_failed = {}\<rparr>"

lemma run_inv_reachable: "(store_step lib)\<^sup>*\<^sup>* fresh_run r \<Longrightarrow> run_inv lib r"
proof (induction rule: rtranclp_induct)
  case base
  then show ?case
    by (simp add: run_inv_def fresh_run_def index_inv_def covers_def spans_def files_inv_def visible_def broken_def NewStore_def)
qed (rule run_inv_step)

subsection \<open>Reading back\<close>

definition no_faults :: "store_faults \<Rightarrow> bool" where
  "no_faults flt \<longleftrightarrow> \<not> sf_openDB flt \<and> \<not> sf_begin flt \<and> \<not> sf_commit flt \<and> \<not> sf_query flt
     \<and> (\<forall>k. \<not> sf_exec flt k) \<and> (\<forall>p. \<not> sf_open flt p) \<and> (\<forall>p. sf_write flt p = None)"

lemma apply_clean:
  assumes "no_faults flt"
  shows "sto_pending (apply_pending lib flt now t s) = sto_pending s"
proof (cases "openDB lib flt s")
  case (Inl e)
  then show ?thesis using assms by (simp add: openDB_def no_faults_def split: if_splits)
next
  case (Inr s1)
  then show ?thesis using assms openDB_index(2) [OF Inr] by (simp add: apply_pending_def no_faults_def)
qed

lemma flush_breaks_nothing: "no_faults flt \<Longrightarrow> broken (store_flush flt s) \<subseteq> broken s"
  by (auto simp: broken_def store_flush_def flush_writer_def write_out_def no_faults_def split: option.splits if_splits)

text \<open>A flush that succeeds leaves nothing pending and keeps the invariant.\<close>

lemma sync_run_inv:
  assumes "run_inv lib \<lparr>sr_store = s, sr_flights = [], sr_written = H, sr_failed = F\<rparr>" and "no_faults flt"
    and "openDB lib flt (syncForRead lib flt now s) = Inr s'"
  shows "run_inv lib \<lparr>sr_store = s', sr_flights = [], sr_written = H, sr_failed = F\<rparr>" and "sto_pending s' = Map.empty"
    and "\<forall>p b. p \<notin> F \<longrightarrow> sto_writers s' p = Some b \<longrightarrow> b = []"
proof -
  let ?f = "store_flush flt s" and ?s1 = "syncForRead lib flt now s"
  have F: "F \<union> broken ?f = F" "broken s \<subseteq> F"
    using flush_breaks_nothing [OF assms(2), of s] assms(1) by (auto simp: run_inv_def files_inv_def)
  have f: "run_inv lib \<lparr>sr_store = ?f, sr_flights = [], sr_written = H, sr_failed = F\<rparr>"
    using run_inv_step [OF store_step.Flushed assms(1), of flt] F(1) by simp
  have s1: "run_inv lib \<lparr>sr_store = ?s1, sr_flights = [], sr_written = H, sr_failed = F\<rparr> \<and> sto_pending ?s1 = Map.empty
      \<and> sto_writers ?s1 = sto_writers ?f"
  proof (cases "sto_pending ?f = Map.empty")
    case True
    then show ?thesis using f by (simp add: syncForRead_def flushIndex_def)
  next
    case False
    let ?t = "fst (take_pending ?f)" and ?g = "snd (take_pending ?f)"
    have "run_inv lib \<lparr>sr_store = ?g, sr_flights = [?t], sr_written = H, sr_failed = F\<rparr>"
      by (rule run_inv_step [OF store_step.Took f])
    from run_inv_step [OF store_step.Applied [of lib ?g "[]" ?t "[]" H F flt now]] this
    have "run_inv lib \<lparr>sr_store = apply_pending lib flt now ?t ?g, sr_flights = [], sr_written = H, sr_failed = F\<rparr>" by simp
    moreover have "?s1 = apply_pending lib flt now ?t ?g"
      using False by (simp add: syncForRead_def flushIndex_def case_prod_beta)
    ultimately show ?thesis using apply_clean [OF assms(2), of lib now ?t ?g]
      by (simp add: apply_pending_files) (simp add: take_pending_def)
  qed
  then show "run_inv lib \<lparr>sr_store = s', sr_flights = [], sr_written = H, sr_failed = F\<rparr>"
    using index_inv_cong [of s' ?s1] files_inv_cong [of s' ?s1] openDB_index [OF assms(3)] by (simp add: run_inv_def)
  show "sto_pending s' = Map.empty" using s1 openDB_index(2) [OF assms(3)] by simp
  have "sto_writers ?f p = Some b \<Longrightarrow> p \<notin> F \<Longrightarrow> b = []" for p b
    using assms(2) F(2) by (auto simp: store_flush_def flush_writer_def write_out_def no_faults_def broken_def split: option.splits if_splits)
  then show "\<forall>p b. p \<notin> F \<longrightarrow> sto_writers s' p = Some b \<longrightarrow> b = []"
    using s1 openDB_index(4) [OF assms(3)] by simp
qed

lemma index_complete:
  assumes "index_inv s [] H" and "sto_pending s = Map.empty" and "x \<in> set H"
  shows "\<exists>r. sto_chunks s (w_key x) = Some r \<and> cr_path r = w_path x \<and> cr_first_ts r \<le> w_ts x \<and> w_ts x \<le> cr_last_ts r
    \<and> cr_lines r = int (length (filter (\<lambda>y. w_key y = w_key x) H))"
proof -
  have "covers (w_key x) (opt_list (map_option row_span (sto_chunks s (w_key x))))
      (map w_ts (filter (\<lambda>y. w_key y = w_key x) H))"
    using assms(1,2) by (simp add: index_inv_def spans_def)
  moreover have "w_ts x \<in> set (map w_ts (filter (\<lambda>y. w_key y = w_key x) H))" using assms(3) by auto
  ultimately show ?thesis
    by (cases "sto_chunks s (w_key x)") (auto simp: covers_def row_span_def span_ok_def key_path_w_key)
qed

lemma index_sound:
  assumes "index_inv s [] H" and "sto_pending s = Map.empty" and "sto_chunks s k = Some r"
  shows "cr_path r = key_path k" and "\<exists>x\<in>set H. w_key x = k"
    and "day_of (time_UnixMilli (cr_last_ts r)) = snd (snd k)"
proof -
  have c: "covers k [row_span r] (map w_ts (filter (\<lambda>y. w_key y = k) H))"
    using assms by (auto simp: index_inv_def spans_def dest!: spec [of _ k])
  then show "cr_path r = key_path k" "day_of (time_UnixMilli (cr_last_ts r)) = snd (snd k)"
    by (simp_all add: covers_def row_span_def span_ok_def)
  from c have "filter (\<lambda>y. w_key y = k) H \<noteq> []"
    by (auto simp: covers_def row_span_def span_ok_def)
  then show "\<exists>x\<in>set H. w_key x = k" by (auto simp: filter_empty_conv)
qed

text \<open>C29. However writes, flushes, failed index flushes and writes that overtake a flush interleave, once no other flush is under way and one
succeeds, the index has a row for every chunk that was written, with the right file, a time span that covers
every line and the exact number of lines: no line is lost from the index and none is counted twice.\<close>

theorem index_accounts_for_every_line:
  assumes "(store_step lib)\<^sup>*\<^sup>* fresh_run \<lparr>sr_store = s, sr_flights = [], sr_written = H, sr_failed = F\<rparr>" and "no_faults flt"
    and "openDB lib flt (syncForRead lib flt now s) = Inr s'" and "x \<in> set H"
  shows "\<exists>r. sto_chunks s' (w_key x) = Some r \<and> cr_path r = w_path x
    \<and> cr_first_ts r \<le> w_ts x \<and> w_ts x \<le> cr_last_ts r
    \<and> cr_lines r = int (length (filter (\<lambda>y. w_key y = w_key x) H))"
  using sync_run_inv [OF run_inv_reachable [OF assms(1)] assms(2,3)] index_complete assms(4)
  by (simp add: run_inv_def)

definition faithful :: "store_lib \<Rightarrow> log_event \<Rightarrow> bool" where
  "faithful lib ev \<longleftrightarrow> (case encode_event lib ev of
     None \<Rightarrow> False
   | Some t \<Rightarrow> newline \<notin> set t \<and> TrimSpace t = t \<and> t \<noteq> []
       \<and> (case decode_event lib t of None \<Rightarrow> False | Some ev' \<Rightarrow> le_Timestamp ev' = le_Timestamp ev))"

definition reread :: "store_lib \<Rightarrow> written \<Rightarrow> log_event" where
  "reread lib x = the (decode_event lib (the (encode_event lib (fst (snd x)))))"

definition in_range :: "gotime \<Rightarrow> gotime \<Rightarrow> written \<Rightarrow> bool" where
  "in_range from to x \<longleftrightarrow> from \<le> time_UnixMilli (w_ts x) \<and> time_UnixMilli (w_ts x) \<le> to"

lemma read_written:
  assumes "\<forall>x\<in>set xs. faithful lib (fst (snd x))"
  shows "read_lines lib from to (split_on newline (concat (map (w_line lib) xs))) = map (reread lib) (filter (in_range from to) xs)"
  using assms
proof (induction xs)
  case (Cons x xs)
  obtain t ev' where t: "encode_event lib (fst (snd x)) = Some t" "newline \<notin> set t" "TrimSpace t = t" "t \<noteq> []"
    "decode_event lib t = Some ev'" "le_Timestamp ev' = w_ts x"
    using Cons.prems by (auto simp: faithful_def w_ts_def split: option.splits)
  have "split_on newline (concat (map (w_line lib) (x # xs))) = t # split_on newline (concat (map (w_line lib) xs))"
    using split_on_append [OF t(2)] by (simp add: w_line_def t)
  then show ?case using Cons t by (auto simp: in_range_def reread_def Let_def)
qed simp

definition container_files :: "string \<Rightarrow> string \<Rightarrow> gotime \<Rightarrow> gotime \<Rightarrow> written list \<Rightarrow> log_path set" where
  "container_files h cid from to H =
     w_path ` {x \<in> set H. fst x = h \<and> le_ContainerID (fst (snd x)) = cid \<and> day_of from \<le> snd (snd (w_key x)) \<and> snd (snd (w_key x)) \<le> day_of to}"

lemma matching_set:
  "enumerates ks (sto_chunks s) \<Longrightarrow> set (matching s P ks) = {r. \<exists>k. sto_chunks s k = Some r \<and> P k r}"
  by (force simp: matching_def enumerates_def List.map_filter_def split: option.splits if_splits)

lemma readFile_written:
  assumes "files_inv lib s H F" and "\<forall>p b. p \<notin> F \<longrightarrow> sto_writers s p = Some b \<longrightarrow> b = []" and "\<not> sf_open flt p" and "p \<notin> F"
    and faith: "\<forall>x\<in>set H. faithful lib (fst (snd x))"
  shows "readFile lib flt from to p s = map (reread lib) (filter (in_range from to) (filter (\<lambda>x. w_path x = p) H))"
proof -
  have "visible s p = (case sto_disk s p of None \<Rightarrow> [] | Some t \<Rightarrow> t)"
    using assms(2,4) by (auto simp: visible_def split: option.splits)
  moreover have "visible s p = concat (map (w_line lib) (filter (\<lambda>x. w_path x = p) H))"
    using assms(1,4) by (simp add: files_inv_def)
  moreover have "w_line lib x \<noteq> []" for x by (simp add: w_line_def)
  ultimately show ?thesis
    using read_written [of "filter (\<lambda>x. w_path x = p) H" lib "from" to] assms(3) faith
    by (cases "sto_disk s p") (auto simp: readFile_def)
qed

text \<open>The files a query visits are those of the lines the container wrote on the days of the range.\<close>

lemma visited_files:
  assumes "index_inv s [] H" and "sto_pending s = Map.empty" and "enumerates ks (sto_chunks s)"
  shows "cr_path ` set (matching s (\<lambda>k r. belongs h cid [] k r \<and> day_of lo \<le> snd (snd k) \<and> snd (snd k) \<le> day_of hi) ks)
    = container_files h cid lo hi H" (is "?L = ?R")
proof (intro equalityI subsetI)
  fix p assume "p \<in> ?L"
  then obtain k r where k: "sto_chunks s k = Some r" "fst k = h" "fst (snd k) = cid" "day_of lo \<le> snd (snd k)"
    "snd (snd k) \<le> day_of hi" "p = cr_path r"
    by (auto simp: matching_set [OF assms(3)] belongs_def)
  then obtain x where x: "x \<in> set H" "w_key x = k" using index_sound [OF assms(1,2) k(1)] by blast
  then have "p = w_path x" using index_sound(1) [OF assms(1,2) k(1)] k(6) key_path_w_key by metis
  then show "p \<in> ?R" using x k by (auto simp: container_files_def w_key_def)
next
  fix p assume "p \<in> ?R"
  then obtain x where x: "x \<in> set H" "fst (w_key x) = h" "fst (snd (w_key x)) = cid"
    "day_of lo \<le> snd (snd (w_key x))" "snd (snd (w_key x)) \<le> day_of hi" "p = w_path x"
    by (auto simp: container_files_def w_key_def)
  then obtain r where "sto_chunks s (w_key x) = Some r" "cr_path r = w_path x"
    using index_complete [OF assms(1,2)] by blast
  then show "p \<in> ?L" using x
    by (intro image_eqI [of _ _ r]) (auto simp: matching_set [OF assms(3)] belongs_def)
qed

text \<open>C32. After any interleaving of writes, flushes and failing operations that leaves no flush of the index under way, and as long as retention has not run, a
query by dates visits exactly the files of the lines that were accepted for the container on those days, each once; when no write to these files ever
failed, it returns exactly the accepted lines in the range, those of a file in the order they were written, none missing and none twice.\<close>

theorem written_logs_read_back:
  assumes "(store_step lib)\<^sup>*\<^sup>* fresh_run \<lparr>sr_store = s, sr_flights = [], sr_written = H, sr_failed = F\<rparr>" and "no_faults flt"
    and "openDB lib flt (syncForRead lib flt now s) = Inr s'" and "enumerates ks (sto_chunks s')"
    and "\<forall>x\<in>set H. faithful lib (fst (snd x))"
  shows "\<exists>ps. distinct ps \<and> set ps = container_files h cid lo hi H
    \<and> store_LogsBetweenDates lib flt now ks h cid lo hi s = Inr (concat (map (\<lambda>p. readFile lib flt lo hi p s') ps))
    \<and> (container_files h cid lo hi H \<inter> F = {} \<longrightarrow> store_LogsBetweenDates lib flt now ks h cid lo hi s
        = Inr (concat (map (\<lambda>p. map (reread lib) (filter (in_range lo hi) (filter (\<lambda>x. w_path x = p) H))) ps)))"
proof -
  note inv = sync_run_inv [OF run_inv_reachable [OF assms(1)] assms(2,3)]
  let ?rows = "matching s' (\<lambda>k r. belongs h cid [] k r \<and> day_of lo \<le> snd (snd k) \<and> snd (snd k) \<le> day_of hi) ks"
  let ?ps = "paths_by (\<lambda>rs. Min (cr_first_ts ` set rs)) ?rows"
  have read: "readFile lib flt lo hi p s' = map (reread lib) (filter (in_range lo hi) (filter (\<lambda>x. w_path x = p) H))" if "p \<notin> F" for p
    using readFile_written [of lib s' H F flt p] inv assms(2,5) that by (simp add: run_inv_def no_faults_def)
  have q: "store_LogsBetweenDates lib flt now ks h cid lo hi s = Inr (concat (map (\<lambda>p. readFile lib flt lo hi p s') ?ps))"
    using assms(2,3) by (simp add: store_LogsBetweenDates_def logsBetweenDates_def no_faults_def)
  moreover have "distinct ?ps" by (simp add: paths_by_def)
  moreover have set: "set ?ps = container_files h cid lo hi H"
    using visited_files [OF _ inv(2) assms(4), of H h cid lo hi] inv(1) by (simp add: paths_by_def run_inv_def)
  moreover have "store_LogsBetweenDates lib flt now ks h cid lo hi s
      = Inr (concat (map (\<lambda>p. map (reread lib) (filter (in_range lo hi) (filter (\<lambda>x. w_path x = p) H))) ?ps))"
    if "container_files h cid lo hi H \<inter> F = {}"
  proof -
    have "map (\<lambda>p. readFile lib flt lo hi p s') ?ps
        = map (\<lambda>p. map (reread lib) (filter (in_range lo hi) (filter (\<lambda>x. w_path x = p) H))) ?ps"
      using read set that by (intro map_cong refl) blast
    then show ?thesis unfolding q by (simp only:)
  qed
  ultimately show ?thesis by blast
qed

text \<open>A flush that fails is not reported: the line it loses was accepted, the index counts it, and no query returns it.\<close>

definition torn_faults :: store_faults where
  "torn_faults = demo_calm\<lparr>sf_write := (\<lambda>_. Some 0)\<rparr>"

lemma lost_line:
  "accepts demo_codec demo_calm ''h1'' (demo_event 1000) NewStore
    \<and> store_LogsBetweenDates demo_codec demo_calm 0 [(''h1'', ''web'', 0)] ''h1'' ''web'' 0 (24 * Hour) (store_flush torn_faults demo_first) = Inr []"
proof -
  have "accepts demo_codec demo_calm ''h1'' (demo_event 1000) NewStore"
    by (simp add: accepts_def demo_basics Let_def TrimSpace_def newline_def writerSize_def)
  moreover have "sto_disk (projr (openDB demo_codec demo_calm (syncForRead demo_codec demo_calm 0 (store_flush torn_faults demo_first)))) (''h1'', ''web'', 0) = Some []"
    by (simp add: demo_first_eq torn_faults_def store_flush_def flush_writer_def write_out_def syncForRead_def flushIndex_def take_pending_def
        apply_pending_def openDB_def demo_calm_def migrateCachedIdentities_def)
  ultimately show ?thesis
    by (simp add: store_LogsBetweenDates_def logsBetweenDates_def demo_first_eq torn_faults_def store_flush_def flush_writer_def write_out_def
        syncForRead_def flushIndex_def take_pending_def apply_pending_def openDB_def demo_calm_def migrateCachedIdentities_def upsert_chunk_def
        matching_def belongs_def day_of_def Hour_def Second_def paths_by_def readFile_def List.map_filter_simps)
qed

subsection \<open>Retention\<close>

lemma stale_by_day:
  "day_of (time_UnixMilli (cr_last_ts r)) = d \<Longrightarrow> stale_chunk now r \<longleftrightarrow> d < cutoff_day now"
  by (auto simp: stale_chunk_def day_of_def time_UnixMilli_def Hour_def Second_def)

lemma cleanup_index_disk:
  "sto_disk (cleanup_index flt now s) p =
     (if \<exists>k\<in>dom (sto_chunks s). (case sto_chunks s k of None \<Rightarrow> False | Some r \<Rightarrow> stale_chunk now r)
        \<and> cr_path (the (sto_chunks s k)) = p \<and> \<not> sf_remove flt p then None else sto_disk s p)"
  by (simp add: cleanup_index_def Let_def)

text \<open>Retention removes by age and nothing else: after any interleaving of writes and flushes, a cleanup that
meets no fault leaves exactly the files and index rows of the last four days and the current one.\<close>

theorem retention_is_exact:
  assumes "(store_step lib)\<^sup>*\<^sup>* fresh_run \<lparr>sr_store = s, sr_flights = [], sr_written = H, sr_failed = F\<rparr>" and "no_faults flt"
    and "openDB lib flt (syncForRead lib flt now s) = Inr s'" and "\<not> sf_remove flt p"
  shows "sto_disk (store_cleanup lib flt now s) p = (if snd (snd p) < day_of now - 4 then None else sto_disk s' p)
    \<and> sto_chunks (store_cleanup lib flt now s) k = (if snd (snd k) < day_of now - 4 then None else sto_chunks s' k)"
proof (rule conjI)
  note inv = sync_run_inv [OF run_inv_reachable [OF assms(1)] assms(2,3)]
  have idx: "index_inv s' [] H" using inv(1) by (simp add: run_inv_def)
  have cut: "day_of now - 4 = cutoff_day now" by (simp add: cutoff_day_def retentionDays_def)
  have c: "store_cleanup lib flt now s = cleanup_files flt now (cleanup_index flt now s')"
    using assms(2,3) by (simp add: store_cleanup_def no_faults_def)
  have stale: "stale_chunk now r \<longleftrightarrow> snd (snd k) < cutoff_day now"
    and path: "cr_path r = key_path k" if "sto_chunks s' k = Some r" for k r
    using index_sound [OF idx inv(2) that] stale_by_day by auto
  have gone: "\<exists>k\<in>dom (sto_chunks s'). (case sto_chunks s' k of None \<Rightarrow> False | Some r \<Rightarrow> stale_chunk now r)
      \<and> cr_path (the (sto_chunks s' k)) = p \<and> \<not> sf_remove flt p \<Longrightarrow> snd (snd p) < cutoff_day now"
  proof -
    assume "\<exists>k\<in>dom (sto_chunks s'). (case sto_chunks s' k of None \<Rightarrow> False | Some r \<Rightarrow> stale_chunk now r)
      \<and> cr_path (the (sto_chunks s' k)) = p \<and> \<not> sf_remove flt p"
    then obtain k r where "sto_chunks s' k = Some r" "stale_chunk now r" "cr_path r = p"
      by (auto split: option.splits)
    then show ?thesis using stale [of k r] path [of k r] by (auto simp: key_path_def)
  qed
  show "sto_disk (store_cleanup lib flt now s) p = (if snd (snd p) < day_of now - 4 then None else sto_disk s' p)"
  proof (cases "snd (snd p) < cutoff_day now")
    case True
    then show ?thesis using assms(4) by (simp add: c cleanup_files_def cut)
  next
    case False
    then have "\<not> (\<exists>k\<in>dom (sto_chunks s'). (case sto_chunks s' k of None \<Rightarrow> False | Some r \<Rightarrow> stale_chunk now r)
      \<and> cr_path (the (sto_chunks s' k)) = p \<and> \<not> sf_remove flt p)" using gone by blast
    then have "sto_disk (cleanup_index flt now s') p = sto_disk s' p" by (simp only: cleanup_index_disk if_False)
    then show ?thesis using False by (simp add: c cleanup_files_def cut)
  qed
  show "sto_chunks (store_cleanup lib flt now s) k = (if snd (snd k) < day_of now - 4 then None else sto_chunks s' k)"
    using stale [of k] by (cases "sto_chunks s' k") (simp_all add: c cleanup_files_def cleanup_index_def Let_def cut)
qed

subsection \<open>The theorems at work\<close>

lemma demo_run:
  "(store_step demo_codec)\<^sup>*\<^sup>* fresh_run \<lparr>sr_store = demo_store, sr_flights = [],
     sr_written = [(''h1'', demo_event 1000, []), (''h1'', demo_event 2000, [])], sr_failed = {}\<rparr>"
proof -
  have a: "accepts demo_codec demo_calm ''h1'' (demo_event 1000) NewStore"
    by (simp add: accepts_def demo_basics Let_def TrimSpace_def)
  have b: "accepts demo_codec demo_calm ''h1'' (demo_event 2000) demo_first"
    by (simp add: accepts_def demo_first_eq demo_basics Let_def)
  have none: "broken demo_first = {}" "broken demo_store = {}" by (simp_all add: broken_def demo_first_eq demo_store_eq)
  have "store_step demo_codec fresh_run \<lparr>sr_store = demo_first, sr_flights = [], sr_written = [(''h1'', demo_event 1000, [])], sr_failed = {}\<rparr>"
    using store_step.Wrote [of demo_codec NewStore "[]" "[]" "{}" demo_calm "''h1''" "demo_event 1000" "[]"] a none(1)
    by (simp add: fresh_run_def demo_first_def)
  moreover have "store_step demo_codec \<lparr>sr_store = demo_first, sr_flights = [], sr_written = [(''h1'', demo_event 1000, [])], sr_failed = {}\<rparr>
      \<lparr>sr_store = demo_store, sr_flights = [], sr_written = [(''h1'', demo_event 1000, []), (''h1'', demo_event 2000, [])], sr_failed = {}\<rparr>"
    using store_step.Wrote [of demo_codec demo_first "[]" "[(''h1'', demo_event 1000, [])]" "{}" demo_calm "''h1''" "demo_event 2000" "[]"] b none(2)
    by (simp add: demo_store_def)
  ultimately show ?thesis by (meson rtranclp.rtrancl_refl rtranclp.rtrancl_into_rtrancl)
qed

lemma demo_no_faults: "no_faults demo_calm"
  by (simp add: no_faults_def demo_calm_def)

theorem index_accounts_for_every_line_witness:
  "\<exists>r. sto_chunks demo_opened (''h1'', ''web'', 0) = Some r \<and> cr_path r = (''h1'', ''web'', 0)
     \<and> cr_first_ts r \<le> 1000 \<and> 1000 \<le> cr_last_ts r \<and> cr_lines r = 2"
  using index_accounts_for_every_line [OF demo_run demo_no_faults demo_opens, of "(''h1'', demo_event 1000, [])"]
  by (simp add: w_key_def w_path_def w_ts_def demo_event_def time_UnixMilli_def day_of_def Hour_def Second_def
      filePath_def containerDir_def)

theorem written_logs_read_back_witness:
  "store_LogsBetweenDates demo_codec demo_calm 0 [(''h1'', ''web'', 0)] ''h1'' ''web'' 0 (24 * Hour) demo_store
     = Inr [demo_event 1000, demo_event 2000]"
proof -
  let ?H = "[(''h1'', demo_event 1000, []), (''h1'', demo_event 2000, [])] :: written list"
  have "enumerates [(''h1'', ''web'', 0)] (sto_chunks demo_opened)"
    by (simp add: enumerates_def demo_opened_eq)
  moreover have f: "\<forall>x\<in>set ?H. faithful demo_codec (fst (snd x))"
    by (simp add: faithful_def newline_def)
  ultimately obtain ps where ps: "distinct ps" "set ps = container_files ''h1'' ''web'' 0 (24 * Hour) ?H"
    "store_LogsBetweenDates demo_codec demo_calm 0 [(''h1'', ''web'', 0)] ''h1'' ''web'' 0 (24 * Hour) demo_store
      = Inr (concat (map (\<lambda>p. map (reread demo_codec) (filter (in_range 0 (24 * Hour)) (filter (\<lambda>x. w_path x = p) ?H))) ps))"
    using written_logs_read_back [OF demo_run demo_no_faults demo_opens, of "[(''h1'', ''web'', 0)]" "''h1''" "''web''" 0 "24 * Hour"]
    by (metis Int_empty_right)
  have w: "w_path (''h1'', demo_event 1000, []) = (''h1'', ''web'', 0)" "w_path (''h1'', demo_event 2000, []) = (''h1'', ''web'', 0)"
    "snd (snd (w_key (''h1'', demo_event 1000, []))) = 0" "snd (snd (w_key (''h1'', demo_event 2000, []))) = 0"
    by (simp_all add: w_path_def w_key_def demo_event_def time_UnixMilli_def day_of_def Hour_def Second_def filePath_def containerDir_def)
  have "container_files ''h1'' ''web'' 0 (24 * Hour) ?H = {(''h1'', ''web'', 0)}"
    by (auto simp: container_files_def w day_of_def Hour_def Second_def
        intro!: image_eqI [of _ _ "(''h1'', demo_event 1000, [])"])
  then have "ps = [(''h1'', ''web'', 0)]" using ps(1,2)
    by (cases ps) (auto simp: singleton_insert_inj_eq' subset_singleton_iff)
  then show ?thesis using ps(3)
    by (simp add: w) (simp add: in_range_def w_ts_def reread_def demo_event_def demo_codec_def time_UnixMilli_def Hour_def Second_def)
qed

theorem retention_is_exact_witness:
  "sto_disk (store_cleanup demo_codec demo_calm 0 demo_store) (''h1'', ''web'', 0) = Some [CHR ''a'', newline, CHR ''b'', newline]"
  using retention_is_exact [OF demo_run demo_no_faults demo_opens, of "(''h1'', ''web'', 0)" "(''h1'', ''web'', 0)"]
  by (simp add: demo_opened_eq demo_calm_def day_of_def)

end
