(* ===== verification/ContainerStore.thy ===== *)
theory ContainerStore
  imports ContainerTypes
begin

text \<open>
  The container store of \<open>internal/container/container_store.go\<close> and its volume monitor
  (\<open>volume_monitor.go\<close>): the containers of one engine, kept up to date by its events.

  The engine is seen through its answers during a call (\<open>engine_view\<close>).  A context is a number; \<open>gone\<close> says
  which contexts are cancelled.  A channel is the list of what was sent on it, and a subscriber is always
  ready to receive.  Labels are \<open>None\<close> when the Go map is nil, since \<open>reflect.DeepEqual\<close> tells a nil map from an
  empty one.  Containers are values: copies made by the code share their statistics buffer, which only the
  copy in the store is used to update.  The order in which a map is visited is a list of its keys.
\<close>

subsection \<open>Data\<close>

type_synonym label_arg = "container_labels option"

definition label_map :: "label_arg \<Rightarrow> container_labels" where
  "label_map l = (case l of None \<Rightarrow> Map.empty | Some m \<Rightarrow> m)"

definition labels_Exists :: "label_arg \<Rightarrow> bool" where
  "labels_Exists l \<longleftrightarrow> label_map l \<noteq> Map.empty"

record engine_view =
  eng_List :: "container_labels \<Rightarrow> container list option"
  eng_Find :: "string \<Rightarrow> container option"

record container_store_event = container_event +
  ev_Container :: "container option"

record volume_tracker =
  vt_lastWriteTotal :: "64 word"
  vt_lastCheckNanos :: int

record volume_monitor =
  vm_queue :: "string list"
  vm_pending :: "string set"
  vm_trackers :: "string \<rightharpoonup> volume_tracker"

record container_store =
  cs_containers :: "string \<rightharpoonup> container"
  cs_subscribers :: "nat \<rightharpoonup> container_store_event list"
  cs_newSubscribers :: "nat \<rightharpoonup> container list"
  cs_monitor :: volume_monitor
  cs_connected :: bool
  cs_labels :: label_arg

datatype cstore_error = ClientFailed | ErrContainerNotFound

definition newVolumeMonitor :: volume_monitor where
  "newVolumeMonitor = \<lparr>vm_queue = [], vm_pending = {}, vm_trackers = Map.empty\<rparr>"

text \<open>The store before its goroutine has run.\<close>

definition NewContainerStore :: "label_arg \<Rightarrow> container_store" where
  "NewContainerStore labels = \<lparr>cs_containers = Map.empty, cs_subscribers = Map.empty, cs_newSubscribers = Map.empty,
     cs_monitor = newVolumeMonitor, cs_connected = False, cs_labels = labels\<rparr>"

definition key_by_ID :: "container list \<Rightarrow> string \<rightharpoonup> container" where
  "key_by_ID l = fold (\<lambda>c m. m(c_ID c \<mapsto> c)) l Map.empty"

text \<open>\<open>Compute\<close> with an update of the entry that is there, and nothing when there is none.\<close>

definition compute_loaded :: "string \<Rightarrow> (container \<Rightarrow> container) \<Rightarrow> container_store \<Rightarrow> container_store" where
  "compute_loaded i f s = s\<lparr>cs_containers := (cs_containers s)(i := map_option f (cs_containers s i))\<rparr>"

subsection \<open>Subscribers\<close>

definition broadcast :: "(nat \<Rightarrow> bool) \<Rightarrow> container_store_event \<Rightarrow> container_store \<Rightarrow> container_store" where
  "broadcast gone ev s =
     s\<lparr>cs_subscribers := (\<lambda>ctx. case cs_subscribers s ctx of
                                 None \<Rightarrow> None
                               | Some sent \<Rightarrow> if gone ctx then None else Some (sent @ [ev]))\<rparr>"

definition announce :: "(nat \<Rightarrow> bool) \<Rightarrow> container \<Rightarrow> container_store \<Rightarrow> container_store" where
  "announce gone c s =
     s\<lparr>cs_newSubscribers := (\<lambda>ctx. map_option (\<lambda>sent. if gone ctx then sent else sent @ [c]) (cs_newSubscribers s ctx))\<rparr>"

definition SubscribeEvents :: "nat \<Rightarrow> container_store \<Rightarrow> container_store" where
  "SubscribeEvents ctx s = s\<lparr>cs_subscribers := (cs_subscribers s)(ctx \<mapsto> [])\<rparr>"

definition SubscribeNewContainers :: "nat \<Rightarrow> container_store \<Rightarrow> container_store" where
  "SubscribeNewContainers ctx s = s\<lparr>cs_newSubscribers := (cs_newSubscribers s)(ctx \<mapsto> [])\<rparr>"

text \<open>What the goroutines of \<open>SubscribeEvents\<close> and \<open>SubscribeNewContainers\<close> do when the context ends.\<close>

definition unsubscribe :: "nat \<Rightarrow> container_store \<Rightarrow> container_store" where
  "unsubscribe ctx s = s\<lparr>cs_subscribers := (cs_subscribers s)(ctx := None),
     cs_newSubscribers := (cs_newSubscribers s)(ctx := None)\<rparr>"

text \<open>
  \<open>Start\<close> of the stats collector blocks while it runs and returns true once it was stopped: then the
  statistics of every container are cleared.
\<close>

definition clear_one :: "container_store \<Rightarrow> string \<Rightarrow> go_panic + container_store" where
  "clear_one s i =
     (case cs_containers s i of
        None \<Rightarrow> Inr s
      | Some c \<Rightarrow>
          (case c_Stats c of
             None \<Rightarrow> Inl NilDereference
           | Some b \<Rightarrow> Inr (s\<lparr>cs_containers := (cs_containers s)(i \<mapsto> c\<lparr>c_Stats := Some (Clear b)\<rparr>)\<rparr>)))"

definition collector_stopped :: "string list \<Rightarrow> container_store \<Rightarrow> go_panic + container_store" where
  "collector_stopped ks s = foldE clear_one s ks"

subsection \<open>Connecting\<close>

text \<open>The fetches run in parallel; each stores under the identifier of its own container.\<close>

definition fetch_full :: "engine_view \<Rightarrow> container \<Rightarrow> (string \<rightharpoonup> container) \<Rightarrow> (string \<rightharpoonup> container)" where
  "fetch_full eng c m = (case eng_Find eng (c_ID c) of None \<Rightarrow> m | Some c' \<Rightarrow> m(c_ID c \<mapsto> c'))"

definition checkConnectivity :: "engine_view \<Rightarrow> container_store \<Rightarrow> cstore_error option \<times> container_store" where
  "checkConnectivity eng s =
     (if cs_connected s then (None, s)
      else let s1 = s\<lparr>cs_connected := True\<rparr>
           in case eng_List eng (label_map (cs_labels s)) of
                None \<Rightarrow> (Some ClientFailed, s1)
              | Some l \<Rightarrow>
                  (None, s1\<lparr>cs_containers :=
                     fold (fetch_full eng) (filter (\<lambda>c. c_State c \<noteq> ''exited'' \<and> \<not> c_FullyLoaded c) l) (key_by_ID l)\<rparr>))"

text \<open>The goroutine that waits for \<open>ContainerEvents\<close> to return.\<close>

definition disconnected :: "container_store \<Rightarrow> container_store" where
  "disconnected s = s\<lparr>cs_connected := False\<rparr>"

definition mergeListedContainer :: "container \<Rightarrow> container \<Rightarrow> container" where
  "mergeListedContainer cur listed =
     cur\<lparr>c_Name := c_Name listed, c_Image := c_Image listed, c_Command := c_Command listed,
         c_Created := c_Created listed, c_StartedAt := c_StartedAt listed, c_FinishedAt := c_FinishedAt listed,
         c_State := (if c_State cur = [] then c_State listed else c_State cur),
         c_Health := (if c_Health cur = [] then c_Health listed else c_Health cur),
         c_Host := c_Host listed, c_Labels := c_Labels listed, c_MemoryLimit := c_MemoryLimit listed,
         c_CPULimit := c_CPULimit listed, c_Group := c_Group listed\<rparr>"

definition syncContainers :: "(string \<rightharpoonup> container) \<Rightarrow> container_store \<Rightarrow> container_store" where
  "syncContainers valid s =
     s\<lparr>cs_containers := (\<lambda>i. case valid i of
          None \<Rightarrow> None
        | Some listed \<Rightarrow> (case cs_containers s i of
                            None \<Rightarrow> Some listed
                          | Some cur \<Rightarrow> Some (mergeListedContainer cur listed)))\<rparr>"

definition store_ListContainers ::
    "engine_view \<Rightarrow> string list \<Rightarrow> label_arg \<Rightarrow> container_store \<Rightarrow> (cstore_error + container list) \<times> container_store" where
  "store_ListContainers eng ks labels s =
     (case checkConnectivity eng s of
        (Some e, s1) \<Rightarrow> (Inl e, s1)
      | (None, s1) \<Rightarrow>
          (case eng_List eng (label_map labels) of
             None \<Rightarrow> (Inl ClientFailed, s1)
           | Some l \<Rightarrow>
               (let valid = key_by_ID l;
                    s2 = (if labels = cs_labels s1 then syncContainers valid s1 else s1)
                in (Inr (filter (\<lambda>c. labels_Exists labels \<longrightarrow> valid (c_ID c) \<noteq> None) (List.map_filter (cs_containers s2) ks)), s2))))"

definition update_event :: "string \<Rightarrow> gotime \<Rightarrow> container \<Rightarrow> container_store_event" where
  "update_event i t c = \<lparr>ev_Name = ''update'', ev_Host = c_Host c, ev_ActorID = i, ev_ActorAttributes = Map.empty,
     ev_Time = t, ev_Container = Some c\<rparr>"

definition store_FindContainer ::
    "engine_view \<Rightarrow> (nat \<Rightarrow> bool) \<Rightarrow> string \<Rightarrow> label_arg \<Rightarrow> container_store \<Rightarrow> (cstore_error + container) \<times> container_store" where
  "store_FindContainer eng gone i labels s =
     (let access = (if labels_Exists labels
                    then (case eng_List eng (label_map labels) of
                            None \<Rightarrow> Some ClientFailed
                          | Some l \<Rightarrow> if key_by_ID l i = None then Some ErrContainerNotFound else None)
                    else None)
      in case access of
           Some e \<Rightarrow> (Inl e, s)
         | None \<Rightarrow>
             (case cs_containers s i of
                None \<Rightarrow> (Inl ErrContainerNotFound, s)
              | Some c \<Rightarrow>
                  (if c_FullyLoaded c then (Inr c, s)
                   else case eng_Find eng i of
                          None \<Rightarrow> (Inr c, s)
                        | Some c' \<Rightarrow> (Inr c', broadcast gone (update_event i zero_time c')
                                           (s\<lparr>cs_containers := (cs_containers s)(i \<mapsto> c')\<rparr>)))))"

subsection \<open>Engine events\<close>

definition store_new :: "engine_view \<Rightarrow> (nat \<Rightarrow> bool) \<Rightarrow> string \<Rightarrow> container_store \<Rightarrow> container_store" where
  "store_new eng gone i s =
     (case eng_Find eng i of
        None \<Rightarrow> s
      | Some c \<Rightarrow>
          (let l = (case eng_List eng (label_map (cs_labels s)) of None \<Rightarrow> [] | Some l \<Rightarrow> l)
           in if list_ex (\<lambda>d. c_ID d = c_ID c) l
              then announce gone c (s\<lparr>cs_containers := (cs_containers s)(c_ID c \<mapsto> c)\<rparr>)
              else s))"

definition apply_update :: "container \<Rightarrow> container \<Rightarrow> container" where
  "apply_update new cur = cur\<lparr>c_Name := c_Name new, c_State := c_State new, c_Labels := c_Labels new,
     c_StartedAt := c_StartedAt new, c_FinishedAt := c_FinishedAt new, c_Created := c_Created new, c_Host := c_Host new\<rparr>"

definition start_event :: "container \<Rightarrow> container_store_event" where
  "start_event c = \<lparr>ev_Name = ''start'', ev_Host = c_Host c, ev_ActorID = c_ID c, ev_ActorAttributes = Map.empty,
     ev_Time = zero_time, ev_Container = None\<rparr>"

definition on_update :: "(nat \<Rightarrow> bool) \<Rightarrow> container_store_event \<Rightarrow> container_store \<Rightarrow> container_store" where
  "on_update gone ev s =
     (case (cs_containers s (ev_ActorID ev), ev_Container ev) of
        (Some c, Some new) \<Rightarrow>
          (let s1 = compute_loaded (ev_ActorID ev) (apply_update new) s
           in if c_State new = ''running'' \<and> c_State c \<noteq> ''running''
              then broadcast gone (start_event (apply_update new c)) s1 else s1)
      | _ \<Rightarrow> s)"

definition apply_event ::
    "engine_view \<Rightarrow> (nat \<Rightarrow> bool) \<Rightarrow> gotime \<Rightarrow> container_store_event \<Rightarrow> container_store \<Rightarrow> container_store" where
  "apply_event eng gone now ev s =
     (let n = ev_Name ev; i = ev_ActorID ev
      in if n = ''create'' \<or> n = ''start'' then store_new eng gone i s
         else if n = ''destroy'' then s\<lparr>cs_containers := (cs_containers s)(i := None)\<rparr>
         else if n = ''update'' then on_update gone ev s
         else if n = ''die'' then compute_loaded i (\<lambda>c. c\<lparr>c_State := ''exited'', c_FinishedAt := now\<rparr>) s
         else if n = ''pause'' \<or> n = ''unpause''
         then compute_loaded i (\<lambda>c. c\<lparr>c_State := if n = ''unpause'' then ''running'' else ''paused''\<rparr>) s
         else if n = ''health_status: healthy'' \<or> n = ''health_status: unhealthy''
         then compute_loaded i (\<lambda>c. c\<lparr>c_Health := if n = ''health_status: healthy'' then ''healthy'' else ''unhealthy''\<rparr>) s
         else if n = ''rename'' then compute_loaded i (\<lambda>c. c\<lparr>c_Name := map_get (ev_ActorAttributes ev) ''name''\<rparr>) s
         else s)"

definition on_event ::
    "engine_view \<Rightarrow> (nat \<Rightarrow> bool) \<Rightarrow> gotime \<Rightarrow> container_store_event \<Rightarrow> container_store \<Rightarrow> container_store" where
  "on_event eng gone now ev s = broadcast gone ev (apply_event eng gone now ev s)"

subsection \<open>Volume monitor\<close>

definition writeThresholdBytes :: "64 word" where "writeThresholdBytes = 1048576"
definition idleRefreshInterval :: duration where "idleRefreshInterval = 60 * Second"
definition volumeQueueSize :: nat where "volumeQueueSize = 64"

definition enqueue :: "string \<Rightarrow> volume_monitor \<Rightarrow> volume_monitor" where
  "enqueue i v =
     (if i \<in> vm_pending v then v
      else if length (vm_queue v) < volumeQueueSize
      then v\<lparr>vm_queue := vm_queue v @ [i], vm_pending := insert i (vm_pending v)\<rparr>
      else v)"

definition write_delta :: "64 word \<Rightarrow> 64 word \<Rightarrow> 64 word" where
  "write_delta written before = (if written < before then written else written - before)"

definition observe :: "gotime \<Rightarrow> container \<Rightarrow> container_stat \<Rightarrow> volume_monitor \<Rightarrow> volume_monitor" where
  "observe now c stat v =
     (if c_Mounts c = [] then v
      else let t = (case vm_trackers v (c_ID c) of
                      None \<Rightarrow> \<lparr>vt_lastWriteTotal = st_DiskWriteTotal stat, vt_lastCheckNanos = 0\<rparr>
                    | Some t \<Rightarrow> t);
               v1 = v\<lparr>vm_trackers := (vm_trackers v)(c_ID c \<mapsto> t)\<rparr>;
               idle = (vt_lastCheckNanos t = 0 \<or> now - vt_lastCheckNanos t \<ge> idleRefreshInterval)
           in if \<not> idle \<and> write_delta (st_DiskWriteTotal stat) (vt_lastWriteTotal t) < writeThresholdBytes then v1
              else enqueue (c_ID c) v1)"

text \<open>A worker takes an identifier from the queue and then clears its pending mark.\<close>

definition worker_take :: "volume_monitor \<Rightarrow> (string \<times> volume_monitor) option" where
  "worker_take v = (case vm_queue v of [] \<Rightarrow> None | i # q \<Rightarrow> Some (i, v\<lparr>vm_queue := q\<rparr>))"

definition worker_unmark :: "string \<Rightarrow> volume_monitor \<Rightarrow> volume_monitor" where
  "worker_unmark i v = v\<lparr>vm_pending := vm_pending v - {i}\<rparr>"

definition mount_reading :: "(string \<Rightarrow> (64 word \<times> 64 word) option) \<Rightarrow> gotime \<Rightarrow> mount \<Rightarrow> mount_stat" where
  "mount_reading statfs now m =
     (let ms = \<lparr>ms_Destination = mt_Destination m, ms_Total = 0, ms_Free = 0, ms_Used = 0, ms_Available = False, ms_LastChecked = now\<rparr>
      in if mt_Source m = [] then ms
         else case statfs (mt_Source m) of
                None \<Rightarrow> ms
              | Some (all, free) \<Rightarrow>
                  ms\<lparr>ms_Available := True, ms_Total := all, ms_Free := free,
                     ms_Used := if free < all then all - free else 0\<rparr>)"

definition applyMountStats ::
    "(nat \<Rightarrow> bool) \<Rightarrow> gotime \<Rightarrow> string \<Rightarrow> (string \<rightharpoonup> mount_stat) \<Rightarrow> container_store \<Rightarrow> container_store" where
  "applyMountStats gone now i stats s =
     (case cs_containers s i of
        None \<Rightarrow> s
      | Some c \<Rightarrow>
          (let c' = c\<lparr>c_MountStats := stats\<rparr>
           in broadcast gone (update_event (c_ID c') now c') (s\<lparr>cs_containers := (cs_containers s)(i \<mapsto> c')\<rparr>)))"

definition refresh ::
    "(string \<Rightarrow> (64 word \<times> 64 word) option) \<Rightarrow> (nat \<Rightarrow> bool) \<Rightarrow> gotime \<Rightarrow> string \<Rightarrow> container_store \<Rightarrow> go_panic + container_store" where
  "refresh statfs gone now i s =
     (let v = cs_monitor s
      in case cs_containers s i of
           None \<Rightarrow> Inr (s\<lparr>cs_monitor := v\<lparr>vm_trackers := (vm_trackers v)(i := None)\<rparr>\<rparr>)
         | Some c \<Rightarrow>
             (if c_Mounts c = [] then Inr s
              else let stats = fold (\<lambda>m r. r(mt_Destination m \<mapsto> mount_reading statfs now m)) (c_Mounts c) Map.empty
                   in case c_Stats c of
                        None \<Rightarrow> Inl NilDereference
                      | Some b \<Rightarrow>
                          (case Data b of
                             Inl e \<Rightarrow> Inl e
                           | Inr d \<Rightarrow>
                               (let w = (if d = [] then 0 else st_DiskWriteTotal (last d))
                                in Inr (applyMountStats gone now i stats
                                     (s\<lparr>cs_monitor := v\<lparr>vm_trackers := (vm_trackers v)(i \<mapsto>
                                        \<lparr>vt_lastWriteTotal = w, vt_lastCheckNanos = now\<rparr>)\<rparr>\<rparr>))))))"

text \<open>A statistic that arrives is stored without its identifier.\<close>

definition on_stat :: "gotime \<Rightarrow> container_stat \<Rightarrow> container_store \<Rightarrow> go_panic + container_store" where
  "on_stat now stat s =
     (case cs_containers s (st_ID stat) of
        None \<Rightarrow> Inr s
      | Some c \<Rightarrow>
          (let s1 = s\<lparr>cs_monitor := observe now c stat (cs_monitor s)\<rparr>
           in case c_Stats c of
                None \<Rightarrow> Inl NilDereference
              | Some b \<Rightarrow>
                  (case Push b (stat\<lparr>st_ID := []\<rparr>) of
                     Inl e \<Rightarrow> Inl e
                   | Inr b' \<Rightarrow> Inr (s1\<lparr>cs_containers := (cs_containers s1)(st_ID stat \<mapsto> c\<lparr>c_Stats := Some b'\<rparr>)\<rparr>))))"

subsection \<open>What a restricted store may hold\<close>

text \<open>
  The steps of the store in any order, each with the engine's answers at that time.  The second component
  collects the identifiers the engine has ever listed for the labels of the store.
\<close>

definition listed_ids :: "engine_view \<Rightarrow> label_arg \<Rightarrow> string set" where
  "listed_ids eng l = c_ID ` set (case eng_List eng (label_map l) of None \<Rightarrow> [] | Some cs \<Rightarrow> cs)"

definition truthful :: "engine_view \<Rightarrow> bool" where
  "truthful eng \<longleftrightarrow> (\<forall>i c. eng_Find eng i = Some c \<longrightarrow> c_ID c = i)"

inductive cstore_step :: "container_store \<times> string set \<Rightarrow> container_store \<times> string set \<Rightarrow> bool" where
  Connects: "truthful eng \<Longrightarrow> cstore_step (s, A) (snd (checkConnectivity eng s), A \<union> listed_ids eng (cs_labels s))"
| Disconnects: "cstore_step (s, A) (disconnected s, A)"
| Lists: "truthful eng \<Longrightarrow> cstore_step (s, A) (snd (store_ListContainers eng ks l s), A \<union> listed_ids eng (cs_labels s))"
| Finds: "truthful eng \<Longrightarrow> cstore_step (s, A) (snd (store_FindContainer eng gone i l s), A)"
| Hears: "truthful eng \<Longrightarrow> cstore_step (s, A) (on_event eng gone now ev s, A \<union> listed_ids eng (cs_labels s))"
| Counts: "on_stat now stat s = Inr s' \<Longrightarrow> cstore_step (s, A) (s', A)"
| Refreshes: "refresh statfs gone now i s = Inr s' \<Longrightarrow> cstore_step (s, A) (s', A)"
| Takes: "worker_take (cs_monitor s) = Some (i, v) \<Longrightarrow> cstore_step (s, A) (s\<lparr>cs_monitor := worker_unmark i v\<rparr>, A)"
| Clears: "collector_stopped ks s = Inr s' \<Longrightarrow> cstore_step (s, A) (s', A)"
| Subscribes: "cstore_step (s, A) (SubscribeEvents ctx s, A)"
| SubscribesNew: "cstore_step (s, A) (SubscribeNewContainers ctx s, A)"
| Unsubscribes: "cstore_step (s, A) (unsubscribe ctx s, A)"

definition keyed :: "(string \<rightharpoonup> container) \<Rightarrow> string set \<Rightarrow> bool" where
  "keyed m A \<longleftrightarrow> (\<forall>i c. m i = Some c \<longrightarrow> c_ID c = i \<and> i \<in> A)"

lemma keyed_simps [simp]:
  "keyed Map.empty A"
  "keyed m A \<Longrightarrow> keyed (m(i := None)) A"
  "keyed m A \<Longrightarrow> c_ID c = i \<Longrightarrow> i \<in> A \<Longrightarrow> keyed (m(i \<mapsto> c)) A"
  by (simp_all add: keyed_def)

lemma keyed_upd: "keyed m A \<Longrightarrow> m i = Some c \<Longrightarrow> c_ID c' = c_ID c \<Longrightarrow> keyed (m(i \<mapsto> c')) A"
  by (simp add: keyed_def)

lemma keyed_mono: "keyed m A \<Longrightarrow> A \<subseteq> B \<Longrightarrow> keyed m B"
  by (auto simp: keyed_def)

lemma keyed_map_option: "keyed m A \<Longrightarrow> (\<And>c. c_ID (f c) = c_ID c) \<Longrightarrow> keyed (m(i := map_option f (m i))) A"
  by (auto simp: keyed_def)

lemma key_by_ID_simps [simp]: "key_by_ID [] = Map.empty" "key_by_ID (l @ [c]) = (key_by_ID l)(c_ID c \<mapsto> c)"
  by (simp_all add: key_by_ID_def)

lemma key_by_ID_Some: "key_by_ID l i = Some c \<Longrightarrow> c \<in> set l \<and> c_ID c = i"
  by (induction l rule: rev_induct) (auto split: if_splits)

lemma key_by_ID_None: "key_by_ID l i = None \<longleftrightarrow> i \<notin> c_ID ` set l"
  by (induction l rule: rev_induct) auto

lemma keyed_listed: "eng_List eng (label_map labels) = Some l \<Longrightarrow> keyed (key_by_ID l) (listed_ids eng labels)"
  by (auto simp: keyed_def listed_ids_def dest: key_by_ID_Some)

lemma keyed_fetch:
  assumes "truthful eng" and "\<forall>c\<in>set l. c_ID c \<in> A" and "keyed m A"
  shows "keyed (fold (fetch_full eng) l m) A"
  using assms(2,3)
proof (induction l arbitrary: m)
  case (Cons c l)
  then show ?case using assms(1) by (auto simp: fetch_full_def truthful_def split: option.splits)
qed simp

lemma containers_broadcast [simp]: "cs_containers (broadcast gone ev s) = cs_containers s"
  by (simp add: broadcast_def)

lemma containers_announce [simp]: "cs_containers (announce gone c s) = cs_containers s"
  by (simp add: announce_def)

lemma labels_kept [simp]:
  "cs_labels (broadcast gone ev s) = cs_labels s" "cs_labels (announce gone c s) = cs_labels s"
  "cs_labels (compute_loaded i f s) = cs_labels s"
  by (simp_all add: broadcast_def announce_def compute_loaded_def)

lemma keyed_compute: "keyed (cs_containers s) A \<Longrightarrow> (\<And>c. c_ID (f c) = c_ID c) \<Longrightarrow> keyed (cs_containers (compute_loaded i f s)) A"
  by (simp add: compute_loaded_def keyed_map_option)

lemma connect_keyed:
  assumes "truthful eng" and "keyed (cs_containers s) A"
  shows "keyed (cs_containers (snd (checkConnectivity eng s))) (A \<union> listed_ids eng (cs_labels s))"
    and "cs_labels (snd (checkConnectivity eng s)) = cs_labels s"
proof -
  show "keyed (cs_containers (snd (checkConnectivity eng s))) (A \<union> listed_ids eng (cs_labels s))"
  proof (cases "cs_connected s \<or> eng_List eng (label_map (cs_labels s)) = None")
    case True
    then show ?thesis using keyed_mono [OF assms(2)] by (auto simp: checkConnectivity_def)
  next
    case False
    then obtain l where l: "eng_List eng (label_map (cs_labels s)) = Some l" by blast
    have "keyed (key_by_ID l) (A \<union> listed_ids eng (cs_labels s))" using keyed_mono [OF keyed_listed [OF l]] by blast
    moreover have "\<forall>c\<in>set l. c_ID c \<in> A \<union> listed_ids eng (cs_labels s)" using l by (simp add: listed_ids_def)
    ultimately show ?thesis using False l by (simp add: checkConnectivity_def keyed_fetch [OF assms(1)])
  qed
  show "cs_labels (snd (checkConnectivity eng s)) = cs_labels s"
    by (simp add: checkConnectivity_def Let_def split: option.split)
qed

lemma sync_keyed:
  "keyed (cs_containers s) A \<Longrightarrow> keyed valid B \<Longrightarrow> keyed (cs_containers (syncContainers valid s)) (A \<union> B)"
  by (auto simp: keyed_def syncContainers_def mergeListedContainer_def split: option.splits)

lemma list_keyed:
  assumes "truthful eng" and "keyed (cs_containers s) A"
  shows "keyed (cs_containers (snd (store_ListContainers eng ks l s))) (A \<union> listed_ids eng (cs_labels s))"
    and "cs_labels (snd (store_ListContainers eng ks l s)) = cs_labels s"
proof -
  note c = connect_keyed [OF assms]
  obtain e s1 where s1: "checkConnectivity eng s = (e, s1)" by force
  have k1: "keyed (cs_containers s1) (A \<union> listed_ids eng (cs_labels s))" "cs_labels s1 = cs_labels s" using c s1 by auto
  have "keyed (cs_containers (snd (store_ListContainers eng ks l s))) (A \<union> listed_ids eng (cs_labels s))
    \<and> cs_labels (snd (store_ListContainers eng ks l s)) = cs_labels s"
  proof (cases "e = None \<and> l = cs_labels s \<and> eng_List eng (label_map l) \<noteq> None")
    case True
    then obtain cs where cs: "eng_List eng (label_map (cs_labels s)) = Some cs" by blast
    from sync_keyed [OF k1(1) keyed_listed [OF cs]] show ?thesis
      using True cs s1 k1(2) by (simp add: store_ListContainers_def Let_def) (simp add: syncContainers_def)
  next
    case False
    then show ?thesis using s1 k1 by (auto simp: store_ListContainers_def Let_def split: option.splits)
  qed
  then show "keyed (cs_containers (snd (store_ListContainers eng ks l s))) (A \<union> listed_ids eng (cs_labels s))"
    and "cs_labels (snd (store_ListContainers eng ks l s)) = cs_labels s" by simp_all
qed

lemma find_keyed:
  assumes "truthful eng" and "keyed (cs_containers s) A"
  shows "keyed (cs_containers (snd (store_FindContainer eng gone i l s))) A"
proof -
  have "i \<in> A" if "cs_containers s i = Some c" for c using assms(2) that by (auto simp: keyed_def)
  then show ?thesis using assms by (auto simp: store_FindContainer_def Let_def truthful_def split: option.split)
qed

lemma new_keyed:
  assumes "keyed (cs_containers s) A"
  shows "keyed (cs_containers (store_new eng gone i s)) (A \<union> listed_ids eng (cs_labels s))"
proof (cases "eng_Find eng i")
  case None
  then show ?thesis using assms by (auto simp: store_new_def intro: keyed_mono)
next
  case (Some c)
  have "keyed (cs_containers s) (A \<union> listed_ids eng (cs_labels s))" using keyed_mono [OF assms] by blast
  moreover have "list_ex (\<lambda>d. c_ID d = c_ID c) (case eng_List eng (label_map (cs_labels s)) of None \<Rightarrow> [] | Some l \<Rightarrow> l)
      \<Longrightarrow> c_ID c \<in> listed_ids eng (cs_labels s)"
    unfolding listed_ids_def list_ex_iff by (metis image_eqI)
  ultimately show ?thesis using Some by (simp add: store_new_def Let_def)
qed

lemma event_keyed:
  assumes "keyed (cs_containers s) A"
  shows "keyed (cs_containers (on_event eng gone now ev s)) (A \<union> listed_ids eng (cs_labels s))"
proof -
  have m: "keyed (cs_containers s) (A \<union> listed_ids eng (cs_labels s))" using keyed_mono [OF assms] by blast
  have "keyed (cs_containers (on_update gone ev s)) (A \<union> listed_ids eng (cs_labels s))"
    using m by (auto simp: on_update_def Let_def apply_update_def keyed_compute split: option.split)
  then show ?thesis using m new_keyed [OF assms, of eng gone "ev_ActorID ev"]
    by (simp add: on_event_def apply_event_def Let_def keyed_compute)
qed

lemma stat_keyed: "on_stat now stat s = Inr s' \<Longrightarrow> keyed (cs_containers s) A \<Longrightarrow> keyed (cs_containers s') A"
  by (auto simp: on_stat_def Let_def split: option.splits sum.splits intro!: keyed_upd)

lemma mount_stats_keyed_map: "keyed (cs_containers s) A \<Longrightarrow> keyed (cs_containers (applyMountStats gone now i stats s)) A"
  by (auto simp: applyMountStats_def Let_def split: option.splits intro!: keyed_upd)

lemma refresh_keyed: "refresh statfs gone now i s = Inr s' \<Longrightarrow> keyed (cs_containers s) A \<Longrightarrow> keyed (cs_containers s') A"
  by (auto simp: refresh_def Let_def mount_stats_keyed_map split: option.splits sum.splits if_splits)

lemma clear_keyed: "collector_stopped ks s = Inr s' \<Longrightarrow> keyed (cs_containers s) A \<Longrightarrow> keyed (cs_containers s') A"
  unfolding collector_stopped_def
  by (erule foldE_inv [where P = "\<lambda>s. keyed (cs_containers s) A", rotated])
    (auto simp: clear_one_def split: option.splits if_splits intro!: keyed_upd)

definition cstore_inv :: "label_arg \<Rightarrow> container_store \<times> string set \<Rightarrow> bool" where
  "cstore_inv labels p \<longleftrightarrow> cs_labels (fst p) = labels \<and> keyed (cs_containers (fst p)) (snd p)"

lemma labels_constant:
  "cs_labels (snd (store_FindContainer eng gone i l s)) = cs_labels s"
  "cs_labels (on_event eng gone now ev s) = cs_labels s"
  "on_stat now stat s = Inr s' \<Longrightarrow> cs_labels s' = cs_labels s"
  "refresh statfs gone now i s = Inr s' \<Longrightarrow> cs_labels s' = cs_labels s"
  by (auto simp: store_FindContainer_def on_event_def apply_event_def store_new_def on_update_def on_stat_def refresh_def
      applyMountStats_def Let_def split: option.splits sum.splits if_splits)

lemma clear_labels: "collector_stopped ks s = Inr s' \<Longrightarrow> cs_labels s' = cs_labels s"
  unfolding collector_stopped_def
  by (erule foldE_inv [where P = "\<lambda>s'. cs_labels s' = cs_labels s"]) (auto simp: clear_one_def split: option.splits)

lemma cstore_inv_step: "cstore_step p q \<Longrightarrow> cstore_inv labels p \<Longrightarrow> cstore_inv labels q"
proof (induction rule: cstore_step.induct)
  case (Takes s i v A)
  then show ?case by (simp add: cstore_inv_def)
qed (auto simp: cstore_inv_def connect_keyed list_keyed find_keyed event_keyed labels_constant clear_labels disconnected_def
    SubscribeEvents_def SubscribeNewContainers_def unsubscribe_def dest: stat_keyed refresh_keyed clear_keyed)

lemma cstore_inv_reachable:
  "cstore_step\<^sup>*\<^sup>* (NewContainerStore labels, {}) p \<Longrightarrow> cstore_inv labels p"
proof (induction rule: rtranclp_induct)
  case base
  then show ?case by (simp add: cstore_inv_def NewContainerStore_def)
qed (rule cstore_inv_step)

lemma find_listed:
  assumes "store_FindContainer eng gone i l s = (Inr d, s')" and "labels_Exists l"
  shows "i \<in> listed_ids eng l"
  using assms by (auto simp: store_FindContainer_def Let_def listed_ids_def key_by_ID_None split: option.splits if_splits)

lemma find_by_id:
  assumes "cstore_step\<^sup>*\<^sup>* (NewContainerStore labels, {}) (s, A)" and "truthful eng"
    and "store_FindContainer eng gone i l s = (Inr d, s'')"
  shows "c_ID d = i \<and> i \<in> A"
proof -
  have inv: "keyed (cs_containers s) A" using cstore_inv_reachable [OF assms(1)] by (auto simp: cstore_inv_def)
  have "d = the (cs_containers s'' i)" "cs_containers s'' i \<noteq> None"
    using assms(3) by (auto simp: store_FindContainer_def Let_def split: option.splits if_splits)
  moreover have "keyed (cs_containers s'') A" using find_keyed [OF assms(2) inv, of gone i l] assms(3) by simp
  ultimately show ?thesis by (auto simp: keyed_def)
qed

text \<open>C17. Whatever the engine reports and in whatever order the store hears of it, a store restricted by labels
never gives out a container that its engine has not listed for these labels, and a request with labels of its
own gets only containers that the engine lists for the request's labels at that moment.\<close>

theorem label_scope:
  assumes "cstore_step\<^sup>*\<^sup>* (NewContainerStore labels, {}) (s, A)" and "truthful eng"
  shows "(store_ListContainers eng ks l s = (Inr cs, s') \<and> c \<in> set cs \<longrightarrow>
            c_ID c \<in> A \<union> listed_ids eng labels \<and> (labels_Exists l \<longrightarrow> c_ID c \<in> listed_ids eng l))
    \<and> (store_FindContainer eng gone i l s = (Inr d, s'') \<longrightarrow>
            c_ID d = i \<and> i \<in> A \<and> (labels_Exists l \<longrightarrow> i \<in> listed_ids eng l))"
proof (intro conjI impI; (elim conjE)?)
  have inv: "cs_labels s = labels" "keyed (cs_containers s) A" using cstore_inv_reachable [OF assms(1)] by (auto simp: cstore_inv_def)
  {
    assume r: "store_ListContainers eng ks l s = (Inr cs, s')" "c \<in> set cs"
    then obtain cs0 where l: "eng_List eng (label_map l) = Some cs0"
      "cs = filter (\<lambda>c. labels_Exists l \<longrightarrow> key_by_ID cs0 (c_ID c) \<noteq> None) (List.map_filter (cs_containers s') ks)"
      by (auto simp: store_ListContainers_def Let_def split: option.splits prod.splits)
    have "keyed (cs_containers s') (A \<union> listed_ids eng labels)"
      using list_keyed(1) [OF assms(2) inv(2), of ks l] r(1) inv(1) by simp
    moreover obtain k where "cs_containers s' k = Some c" using r(2) l(2) by (auto simp: List.map_filter_def)
    ultimately show "c_ID c \<in> A \<union> listed_ids eng labels" unfolding keyed_def by blast
    show "c_ID c \<in> listed_ids eng l" if "labels_Exists l"
      using that r(2) l by (auto simp: listed_ids_def key_by_ID_None)
  }
  {
    assume r: "store_FindContainer eng gone i l s = (Inr d, s'')"
    show "c_ID d = i" "i \<in> A" using find_by_id [OF assms r] by simp_all
    show "i \<in> listed_ids eng l" if "labels_Exists l" by (rule find_listed [OF r that])
  }
qed

subsection \<open>Statistics\<close>

definition stats_ready :: "container_store \<Rightarrow> bool" where
  "stats_ready s \<longleftrightarrow> (\<forall>i c. cs_containers s i = Some c \<longrightarrow> (\<exists>b. c_Stats c = Some b \<and> rb_wf b \<and> 0 < rb_cap b))"

definition store_stats :: "container_store \<Rightarrow> string \<Rightarrow> container_stat ring_buffer" where
  "store_stats s i = the (c_Stats (the (cs_containers s i)))"

lemma whole_window:
  assumes "stats_ready s" and "cs_containers s i = Some c"
  shows "last_n (rb_cap (store_stats s i)) (rb_contents (store_stats s i)) = rb_contents (store_stats s i)"
proof -
  obtain b where "c_Stats c = Some b" "rb_wf b" using assms by (auto simp: stats_ready_def)
  then show ?thesis using assms(2) by (simp add: store_stats_def last_n_all Len_le_cap)
qed

lemma on_stat_ready:
  assumes "stats_ready s"
  shows "\<exists>s'. on_stat now st s = Inr s' \<and> stats_ready s' \<and> dom (cs_containers s') = dom (cs_containers s)
    \<and> (i \<in> dom (cs_containers s) \<longrightarrow> rb_cap (store_stats s' i) = rb_cap (store_stats s i)
       \<and> rb_contents (store_stats s' i) = last_n (rb_cap (store_stats s i))
           (rb_contents (store_stats s i) @ (if st_ID st = i then [st\<lparr>st_ID := []\<rparr>] else [])))"
proof (cases "cs_containers s (st_ID st)")
  case None
  then show ?thesis using assms whole_window [OF assms] by (auto simp: on_stat_def)
next
  case (Some c)
  then obtain b where b: "c_Stats c = Some b" "rb_wf b" "0 < rb_cap b" using assms by (auto simp: stats_ready_def)
  obtain b' where p: "Push b (st\<lparr>st_ID := []\<rparr>) = Inr b'" "rb_wf b'" "rb_cap b' = rb_cap b"
    "rb_contents b' = last_n (rb_cap b) (rb_contents b @ [st\<lparr>st_ID := []\<rparr>])"
    using ring.push_step [OF b(2,3)] by blast
  have o: "rb_contents (store_stats s i) = last_n (rb_cap (store_stats s i)) (rb_contents (store_stats s i))"
    if "i \<in> dom (cs_containers s)" using that whole_window [OF assms] by auto
  let ?s = "s\<lparr>cs_monitor := observe now c st (cs_monitor s), cs_containers := (cs_containers s)(st_ID st \<mapsto> c\<lparr>c_Stats := Some b'\<rparr>)\<rparr>"
  have "on_stat now st s = Inr ?s" using Some b p by (simp add: on_stat_def Let_def)
  moreover have "stats_ready ?s" using assms b p by (auto simp: stats_ready_def)
  ultimately show ?thesis using Some b p o by (auto simp: store_stats_def)
qed

text \<open>However many statistics of however many containers arrive, the store does not panic, and afterwards
each container's buffer holds exactly its own latest statistics, oldest first, as many as the buffer's size.\<close>

theorem stats_kept_per_container:
  assumes "stats_ready s" and "i \<in> dom (cs_containers s)"
  shows "\<exists>s'. foldE (\<lambda>s st. on_stat now st s) s sts = Inr s' \<and> i \<in> dom (cs_containers s')
    \<and> rb_contents (store_stats s' i) = last_n (rb_cap (store_stats s i))
        (rb_contents (store_stats s i) @ map (\<lambda>st. st\<lparr>st_ID := []\<rparr>) (filter (\<lambda>st. st_ID st = i) sts))"
  using assms
proof (induction sts arbitrary: s)
  case Nil
  then show ?case using whole_window [OF Nil(1)] by auto
next
  case (Cons st sts)
  obtain s1 where s1: "on_stat now st s = Inr s1" "stats_ready s1" "i \<in> dom (cs_containers s1)"
    "rb_cap (store_stats s1 i) = rb_cap (store_stats s i)"
    "rb_contents (store_stats s1 i) = last_n (rb_cap (store_stats s i))
       (rb_contents (store_stats s i) @ (if st_ID st = i then [st\<lparr>st_ID := []\<rparr>] else []))"
    using on_stat_ready [OF Cons.prems(1), of now st i] Cons.prems(2) by auto
  then show ?case using Cons.IH [OF s1(2,3)] by (auto simp: last_n_last_n_append)
qed

subsection \<open>The refresh queue\<close>

text \<open>The queue with the two workers: what a worker has taken stays marked until it clears the mark.\<close>

inductive volume_step :: "volume_monitor \<times> string list \<Rightarrow> volume_monitor \<times> string list \<Rightarrow> bool" where
  Observes: "volume_step (v, fl) (observe now c st v, fl)"
| WorkerTakes: "worker_take v = Some (i, v') \<Longrightarrow> volume_step (v, fl) (v', i # fl)"
| WorkerUnmarks: "volume_step (v, fl1 @ i # fl2) (worker_unmark i v, fl1 @ fl2)"

definition queue_inv :: "volume_monitor \<times> string list \<Rightarrow> bool" where
  "queue_inv p \<longleftrightarrow> distinct (vm_queue (fst p) @ snd p) \<and> set (vm_queue (fst p) @ snd p) = vm_pending (fst p)
     \<and> length (vm_queue (fst p)) \<le> volumeQueueSize"

lemma enqueue_inv: "queue_inv (v, fl) \<Longrightarrow> queue_inv (enqueue i v, fl)"
  by (auto simp: queue_inv_def enqueue_def)

lemma queue_inv_trackers [simp]: "queue_inv (v\<lparr>vm_trackers := m\<rparr>, fl) = queue_inv (v, fl)"
  by (simp add: queue_inv_def)

lemma queue_inv_step: "volume_step p q \<Longrightarrow> queue_inv p \<Longrightarrow> queue_inv q"
proof (induction rule: volume_step.induct)
  case (Observes v fl now c st)
  then show ?case by (auto simp: observe_def Let_def intro!: enqueue_inv)
next
  case (WorkerTakes v i v' fl)
  then show ?case by (auto simp: worker_take_def queue_inv_def split: list.splits)
next
  case (WorkerUnmarks v fl1 i fl2)
  then show ?case by (auto simp: worker_unmark_def queue_inv_def)
qed

text \<open>However statistics arrive while the workers run, a container waits at most once in the volume queue and
is never queued while a worker has just taken it, exactly the waiting and taken containers are marked, and the
queue stays within its 64 places.\<close>

theorem volume_queue_bounded:
  assumes "volume_step\<^sup>*\<^sup>* (newVolumeMonitor, []) (v, fl)"
  shows "distinct (vm_queue v @ fl) \<and> set (vm_queue v @ fl) = vm_pending v \<and> length (vm_queue v) \<le> 64"
proof -
  have "queue_inv (v, fl)" using assms
  proof (induction rule: rtranclp_induct)
    case base
    then show ?case by (simp add: queue_inv_def newVolumeMonitor_def)
  qed (rule queue_inv_step)
  then show ?thesis by (simp add: queue_inv_def volumeQueueSize_def)
qed

subsection \<open>The theorems at work\<close>

definition home_engine :: engine_view where
  "home_engine = \<lparr>eng_List = (\<lambda>_. Some [sample_container]),
     eng_Find = (\<lambda>i. if i = ''a'' then Some sample_container else None)\<rparr>"

definition home_store :: container_store where
  "home_store = snd (checkConnectivity home_engine (NewContainerStore None))"

lemma home_store_eq: "home_store = (NewContainerStore None)\<lparr>cs_connected := True, cs_containers := [''a'' \<mapsto> sample_container]\<rparr>"
  by (simp add: home_store_def checkConnectivity_def NewContainerStore_def home_engine_def key_by_ID_def sample_container_def)

lemma home_truthful: "truthful home_engine"
  by (simp add: truthful_def home_engine_def sample_container_def)

lemma home_listed: "listed_ids home_engine l = {''a''}"
  by (simp add: listed_ids_def home_engine_def sample_container_def)

lemma home_reached: "cstore_step\<^sup>*\<^sup>* (NewContainerStore None, {}) (home_store, {''a''})"
  using cstore_step.Connects [OF home_truthful, of "NewContainerStore None" "{}"] by (simp add: home_store_def home_listed r_into_rtranclp)

theorem label_scope_witness:
  "store_FindContainer home_engine (\<lambda>_. False) ''a'' (Some [''team'' \<mapsto> [''x'']]) home_store = (Inr sample_container, home_store)
   \<and> ''a'' \<in> listed_ids home_engine (Some [''team'' \<mapsto> [''x'']])"
proof -
  have "key_by_ID [sample_container] ''a'' = Some sample_container" by (simp add: key_by_ID_def sample_container_def)
  moreover have l: "labels_Exists (Some [''team'' \<mapsto> [''x'']])" by (simp add: labels_Exists_def label_map_def)
  ultimately have f: "store_FindContainer home_engine (\<lambda>_. False) ''a'' (Some [''team'' \<mapsto> [''x'']]) home_store = (Inr sample_container, home_store)"
    by (simp add: store_FindContainer_def home_engine_def home_store_eq) (simp add: sample_container_def)
  then show ?thesis using label_scope [OF home_reached home_truthful, where l = "Some [''team'' \<mapsto> [''x'']]"
        and gone = "\<lambda>_. False" and i = "''a''" and d = sample_container and s'' = home_store] l by blast
qed

definition one_stat :: "string \<Rightarrow> container_stat" where
  "one_stat i = \<lparr>st_ID = i, st_CPUPercent = 1, st_MemoryPercent = 2, st_MemoryUsage = 3, st_NetworkRxTotal = 0,
     st_NetworkTxTotal = 0, st_DiskReadTotal = 0, st_DiskWriteTotal = 5\<rparr>"

theorem stats_kept_per_container_witness:
  "\<exists>s'. foldE (\<lambda>s st. on_stat 0 st s) home_store [one_stat ''a'', one_stat ''z''] = Inr s' \<and> ''a'' \<in> dom (cs_containers s')
     \<and> rb_contents (store_stats s' ''a'') = [one_stat []]"
proof -
  have "stats_ready home_store" by (simp add: stats_ready_def home_store_eq sample_container_def rb_wf_def rb_cap_def)
  moreover have "''a'' \<in> dom (cs_containers home_store)" by (simp add: home_store_eq)
  ultimately show ?thesis using stats_kept_per_container [of home_store "''a''" 0 "[one_stat ''a'', one_stat ''z'']"]
    by (simp add: home_store_eq store_stats_def sample_container_def rb_contents_def rb_cap_def one_stat_def last_n_def del: foldE.simps)
qed

theorem volume_queue_bounded_witness:
  "distinct (vm_queue (enqueue ''a'' newVolumeMonitor) @ []) \<and> set (vm_queue (enqueue ''a'' newVolumeMonitor) @ []) = {''a''}"
proof -
  let ?c = "sample_container\<lparr>c_Mounts := [\<lparr>mt_Type = ''bind'', mt_Source = ''/s'', mt_Destination = ''/d'', mt_RW = True\<rparr>]\<rparr>"
  have "volume_step\<^sup>*\<^sup>* (newVolumeMonitor, []) (observe 0 ?c (one_stat ''a'') newVolumeMonitor, [])"
    by (rule r_into_rtranclp) (rule volume_step.Observes)
  from volume_queue_bounded [OF this] show ?thesis
    by (simp add: observe_def enqueue_def newVolumeMonitor_def volumeQueueSize_def sample_container_def)
qed

end
