(* ===== verification/DockerEngine.thy ===== *)
theory DockerEngine
  imports ContainerStore "HOL-Library.List_Lexorder" "HOL-Library.Char_ord"
begin

text \<open>
  The Docker side of \<open>internal/docker\<close>: containers from what the engine lists and inspects (\<open>client.go\<close>), resource
  figures (\<open>calculation.go\<close>), the multiplexed log stream (\<open>log_reader.go\<close>) and the shared stats collector
  (\<open>stats_collector.go\<close>).

  The answers of the engine are records with the fields the code reads; the pointers it dereferences without a
  check (\<open>Config\<close>, \<open>HostConfig\<close>, \<open>State\<close>) are taken to be set.  \<open>float64\<close> is \<open>real\<close>, so rounding is left out; \<open>uint64\<close>
  is \<open>64 word\<close>.  \<open>time.Parse\<close> is a parameter.  \<open>sort.Slice\<close> may order containers of equal name either way; here they
  keep their order.
\<close>

subsection \<open>Containers\<close>

record docker_summary =
  ds_ID :: string
  ds_Names :: "string list"
  ds_Image :: string
  ds_Command :: string
  ds_Created :: int
  ds_State :: string
  ds_Labels :: "string \<rightharpoonup> string"

record port_binding =
  pbd_HostIP :: string
  pbd_HostPort :: string

record docker_inspect =
  di_ID :: string
  di_Name :: string
  di_Created :: string
  di_Image :: string
  di_Entrypoint :: "string list"
  di_Cmd :: "string list"
  di_Env :: "string list"
  di_Tty :: bool
  di_Labels :: "string \<rightharpoonup> string"
  di_PortBindings :: "(string \<times> port_binding list) list"
  di_Memory :: int
  di_NanoCPUs :: int
  di_RestartPolicy :: string
  di_NetworkMode :: string
  di_Mounts :: "mount list"
  di_Status :: string
  di_StartedAt :: string
  di_FinishedAt :: string
  di_Health :: "string option"

definition TrimPrefix_slash :: "string \<Rightarrow> string" where
  "TrimPrefix_slash s = (case s of [] \<Rightarrow> [] | c # cs \<Rightarrow> if c = CHR ''/'' then cs else s)"

text \<open>The name: a label of Dozzle, a label of Coolify, the name the engine gives, \<open>no name\<close>.\<close>

definition display_name :: "(string \<rightharpoonup> string) \<Rightarrow> string option \<Rightarrow> string" where
  "display_name labels engineName =
     (if map_get labels ''dev.dozzle.name'' \<noteq> [] then map_get labels ''dev.dozzle.name''
      else if map_get labels ''coolify.serviceName'' \<noteq> [] then map_get labels ''coolify.serviceName''
      else case engineName of Some n \<Rightarrow> TrimPrefix_slash n | None \<Rightarrow> ''no name'')"

definition group_name :: "(string \<rightharpoonup> string) \<Rightarrow> string" where
  "group_name labels =
     (if map_get labels ''dev.dozzle.group'' \<noteq> [] then map_get labels ''dev.dozzle.group''
      else map_get labels ''coolify.projectName'')"

text \<open>The zero value of \<open>container.Container\<close>.\<close>

definition zero_container :: container where
  "zero_container = \<lparr>c_ID = [], c_Name = [], c_Image = [], c_Command = [], c_Created = zero_time, c_StartedAt = zero_time,
     c_FinishedAt = zero_time, c_State = [], c_Health = [], c_Host = [], c_Tty = False, c_Labels = Map.empty, c_Stats = None,
     c_MemoryLimit = 0, c_CPULimit = 0, c_Group = [], c_Env = [], c_Ports = [], c_Mounts = [], c_MountStats = Map.empty,
     c_RestartPolicy = [], c_NetworkMode = [], c_FullyLoaded = False\<rparr>"

definition fresh_stats :: "container_stat ring_buffer" where
  "fresh_stats = \<lparr>Size = 300, rb_data = [], rb_start = 0\<rparr>"

definition short_id :: "string \<Rightarrow> go_panic + string" where
  "short_id i = (if length i < 12 then Inl SliceOutOfRange else Inr (take 12 i))"

definition newContainer :: "docker_summary \<Rightarrow> string \<Rightarrow> go_panic + container" where
  "newContainer c h =
     (case short_id (ds_ID c) of
        Inl e \<Rightarrow> Inl e
      | Inr i \<Rightarrow> Inr (zero_container
          \<lparr>c_ID := i, c_Name := display_name (ds_Labels c) (case ds_Names c of [] \<Rightarrow> None | n # _ \<Rightarrow> Some n),
           c_Image := ds_Image c, c_Command := ds_Command c, c_Created := time_Unix (ds_Created c), c_State := ds_State c,
           c_Host := h, c_Labels := ds_Labels c, c_Stats := Some fresh_stats, c_Group := group_name (ds_Labels c)\<rparr>))"

definition port_text :: "string \<Rightarrow> port_binding \<Rightarrow> string" where
  "port_text port b = (if pbd_HostPort b \<noteq> [] then pbd_HostIP b @ '':'' @ pbd_HostPort b @ ''->'' @ port else port)"

definition newContainerFromJSON :: "(string \<Rightarrow> gotime option) \<Rightarrow> docker_inspect \<Rightarrow> string \<Rightarrow> go_panic + container" where
  "newContainerFromJSON parse_time c h =
     (let when = (\<lambda>t. case parse_time t of None \<Rightarrow> zero_time | Some x \<Rightarrow> x)
      in case short_id (di_ID c) of
        Inl e \<Rightarrow> Inl e
      | Inr i \<Rightarrow> Inr (zero_container
          \<lparr>c_ID := i, c_Name := display_name (di_Labels c) (if di_Name c = [] then None else Some (di_Name c)),
           c_Image := di_Image c, c_Command := str_join '' '' (di_Entrypoint c) @ '' '' @ str_join '' '' (di_Cmd c),
           c_State := di_Status c, c_Host := h, c_Labels := di_Labels c, c_Stats := Some fresh_stats,
           c_Group := group_name (di_Labels c), c_Tty := di_Tty c, c_MemoryLimit := word_of_int (di_Memory c),
           c_CPULimit := real_of_int (di_NanoCPUs c) / 1000000000, c_Env := di_Env c,
           c_Ports := concat (map (\<lambda>(p, bs). map (port_text p) bs) (di_PortBindings c)), c_Mounts := di_Mounts c,
           c_RestartPolicy := di_RestartPolicy c, c_NetworkMode := di_NetworkMode c, c_FullyLoaded := True,
           c_Created := when (di_Created c), c_StartedAt := when (di_StartedAt c), c_FinishedAt := when (di_FinishedAt c),
           c_Health := (case di_Health c of None \<Rightarrow> [] | Some x \<Rightarrow> ToLower x)\<rparr>))"

definition docker_FindContainer ::
    "(string \<Rightarrow> gotime option) \<Rightarrow> (string \<Rightarrow> docker_inspect option) \<Rightarrow> string \<Rightarrow> string \<Rightarrow> go_panic + container option" where
  "docker_FindContainer parse_time inspect h i =
     (case inspect i of
        None \<Rightarrow> Inr None
      | Some c \<Rightarrow> (case newContainerFromJSON parse_time c h of Inl e \<Rightarrow> Inl e | Inr d \<Rightarrow> Inr (Some d)))"

definition docker_ListContainers :: "docker_summary list option \<Rightarrow> string \<Rightarrow> go_panic + container list option" where
  "docker_ListContainers answer h =
     (case answer of
        None \<Rightarrow> Inr None
      | Some items \<Rightarrow>
          (case foldE (\<lambda>acc c. case newContainer c h of Inl e \<Rightarrow> Inl e | Inr d \<Rightarrow> Inr (acc @ [d])) [] items of
             Inl e \<Rightarrow> Inl e
           | Inr l \<Rightarrow> Inr (Some (sort_key (\<lambda>c. ToLower (c_Name c)) l))))"

text \<open>An event of the engine that concerns a container; other types are dropped.\<close>

record docker_message =
  dm_Type :: string
  dm_ActorID :: string
  dm_Action :: string
  dm_Attributes :: "string \<rightharpoonup> string"

definition docker_event :: "string \<Rightarrow> gotime \<Rightarrow> docker_message \<Rightarrow> go_panic + container_store_event option" where
  "docker_event h now m =
     (if dm_Type m = ''container'' \<and> dm_ActorID m \<noteq> []
      then (case short_id (dm_ActorID m) of
              Inl e \<Rightarrow> Inl e
            | Inr i \<Rightarrow> Inr (Some \<lparr>ev_Name = dm_Action m, ev_Host = h, ev_ActorID = i, ev_ActorAttributes = dm_Attributes m,
                                ev_Time = now, ev_Container = None\<rparr>))
      else Inr None)"

text \<open>What is asked of the engine for an action.\<close>

datatype engine_call = CallStart string | CallStop string | CallRestart string | CallRemove string

definition docker_ContainerActions :: "container_action \<Rightarrow> string \<Rightarrow> engine_call" where
  "docker_ContainerActions a i =
     (case a of Action_Start \<Rightarrow> CallStart i | Action_Stop \<Rightarrow> CallStop i
      | Action_Restart \<Rightarrow> CallRestart i | Action_Remove \<Rightarrow> CallRemove i)"

text \<open>The host of a client, from the engine's information and version.\<close>

record docker_info =
  dinf_ID :: string
  dinf_SwarmNodeID :: string
  dinf_NCPU :: int
  dinf_MemTotal :: int
  dinf_ServerVersion :: string
  dinf_OperatingSystem :: string

record docker_version =
  dv_Components :: "string list"
  dv_Platform :: string

definition detectRuntime :: "docker_version option \<Rightarrow> docker_info \<Rightarrow> string" where
  "detectRuntime version info =
     (if (case version of None \<Rightarrow> False
          | Some v \<Rightarrow> list_ex (\<lambda>n. str_contains ''podman'' (ToLower n)) (dv_Components v)
              \<or> str_contains ''podman'' (ToLower (dv_Platform v)))
         \<or> str_contains ''podman'' (ToLower (dinf_OperatingSystem info))
      then ''podman'' else ''docker'')"

definition docker_host :: "docker_version option \<Rightarrow> docker_info \<Rightarrow> host \<Rightarrow> host" where
  "docker_host version info h =
     (let i = (if dinf_SwarmNodeID info \<noteq> [] then dinf_SwarmNodeID info else dinf_ID info)
      in h\<lparr>h_ID := if h_ID h = [] then i else h_ID h, h_NCPU := dinf_NCPU info, h_MemTotal := dinf_MemTotal info,
           h_DockerVersion := dinf_ServerVersion info, h_Runtime := detectRuntime version info,
           h_Swarm := dinf_SwarmNodeID info \<noteq> []\<rparr>)"

subsection \<open>Resource figures\<close>

record memory_stats =
  mem_Usage :: "64 word"
  mem_Limit :: "64 word"
  mem_Stats :: "string \<rightharpoonup> 64 word"
  mem_PrivateWorkingSet :: "64 word"

record docker_stats =
  dst_OSType :: string
  dst_Memory :: memory_stats
  dst_TotalUsage :: "64 word"
  dst_SystemUsage :: "64 word"
  dst_PreTotalUsage :: "64 word"
  dst_PreSystemUsage :: "64 word"
  dst_OnlineCPUs :: "32 word"
  dst_PercpuUsage :: "64 word list"
  dst_Read :: gotime
  dst_PreRead :: gotime
  dst_NumProcs :: "32 word"
  dst_Networks :: "(64 word \<times> 64 word) list"
  dst_Blkio :: "(string \<times> 64 word) list"

definition float64 :: "64 word \<Rightarrow> real" where "float64 w = real (unat w)"

definition calculateMemUsageUnixNoCache :: "memory_stats \<Rightarrow> real" where
  "calculateMemUsageUnixNoCache mem =
     (let v2 = (case mem_Stats mem ''inactive_file'' of None \<Rightarrow> 0 | Some v \<Rightarrow> v)
      in case mem_Stats mem ''total_inactive_file'' of
           Some v \<Rightarrow>
             (if v < mem_Usage mem then float64 (mem_Usage mem - v)
              else if v2 < mem_Usage mem then float64 (mem_Usage mem - v2)
              else case (mem_Usage mem = 0, mem_Stats mem ''anon'') of (True, Some a) \<Rightarrow> float64 a | _ \<Rightarrow> float64 (mem_Usage mem))
         | None \<Rightarrow>
             (if v2 < mem_Usage mem then float64 (mem_Usage mem - v2)
              else case (mem_Usage mem = 0, mem_Stats mem ''anon'') of (True, Some a) \<Rightarrow> float64 a | _ \<Rightarrow> float64 (mem_Usage mem)))"

definition calculateMemPercentUnixNoCache :: "real \<Rightarrow> real \<Rightarrow> real" where
  "calculateMemPercentUnixNoCache limit usedNoCache = (if limit \<noteq> 0 then usedNoCache / limit * 100 else 0)"

definition onlineCPUs :: "docker_stats \<Rightarrow> real" where
  "onlineCPUs v = (if dst_OnlineCPUs v = 0 then real (length (dst_PercpuUsage v)) else real (unat (dst_OnlineCPUs v)))"

definition calculateCPUPercentUnix :: "64 word \<Rightarrow> 64 word \<Rightarrow> docker_stats \<Rightarrow> real" where
  "calculateCPUPercentUnix previousCPU previousSystem v =
     (let cpuDelta = float64 (dst_TotalUsage v) - float64 previousCPU;
          systemDelta = float64 (dst_SystemUsage v) - float64 previousSystem
      in if systemDelta > 0 \<and> cpuDelta > 0 then cpuDelta / systemDelta * onlineCPUs v * 100 else 0)"

definition calculateCPUPercentWindows :: "docker_stats \<Rightarrow> real" where
  "calculateCPUPercentWindows v =
     (let possIntervals = (word_of_int (dst_Read v - dst_PreRead v) :: 64 word) div 100 * ucast (dst_NumProcs v);
          intervalsUsed = dst_TotalUsage v - dst_PreTotalUsage v
      in if 0 < possIntervals then float64 intervalsUsed / float64 possIntervals * 100 else 0)"

definition blkio_sum :: "string \<Rightarrow> (string \<times> 64 word) list \<Rightarrow> 64 word" where
  "blkio_sum op xs = (\<Sum>(o', v)\<leftarrow>xs. if ToLower o' = op then v else 0)"

definition stat_from_docker :: "string \<Rightarrow> docker_stats \<Rightarrow> container_stat" where
  "stat_from_docker i v =
     (let unix = dst_OSType v \<noteq> ''windows'';
          mem = (if unix then calculateMemUsageUnixNoCache (dst_Memory v) else float64 (mem_PrivateWorkingSet (dst_Memory v)))
      in \<lparr>st_ID = i,
          st_CPUPercent = (if unix then calculateCPUPercentUnix (dst_PreTotalUsage v) (dst_PreSystemUsage v) v
                           else calculateCPUPercentWindows v),
          st_MemoryPercent = (if unix then calculateMemPercentUnixNoCache (float64 (mem_Limit (dst_Memory v))) mem else 0),
          st_MemoryUsage = mem,
          st_NetworkRxTotal = sum_list (map fst (dst_Networks v)), st_NetworkTxTotal = sum_list (map snd (dst_Networks v)),
          st_DiskReadTotal = blkio_sum ''read'' (dst_Blkio v), st_DiskWriteTotal = blkio_sum ''write'' (dst_Blkio v)\<rparr>)"

subsection \<open>What a listing leaves out\<close>

definition uninspected :: "container \<Rightarrow> bool" where
  "uninspected c \<longleftrightarrow> \<not> c_FullyLoaded c \<and> c_StartedAt c = zero_time \<and> c_FinishedAt c = zero_time
     \<and> c_MemoryLimit c = 0 \<and> c_CPULimit c = 0"

lemma newContainer_uninspected: "newContainer c h = Inr d \<Longrightarrow> uninspected d"
  by (auto simp: newContainer_def uninspected_def zero_container_def split: sum.splits)

lemma listed_uninspected:
  assumes "docker_ListContainers answer h = Inr (Some l)" and "d \<in> set l"
  shows "uninspected d"
proof -
  obtain items l0 where i: "answer = Some items"
    "foldE (\<lambda>acc c. case newContainer c h of Inl e \<Rightarrow> Inl e | Inr d \<Rightarrow> Inr (acc @ [d])) [] items = Inr l0" "set l = set l0"
    using assms(1) by (auto simp: docker_ListContainers_def split: option.splits sum.splits)
  have "\<forall>d\<in>set l0. uninspected d"
    by (rule foldE_inv [OF i(2), where P = "\<lambda>l. \<forall>d\<in>set l. uninspected d"])
      (auto split: sum.splits dest: newContainer_uninspected)
  then show ?thesis using assms(2) i(3) by blast
qed

text \<open>Listing the containers of a Docker engine wipes what inspecting a container found: the store overwrites the
start and finish times and the memory and CPU limits with the empty values of the listing, and since the
container still counts as fully loaded it is not inspected again.\<close>

theorem listing_forgets_inspection:
  assumes "cs_connected s" and "cs_containers s i = Some c" and "c_FullyLoaded c"
    and "docker_ListContainers answer h = Inr (Some l)" and "i \<in> c_ID ` set l"
    and "eng_List eng (label_map (cs_labels s)) = Some l"
    and "store_ListContainers eng ks (cs_labels s) s = (r, s')"
  shows "\<exists>c'. cs_containers s' i = Some c' \<and> c_StartedAt c' = zero_time \<and> c_FinishedAt c' = zero_time
      \<and> c_MemoryLimit c' = 0 \<and> c_CPULimit c' = 0
      \<and> store_FindContainer eng gone i None s' = (Inr c', s')"
proof -
  obtain d where d: "key_by_ID l i = Some d" using assms(5) key_by_ID_None [of l i] by (cases "key_by_ID l i") auto
  then have "uninspected d" using listed_uninspected [OF assms(4)] key_by_ID_Some [OF d] by blast
  moreover have "s' = syncContainers (key_by_ID l) s"
    using assms(1,6,7) by (simp add: store_ListContainers_def checkConnectivity_def Let_def)
  moreover have "\<not> labels_Exists None" by (simp add: labels_Exists_def label_map_def)
  ultimately show ?thesis using d assms(2,3)
    by (simp add: syncContainers_def mergeListedContainer_def uninspected_def store_FindContainer_def)
qed

subsection \<open>Figures stay in range\<close>

lemma float64_minus: "v \<le> u \<Longrightarrow> float64 (u - v) = float64 u - float64 v"
  by (simp add: float64_def unat_sub word_le_nat_alt of_nat_diff)

lemma float64_mono: "v \<le> u \<Longrightarrow> float64 v \<le> float64 u"
  unfolding float64_def word_le_nat_alt by (rule of_nat_mono)

lemma float64_nonneg [simp]: "0 \<le> float64 v" "float64 0 = 0"
  unfolding float64_def by (rule of_nat_0_le_iff) simp

lemma onlineCPUs_nonneg [simp]: "0 \<le> onlineCPUs v"
  unfolding onlineCPUs_def by (simp only: of_nat_0_le_iff split: if_split) simp

lemma memory_bounds:
  assumes "mem_Usage mem \<noteq> 0"
  shows "0 \<le> calculateMemUsageUnixNoCache mem" and "calculateMemUsageUnixNoCache mem \<le> float64 (mem_Usage mem)"
  using assms float64_mono
  by (auto simp: calculateMemUsageUnixNoCache_def Let_def float64_minus less_imp_le split: option.splits)

text \<open>On a Unix engine the figures of a container in use are in range: used memory is at most what the engine
reports, its share lies between 0 and 100 percent when the engine's usage is within the limit, and the CPU
share lies between 0 and 100 percent of each CPU when the container's CPU time grew no faster than the system's.\<close>

theorem unix_figures_in_range:
  assumes "dst_OSType v \<noteq> ''windows''" and "mem_Usage (dst_Memory v) \<noteq> 0"
    and "mem_Usage (dst_Memory v) \<le> mem_Limit (dst_Memory v)"
    and "float64 (dst_TotalUsage v) - float64 (dst_PreTotalUsage v) \<le> float64 (dst_SystemUsage v) - float64 (dst_PreSystemUsage v)"
  shows "let st = stat_from_docker i v in
    0 \<le> st_MemoryUsage st \<and> st_MemoryUsage st \<le> float64 (mem_Usage (dst_Memory v))
    \<and> 0 \<le> st_MemoryPercent st \<and> st_MemoryPercent st \<le> 100
    \<and> 0 \<le> st_CPUPercent st
    \<and> st_CPUPercent st \<le> 100 * onlineCPUs v"
proof -
  let ?m = "calculateMemUsageUnixNoCache (dst_Memory v)" and ?l = "float64 (mem_Limit (dst_Memory v))"
    and ?n = "onlineCPUs v"
    and ?c = "float64 (dst_TotalUsage v) - float64 (dst_PreTotalUsage v)"
    and ?s = "float64 (dst_SystemUsage v) - float64 (dst_PreSystemUsage v)"
  have m: "0 \<le> ?m" "?m \<le> float64 (mem_Usage (dst_Memory v))" "float64 (mem_Usage (dst_Memory v)) \<le> ?l"
    using memory_bounds [OF assms(2)] float64_mono [OF assms(3)] by auto
  then have "?m / ?l \<le> 1" by (cases "?l = 0") (auto simp: divide_le_eq_1)
  then have "?m / ?l * 100 \<le> 1 * 100" by (rule mult_right_mono) simp
  then have p: "0 \<le> calculateMemPercentUnixNoCache ?l ?m" "calculateMemPercentUnixNoCache ?l ?m \<le> 100"
    using m(1) by (auto simp: calculateMemPercentUnixNoCache_def)
  have "calculateCPUPercentUnix (dst_PreTotalUsage v) (dst_PreSystemUsage v) v \<le> 100 * ?n"
  proof (cases "0 < ?s \<and> 0 < ?c")
    case True
    then have "?c / ?s * ?n \<le> 1 * ?n" using assms(4) by (intro mult_right_mono) (auto simp: divide_le_eq_1)
    moreover have "calculateCPUPercentUnix (dst_PreTotalUsage v) (dst_PreSystemUsage v) v = 100 * (?c / ?s * ?n)"
      using True by (simp add: calculateCPUPercentUnix_def)
    ultimately show ?thesis by linarith
  next
    case False
    then show ?thesis by (auto simp: calculateCPUPercentUnix_def Let_def)
  qed
  moreover have "0 \<le> calculateCPUPercentUnix (dst_PreTotalUsage v) (dst_PreSystemUsage v) v"
    by (simp add: calculateCPUPercentUnix_def Let_def)
  ultimately show ?thesis using m p assms(1) by (simp add: stat_from_docker_def Let_def)
qed

subsection \<open>The multiplexed log stream\<close>

text \<open>
  The stream is the bytes still to come.  Outside a terminal each event has a header of eight bytes: the stream,
  three zero bytes and the length of the payload in big-endian order.  \<open>True\<close> stands for standard error.
\<close>

datatype read_error = EOF | UnexpectedEOF

definition uint32_be :: "string \<Rightarrow> nat" where
  "uint32_be bs = fold (\<lambda>b n. n * 256 + of_char b) bs 0"

definition readEvent :: "bool \<Rightarrow> string \<Rightarrow> (read_error + string \<times> bool) \<times> string" where
  "readEvent tty s =
     (if tty then
        (case index_byte (CHR 0x0A) s of
           None \<Rightarrow> (Inl EOF, [])
         | Some n \<Rightarrow> (Inr (take (n + 1) s, False), drop (n + 1) s))
      else if length s < 8 then (Inl (if s = [] then EOF else UnexpectedEOF), [])
      else let header = take 8 s; body = drop 8 s; streamType = (hd header = CHR 0x02);
               n = uint32_be (drop 4 header)
           in if n = 0 then (Inr ([], streamType), body)
              else if length body < n then (Inl EOF, [])
              else (Inr (take n body, streamType), drop n body))"

definition after_space :: "string \<Rightarrow> string" where
  "after_space s = (case index_byte (CHR '' '') s of None \<Rightarrow> [] | Some n \<Rightarrow> drop (n + 1) s)"

definition ends_line :: "string \<Rightarrow> bool" where
  "ends_line s \<longleftrightarrow> s \<noteq> [] \<and> last s = CHR 0x0A"

lemma readEvent_shorter: "readEvent tty s = (Inr r, s') \<Longrightarrow> length s' < length s"
  by (cases s) (auto simp: readEvent_def Let_def split: if_splits option.splits)

text \<open>The loop that joins the parts of a long line; it ends because every event takes bytes from the stream.\<close>

function read_tail :: "bool \<Rightarrow> string \<Rightarrow> string \<Rightarrow> (read_error + string) \<times> string" where
  "read_tail tty message s =
     (if ends_line message then (Inr message, s)
      else case readEvent tty s of
             (Inl e, s') \<Rightarrow> (Inl e, s')
           | (Inr (tail, _), s') \<Rightarrow> read_tail tty (message @ after_space tail) s')"
  by pat_completeness auto

termination
  by (relation "measure (\<lambda>(_, _, s). length s)") (auto dest!: sym [of "(Inr _, _)"] readEvent_shorter)

declare read_tail.simps [simp del]

definition log_Read :: "bool \<Rightarrow> string \<Rightarrow> (read_error + string \<times> bool) \<times> string" where
  "log_Read tty s =
     (case readEvent tty s of
        (Inl e, s') \<Rightarrow> (Inl e, s')
      | (Inr (message, stdType), s') \<Rightarrow>
          (case read_tail tty message s' of
             (Inl e, s'') \<Rightarrow> (Inl e, s'')
           | (Inr m, s'') \<Rightarrow> (Inr (m, stdType), s'')))"

text \<open>What the engine writes: a frame per part, each part of a long line with its own timestamp.\<close>

definition be_bytes :: "nat \<Rightarrow> string" where
  "be_bytes n = map char_of [n div 256 div 256 div 256 mod 256, n div 256 div 256 mod 256, n div 256 mod 256, n mod 256]"

definition frame :: "bool \<Rightarrow> string \<Rightarrow> string" where
  "frame err payload = [if err then CHR 0x02 else CHR 0x01, CHR 0x00, CHR 0x00, CHR 0x00] @ be_bytes (length payload) @ payload"

lemma uint32_be_bytes: "n < 2 ^ 32 \<Longrightarrow> uint32_be (be_bytes n) = n"
proof -
  assume n: "n < 2 ^ 32"
  define a b c where "a = n div 256" and "b = a div 256" and "c = b div 256"
  have "c < 256" using n by (simp add: a_def b_def c_def div_less_iff_less_mult flip: div_mult2_eq)
  then have "((c mod 256 * 256 + b mod 256) * 256 + a mod 256) * 256 + n mod 256 = n"
    by (simp add: a_def b_def c_def del: mod_div_trivial)
  then show ?thesis by (simp add: uint32_be_def be_bytes_def a_def b_def c_def)
qed

lemma readEvent_header:
  assumes "length hdr = 8" and "uint32_be (drop 4 hdr) = length payload"
  shows "readEvent False (hdr @ payload @ s) = (Inr (payload, hd hdr = CHR 0x02), s)"
  using assms by (simp add: readEvent_def Let_def)

lemma readEvent_frame:
  assumes "length payload < 2 ^ 32"
  shows "readEvent False (frame err payload @ s) = (Inr (payload, err), s)"
  using readEvent_header [of "[if err then CHR 0x02 else CHR 0x01, CHR 0x00, CHR 0x00, CHR 0x00] @ be_bytes (length payload)" payload s]
    uint32_be_bytes [OF assms]
  by (cases err) (simp_all add: frame_def be_bytes_def)

lemma after_space_part: "CHR '' '' \<notin> set ts \<Longrightarrow> after_space (ts @ CHR '' '' # p) = p"
  by (simp add: after_space_def)

definition partial :: "string \<Rightarrow> bool" where "partial p \<longleftrightarrow> p = [] \<or> last p \<noteq> CHR 0x0A"

definition part_payload :: "string \<times> string \<Rightarrow> string" where "part_payload x = fst x @ CHR '' '' # snd x"

definition sendable :: "string \<times> string \<Rightarrow> bool" where
  "sendable x \<longleftrightarrow> CHR '' '' \<notin> set (fst x) \<and> length (part_payload x) < 2 ^ 32"

lemma read_tail_parts:
  assumes "\<forall>x\<in>set parts. sendable x" and "parts \<noteq> []" and "\<forall>x\<in>set (butlast parts). partial (snd x)"
    and "ends_line (snd (last parts))" and "\<not> ends_line message"
  shows "read_tail False message (concat (map (frame err \<circ> part_payload) parts) @ s)
    = (Inr (message @ concat (map snd parts)), s)"
  using assms
proof (induction parts arbitrary: message)
  case (Cons x parts)
  let ?m = "message @ snd x"
  have e: "readEvent False (frame err (part_payload x) @ t) = (Inr (part_payload x, err), t)" for t
    using Cons.prems(1) by (intro readEvent_frame) (simp add: sendable_def)
  have a: "after_space (part_payload x) = snd x"
    using Cons.prems(1) by (simp add: part_payload_def sendable_def after_space_part)
  have step: "read_tail False message (concat (map (frame err \<circ> part_payload) (x # parts)) @ s)
      = read_tail False ?m (concat (map (frame err \<circ> part_payload) parts) @ s)"
    using Cons.prems(5) by (subst read_tail.simps) (simp add: e a)
  show ?case
  proof (cases "parts = []")
    case True
    then have "ends_line ?m" using Cons.prems(4) by (simp add: ends_line_def)
    then show ?thesis using step True by (simp add: read_tail.simps)
  next
    case False
    then have "partial (snd x)" using Cons.prems(3) by simp
    then have "\<not> ends_line ?m" using Cons.prems(5) by (cases "snd x = []") (auto simp: ends_line_def partial_def)
    then have "read_tail False ?m (concat (map (frame err \<circ> part_payload) parts) @ s) = (Inr (?m @ concat (map snd parts)), s)"
      using Cons.prems False by (intro Cons.IH) auto
    then show ?thesis unfolding step by simp
  qed
qed simp

text \<open>C22. A log line that the engine sends in any number of parts, each framed and stamped on its own, is read back as
one line: the first timestamp and the parts in order, without the other timestamps, on the stream of the first
part, and the rest of the bytes are left for the next line.\<close>

theorem log_reader_joins_parts:
  assumes "parts \<noteq> []" and "\<forall>x\<in>set parts. sendable x" and "\<forall>x\<in>set (butlast parts). partial (snd x)"
    and "ends_line (snd (last parts))"
  shows "log_Read False (concat (map (frame err \<circ> part_payload) parts) @ s)
    = (Inr (fst (hd parts) @ CHR '' '' # concat (map snd parts), err), s)"
proof -
  obtain x rest where p: "parts = x # rest" using assms(1) by (cases parts) auto
  have e: "readEvent False (frame err (part_payload x) @ t) = (Inr (part_payload x, err), t)" for t
    using assms(2) p by (intro readEvent_frame) (simp add: sendable_def)
  have "read_tail False (part_payload x) (concat (map (frame err \<circ> part_payload) rest) @ s)
      = (Inr (part_payload x @ concat (map snd rest)), s)"
  proof (cases "rest = []")
    case True
    then have "ends_line (part_payload x)" using assms(4) p by (simp add: ends_line_def part_payload_def)
    then show ?thesis using True by (simp add: read_tail.simps)
  next
    case False
    then have "\<not> ends_line (part_payload x)" using assms(3) p
      by (auto simp: ends_line_def part_payload_def partial_def)
    then show ?thesis using assms p False by (intro read_tail_parts) auto
  qed
  then have "log_Read False (concat (map (frame err \<circ> part_payload) parts) @ s) = (Inr (part_payload x @ concat (map snd rest), err), s)"
    by (simp add: log_Read_def p e)
  then show ?thesis by (simp add: p part_payload_def)
qed

subsection \<open>Stats collector\<close>

text \<open>
  One collector serves all subscribers.  \<open>Start\<close> and \<open>Stop\<close> count them; the last \<open>Stop\<close> arms a timer that ends the
  collection six hours later and \<open>Start\<close> disarms it.  \<open>Start\<close> is three separate steps: \<open>reset\<close> under the lock, the
  atomic counter, and the test of \<open>stopper\<close> under the lock again.  A timer that has fired counts as unarmed.  Every collection has a
  goroutine that listens to the engine's events; when its collection is cancelled or the stream ends, it calls \<open>forceStop\<close> once more
  before it is gone.  \<open>scol_leaving\<close> counts the goroutines of cancelled collections that have not done so yet.
\<close>

record stats_collector =
  scol_totalStarted :: int
  scol_running :: bool
  scol_timer :: bool
  scol_leaving :: nat
  scol_cancelers :: "string set"

definition NewDockerStatsCollector :: stats_collector where
  "NewDockerStatsCollector = \<lparr>scol_totalStarted = 0, scol_running = False, scol_timer = False, scol_leaving = 0, scol_cancelers = {}\<rparr>"

definition collector_reset :: "stats_collector \<Rightarrow> stats_collector" where
  "collector_reset c = c\<lparr>scol_timer := False\<rparr>"

definition collector_count :: "stats_collector \<Rightarrow> stats_collector" where
  "collector_count c = c\<lparr>scol_totalStarted := scol_totalStarted c + 1\<rparr>"

text \<open>\<open>None\<close> is the early return with false; otherwise the running containers are streamed.\<close>

definition collector_begin :: "container list option \<Rightarrow> stats_collector \<Rightarrow> stats_collector option" where
  "collector_begin listed c =
     (if scol_running c then None
      else Some (c\<lparr>scol_running := True,
                   scol_cancelers := scol_cancelers c \<union>
                     (case listed of None \<Rightarrow> {} | Some l \<Rightarrow> c_ID ` {d \<in> set l. c_State d = ''running''})\<rparr>))"

definition collector_Start :: "container list option \<Rightarrow> stats_collector \<Rightarrow> stats_collector" where
  "collector_Start listed c =
     (let c1 = collector_count (collector_reset c)
      in case collector_begin listed c1 of None \<Rightarrow> c1 | Some c2 \<Rightarrow> c2)"

definition collector_Stop :: "stats_collector \<Rightarrow> stats_collector" where
  "collector_Stop c =
     (let n = scol_totalStarted c - 1
      in c\<lparr>scol_totalStarted := n, scol_timer := (if n = 0 then True else scol_timer c)\<rparr>)"

definition forceStop :: "stats_collector \<Rightarrow> stats_collector" where
  "forceStop c = (if scol_running c then c\<lparr>scol_running := False, scol_leaving := scol_leaving c + 1\<rparr> else c)"

text \<open>The end of an event goroutine: of one whose collection was cancelled, and of the one of the current collection when its stream fails.\<close>

definition listener_leaves :: "stats_collector \<Rightarrow> stats_collector" where
  "listener_leaves c = forceStop (c\<lparr>scol_leaving := scol_leaving c - 1\<rparr>)"

definition listener_fails :: "stats_collector \<Rightarrow> stats_collector" where
  "listener_fails c = (forceStop c)\<lparr>scol_leaving := scol_leaving c\<rparr>"

definition collector_event :: "container_store_event \<Rightarrow> stats_collector \<Rightarrow> stats_collector" where
  "collector_event ev c =
     (if ev_Name ev = ''start'' then c\<lparr>scol_cancelers := insert (ev_ActorID ev) (scol_cancelers c)\<rparr>
      else if ev_Name ev = ''die'' then c\<lparr>scol_cancelers := scol_cancelers c - {ev_ActorID ev}\<rparr>
      else c)"

text \<open>
  Steps with whole calls of \<open>Start\<close>; the second component counts the subscribers.  The flag marks the two disturbances: a \<open>Start\<close> while the
  goroutine of an earlier collection is still leaving, and an event stream that fails.
\<close>

inductive collector_step :: "bool \<Rightarrow> stats_collector \<times> nat \<Rightarrow> stats_collector \<times> nat \<Rightarrow> bool" where
  Begins: "collector_step (0 < scol_leaving c) (c, n) (collector_Start listed c, Suc n)"
| Ends: "collector_step False (c, Suc n) (collector_Stop c, n)"
| Expires: "scol_timer c \<Longrightarrow> collector_step False (c, n) (forceStop (c\<lparr>scol_timer := False\<rparr>), n)"
| Leaves: "0 < scol_leaving c \<Longrightarrow> collector_step False (c, n) (listener_leaves c, n)"
| Fails: "scol_running c \<Longrightarrow> collector_step True (c, n) (listener_fails c, n)"
| Hears: "scol_running c \<Longrightarrow> collector_step False (c, n) (collector_event ev c, n)"

definition collector_inv :: "stats_collector \<times> nat \<Rightarrow> bool" where
  "collector_inv p \<longleftrightarrow> scol_totalStarted (fst p) = int (snd p) \<and> (0 < snd p \<longrightarrow> scol_running (fst p) \<and> \<not> scol_timer (fst p))
     \<and> (scol_running (fst p) \<longrightarrow> scol_leaving (fst p) = 0)"

lemma collector_inv_step: "collector_step b p q \<Longrightarrow> \<not> b \<Longrightarrow> collector_inv p \<Longrightarrow> collector_inv q"
proof (induction rule: collector_step.induct)
  case (Begins c n listed)
  then show ?case
    by (auto simp: collector_inv_def collector_Start_def collector_count_def collector_reset_def collector_begin_def Let_def)
next
  case (Ends c n)
  then show ?case by (auto simp: collector_inv_def collector_Stop_def Let_def)
next
  case (Expires c n)
  then show ?case by (auto simp: collector_inv_def forceStop_def)
next
  case (Leaves c n)
  then show ?case by (auto simp: collector_inv_def listener_leaves_def forceStop_def)
next
  case (Hears c n ev)
  then show ?case by (auto simp: collector_inv_def collector_event_def)
qed simp

text \<open>C35. As long as calls of \<open>Start\<close> do not overlap with other calls, the engine's event stream lasts and no \<open>Start\<close> comes while the event goroutine of an
ended collection is still leaving, statistics are collected whenever somebody is subscribed: the idle timer never ends a collection in use.
The last condition is needed: after the idle timer, a \<open>Start\<close> that comes before the old goroutine has left can lose its collection to it, with
its subscriber left behind.\<close>

theorem collector_serves_subscribers:
  "((collector_step False)\<^sup>*\<^sup>* (NewDockerStatsCollector, 0) (c, Suc n) \<longrightarrow> scol_running c \<and> \<not> scol_timer c)
   \<and> (\<exists>idle. (collector_step False)\<^sup>*\<^sup>* (NewDockerStatsCollector, 0) (idle, 0)
        \<and> collector_step True (idle, 0) (collector_Start listed idle, 1) \<and> scol_running (collector_Start listed idle)
        \<and> collector_step False (collector_Start listed idle, 1) (listener_leaves (collector_Start listed idle), 1)
        \<and> \<not> scol_running (listener_leaves (collector_Start listed idle)))"
proof (intro conjI impI)
  assume "(collector_step False)\<^sup>*\<^sup>* (NewDockerStatsCollector, 0) (c, Suc n)"
  then have "collector_inv (c, Suc n)"
  proof (induction rule: rtranclp_induct)
    case base
    then show ?case by (simp add: collector_inv_def NewDockerStatsCollector_def)
  qed (blast intro: collector_inv_step)
  then show "scol_running c" "\<not> scol_timer c" by (simp_all add: collector_inv_def)
next
  let ?s0 = NewDockerStatsCollector let ?s1 = "collector_Start None ?s0" let ?s2 = "collector_Stop ?s1"
  let ?idle = "forceStop (?s2\<lparr>scol_timer := False\<rparr>)"
  have timer: "scol_timer ?s2" and fresh: "scol_leaving ?s0 = 0" and idle: "scol_leaving ?idle = 1" "\<not> scol_running ?idle"
    by (simp_all add: NewDockerStatsCollector_def collector_Start_def collector_count_def collector_reset_def collector_begin_def
        collector_Stop_def forceStop_def Let_def)
  have again: "scol_leaving (collector_Start listed ?idle) = 1" "scol_running (collector_Start listed ?idle)"
    using idle by (simp_all add: collector_Start_def collector_count_def collector_reset_def collector_begin_def Let_def)
  have "collector_step False (?s0, 0) (?s1, 1)" using collector_step.Begins [of ?s0 0 None] fresh by simp
  moreover have "collector_step False (?s1, 1) (?s2, 0)" using collector_step.Ends [of ?s1 0] by simp
  moreover have "collector_step False (?s2, 0) (?idle, 0)" using collector_step.Expires [OF timer] .
  ultimately have "(collector_step False)\<^sup>*\<^sup>* (?s0, 0) (?idle, 0)"
    by (meson rtranclp.rtrancl_refl rtranclp.rtrancl_into_rtrancl)
  moreover have "collector_step True (?idle, 0) (collector_Start listed ?idle, 1)"
    using collector_step.Begins [of ?idle 0 listed] idle by simp
  moreover have "collector_step False (collector_Start listed ?idle, 1) (listener_leaves (collector_Start listed ?idle), 1)"
    using collector_step.Leaves [of "collector_Start listed ?idle" 1] again by simp
  moreover have "\<not> scol_running (listener_leaves (collector_Start listed ?idle))" by (simp add: listener_leaves_def forceStop_def)
  ultimately show "\<exists>idle. (collector_step False)\<^sup>*\<^sup>* (?s0, 0) (idle, 0)
        \<and> collector_step True (idle, 0) (collector_Start listed idle, 1) \<and> scol_running (collector_Start listed idle)
        \<and> collector_step False (collector_Start listed idle, 1) (listener_leaves (collector_Start listed idle), 1)
        \<and> \<not> scol_running (listener_leaves (collector_Start listed idle))" using again by blast
qed

text \<open>
  A \<open>Stop\<close> that falls between the first two steps of a \<open>Start\<close> finds the count at one, arms the timer that \<open>reset\<close> has
  just disarmed, and nobody disarms it again: one subscriber is left, and the timer ends its collection.
\<close>

lemma overlapping_start_loses_collection:
  assumes "scol_totalStarted c = 1" and "scol_running c"
  shows "\<exists>c'. c' = collector_count (collector_Stop (collector_reset c)) \<and> collector_begin listed c' = None
    \<and> scol_totalStarted c' = 1 \<and> scol_running c' \<and> scol_timer c'
    \<and> \<not> scol_running (forceStop (c'\<lparr>scol_timer := False\<rparr>))"
  using assms by (simp add: collector_count_def collector_Stop_def collector_reset_def collector_begin_def forceStop_def)

subsection \<open>The theorems at work\<close>

definition demo_summary :: docker_summary where
  "demo_summary = \<lparr>ds_ID = ''0123456789abcdef'', ds_Names = [''/web''], ds_Image = ''i'', ds_Command = ''c'', ds_Created = 1,
     ds_State = ''running'', ds_Labels = Map.empty\<rparr>"

definition demo_listed :: container where
  "demo_listed = zero_container\<lparr>c_ID := ''0123456789ab'', c_Name := ''web'', c_Image := ''i'', c_Command := ''c'',
     c_Created := time_Unix 1, c_State := ''running'', c_Host := ''h'', c_Stats := Some fresh_stats\<rparr>"

definition demo_inspected :: container where
  "demo_inspected = demo_listed\<lparr>c_StartedAt := 7, c_MemoryLimit := 1024, c_FullyLoaded := True\<rparr>"

definition demo_engine :: engine_view where
  "demo_engine = \<lparr>eng_List = (\<lambda>_. Some [demo_listed]), eng_Find = (\<lambda>_. Some demo_inspected)\<rparr>"

definition demo_cstore :: container_store where
  "demo_cstore = (NewContainerStore None)\<lparr>cs_connected := True, cs_containers := [''0123456789ab'' \<mapsto> demo_inspected]\<rparr>"

lemma demo_list: "docker_ListContainers (Some [demo_summary]) ''h'' = Inr (Some [demo_listed])"
  by (simp add: docker_ListContainers_def newContainer_def short_id_def demo_summary_def demo_listed_def display_name_def
      group_name_def map_get_def TrimPrefix_slash_def zero_container_def)

theorem listing_forgets_inspection_witness:
  "c_StartedAt demo_inspected = 7 \<and>
   (\<exists>c'. cs_containers (snd (store_ListContainers demo_engine [''0123456789ab''] None demo_cstore)) ''0123456789ab'' = Some c'
      \<and> c_StartedAt c' = zero_time \<and> c_MemoryLimit c' = 0)"
proof -
  have "\<exists>c'. cs_containers (snd (store_ListContainers demo_engine [''0123456789ab''] None demo_cstore)) ''0123456789ab'' = Some c'
      \<and> c_StartedAt c' = zero_time \<and> c_FinishedAt c' = zero_time \<and> c_MemoryLimit c' = 0 \<and> c_CPULimit c' = 0
      \<and> store_FindContainer demo_engine (\<lambda>_. False) ''0123456789ab'' None (snd (store_ListContainers demo_engine [''0123456789ab''] None demo_cstore))
        = (Inr c', snd (store_ListContainers demo_engine [''0123456789ab''] None demo_cstore))"
    by (rule listing_forgets_inspection [OF _ _ _ demo_list, where s = demo_cstore and c = demo_inspected and ks = "[''0123456789ab'']"
        and r = "fst (store_ListContainers demo_engine [''0123456789ab''] None demo_cstore)"])
      (simp_all add: demo_cstore_def NewContainerStore_def demo_inspected_def demo_listed_def demo_engine_def zero_container_def)
  then show ?thesis by (auto simp: demo_inspected_def demo_listed_def zero_container_def)
qed

definition demo_stats :: docker_stats where
  "demo_stats = \<lparr>dst_OSType = ''linux'', dst_Memory = \<lparr>mem_Usage = 50, mem_Limit = 100, mem_Stats = [''inactive_file'' \<mapsto> 10],
       mem_PrivateWorkingSet = 0\<rparr>,
     dst_TotalUsage = 20, dst_SystemUsage = 110, dst_PreTotalUsage = 10, dst_PreSystemUsage = 10, dst_OnlineCPUs = 2,
     dst_PercpuUsage = [], dst_Read = 0, dst_PreRead = 0, dst_NumProcs = 0, dst_Networks = [], dst_Blkio = []\<rparr>"

theorem unix_figures_in_range_witness:
  "st_MemoryPercent (stat_from_docker ''a'' demo_stats) \<le> 100 \<and> st_CPUPercent (stat_from_docker ''a'' demo_stats) \<le> 200"
proof -
  have "onlineCPUs demo_stats = 2" by (simp add: onlineCPUs_def demo_stats_def)
  then show ?thesis using unix_figures_in_range [of demo_stats "''a''"]
    by (simp add: Let_def) (simp add: demo_stats_def float64_def)
qed

theorem log_reader_joins_parts_witness:
  "log_Read False (frame True ''t1 abc'' @ frame True (''t2 def'' @ [CHR 0x0A]) @ ''rest'')
     = (Inr (''t1 abcdef'' @ [CHR 0x0A], True), ''rest'')"
  using log_reader_joins_parts [of "[(''t1'', ''abc''), (''t2'', ''def'' @ [CHR 0x0A])]" True "''rest''"]
  by (simp add: sendable_def part_payload_def partial_def ends_line_def)

theorem collector_serves_subscribers_witness:
  "scol_running (collector_Start None (collector_Stop (collector_Start None NewDockerStatsCollector)))"
proof -
  let ?s0 = "NewDockerStatsCollector" let ?s1 = "collector_Start None ?s0" let ?s2 = "collector_Stop ?s1" let ?s3 = "collector_Start None ?s2"
  have l: "scol_leaving ?s0 = 0" "scol_leaving ?s2 = 0"
    by (simp_all add: NewDockerStatsCollector_def collector_Start_def collector_count_def collector_reset_def collector_begin_def
        collector_Stop_def Let_def)
  have "collector_step False (?s0, 0) (?s1, Suc 0)" using collector_step.Begins [of ?s0 0 None] l by simp
  moreover have "collector_step False (?s1, Suc 0) (?s2, 0)" by (rule collector_step.Ends)
  moreover have "collector_step False (?s2, 0) (?s3, Suc 0)" using collector_step.Begins [of ?s2 0 None] l by simp
  ultimately have "(collector_step False)\<^sup>*\<^sup>* (?s0, 0) (?s3, Suc 0)" by (meson rtranclp.rtrancl_refl rtranclp.rtrancl_into_rtrancl)
  then show ?thesis using collector_serves_subscribers [of ?s3 0] by simp
qed

end
