(* ===== verification/DockerUpdate.thy ===== *)
theory DockerUpdate
  imports DockerEngine
begin

text \<open>
  Updating a container to a newer image: \<open>UpdateContainer\<close> of \<open>internal/support/docker/docker_service.go\<close> with
  \<open>ContainerCreate\<close> and \<open>ServiceUpdate\<close> of \<open>internal/docker/client.go\<close>.

  The engine's answers are a record (\<open>engine_answers\<close>); what the code does to the engine is the list of calls it makes,
  in order.  A progress channel is the list of what was sent on it.
\<close>

subsection \<open>Recreating\<close>

text \<open>What the configuration of a container holds as far as recreating it changes it.\<close>

record endpoint =
  ep_Aliases :: "string list"
  ep_IPAddress :: string
  ep_Gateway :: string
  ep_MacAddress :: string

record create_source =
  crs_Name :: string
  crs_Image :: string
  crs_Hostname :: string
  crs_NetworkMode :: "string option"
  crs_Networks :: "string \<rightharpoonup> endpoint"

record create_options =
  cro_Name :: string
  cro_Image :: string
  cro_Hostname :: string
  cro_Endpoints :: "(string \<rightharpoonup> endpoint) option"

definition docker_ContainerCreate :: "create_source \<Rightarrow> string \<Rightarrow> create_options" where
  "docker_ContainerCreate c name =
     \<lparr>cro_Name = name, cro_Image = crs_Image c,
      cro_Hostname = (case crs_NetworkMode c of
                        Some mode \<Rightarrow> if mode = ''host'' \<or> has_prefix ''container:'' mode then [] else crs_Hostname c
                      | None \<Rightarrow> crs_Hostname c),
      cro_Endpoints = (if crs_Networks c = Map.empty then None
                       else Some (\<lambda>n. map_option (\<lambda>ep. \<lparr>ep_Aliases = ep_Aliases ep, ep_IPAddress = [], ep_Gateway = [],
                                                          ep_MacAddress = []\<rparr>) (crs_Networks c n)))\<rparr>"

record service_spec =
  svc_Version :: nat
  svc_Image :: string
  svc_ForceUpdate :: "64 word"

definition docker_ServiceUpdate :: "service_spec option \<Rightarrow> string \<Rightarrow> service_spec option" where
  "docker_ServiceUpdate inspected imageName =
     map_option (\<lambda>svc. svc\<lparr>svc_Image := imageName, svc_ForceUpdate := svc_ForceUpdate svc + 1\<rparr>) inspected"

subsection \<open>Updating\<close>

datatype update_call =
    UInspect string
  | UPull string
  | UServiceUpdate string string
  | UStop string
  | URemove string
  | UCreate create_options
  | UStart string

datatype update_status = UPulling string int int | URecreating | UUpToDate | UDone | UError string

record pull_event =
  pe_Status :: string
  pe_Current :: int
  pe_Total :: int
  pe_ID :: string

record engine_answers =
  ea_inspect :: "string + create_source"
  ea_pull :: "string + pull_event list \<times> string option"
  ea_service :: "string option"
  ea_stop :: "string option"
  ea_remove :: "string option"
  ea_create :: "string + string"
  ea_start :: "string option"

record update_run =
  ur_calls :: "update_call list"
  ur_progress :: "update_status list"
  ur_updated :: bool
  ur_error :: "string option"

definition pull_progress :: "pull_event \<Rightarrow> update_status" where
  "pull_progress e = UPulling (pe_ID e) (pe_Current e) (pe_Total e)"

definition newer_image :: "pull_event list \<Rightarrow> bool" where
  "newer_image es \<longleftrightarrow> list_ex (\<lambda>e. has_prefix ''Status: Downloaded newer image'' (pe_Status e)) es"

definition fails :: "update_call list \<Rightarrow> update_status list \<Rightarrow> string \<Rightarrow> string \<Rightarrow> update_run" where
  "fails calls progress what e =
     \<lparr>ur_calls = calls, ur_progress = progress @ [UError (what @ e)], ur_updated = False, ur_error = Some e\<rparr>"

definition succeeds :: "update_call list \<Rightarrow> update_status list \<Rightarrow> update_run" where
  "succeeds calls progress = \<lparr>ur_calls = calls, ur_progress = progress @ [UDone], ur_updated = True, ur_error = None\<rparr>"

text \<open>Step 6: a container on its own is stopped, removed, created and started.\<close>

definition recreate :: "engine_answers \<Rightarrow> container \<Rightarrow> create_source \<Rightarrow> update_call list \<Rightarrow> update_status list \<Rightarrow> update_run" where
  "recreate ans c src calls0 progress0 =
     (let progress = progress0 @ [URecreating]; calls = calls0 @ (if c_State c = ''running'' then [UStop (c_ID c)] else []);
          opts = docker_ContainerCreate src (TrimPrefix_slash (crs_Name src))
      in if c_State c = ''running'' \<and> ea_stop ans \<noteq> None then fails calls progress ''stop failed: '' (the (ea_stop ans))
         else case ea_remove ans of
                Some e \<Rightarrow> fails (calls @ [URemove (c_ID c)]) progress ''remove failed: '' e
              | None \<Rightarrow>
                  (case ea_create ans of
                     Inl e \<Rightarrow> fails (calls @ [URemove (c_ID c), UCreate opts]) progress ''create failed: '' e
                   | Inr newID \<Rightarrow>
                       (case ea_start ans of
                          Some e \<Rightarrow> fails (calls @ [URemove (c_ID c), UCreate opts, UStart newID]) progress ''start failed: '' e
                        | None \<Rightarrow> succeeds (calls @ [URemove (c_ID c), UCreate opts, UStart newID]) progress)))"

definition UpdateContainer :: "engine_answers \<Rightarrow> container \<Rightarrow> update_run" where
  "UpdateContainer ans c =
     (case ea_inspect ans of
        Inl e \<Rightarrow> fails [UInspect (c_ID c)] [] ''inspect failed: '' e
      | Inr src \<Rightarrow>
          (let calls = [UInspect (c_ID c), UPull (crs_Image src)]
           in case ea_pull ans of
                Inl e \<Rightarrow> fails calls [] ''pull failed: '' e
              | Inr (es, broken) \<Rightarrow>
                  (let progress = map pull_progress es
                   in case broken of
                        Some e \<Rightarrow> fails calls progress ''pull decode failed: '' e
                      | None \<Rightarrow>
                          (if \<not> newer_image es
                           then \<lparr>ur_calls = calls, ur_progress = progress @ [UUpToDate], ur_updated = False, ur_error = None\<rparr>
                           else if map_get (c_Labels c) ''com.docker.swarm.service.name'' \<noteq> []
                           then (let calls1 = calls @ [UServiceUpdate (map_get (c_Labels c) ''com.docker.swarm.service.id'') (crs_Image src)];
                                     progress1 = progress @ [URecreating]
                                 in case ea_service ans of
                                      Some e \<Rightarrow> fails calls1 progress1 ''service update failed: '' e
                                    | None \<Rightarrow> succeeds calls1 progress1)
                           else if str_contains ''amir20/dozzle'' (crs_Image src)
                           then \<lparr>ur_calls = calls, ur_progress = progress @ [UError ''Dozzle cannot update itself. Please restart manually.''],
                                 ur_updated = False, ur_error = Some ''cannot self-update: stopping Dozzle would terminate the update process''\<rparr>
                           else recreate ans c src calls progress))))"

subsection \<open>What an update does to the running container\<close>

definition touches :: "update_call \<Rightarrow> bool" where
  "touches u \<longleftrightarrow> (case u of UInspect _ \<Rightarrow> False | UPull _ \<Rightarrow> False | _ \<Rightarrow> True)"

definition under_way :: "update_status \<Rightarrow> bool" where
  "under_way p \<longleftrightarrow> (case p of UPulling _ _ _ \<Rightarrow> True | URecreating \<Rightarrow> True | _ \<Rightarrow> False)"

definition ends_once :: "update_status list \<Rightarrow> bool" where
  "ends_once ps \<longleftrightarrow> ps \<noteq> [] \<and> list_all under_way (butlast ps) \<and> \<not> under_way (last ps)"

lemma update_run_simps [simp]:
  "ur_calls (fails c p w e) = c" "ur_progress (fails c p w e) = p @ [UError (w @ e)]" "\<not> ur_updated (fails c p w e)"
  "ur_error (fails c p w e) = Some e"
  "ur_calls (succeeds c p) = c" "ur_progress (succeeds c p) = p @ [UDone]" "ur_updated (succeeds c p)" "ur_error (succeeds c p) = None"
  by (simp_all add: fails_def succeeds_def)

definition well_reported :: "update_run \<Rightarrow> bool" where
  "well_reported r \<longleftrightarrow> ends_once (ur_progress r) \<and> (ur_updated r \<longleftrightarrow> last (ur_progress r) = UDone)
     \<and> (ur_error r \<noteq> None \<longleftrightarrow> (\<exists>m. last (ur_progress r) = UError m))"

lemma reported_simps [simp]:
  "well_reported (fails c p w e) \<longleftrightarrow> list_all under_way p"
  "well_reported (succeeds c p) \<longleftrightarrow> list_all under_way p"
  by (simp_all add: well_reported_def ends_once_def under_way_def)

lemma pulling [simp]: "list_all under_way (map pull_progress es)" "under_way URecreating"
  by (simp_all add: list_all_iff pull_progress_def under_way_def)

lemma recreate_reported: "well_reported (recreate ans c src calls (map pull_progress es))"
  by (simp add: recreate_def Let_def split: option.split sum.split)

text \<open>An update always reports its outcome exactly once, as its last message, and the message agrees with what it
returns: done when the container was replaced, an error message when it failed, up to date otherwise.\<close>

theorem update_reports_outcome: "well_reported (UpdateContainer ans c)"
proof -
  have "well_reported \<lparr>ur_calls = calls, ur_progress = map pull_progress es @ [UUpToDate], ur_updated = False, ur_error = None\<rparr>"
    "well_reported \<lparr>ur_calls = calls, ur_progress = map pull_progress es @ [UError m], ur_updated = False, ur_error = Some e\<rparr>"
    for calls es m e by (simp_all add: well_reported_def ends_once_def) (simp_all add: under_way_def)
  then show ?thesis
    by (simp add: UpdateContainer_def Let_def recreate_reported split: option.split sum.split prod.split)
qed

text \<open>An update touches the container only when a newer image was really downloaded, never when the container runs
Dozzle itself, and removes nothing but that container, after it was stopped without error; a swarm service is
left to the engine.\<close>

theorem update_touches_only_when_newer:
  assumes "u \<in> set (ur_calls (UpdateContainer ans c))" and "touches u"
  shows "\<exists>src es. ea_inspect ans = Inr src \<and> ea_pull ans = Inr (es, None) \<and> newer_image es
    \<and> (case u of
         UServiceUpdate i img \<Rightarrow> map_get (c_Labels c) ''com.docker.swarm.service.name'' \<noteq> [] \<and> img = crs_Image src
       | URemove i \<Rightarrow> i = c_ID c \<and> \<not> str_contains ''amir20/dozzle'' (crs_Image src) \<and> (c_State c = ''running'' \<longrightarrow> ea_stop ans = None)
       | UCreate opts \<Rightarrow> ea_remove ans = None \<and> cro_Image opts = crs_Image src
       | _ \<Rightarrow> True)"
  using assms
  by (auto simp: UpdateContainer_def recreate_def docker_ContainerCreate_def Let_def touches_def split: option.splits sum.splits prod.splits if_splits)

text \<open>An update whose engine downloads a newer image of a running container.\<close>

definition newer_answers :: engine_answers where
  "newer_answers = \<lparr>ea_inspect = Inr \<lparr>crs_Name = ''/web'', crs_Image = ''img'', crs_Hostname = ''h'', crs_NetworkMode = None,
       crs_Networks = Map.empty\<rparr>,
     ea_pull = Inr ([\<lparr>pe_Status = ''Status: Downloaded newer image for img'', pe_Current = 1, pe_Total = 1, pe_ID = []\<rparr>], None),
     ea_service = None, ea_stop = None, ea_remove = None, ea_create = Inr ''new'', ea_start = None\<rparr>"

theorem update_touches_only_when_newer_witness:
  "\<exists>src es. ea_inspect newer_answers = Inr src \<and> ea_pull newer_answers = Inr (es, None) \<and> newer_image es"
proof -
  have "URemove ''a'' \<in> set (ur_calls (UpdateContainer newer_answers sample_container))"
    by (simp add: UpdateContainer_def newer_answers_def newer_image_def has_prefix_def sample_container_def map_get_def
        recreate_def Let_def succeeds_def)
  from update_touches_only_when_newer [OF this] show ?thesis by (auto simp: touches_def)
qed

end
