(* ===== verification/ClientManagers.thy ===== *)
theory ClientManagers
  imports ContainerTypes
begin

text \<open>
  Which hosts are connected: \<open>internal/support/docker/retriable_client_manager.go\<close> and
  \<open>swarm_client_manager.go\<close>, the agent service of \<open>internal/support/container/agent_service.go\<close> and
  \<open>ParseEndpoint\<close> of \<open>internal/agent/client.go\<close>.

  A client service is the local engine or the agent at an endpoint.  \<open>dial\<close> is what connecting to an agent and asking
  for its host gives, and \<open>host_of\<close> what a client answers when asked for its host.  The dials of one retry run in parallel;
  their results are handled in order.  A map is visited in the order of a list of its keys.  Sending to a
  subscriber happens in a goroutine of its own and is taken to arrive.
\<close>

subsection \<open>Agents\<close>

datatype client_service = LocalEngine string | AgentService string

datatype agent_error = DeadlineExceeded string | AgentFailure string

definition error_text :: "agent_error \<Rightarrow> string" where
  "error_text e = (case e of DeadlineExceeded m \<Rightarrow> m | AgentFailure m \<Rightarrow> m)"

type_synonym dial = "string \<Rightarrow> agent_error + host"

definition zero_host :: host where
  "zero_host = \<lparr>h_Name = [], h_ID = [], h_CertPath = [], h_CACertPath = [], h_KeyPath = [], h_ValidCerts = False, h_NCPU = 0,
     h_MemTotal = 0, h_Endpoint = [], h_DockerVersion = [], h_Runtime = [], h_AgentVersion = [], h_Type = [],
     h_Available = False, h_Swarm = False, h_Group = []\<rparr>"

definition ParseEndpoint :: "string \<Rightarrow> (string \<times> string \<times> string) option" where
  "ParseEndpoint endpoint =
     (let parts = split_on (CHR ''|'') endpoint
      in if length parts > 3 \<or> hd parts = [] then None
         else Some (hd parts, if length parts \<ge> 2 then parts ! 1 else [], if length parts = 3 then parts ! 2 else []))"

text \<open>The agent service remembers the last host it saw.\<close>

definition agent_Host :: "agent_error + host \<Rightarrow> host option \<Rightarrow> (host \<times> agent_error option) \<times> host option" where
  "agent_Host answer cached =
     (case answer of
        Inl e \<Rightarrow> ((case cached of Some h \<Rightarrow> h\<lparr>h_Available := False\<rparr> | None \<Rightarrow> zero_host, Some e), cached)
      | Inr h \<Rightarrow> ((h, None), Some h))"

subsection \<open>Retrying\<close>

record failed_agent =
  fa_nextRetry :: gotime
  fa_lastLogged :: gotime
  fa_lastErr :: string

record client_manager =
  cm_clients :: "string \<rightharpoonup> client_service"
  cm_failed :: "string \<rightharpoonup> failed_agent"
  cm_subscribers :: "nat \<rightharpoonup> host list"

definition zero_failed :: failed_agent where
  "zero_failed = \<lparr>fa_nextRetry = zero_time, fa_lastLogged = zero_time, fa_lastErr = []\<rparr>"

definition failedAgentRetryDefault :: duration where "failedAgentRetryDefault = 15 * Second"
definition failedAgentRetrySlow :: duration where "failedAgentRetrySlow = 10 * Minute"
definition failedAgentLogThrottle :: duration where "failedAgentLogThrottle = 10 * Minute"

definition retryDelayForAgentErr :: "agent_error \<Rightarrow> duration" where
  "retryDelayForAgentErr err =
     (case err of
        DeadlineExceeded _ \<Rightarrow> failedAgentRetrySlow
      | AgentFailure message \<Rightarrow>
          (if str_contains ''unknown certificate authority'' message \<or> str_contains ''tls:'' message
           then failedAgentRetrySlow else failedAgentRetryDefault))"

definition shouldLogFailedAgent :: "gotime \<Rightarrow> gotime \<Rightarrow> bool" where
  "shouldLogFailedAgent now lastLogged \<longleftrightarrow> IsZero lastLogged \<or> now - lastLogged \<ge> failedAgentLogThrottle"

text \<open>At start the local clients come first, then the agents.\<close>

datatype start_result = StartNothing | StartFailed string | StartOk host client_service

definition start_local :: "(client_service \<Rightarrow> agent_error + host) \<Rightarrow> client_service \<Rightarrow> start_result" where
  "start_local host_of c = (case host_of c of Inl _ \<Rightarrow> StartNothing | Inr h \<Rightarrow> StartOk h c)"

definition start_agent :: "dial \<Rightarrow> string \<Rightarrow> start_result" where
  "start_agent dial endpoint = (case dial endpoint of Inl _ \<Rightarrow> StartFailed endpoint | Inr h \<Rightarrow> StartOk h (AgentService endpoint))"

definition start_register :: "start_result \<Rightarrow> client_manager \<Rightarrow> client_manager" where
  "start_register r m =
     (case r of
        StartNothing \<Rightarrow> m
      | StartFailed endpoint \<Rightarrow> if endpoint = [] then m else m\<lparr>cm_failed := (cm_failed m)(endpoint \<mapsto> zero_failed)\<rparr>
      | StartOk h c \<Rightarrow> if cm_clients m (h_ID h) \<noteq> None then m else m\<lparr>cm_clients := (cm_clients m)(h_ID h \<mapsto> c)\<rparr>)"

definition NewRetriableClientManager ::
    "(client_service \<Rightarrow> agent_error + host) \<Rightarrow> dial \<Rightarrow> string list \<Rightarrow> client_service list \<Rightarrow> client_manager" where
  "NewRetriableClientManager host_of dial agents clients =
     fold start_register (map (start_local host_of) clients @ map (start_agent dial) agents)
       \<lparr>cm_clients = Map.empty, cm_failed = Map.empty, cm_subscribers = Map.empty\<rparr>"

definition is_due :: "gotime \<Rightarrow> failed_agent \<Rightarrow> bool" where
  "is_due now st \<longleftrightarrow> IsZero (fa_nextRetry st) \<or> \<not> now < fa_nextRetry st"

definition due_endpoints :: "gotime \<Rightarrow> string list \<Rightarrow> client_manager \<Rightarrow> string list" where
  "due_endpoints now ks m = filter (\<lambda>e. case cm_failed m e of None \<Rightarrow> False | Some st \<Rightarrow> is_due now st) ks"

definition mark_failed :: "gotime \<Rightarrow> agent_error \<Rightarrow> failed_agent \<Rightarrow> failed_agent" where
  "mark_failed now err st =
     (let st1 = st\<lparr>fa_lastErr := error_text err, fa_nextRetry := now + retryDelayForAgentErr err\<rparr>
      in if shouldLogFailedAgent now (fa_lastLogged st1) then st1\<lparr>fa_lastLogged := now\<rparr> else st1)"

definition notify_hosts :: "host \<Rightarrow> client_manager \<Rightarrow> client_manager" where
  "notify_hosts h m = m\<lparr>cm_subscribers := (\<lambda>ctx. map_option (\<lambda>sent. sent @ [h]) (cm_subscribers m ctx))\<rparr>"

definition handle_retry :: "dial \<Rightarrow> gotime \<Rightarrow> string \<Rightarrow> client_manager \<Rightarrow> client_manager" where
  "handle_retry dial now e m =
     (case dial e of
        Inl err \<Rightarrow> m\<lparr>cm_failed := (cm_failed m)(e \<mapsto> mark_failed now err (case cm_failed m e of None \<Rightarrow> zero_failed | Some st \<Rightarrow> st))\<rparr>
      | Inr h \<Rightarrow>
          (if cm_clients m (h_ID h) \<noteq> None then m\<lparr>cm_failed := (cm_failed m)(e := None)\<rparr>
           else notify_hosts (h\<lparr>h_Available := True\<rparr>)
                  (m\<lparr>cm_clients := (cm_clients m)(h_ID h \<mapsto> AgentService e), cm_failed := (cm_failed m)(e := None)\<rparr>)))"

text \<open>The errors it returns are those of the dials that failed; the list of clients is the values of the map.\<close>

definition RetryAndList :: "dial \<Rightarrow> gotime \<Rightarrow> string list \<Rightarrow> client_manager \<Rightarrow> agent_error list \<times> client_manager" where
  "RetryAndList dial now ks m =
     (let es = due_endpoints now ks m
      in (List.map_filter (\<lambda>e. case dial e of Inl err \<Rightarrow> Some err | Inr _ \<Rightarrow> None) es, fold (handle_retry dial now) es m))"

definition manager_List :: "string list \<Rightarrow> client_manager \<Rightarrow> client_service list" where
  "manager_List ids m = List.map_filter (cm_clients m) ids"

definition manager_Find :: "string \<Rightarrow> client_manager \<Rightarrow> client_service option" where
  "manager_Find i m = cm_clients m i"

definition failed_host :: "string \<Rightarrow> host option" where
  "failed_host endpoint =
     (case ParseEndpoint endpoint of
        None \<Rightarrow> None
      | Some (addr, name, grp) \<Rightarrow>
          Some (zero_host\<lparr>h_ID := endpoint, h_Name := if name = [] then addr else name, h_Endpoint := addr,
                          h_Available := False, h_Type := ''agent'', h_Group := grp\<rparr>))"

definition manager_Hosts :: "(client_service \<Rightarrow> host \<times> bool) \<Rightarrow> string list \<Rightarrow> string list \<Rightarrow> client_manager \<Rightarrow> host list" where
  "manager_Hosts host_of ids ks m =
     map (\<lambda>c. (fst (host_of c))\<lparr>h_Available := snd (host_of c)\<rparr>) (manager_List ids m)
       @ List.map_filter (\<lambda>e. case cm_failed m e of None \<Rightarrow> None | Some _ \<Rightarrow> failed_host e) ks"

text \<open>A subscriber first gets the hosts that answer; a retry follows at once and then every 15 seconds.\<close>

definition manager_Subscribe ::
    "(client_service \<Rightarrow> agent_error + host) \<Rightarrow> dial \<Rightarrow> gotime \<Rightarrow> string list \<Rightarrow> string list \<Rightarrow> nat \<Rightarrow> client_manager \<Rightarrow> client_manager" where
  "manager_Subscribe host_of dial now ids ks ctx m =
     (let known = List.map_filter (\<lambda>c. case host_of c of Inl _ \<Rightarrow> None | Inr h \<Rightarrow> Some (h\<lparr>h_Available := True\<rparr>)) (manager_List ids m)
      in snd (RetryAndList dial now ks (m\<lparr>cm_subscribers := (cm_subscribers m)(ctx \<mapsto> known)\<rparr>)))"

definition LocalClientServices :: "string list \<Rightarrow> client_manager \<Rightarrow> client_service list" where
  "LocalClientServices ids m = filter (\<lambda>c. case c of LocalEngine _ \<Rightarrow> True | AgentService _ \<Rightarrow> False) (manager_List ids m)"

subsection \<open>Swarm\<close>

record swarm_manager =
  sm_clients :: "string \<rightharpoonup> client_service"
  sm_subscribers :: "nat \<rightharpoonup> host list"
  sm_local :: string
  sm_localIPs :: "string list"
  sm_agents :: client_manager

definition NewSwarmClientManager :: "string \<Rightarrow> string list \<Rightarrow> client_manager \<Rightarrow> swarm_manager" where
  "NewSwarmClientManager local ips agents =
     \<lparr>sm_clients = [local \<mapsto> LocalEngine local], sm_subscribers = Map.empty, sm_local = local, sm_localIPs = ips, sm_agents = agents\<rparr>"

definition swarm_one :: "dial \<Rightarrow> string list \<Rightarrow> string \<Rightarrow> swarm_manager \<Rightarrow> swarm_manager" where
  "swarm_one dial endpoints ip m =
     (if ip \<in> set (sm_localIPs m) \<or> (ip @ '':7007'') \<in> set endpoints then m
      else case dial (ip @ '':7007'') of
             Inl _ \<Rightarrow> m
           | Inr h \<Rightarrow>
               (if h_ID h = sm_local m then m
                else m\<lparr>sm_clients := (sm_clients m)(h_ID h \<mapsto> AgentService (ip @ '':7007'')),
                       sm_subscribers := (\<lambda>ctx. map_option (\<lambda>sent. sent @ [h\<lparr>h_Available := True, h_Type := ''swarm''\<rparr>]) (sm_subscribers m ctx))\<rparr>))"

definition swarm_RetryAndList ::
    "dial \<Rightarrow> (client_service \<Rightarrow> host) \<Rightarrow> gotime \<Rightarrow> string list \<Rightarrow> string list \<Rightarrow> string list \<Rightarrow> swarm_manager \<Rightarrow> swarm_manager" where
  "swarm_RetryAndList dial host_of now ids ips ks m =
     (let endpoints = map (h_Endpoint \<circ> host_of) (List.map_filter (sm_clients m) ids);
          m1 = fold (swarm_one dial endpoints) ips m
      in m1\<lparr>sm_agents := snd (RetryAndList dial now ks (sm_agents m1))\<rparr>)"

definition swarm_List :: "string list \<Rightarrow> string list \<Rightarrow> swarm_manager \<Rightarrow> client_service list" where
  "swarm_List agent_ids ids m = manager_List agent_ids (sm_agents m) @ List.map_filter (sm_clients m) ids"

definition swarm_Find :: "string \<Rightarrow> swarm_manager \<Rightarrow> client_service option" where
  "swarm_Find i m = (case sm_clients m i of Some c \<Rightarrow> Some c | None \<Rightarrow> manager_Find i (sm_agents m))"

definition swarm_Hosts ::
    "(client_service \<Rightarrow> host \<times> bool) \<Rightarrow> string list \<Rightarrow> string list \<Rightarrow> string list \<Rightarrow> swarm_manager \<Rightarrow> host list" where
  "swarm_Hosts host_of agent_ids ks ids m =
     manager_Hosts host_of agent_ids ks (sm_agents m)
       @ map (\<lambda>c. (fst (host_of c))\<lparr>h_Available := snd (host_of c), h_Type := ''swarm''\<rparr>) (List.map_filter (sm_clients m) ids)"

subsection \<open>Back-off\<close>

lemma handle_retry_other: "e' \<noteq> e \<Longrightarrow> cm_failed (handle_retry dial now e' m) e = cm_failed m e"
  by (simp add: handle_retry_def notify_hosts_def split: sum.split)

lemma fold_retry_other: "e \<notin> set es \<Longrightarrow> cm_failed (fold (handle_retry dial now) es m) e = cm_failed m e"
  by (induction es arbitrary: m) (auto simp: handle_retry_other)

lemma mark_failed_next [simp]: "fa_nextRetry (mark_failed now err st) = now + retryDelayForAgentErr err"
  by (simp add: mark_failed_def Let_def)

lemma fold_retry_failed:
  assumes "dial e = Inl err" and "e \<in> set es"
  shows "\<exists>st. cm_failed (fold (handle_retry dial now) es m) e = Some st \<and> fa_nextRetry st = now + retryDelayForAgentErr err"
  using assms(2)
proof (induction es arbitrary: m)
  case (Cons x es)
  show ?case
  proof (cases "e \<in> set es")
    case True
    then show ?thesis using Cons.IH by simp
  next
    case False
    then have "x = e" using Cons.prems by simp
    moreover have "\<exists>st. cm_failed (handle_retry dial now e m) e = Some st \<and> fa_nextRetry st = now + retryDelayForAgentErr err"
      using assms(1) by (simp add: handle_retry_def)
    ultimately show ?thesis using fold_retry_other [OF False, of dial now "handle_retry dial now e m"] by simp
  qed
qed simp

lemma delay_pos: "15 * Second \<le> retryDelayForAgentErr err"
  by (auto simp: retryDelayForAgentErr_def failedAgentRetrySlow_def failedAgentRetryDefault_def duration_defs split: agent_error.split)

lemma not_zero: "0 \<le> (t :: gotime) \<Longrightarrow> \<not> IsZero t"
  by (simp add: IsZero_def zero_time_def)

definition retry_step :: "dial \<times> gotime \<times> string list \<Rightarrow> client_manager \<Rightarrow> client_manager" where
  "retry_step r m = (case r of (dial, now, ks) \<Rightarrow> snd (RetryAndList dial now ks m))"

definition retries :: "(dial \<times> gotime \<times> string list) list \<Rightarrow> client_manager \<Rightarrow> client_manager" where
  "retries rs m = fold retry_step rs m"

lemma retry_keeps_waiting:
  assumes "cm_failed m e = Some st" and "0 \<le> fa_nextRetry st" and "now < fa_nextRetry st"
  shows "cm_failed (snd (RetryAndList dial now ks m)) e = Some st"
proof -
  have "e \<notin> set (due_endpoints now ks m)" using assms by (simp add: due_endpoints_def is_due_def not_zero)
  then show ?thesis using assms(1) fold_retry_other by (simp add: RetryAndList_def Let_def)
qed

lemma retries_keep_waiting:
  assumes "cm_failed m e = Some st" and "0 \<le> fa_nextRetry st" and "\<forall>(dial, now, ks)\<in>set rs. now < fa_nextRetry st"
  shows "cm_failed (retries rs m) e = Some st"
  using assms(1,3)
proof (induction rs arbitrary: m)
  case (Cons r rs)
  obtain d t ks where r: "r = (d, t, ks)" by (cases r)
  have "cm_failed (snd (RetryAndList d t ks m)) e = Some st"
    using retry_keeps_waiting [OF Cons.prems(1) assms(2), of t d ks] Cons.prems(2) by (simp add: r)
  then show ?case using Cons.IH [of "snd (RetryAndList d t ks m)"] Cons.prems(2) by (simp add: retries_def retry_step_def r)
qed (simp add: retries_def)

text \<open>When an agent cannot be reached, it is left alone for its back-off time and asked again right after: whatever
other retries happen in between, it is dialled exactly from 15 seconds after the failure on, or from ten minutes
after it when the connection timed out or its certificate was refused.\<close>

theorem agent_backoff_exact:
  assumes "e \<in> set (due_endpoints t ks m)" and "dial e = Inl err" and "0 \<le> t"
    and "\<forall>(d, now, ks)\<in>set rs. now < t + retryDelayForAgentErr err" and "e \<in> set ks'"
  shows "e \<in> set (due_endpoints t' ks' (retries rs (snd (RetryAndList dial t ks m)))) \<longleftrightarrow> t + retryDelayForAgentErr err \<le> t'"
proof -
  obtain st where st: "cm_failed (snd (RetryAndList dial t ks m)) e = Some st" "fa_nextRetry st = t + retryDelayForAgentErr err"
    using fold_retry_failed [where dial = dial and e = e and err = err and now = t, OF assms(2,1), of m]
    by (auto simp: RetryAndList_def Let_def)
  have n: "0 \<le> fa_nextRetry st" using st(2) assms(3) delay_pos [of err] by (simp add: duration_defs)
  have "cm_failed (retries rs (snd (RetryAndList dial t ks m))) e = Some st"
    using retries_keep_waiting [OF st(1) n] assms(4) st(2) by simp
  then show ?thesis using assms(5) st(2) n by (auto simp: due_endpoints_def is_due_def not_zero)
qed

subsection \<open>Registered hosts stay\<close>

lemma handle_retry_keeps: "cm_clients m i = Some c \<Longrightarrow> cm_clients (handle_retry dial now e m) i = Some c"
  by (auto simp: handle_retry_def notify_hosts_def split: sum.split)

lemma retry_keeps_clients: "cm_clients m i = Some c \<Longrightarrow> cm_clients (snd (RetryAndList dial now ks m)) i = Some c"
proof -
  have "cm_clients m i = Some c \<Longrightarrow> cm_clients (fold (handle_retry dial now) es m) i = Some c" for es m
    by (induction es arbitrary: m) (simp_all add: handle_retry_keeps)
  then show "cm_clients m i = Some c \<Longrightarrow> ?thesis" by (simp add: RetryAndList_def Let_def)
qed

lemma swarm_fold_keeps:
  "sm_clients (fold (swarm_one dial es) ips m) (sm_local m) = sm_clients m (sm_local m) \<and> sm_local (fold (swarm_one dial es) ips m) = sm_local m
    \<and> sm_agents (fold (swarm_one dial es) ips m) = sm_agents m"
proof (induction ips arbitrary: m)
  case (Cons ip ips)
  have "sm_clients (swarm_one dial es ip m) (sm_local m) = sm_clients m (sm_local m)" "sm_local (swarm_one dial es ip m) = sm_local m"
    "sm_agents (swarm_one dial es ip m) = sm_agents m"
    by (simp_all add: swarm_one_def split: sum.split)
  then show ?case using Cons.IH [of "swarm_one dial es ip m"] by simp
qed simp

text \<open>The contract of \<open>ClientManager\<close> the services rely on: a client that is pinned to its host is found, also after a retry.\<close>

locale client_registry =
  fixes find :: "string \<Rightarrow> 'm \<Rightarrow> client_service option"
    and retry :: "'r \<Rightarrow> 'm \<Rightarrow> 'm"
    and pinned :: "'m \<Rightarrow> string \<Rightarrow> client_service \<Rightarrow> bool"
  assumes pinned_found: "pinned m i c \<Longrightarrow> find i m = Some c"
    and retry_pinned: "pinned m i c \<Longrightarrow> pinned (retry r m) i c"
begin

lemma found_after_retries: "pinned m i c \<Longrightarrow> find i (fold retry rs m) = Some c"
  by (induction rs arbitrary: m) (simp_all add: pinned_found retry_pinned)

end

definition swarm_step ::
    "dial \<times> (client_service \<Rightarrow> host) \<times> gotime \<times> string list \<times> string list \<times> string list \<Rightarrow> swarm_manager \<Rightarrow> swarm_manager" where
  "swarm_step r m = (case r of (dial, host_of, now, ids, ips, ks) \<Rightarrow> swarm_RetryAndList dial host_of now ids ips ks m)"

interpretation retriable: client_registry manager_Find retry_step "\<lambda>m i c. cm_clients m i = Some c"
  by unfold_locales (auto simp: manager_Find_def retry_step_def retry_keeps_clients)

definition swarm_pinned :: "swarm_manager \<Rightarrow> string \<Rightarrow> client_service \<Rightarrow> bool" where
  "swarm_pinned m i c \<longleftrightarrow> i = sm_local m \<and> sm_clients m i = Some c"

lemma swarm_step_pinned: "swarm_pinned m i c \<Longrightarrow> swarm_pinned (swarm_step r m) i c"
proof -
  assume p: "swarm_pinned m i c"
  obtain d ho t ids ips ks where r: "r = (d, ho, t, ids, ips, ks)" by (cases r)
  show ?thesis
    using p swarm_fold_keeps [of d "map (h_Endpoint \<circ> ho) (List.map_filter (sm_clients m) ids)" ips m]
    by (auto simp: r swarm_step_def swarm_RetryAndList_def Let_def swarm_pinned_def)
qed

interpretation swarm: client_registry swarm_Find swarm_step swarm_pinned
proof
  show "swarm_pinned m i c \<Longrightarrow> swarm_Find i m = Some c" for m i c by (auto simp: swarm_pinned_def swarm_Find_def)
qed (rule swarm_step_pinned)

text \<open>A host that is registered is never handed over to another client: in a swarm the local engine always answers for
its own host, and in the list of agents the first one to register keeps its host, however often and with
whatever answers the managers retry.\<close>

theorem registered_hosts_stay:
  "swarm_Find h (fold swarm_step rs (NewSwarmClientManager h ips0 agents)) = Some (LocalEngine h)
    \<and> (manager_Find i agents = Some c \<longrightarrow> manager_Find i (fold retry_step rs' agents) = Some c)"
proof
  show "swarm_Find h (fold swarm_step rs (NewSwarmClientManager h ips0 agents)) = Some (LocalEngine h)"
    by (rule swarm.found_after_retries) (simp add: swarm_pinned_def NewSwarmClientManager_def)
  show "manager_Find i agents = Some c \<longrightarrow> manager_Find i (fold retry_step rs' agents) = Some c"
    using retriable.found_after_retries by (simp add: manager_Find_def)
qed

subsection \<open>The theorems at work\<close>

definition one_failed :: client_manager where
  "one_failed = NewRetriableClientManager (\<lambda>_. Inl (AgentFailure [])) (\<lambda>_. Inl (AgentFailure ''refused'')) [''a:7007''] []"

theorem agent_backoff_exact_witness:
  "''a:7007'' \<in> set (due_endpoints (16 * Second) [''a:7007'']
     (retries [(\<lambda>_. Inl (AgentFailure []), 10 * Second, [''a:7007''])]
        (snd (RetryAndList (\<lambda>_. Inl (AgentFailure ''refused'')) 0 [''a:7007''] one_failed))))"
proof -
  have d: "retryDelayForAgentErr (AgentFailure ''refused'') = 15 * Second"
    by (simp add: retryDelayForAgentErr_def failedAgentRetryDefault_def has_prefix_def)
  have "''a:7007'' \<in> set (due_endpoints 0 [''a:7007''] one_failed)"
    by (simp add: due_endpoints_def one_failed_def NewRetriableClientManager_def start_agent_def start_register_def
        is_due_def zero_failed_def IsZero_def)
  from agent_backoff_exact [OF this refl, where ks' = "[''a:7007'']" and t' = "16 * Second"
      and rs = "[(\<lambda>_. Inl (AgentFailure []), 10 * Second, [''a:7007''])]"] show ?thesis
    by (simp add: d Second_def)
qed

theorem registered_hosts_stay_witness:
  "swarm_Find ''h'' (swarm_step (\<lambda>_. Inr (zero_host\<lparr>h_ID := ''h''\<rparr>), \<lambda>_. zero_host, 0, [''h''], [''10.0.0.9''], [])
     (NewSwarmClientManager ''h'' [] one_failed)) = Some (LocalEngine ''h'')
   \<and> manager_Find ''g'' (retry_step (\<lambda>_. Inr (zero_host\<lparr>h_ID := ''g''\<rparr>), 0, [''a:7007''])
        (one_failed\<lparr>cm_clients := [''g'' \<mapsto> LocalEngine ''g'']\<rparr>)) = Some (LocalEngine ''g'')"
proof -
  let ?r = "(\<lambda>_. Inr (zero_host\<lparr>h_ID := ''h''\<rparr>), \<lambda>_. zero_host, 0, [''h''], [''10.0.0.9''], [])"
  let ?r' = "(\<lambda>_. Inr (zero_host\<lparr>h_ID := ''g''\<rparr>), 0, [''a:7007''])"
  show ?thesis
    using registered_hosts_stay [of "''h''" "[?r]" "[]" one_failed]
      registered_hosts_stay [where rs' = "[?r']" and i = "''g''" and c = "LocalEngine ''g''"
        and agents = "one_failed\<lparr>cm_clients := [''g'' \<mapsto> LocalEngine ''g'']\<rparr>"]
    by (simp add: manager_Find_def)
qed

end
