(* ===== verification/MultiHost.thy ===== *)
theory MultiHost
  imports ClientManagers ContainerStore LogStore NotifConfig
begin

text \<open>
  The service over all hosts, \<open>internal/support/docker/multi_host_service.go\<close>: containers of all hosts merged with those
  that only the log cache still knows, notification settings that are saved and passed on to the agents, and the
  notification statistics of the agents added up.

  A client is seen through its answers (\<open>client_answer\<close>); the clients asked in parallel are a list.  What the service sends to
  the agents is a list of messages.  Cached containers are what \<open>CachedContainers\<close> of the log store returns, \<open>None\<close>
  for an error or when there is no store.
\<close>

subsection \<open>Containers of all hosts\<close>

record client_answer =
  ca_host :: "host \<times> bool"
  ca_list :: "container_labels \<Rightarrow> container list option"
  ca_find :: "string \<Rightarrow> label_arg \<Rightarrow> container option"

datatype host_error = HostUnavailable host | HostNotFound string | RetryError agent_error | ListFailed

definition containerMatchesLabels :: "string list \<Rightarrow> container_labels \<Rightarrow> container \<Rightarrow> bool" where
  "containerMatchesLabels ks labels c =
     list_all (\<lambda>key. case labels key of
        None \<Rightarrow> True
      | Some allowed \<Rightarrow> (case c_Labels c key of None \<Rightarrow> False | Some v \<Rightarrow> v \<in> set allowed)) ks"

text \<open>\<open>ks\<close> lists the keys of the labels.\<close>

definition filterCachedContainers :: "string list \<Rightarrow> label_arg \<Rightarrow> container list \<Rightarrow> container list" where
  "filterCachedContainers ks labels cs =
     (if \<not> labels_Exists labels then cs else filter (containerMatchesLabels ks (label_map labels)) cs)"

definition cachedContainers :: "string list \<Rightarrow> label_arg \<Rightarrow> container list option \<Rightarrow> container list" where
  "cachedContainers ks labels stored = (case stored of None \<Rightarrow> [] | Some cs \<Rightarrow> filterCachedContainers ks labels cs)"

definition containerCacheKey :: "container \<Rightarrow> string" where
  "containerCacheKey c = (if LogIdentity c \<noteq> [] then c_Host c @ ''/'' @ LogIdentity c else c_Host c @ ''/'' @ c_ID c)"

text \<open>The loop over the live containers: the merged list and the cached containers that are left.\<close>

fun merge_live ::
    "container list \<Rightarrow> (string \<rightharpoonup> container) \<Rightarrow> container list \<times> (string \<rightharpoonup> container)" where
  "merge_live [] cachedByID = ([], cachedByID)"
| "merge_live (c # live) cachedByID =
     (let key = containerCacheKey c
      in case cachedByID key of
           Some cached \<Rightarrow>
             (let (rest, left) = merge_live live (cachedByID(key := None))
              in ((if c_State c \<noteq> ''running'' then cached\<lparr>c_State := ''offline''\<rparr> else c) # rest, left))
         | None \<Rightarrow> (let (rest, left) = merge_live live cachedByID in (c # rest, left)))"

definition cached_by_key :: "container list \<Rightarrow> string \<rightharpoonup> container" where
  "cached_by_key cs = fold (\<lambda>c m. m(containerCacheKey c \<mapsto> c)) cs Map.empty"

text \<open>\<open>cks\<close> is the order in which the cached containers that are left are visited.\<close>

definition mergeCachedContainers ::
    "string list \<Rightarrow> string list \<Rightarrow> label_arg \<Rightarrow> container list \<Rightarrow> container list \<Rightarrow> container list" where
  "mergeCachedContainers ks cks labels live cached =
     (if cached = [] then live
      else let (merged, left) = merge_live live (cached_by_key (filterCachedContainers ks labels cached))
           in merged @ filter (\<lambda>c. c_State c = ''offline'') (List.map_filter left cks))"

definition mh_FindContainer ::
    "(string \<Rightarrow> client_answer option) \<Rightarrow> string \<Rightarrow> string \<Rightarrow> label_arg \<Rightarrow> host_error + container" where
  "mh_FindContainer find_client h i labels =
     (case find_client h of
        None \<Rightarrow> Inl (HostNotFound h)
      | Some a \<Rightarrow> (case ca_find a i labels of None \<Rightarrow> Inl ListFailed | Some c \<Rightarrow> Inr c))"

definition ListContainersForHost ::
    "(string \<Rightarrow> client_answer option) \<Rightarrow> string list \<Rightarrow> string list \<Rightarrow> container list option \<Rightarrow> string \<Rightarrow> label_arg
       \<Rightarrow> container list \<times> host_error option" where
  "ListContainersForHost find_client ks cks stored h labels =
     (case find_client h of
        None \<Rightarrow> (cachedContainers ks labels stored, Some (HostNotFound h))
      | Some a \<Rightarrow>
          (case ca_list a (label_map labels) of
             None \<Rightarrow> (cachedContainers ks labels stored, Some ListFailed)
           | Some cs \<Rightarrow> (mergeCachedContainers ks cks labels cs (cachedContainers ks labels stored), None)))"

definition list_one :: "label_arg \<Rightarrow> client_answer \<Rightarrow> host_error + container list" where
  "list_one labels a =
     (case ca_list a (label_map labels) of
        None \<Rightarrow> Inl (HostUnavailable ((fst (ca_host a))\<lparr>h_Available := snd (ca_host a)\<rparr>))
      | Some cs \<Rightarrow> Inr cs)"

definition ListAllContainers ::
    "client_answer list \<Rightarrow> agent_error list \<Rightarrow> string list \<Rightarrow> string list \<Rightarrow> container list option \<Rightarrow> label_arg
       \<Rightarrow> container list \<times> host_error list" where
  "ListAllContainers clients errors ks cks stored labels =
     (let results = map (list_one labels) clients
      in (mergeCachedContainers ks cks labels
            (concat (List.map_filter (\<lambda>r. case r of Inl _ \<Rightarrow> None | Inr cs \<Rightarrow> Some cs) results)) (cachedContainers ks labels stored),
          map RetryError errors @ List.map_filter (\<lambda>r. case r of Inl e \<Rightarrow> Some e | Inr _ \<Rightarrow> None) results))"

definition ListAllContainersFiltered ::
    "client_answer list \<Rightarrow> agent_error list \<Rightarrow> string list \<Rightarrow> string list \<Rightarrow> container list option \<Rightarrow> label_arg \<Rightarrow> (container \<Rightarrow> bool)
       \<Rightarrow> container list \<times> host_error list" where
  "ListAllContainersFiltered clients errors ks cks stored labels f =
     (let (cs, es) = ListAllContainers clients errors ks cks stored labels in (filter f cs, es))"

definition LocalHost :: "host list \<Rightarrow> host list \<Rightarrow> host option" where
  "LocalHost hosts locals =
     (case filter (\<lambda>h. h_Type h = ''local'') hosts of
        h # _ \<Rightarrow> Some h
      | [] \<Rightarrow> (case locals of h # _ \<Rightarrow> Some h | [] \<Rightarrow> None))"

subsection \<open>Settings for the agents\<close>

definition agent_subscription :: "quiet_hours_config \<Rightarrow> 'a subscription_config_scheme \<Rightarrow> subscription_config" where
  "agent_subscription qh sub =
     (let cfg = subscription_config.truncate sub
      in if qh_Enabled qh \<and> \<not> AlertQuietEnabled sub
         then cfg\<lparr>AlertQuietEnabled := True, AlertQuietStart := qh_Start qh, AlertQuietEnd := qh_End qh,
                  AlertQuietTimezone := qh_Timezone qh,
                  QuietStackThreshold := (if QuietStackThreshold cfg \<le> 0 then StackThreshold qh else QuietStackThreshold cfg),
                  QuietStackWindow := (if QuietStackWindow cfg \<le> 0 then StackWindow qh else QuietStackWindow cfg)\<rparr>
         else cfg)"

definition subscriptionConfigsForAgents :: "quiet_hours_config \<Rightarrow> subscription list \<Rightarrow> subscription_config list" where
  "subscriptionConfigsForAgents qh subs = map (agent_subscription qh) subs"

datatype agent_message =
    ConfigMessage "subscription_config list" "dispatcher_config list"
  | CloudMessage "cloud_config option"

text \<open>\<open>mh_reconnects\<close> counts the calls of the function registered by \<open>SetCloudNotifyFunc\<close>.\<close>

record multi_host =
  mh_persister :: persister
  mh_files :: files
  mh_sent :: "agent_message list"
  mh_reconnects :: nat

text \<open>The fields of a dispatcher that go to the agents; the prefix is not among them.\<close>

definition broadcastNotificationConfig :: "int list \<Rightarrow> int list \<Rightarrow> multi_host \<Rightarrow> multi_host" where
  "broadcastNotificationConfig ks ds h =
     (let m = p_Manager (mh_persister h)
      in h\<lparr>mh_sent := mh_sent h @ [ConfigMessage (subscriptionConfigsForAgents (GetQuietHours m) (Subscriptions ks m))
             (map (\<lambda>d. d\<lparr>dc_Prefix := []\<rparr>) (filter (\<lambda>d. dc_Type d \<noteq> ''cloud'') (Dispatchers ds m)))]\<rparr>)"

definition broadcastCloudConfig :: "multi_host \<Rightarrow> multi_host" where
  "broadcastCloudConfig h =
     h\<lparr>mh_sent := mh_sent h @ [CloudMessage (map_option (\<lambda>cc. cc\<lparr>cc_StreamLogs := None\<rparr>) (p_cloudConfig (mh_persister h)))]\<rparr>"

definition with_manager :: "(manager \<Rightarrow> manager) \<Rightarrow> multi_host \<Rightarrow> multi_host" where
  "with_manager f h = h\<lparr>mh_persister := (mh_persister h)\<lparr>p_Manager := f (p_Manager (mh_persister h))\<rparr>\<rparr>"

definition save_files :: "yaml_lib \<Rightarrow> disk \<Rightarrow> int list \<Rightarrow> int list \<Rightarrow> multi_host \<Rightarrow> multi_host" where
  "save_files yl dk ks ds h = h\<lparr>mh_files := SaveNotifications yl dk ks ds (mh_persister h) (mh_files h)\<rparr>"

definition saveNotificationConfig :: "yaml_lib \<Rightarrow> disk \<Rightarrow> int list \<Rightarrow> int list \<Rightarrow> multi_host \<Rightarrow> multi_host" where
  "saveNotificationConfig yl dk ks ds h = broadcastNotificationConfig ks ds (save_files yl dk ks ds h)"

definition mh_AddSubscription ::
    "env_lib \<Rightarrow> yaml_lib \<Rightarrow> disk \<Rightarrow> int list \<Rightarrow> int list \<Rightarrow> int list \<Rightarrow> subscription \<Rightarrow> multi_host \<Rightarrow> compile_error option \<times> multi_host" where
  "mh_AddSubscription lib yl dk ks0 ks ds sub h =
     (case AddSubscription lib ks0 sub (p_Manager (mh_persister h)) of
        (Some e, m) \<Rightarrow> (Some e, with_manager (\<lambda>_. m) h)
      | (None, m) \<Rightarrow> (None, saveNotificationConfig yl dk ks ds (with_manager (\<lambda>_. m) h)))"

definition mh_ReplaceSubscription ::
    "env_lib \<Rightarrow> yaml_lib \<Rightarrow> disk \<Rightarrow> int list \<Rightarrow> int list \<Rightarrow> int list \<Rightarrow> subscription \<Rightarrow> multi_host \<Rightarrow> compile_error option \<times> multi_host" where
  "mh_ReplaceSubscription lib yl dk ks0 ks ds sub h =
     (case ReplaceSubscription lib ks0 sub (p_Manager (mh_persister h)) of
        (Some e, m) \<Rightarrow> (Some e, with_manager (\<lambda>_. m) h)
      | (None, m) \<Rightarrow> (None, saveNotificationConfig yl dk ks ds (with_manager (\<lambda>_. m) h)))"

definition mh_UpdateSubscription ::
    "env_lib \<Rightarrow> yaml_lib \<Rightarrow> disk \<Rightarrow> int list \<Rightarrow> int list \<Rightarrow> int list \<Rightarrow> int \<Rightarrow> (string \<times> update_value) list \<Rightarrow> multi_host
       \<Rightarrow> update_error option \<times> multi_host" where
  "mh_UpdateSubscription lib yl dk ks0 ks ds i updates h =
     (case UpdateSubscription lib ks0 i updates (p_Manager (mh_persister h)) of
        (Some e, m) \<Rightarrow> (Some e, with_manager (\<lambda>_. m) h)
      | (None, m) \<Rightarrow> (None, saveNotificationConfig yl dk ks ds (with_manager (\<lambda>_. m) h)))"

definition mh_RemoveSubscription :: "yaml_lib \<Rightarrow> disk \<Rightarrow> int list \<Rightarrow> int list \<Rightarrow> int list \<Rightarrow> int \<Rightarrow> multi_host \<Rightarrow> multi_host" where
  "mh_RemoveSubscription yl dk ks0 ks ds i h = saveNotificationConfig yl dk ks ds (with_manager (RemoveSubscription ks0 i) h)"

definition mh_AddDispatcher :: "yaml_lib \<Rightarrow> disk \<Rightarrow> int list \<Rightarrow> int list \<Rightarrow> dispatcher \<Rightarrow> multi_host \<Rightarrow> int \<times> multi_host" where
  "mh_AddDispatcher yl dk ks ds d h =
     (let (i, m) = AddDispatcher d (p_Manager (mh_persister h))
      in (i, saveNotificationConfig yl dk ks ds (with_manager (\<lambda>_. m) h)))"

definition mh_UpdateDispatcher :: "yaml_lib \<Rightarrow> disk \<Rightarrow> int list \<Rightarrow> int list \<Rightarrow> int \<Rightarrow> dispatcher \<Rightarrow> multi_host \<Rightarrow> multi_host" where
  "mh_UpdateDispatcher yl dk ks ds i d h = saveNotificationConfig yl dk ks ds (with_manager (UpdateDispatcher i d) h)"

definition mh_RemoveDispatcher :: "yaml_lib \<Rightarrow> disk \<Rightarrow> int list \<Rightarrow> int list \<Rightarrow> int \<Rightarrow> multi_host \<Rightarrow> multi_host" where
  "mh_RemoveDispatcher yl dk ks ds i h = saveNotificationConfig yl dk ks ds (with_manager (RemoveDispatcher i) h)"

definition mh_SetQuietHours :: "yaml_lib \<Rightarrow> disk \<Rightarrow> int list \<Rightarrow> int list \<Rightarrow> quiet_hours_config \<Rightarrow> multi_host \<Rightarrow> multi_host" where
  "mh_SetQuietHours yl dk ks ds cfg h =
     save_files yl dk ks ds (broadcastNotificationConfig ks ds (with_manager (SetQuietHours cfg) h))"

definition mh_SetCloudConfig :: "yaml_lib \<Rightarrow> disk \<Rightarrow> string \<Rightarrow> cloud_config option \<Rightarrow> multi_host \<Rightarrow> multi_host" where
  "mh_SetCloudConfig yl dk env cc h =
     (let (p, fs) = SetCloudConfig yl dk env cc (mh_persister h, mh_files h)
      in broadcastCloudConfig (h\<lparr>mh_persister := p, mh_files := fs\<rparr>))"

definition mh_RemoveCloudConfig :: "disk \<Rightarrow> multi_host \<Rightarrow> multi_host" where
  "mh_RemoveCloudConfig dk h =
     (let (p, fs) = RemoveCloudConfig dk (mh_persister h, mh_files h)
      in broadcastCloudConfig (h\<lparr>mh_persister := p, mh_files := fs\<rparr>))"

definition mh_SetCloudStreamLogs :: "yaml_lib \<Rightarrow> disk \<Rightarrow> bool \<Rightarrow> multi_host \<Rightarrow> multi_host" where
  "mh_SetCloudStreamLogs yl dk b h =
     (let (p, fs) = SetCloudStreamLogs yl dk b (mh_persister h, mh_files h) in h\<lparr>mh_persister := p, mh_files := fs\<rparr>)"

definition mh_ResetCloudDispatcherBreaker :: "multi_host \<Rightarrow> multi_host" where
  "mh_ResetCloudDispatcherBreaker h = with_manager ResetCloudDispatcherBreaker h"

text \<open>An agent that connects later is sent the current settings.\<close>

definition host_connected :: "int list \<Rightarrow> int list \<Rightarrow> host \<Rightarrow> multi_host \<Rightarrow> multi_host" where
  "host_connected ks ds host h =
     (if h_Available host then broadcastCloudConfig (broadcastNotificationConfig ks ds h) else h)"

definition cloudNotify :: "multi_host \<Rightarrow> multi_host" where
  "cloudNotify h = h\<lparr>mh_reconnects := mh_reconnects h + 1\<rparr>"

text \<open>A replica of a swarm takes over what another one sends and saves it.\<close>

definition swarm_HandleNotificationConfig ::
    "env_lib \<Rightarrow> web_lib \<Rightarrow> yaml_lib \<Rightarrow> disk \<Rightarrow> int list \<Rightarrow> int list \<Rightarrow> int list \<Rightarrow> subscription_config list \<Rightarrow> dispatcher_config list
       \<Rightarrow> multi_host \<Rightarrow> config_error option \<times> multi_host" where
  "swarm_HandleNotificationConfig lib web yl dk ks0 ks ds subs dispatchers h =
     (case HandleNotificationConfig lib web ks0 subs dispatchers (p_Manager (mh_persister h)) of
        (Some e, m) \<Rightarrow> (Some e, with_manager (\<lambda>_. m) h)
      | (None, m) \<Rightarrow> (None, save_files yl dk ks ds (with_manager (\<lambda>_. m) h)))"

definition swarm_SetCloudDispatcher :: "yaml_lib \<Rightarrow> disk \<Rightarrow> string \<Rightarrow> dispatcher \<Rightarrow> multi_host \<Rightarrow> multi_host" where
  "swarm_SetCloudDispatcher yl dk env d h =
     (case d of
        CloudDispatcher cd \<Rightarrow>
          (let (p, fs) = SetCloudConfig yl dk env
                 (Some \<lparr>cc_APIKey = cd_APIKey cd, cc_Prefix = cd_Prefix cd, cc_ExpiresAt = cd_ExpiresAt cd, cc_StreamLogs = None\<rparr>)
                 (mh_persister h, mh_files h)
           in cloudNotify (h\<lparr>mh_persister := p, mh_files := fs\<rparr>))
      | _ \<Rightarrow> with_manager (SetCloudDispatcher d) h)"

definition swarm_ClearCloudDispatcher :: "disk \<Rightarrow> multi_host \<Rightarrow> multi_host" where
  "swarm_ClearCloudDispatcher dk h =
     (let (p, fs) = RemoveCloudConfig dk (mh_persister h, mh_files h)
      in cloudNotify (h\<lparr>mh_persister := p, mh_files := fs\<rparr>))"

subsection \<open>Statistics of the agents\<close>

definition merge_stats :: "subscription_stats \<Rightarrow> subscription_stats \<Rightarrow> subscription_stats" where
  "merge_stats existing s =
     existing\<lparr>ss_TriggerCount := ss_TriggerCount existing + ss_TriggerCount s,
              ss_LastTriggeredAt := (case (ss_LastTriggeredAt s, ss_LastTriggeredAt existing) of
                 (None, e) \<Rightarrow> e | (Some t, None) \<Rightarrow> Some t | (Some t, Some e) \<Rightarrow> if e < t then Some t else Some e),
              ss_TriggeredContainerIDs := ss_TriggeredContainerIDs existing \<union> ss_TriggeredContainerIDs s\<rparr>"

definition add_stats :: "subscription_stats \<Rightarrow> (int \<rightharpoonup> subscription_stats) \<Rightarrow> (int \<rightharpoonup> subscription_stats)" where
  "add_stats s m =
     m(ss_SubscriptionID s \<mapsto> (case m (ss_SubscriptionID s) of None \<Rightarrow> s | Some e \<Rightarrow> merge_stats e s))"

text \<open>An agent that cannot be asked gives \<open>None\<close>.\<close>

definition FetchAgentNotificationStats :: "subscription_stats list option list \<Rightarrow> int \<rightharpoonup> subscription_stats" where
  "FetchAgentNotificationStats answers =
     fold add_stats (concat (map (\<lambda>a. case a of None \<Rightarrow> [] | Some ss \<Rightarrow> ss) answers)) Map.empty"

subsection \<open>Agents keep the quiet hours of the server\<close>


subsection \<open>Merging live and cached containers\<close>

lemma key_state [simp]: "containerCacheKey (c\<lparr>c_State := x\<rparr>) = containerCacheKey c"
  by (simp add: containerCacheKey_def LogIdentity_def)

definition keyed_cache :: "(string \<rightharpoonup> container) \<Rightarrow> bool" where
  "keyed_cache m \<longleftrightarrow> (\<forall>k c. m k = Some c \<longrightarrow> containerCacheKey c = k)"

lemma keyed_cacheI: "(\<And>i c. m i = Some c \<Longrightarrow> containerCacheKey c = i) \<Longrightarrow> keyed_cache m"
  by (simp add: keyed_cache_def)

lemma keyed_cacheD: "keyed_cache m \<Longrightarrow> m i = Some c \<Longrightarrow> containerCacheKey c = i"
  by (simp add: keyed_cache_def)

lemma cached_by_key_keyed: "keyed_cache (cached_by_key cs)"
proof (induction cs rule: rev_induct)
  case Nil
  show ?case by (rule keyed_cacheI) (simp add: cached_by_key_def)
next
  case (snoc c cs)
  have step: "cached_by_key (cs @ [c]) i = (if i = containerCacheKey c then Some c else cached_by_key cs i)" for i
    by (simp add: cached_by_key_def)
  show ?case
  proof (rule keyed_cacheI)
    fix i d
    assume "cached_by_key (cs @ [c]) i = Some d"
    then show "containerCacheKey d = i" using keyed_cacheD [OF snoc] by (auto simp: step split: if_splits)
  qed
qed

lemma merge_live_keys:
  assumes "keyed_cache m"
  shows "map containerCacheKey (fst (merge_live live m)) = map containerCacheKey live
    \<and> filter (\<lambda>c. c_State c = ''running'') (fst (merge_live live m)) = filter (\<lambda>c. c_State c = ''running'') live
    \<and> snd (merge_live live m) = m |` (- containerCacheKey ` set live)"
  using assms
proof (induction live arbitrary: m)
  case Nil
  then show ?case by simp
next
  case (Cons c live)
  let ?k = "containerCacheKey c"
  show ?case
  proof (cases "m ?k")
    case None
    then have "m |` (- containerCacheKey ` set live) = m |` (- containerCacheKey ` set (c # live))"
      by (auto simp: restrict_map_def fun_eq_iff)
    then show ?thesis using Cons.IH [OF Cons.prems] None by (simp add: Let_def case_prod_beta)
  next
    case (Some d)
    define m' where "m' = m(?k := None)"
    have m': "m' i = (if i = ?k then None else m i)" for i by (simp add: m'_def)
    have kc: "keyed_cache m'"
      by (rule keyed_cacheI) (use keyed_cacheD [OF Cons.prems] in \<open>auto simp: m' split: if_splits\<close>)
    have "m' |` (- containerCacheKey ` set live) = m |` (- containerCacheKey ` set (c # live))"
      by (auto simp: restrict_map_def fun_eq_iff m')
    moreover have "containerCacheKey d = ?k" using keyed_cacheD [OF Cons.prems Some] .
    ultimately show ?thesis using Cons.IH [OF kc] Some by (simp add: Let_def case_prod_beta flip: m'_def)
  qed
qed

lemma offline_not_running: "filter (\<lambda>c. c_State c = ''running'') (filter (\<lambda>c. c_State c = ''offline'') xs) = []"
  by (induction xs) auto

text \<open>The list of containers shows every running container exactly as its engine reports it, one entry for each live
container, and after them one entry for each service that only the cache still knows; what the cache adds never
repeats a live container or itself.\<close>

theorem merged_containers:
  assumes "cached \<noteq> []" and "distinct cks"
  shows "\<exists>extra. map containerCacheKey (mergeCachedContainers ks cks labels live cached) = map containerCacheKey live @ extra
    \<and> distinct extra \<and> set extra \<inter> containerCacheKey ` set live = {}
    \<and> filter (\<lambda>c. c_State c = ''running'') (mergeCachedContainers ks cks labels live cached) = filter (\<lambda>c. c_State c = ''running'') live"
proof -
  let ?m = "cached_by_key (filterCachedContainers ks labels cached)"
  let ?left = "?m |` (- containerCacheKey ` set live)"
  let ?x = "filter (\<lambda>c. c_State c = ''offline'') (List.map_filter ?left cks)"
  note k = merge_live_keys [OF cached_by_key_keyed, of live "filterCachedContainers ks labels cached"]
  have r: "mergeCachedContainers ks cks labels live cached = fst (merge_live live ?m) @ ?x"
    using assms(1) k by (simp add: mergeCachedContainers_def Let_def case_prod_beta)
  have key: "containerCacheKey c = i" if "?left i = Some c" for i c
    using that cached_by_key_keyed by (auto simp: keyed_cache_def restrict_map_def split: if_splits)
  have "map containerCacheKey (List.map_filter ?left cks) = filter (\<lambda>i. ?left i \<noteq> None) cks"
  proof (induction cks)
    case (Cons i cks)
    then show ?case using key [of i] by (cases "?left i") (simp_all add: List.map_filter_simps)
  qed (simp add: List.map_filter_simps)
  then have "distinct (map containerCacheKey (List.map_filter ?left cks))"
    "set (map containerCacheKey (List.map_filter ?left cks)) \<inter> containerCacheKey ` set live = {}"
    using assms(2) by (simp, auto simp: restrict_map_def split: if_splits)
  then have "distinct (map containerCacheKey ?x)" "set (map containerCacheKey ?x) \<inter> containerCacheKey ` set live = {}"
    by (auto intro: distinct_map_filter)
  moreover have "map containerCacheKey (mergeCachedContainers ks cks labels live cached) = map containerCacheKey live @ map containerCacheKey ?x"
    using k by (simp add: r)
  moreover have "filter (\<lambda>c. c_State c = ''running'') (mergeCachedContainers ks cks labels live cached) = filter (\<lambda>c. c_State c = ''running'') live"
    using k offline_not_running by (simp add: r)
  ultimately show ?thesis by blast
qed

text \<open>
  The labels of a filter are the names of engine filters, such as \<open>label\<close> or \<open>name\<close>; for cached containers they are looked up as
  the names of container labels.  With a filter on \<open>label\<close>, cached containers are therefore never shown.
\<close>

lemma cached_hidden_by_label_filter:
  assumes "labels ''label'' = Some allowed" and "''label'' \<in> set ks" and "\<forall>c\<in>set cs. c_Labels c ''label'' = None"
  shows "cachedContainers ks (Some labels) (Some cs) = []"
proof -
  have "labels_Exists (Some labels)" using assms(1) by (auto simp: labels_Exists_def label_map_def)
  then show ?thesis using assms
    by (auto simp: cachedContainers_def filterCachedContainers_def label_map_def containerMatchesLabels_def list_all_iff filter_empty_conv
        intro!: bexI [of _ "''label''"])
qed

subsection \<open>Adding up the agents\<close>

definition latest :: "gotime option list \<Rightarrow> gotime option" where
  "latest ts = (let xs = List.map_filter id ts in if xs = [] then None else Some (Max (set xs)))"

definition summed :: "int \<Rightarrow> subscription_stats list \<Rightarrow> subscription_stats option" where
  "summed i ss = (let mine = filter (\<lambda>s. ss_SubscriptionID s = i) ss
     in if mine = [] then None
        else Some \<lparr>ss_SubscriptionID = i, ss_TriggerCount = sum_list (map ss_TriggerCount mine),
                   ss_LastTriggeredAt = latest (map ss_LastTriggeredAt mine),
                   ss_TriggeredContainerIDs = \<Union> (ss_TriggeredContainerIDs ` set mine)\<rparr>)"

lemma latest_snoc:
  "latest (ts @ [t]) = (case (t, latest ts) of (None, e) \<Rightarrow> e | (Some x, None) \<Rightarrow> Some x | (Some x, Some e) \<Rightarrow> if e < x then Some x else Some e)"
proof (cases "List.map_filter id ts = []")
  case True
  then show ?thesis by (cases t) (simp_all add: latest_def Let_def map_filter_append List.map_filter_simps)
next
  case False
  define xs where "xs = List.map_filter id ts"
  have n: "xs \<noteq> []" using False by (simp add: xs_def)
  have l: "latest ts = Some (Max (set xs))" using n by (simp add: latest_def flip: xs_def)
  show ?thesis
  proof (cases t)
    case None
    then show ?thesis by (simp add: latest_def map_filter_append List.map_filter_simps)
  next
    case (Some x)
    then have "latest (ts @ [t]) = Some (Max (insert x (set xs)))"
      by (simp add: latest_def map_filter_append List.map_filter_simps xs_def Let_def del: Max_insert)
    also have "\<dots> = Some (max x (Max (set xs)))" using n by simp
    finally show ?thesis using Some l by (simp add: max_def)
  qed
qed

lemma summed_snoc:
  "summed i (ss @ [s]) = (if ss_SubscriptionID s = i then Some (case summed i ss of None \<Rightarrow> s | Some e \<Rightarrow> merge_stats e s) else summed i ss)"
proof (cases "ss_SubscriptionID s = i")
  case True
  show ?thesis
  proof (cases "filter (\<lambda>s. ss_SubscriptionID s = i) ss = []")
    case e: True
    have "latest [t] = t" for t by (cases t) (simp_all add: latest_def List.map_filter_def)
    then show ?thesis using True e by (cases s) (simp add: summed_def)
  next
    case False
    then show ?thesis using True latest_snoc
      by (simp add: summed_def merge_stats_def Let_def Un_commute)
  qed
qed (simp add: summed_def)

text \<open>The notification statistics shown for a subscription are those of all agents that answered: the counts are added up,
the last time is the latest one, and a container counts once however many agents report it.\<close>

theorem agent_stats_summed:
  "FetchAgentNotificationStats answers i = summed i (concat (map (\<lambda>a. case a of None \<Rightarrow> [] | Some ss \<Rightarrow> ss) answers))"
proof -
  have "fold add_stats ss Map.empty i = summed i ss" for ss
  proof (induction ss rule: rev_induct)
    case (snoc s ss)
    then show ?case by (simp add: summed_snoc add_stats_def)
  qed (simp add: summed_def)
  then show ?thesis by (simp add: FetchAgentNotificationStats_def)
qed

subsection \<open>Settings that travel through a swarm\<close>

text \<open>C33. The choice not to stream logs to the cloud does not survive the next broadcast of a peer: whatever cloud settings a
replica is sent, afterwards its logs are streamed again, also when they had just been switched off.\<close>

theorem broadcast_reenables_streaming:
  assumes "p_cloudConfig (mh_persister h) \<noteq> None"
  shows "\<not> StreamLogsEnabled (p_cloudConfig (mh_persister (mh_SetCloudStreamLogs yl dk False h)))
    \<and> StreamLogsEnabled (p_cloudConfig (mh_persister
         (swarm_SetCloudDispatcher yl dk env (CloudDispatcher cd) (mh_SetCloudStreamLogs yl dk False h))))"
  using assms
  by (auto simp: mh_SetCloudStreamLogs_def SetCloudStreamLogs_def swarm_SetCloudDispatcher_def SetCloudConfig_def StreamLogsEnabled_def
      cloudNotify_def Let_def)

text \<open>What the agents are sent last is what the files were last given, for every change of the settings.\<close>

inductive settings_op :: "env_lib \<Rightarrow> yaml_lib \<Rightarrow> disk \<Rightarrow> int list \<Rightarrow> int list \<Rightarrow> int list \<Rightarrow> multi_host \<Rightarrow> multi_host \<Rightarrow> bool"
  for lib yl dk ks0 ks ds h where
  added: "mh_AddSubscription lib yl dk ks0 ks ds sub h = (None, h') \<Longrightarrow> settings_op lib yl dk ks0 ks ds h h'"
| replaced: "mh_ReplaceSubscription lib yl dk ks0 ks ds sub h = (None, h') \<Longrightarrow> settings_op lib yl dk ks0 ks ds h h'"
| updated: "mh_UpdateSubscription lib yl dk ks0 ks ds i us h = (None, h') \<Longrightarrow> settings_op lib yl dk ks0 ks ds h h'"
| removed: "settings_op lib yl dk ks0 ks ds h (mh_RemoveSubscription yl dk ks0 ks ds i h)"
| dispatcher_added: "mh_AddDispatcher yl dk ks ds d h = (i, h') \<Longrightarrow> settings_op lib yl dk ks0 ks ds h h'"
| dispatcher_updated: "settings_op lib yl dk ks0 ks ds h (mh_UpdateDispatcher yl dk ks ds i d h)"
| dispatcher_removed: "settings_op lib yl dk ks0 ks ds h (mh_RemoveDispatcher yl dk ks ds i h)"
| quiet_set: "settings_op lib yl dk ks0 ks ds h (mh_SetQuietHours yl dk ks ds cfg h)"

text \<open>The message for the agents that belongs to a state.\<close>

definition config_message :: "int list \<Rightarrow> int list \<Rightarrow> multi_host \<Rightarrow> agent_message" where
  "config_message ks ds h =
     ConfigMessage (subscriptionConfigsForAgents (GetQuietHours (p_Manager (mh_persister h))) (Subscriptions ks (p_Manager (mh_persister h))))
       (map (\<lambda>d. d\<lparr>dc_Prefix := []\<rparr>) (filter (\<lambda>d. dc_Type d \<noteq> ''cloud'') (Dispatchers ds (p_Manager (mh_persister h)))))"

lemma with_manager_simps [simp]:
  "mh_sent (with_manager f h) = mh_sent h" "mh_files (with_manager f h) = mh_files h"
  by (simp_all add: with_manager_def)

definition published :: "yaml_lib \<Rightarrow> disk \<Rightarrow> int list \<Rightarrow> int list \<Rightarrow> multi_host \<Rightarrow> multi_host \<Rightarrow> bool" where
  "published yl dk ks ds h h' \<longleftrightarrow> mh_sent h' = mh_sent h @ [config_message ks ds h']
     \<and> mh_files h' = SaveNotifications yl dk ks ds (mh_persister h') (mh_files h)"

lemma save_publishes: "published yl dk ks ds h (saveNotificationConfig yl dk ks ds (with_manager f h))"
  by (simp add: published_def saveNotificationConfig_def broadcastNotificationConfig_def save_files_def config_message_def Let_def)

text \<open>Every successful change of subscriptions, dispatchers or quiet hours is both saved and sent to the agents, once and in its
final form: the file and the agents never see different settings.\<close>

theorem settings_saved_and_sent:
  assumes "settings_op lib yl dk ks0 ks ds h h'"
  shows "mh_sent h' = mh_sent h @ [config_message ks ds h']
    \<and> mh_files h' = SaveNotifications yl dk ks ds (mh_persister h') (mh_files h)"
proof -
  have quiet: "published yl dk ks ds h (mh_SetQuietHours yl dk ks ds cfg h)" for cfg
    by (simp add: published_def mh_SetQuietHours_def broadcastNotificationConfig_def save_files_def config_message_def Let_def)
  from assms have "published yl dk ks ds h h'"
    by cases (auto simp: mh_AddSubscription_def mh_ReplaceSubscription_def mh_UpdateSubscription_def mh_RemoveSubscription_def
        mh_AddDispatcher_def mh_UpdateDispatcher_def mh_RemoveDispatcher_def
        split: prod.splits option.splits intro: save_publishes quiet)
  then show ?thesis by (simp add: published_def)
qed

definition demo_hosts :: multi_host where
  "demo_hosts = \<lparr>mh_persister = \<lparr>p_Manager = sample_manager, p_NotificationPath = ''n'', p_CloudPath = ''c'',
       p_cloudConfig = Some \<lparr>cc_APIKey = ''k'', cc_Prefix = [], cc_ExpiresAt = None, cc_StreamLogs = None\<rparr>\<rparr>,
     mh_files = Map.empty, mh_sent = [], mh_reconnects = 0\<rparr>"

definition quiet_disk :: disk where
  "quiet_disk = \<lparr>can_open = (\<lambda>_. True), can_create = (\<lambda>_. True), can_write = (\<lambda>_. True),
     can_remove = (\<lambda>_. True), torn = (\<lambda>_. [])\<rparr>"

theorem broadcast_reenables_streaming_witness:
  "StreamLogsEnabled (p_cloudConfig (mh_persister
     (swarm_SetCloudDispatcher saved_yaml quiet_disk [] (CloudDispatcher sample_cloud) (mh_SetCloudStreamLogs saved_yaml quiet_disk False demo_hosts))))"
  using broadcast_reenables_streaming [of demo_hosts saved_yaml quiet_disk "[]" sample_cloud] by (simp add: demo_hosts_def)

theorem settings_saved_and_sent_witness:
  "length (mh_sent (mh_SetQuietHours saved_yaml quiet_disk [] [] sample_quiet demo_hosts)) = 1"
  using settings_saved_and_sent [OF quiet_set [of sample_env saved_yaml quiet_disk "[]" "[]" "[]" demo_hosts sample_quiet]]
  by (simp add: demo_hosts_def)


theorem merged_containers_witness:
  "\<exists>extra. map containerCacheKey
       (mergeCachedContainers [] [''h/b''] None [sample_container] [sample_container\<lparr>c_ID := ''b'', c_Name := ''b'', c_State := ''offline''\<rparr>])
     = map containerCacheKey [sample_container] @ extra \<and> distinct extra"
  using merged_containers [of "[sample_container\<lparr>c_ID := ''b'', c_Name := ''b'', c_State := ''offline''\<rparr>]" "[''h/b'']" "[]" None "[sample_container]"]
  by auto

end
