(* ===== verification/Auth.thy ===== *)
theory Auth
  imports MultiHost
begin

text \<open>
  Authentication and the roles of users: \<open>internal/auth\<close> with \<open>roles.go\<close>, \<open>users.go\<close>, \<open>simple.go\<close> and \<open>proxy.go\<close>.

  Parameters are \<open>bcrypt\<close> and the token library (\<open>auth_lib\<close>), the YAML decoder and the users file with its modification
  time (\<open>user_file\<close>).  \<open>parse_json\<close> is the decoder of \<open>encoding/json\<close>, \<open>None\<close> for text that is not valid JSON.  A call of
  \<open>log.Fatal\<close> ends the process and is the value \<open>ProcessExit\<close>.  A verified token is the map of its claims; numbers in
  claims are whole.  A role is a bit set.
\<close>

unbundle bit_operations_syntax

subsection \<open>Roles\<close>

type_synonym role = int

definition Role_None :: role where "Role_None = 0"
definition Role_Shell :: role where "Role_Shell = push_bit 1 1"
definition Role_Actions :: role where "Role_Actions = push_bit 2 1"
definition Role_Download :: role where "Role_Download = push_bit 3 1"
definition Role_All :: role where "Role_All = Role_Shell OR Role_Actions OR Role_Download"

definition Has :: "role \<Rightarrow> role \<Rightarrow> bool" where
  "Has roles r \<longleftrightarrow> roles AND r \<noteq> 0"

fun role_loop :: "string list \<Rightarrow> role \<Rightarrow> role" where
  "role_loop [] roles = roles"
| "role_loop (r # rs) roles =
     (let r' = TrimSpace (ToLower r)
      in if r' = ''shell'' \<or> r' = ''dozzle_shell'' then role_loop rs (roles OR Role_Shell)
         else if r' = ''actions'' \<or> r' = ''dozzle_actions'' then role_loop rs (roles OR Role_Actions)
         else if r' = ''download'' \<or> r' = ''dozzle_download'' then role_loop rs (roles OR Role_Download)
         else if r' = ''none'' \<or> r' = ''dozzle_none'' then Role_None
         else if r' = ''all'' \<or> r' = ''dozzle_all'' then Role_All
         else role_loop rs roles)"

text \<open>\<open>strings.FieldsFunc\<close> with commas and bars as separators: empty fields are left out.\<close>

definition role_fields :: "string \<Rightarrow> string list" where
  "role_fields s = filter (\<lambda>f. f \<noteq> []) (split_on CHR '','' (map (\<lambda>c. if c = CHR ''|'' then CHR '','' else c) s))"

text \<open>Decoding into a slice of strings; \<open>null\<close> is the empty slice, and as an element the empty string.\<close>

definition json_string :: "json \<Rightarrow> string option" where
  "json_string j = (case j of JStr s \<Rightarrow> Some s | JNull \<Rightarrow> Some [] | _ \<Rightarrow> None)"

definition json_strings :: "json \<Rightarrow> string list option" where
  "json_strings j = (case j of
      JNull \<Rightarrow> Some []
    | JArr js \<Rightarrow> (if list_all (\<lambda>x. json_string x \<noteq> None) js then Some (map (the \<circ> json_string) js) else None)
    | _ \<Rightarrow> None)"

definition ParseRole :: "(string \<Rightarrow> json option) \<Rightarrow> string \<Rightarrow> role" where
  "ParseRole parse_json input =
     (case parse_json (TrimSpace input) of
        Some j \<Rightarrow> (case json_strings j of Some parts \<Rightarrow> role_loop parts 0 | None \<Rightarrow> Role_None)
      | None \<Rightarrow> role_loop (role_fields input) 0)"

subsection \<open>Users\<close>

record user =
  u_Username :: string
  u_Email :: string
  u_Name :: string
  u_Password :: string
  u_Filter :: string
  u_RolesConfigured :: string
  u_ContainerLabels :: label_arg
  u_Roles :: role

definition newUser :: "string \<Rightarrow> string \<Rightarrow> string \<Rightarrow> label_arg \<Rightarrow> role \<Rightarrow> user" where
  "newUser username email name labels roles =
     \<lparr>u_Username = username, u_Email = email, u_Name = name, u_Password = [], u_Filter = [], u_RolesConfigured = [],
      u_ContainerLabels = labels, u_Roles = roles\<rparr>"

record user_database =
  ud_Users :: "string \<rightharpoonup> user option"
  ud_LastRead :: gotime
  ud_Path :: string

datatype claim = ClaimString string | ClaimNumber int | ClaimOther

type_synonym claims = "string \<rightharpoonup> claim"

text \<open>A users file that cannot be opened has no contents; \<open>uf_mtime\<close> is \<open>None\<close> when \<open>Stat\<close> fails.\<close>

record user_file =
  uf_contents :: "string option"
  uf_mtime :: "gotime option"

record auth_lib =
  al_json :: "string \<Rightarrow> json option"
  al_yaml :: "string \<Rightarrow> (string \<rightharpoonup> user option) option"
  al_bcrypt :: "string \<Rightarrow> string \<Rightarrow> bool"
  al_sign :: "claims \<Rightarrow> string option"
  al_verify :: "gotime \<Rightarrow> string \<Rightarrow> claims option"

datatype auth_stop = ProcessExit | UserPanic go_panic

datatype auth_error = ReadUsersError | InvalidCredentials | SigningError

definition prepare_user :: "auth_lib \<Rightarrow> string \<Rightarrow> user \<Rightarrow> auth_stop + user" where
  "prepare_user lib username u =
     (if u_Password u = [] then Inl ProcessExit
      else if \<not> (length (u_Password u) = 64 \<or> length (u_Password u) = 60) then Inl ProcessExit
      else let configured = (if TrimSpace (u_RolesConfigured u) = [] then ''all'' else u_RolesConfigured u)
           in Inr (u\<lparr>u_Username := username, u_Name := (if u_Name u = [] then username else u_Name u),
                     u_RolesConfigured := configured, u_Roles := ParseRole (al_json lib) configured\<rparr>))"

definition prepare_step ::
    "auth_lib \<Rightarrow> (string \<rightharpoonup> user option) \<Rightarrow> string \<Rightarrow> auth_stop + (string \<rightharpoonup> user option)" where
  "prepare_step lib users username =
     (case users username of
        None \<Rightarrow> Inr users
      | Some None \<Rightarrow> Inl (UserPanic NilDereference)
      | Some (Some u) \<Rightarrow>
          (case prepare_user lib username u of Inl e \<Rightarrow> Inl e | Inr u' \<Rightarrow> Inr (users(username \<mapsto> Some u'))))"

text \<open>\<open>ks\<close> is the order in which the map of users is visited.\<close>

definition decodeUsersFromFile ::
    "auth_lib \<Rightarrow> string list \<Rightarrow> user_file \<Rightarrow> auth_stop + auth_error + (string \<rightharpoonup> user option)" where
  "decodeUsersFromFile lib ks file =
     (case uf_contents file of
        None \<Rightarrow> Inr (Inl ReadUsersError)
      | Some contents \<Rightarrow>
          (case al_yaml lib contents of
             None \<Rightarrow> Inr (Inl ReadUsersError)
           | Some users \<Rightarrow> (case foldE (prepare_step lib) users ks of Inl e \<Rightarrow> Inl e | Inr us \<Rightarrow> Inr (Inr us))))"

definition ReadUsersFromFile ::
    "auth_lib \<Rightarrow> string list \<Rightarrow> gotime \<Rightarrow> string \<Rightarrow> user_file \<Rightarrow> auth_stop + auth_error + user_database" where
  "ReadUsersFromFile lib ks now path file =
     (case decodeUsersFromFile lib ks file of
        Inl e \<Rightarrow> Inl e
      | Inr (Inl e) \<Rightarrow> Inr (Inl e)
      | Inr (Inr us) \<Rightarrow> Inr (Inr \<lparr>ud_Users = us, ud_LastRead = now, ud_Path = path\<rparr>))"

definition readFileIfChanged ::
    "auth_lib \<Rightarrow> string list \<Rightarrow> gotime \<Rightarrow> user_file \<Rightarrow> user_database \<Rightarrow> auth_stop + auth_error + user_database" where
  "readFileIfChanged lib ks now file db =
     (if ud_Path db = [] then Inr (Inr db)
      else case uf_mtime file of
             None \<Rightarrow> Inr (Inl ReadUsersError)
           | Some t \<Rightarrow>
               (if ud_LastRead db < t then
                  (case decodeUsersFromFile lib ks file of
                     Inl e \<Rightarrow> Inl e
                   | Inr (Inl e) \<Rightarrow> Inr (Inl e)
                   | Inr (Inr us) \<Rightarrow> Inr (Inr (db\<lparr>ud_Users := us, ud_LastRead := now\<rparr>)))
                else Inr (Inr db)))"

definition Find_user ::
    "auth_lib \<Rightarrow> string list \<Rightarrow> gotime \<Rightarrow> user_file \<Rightarrow> string \<Rightarrow> user_database \<Rightarrow> auth_stop + user option \<times> user_database" where
  "Find_user lib ks now file username db =
     (case readFileIfChanged lib ks now file db of
        Inl e \<Rightarrow> Inl e
      | Inr (Inl _) \<Rightarrow> Inr (None, db)
      | Inr (Inr db') \<Rightarrow> Inr (case ud_Users db' username of None \<Rightarrow> None | Some u \<Rightarrow> u, db'))"

definition CompareHashAndPassword :: "auth_lib \<Rightarrow> string \<Rightarrow> string \<Rightarrow> auth_stop + bool" where
  "CompareHashAndPassword lib hash password =
     (if length hash = 64 then Inl ProcessExit
      else if length hash = 60 then Inr (al_bcrypt lib hash password)
      else Inr False)"

definition FindByPassword ::
    "auth_lib \<Rightarrow> string list \<Rightarrow> gotime \<Rightarrow> user_file \<Rightarrow> string \<Rightarrow> string \<Rightarrow> user_database
       \<Rightarrow> auth_stop + user option \<times> user_database" where
  "FindByPassword lib ks now file username password db =
     (case Find_user lib ks now file username db of
        Inl e \<Rightarrow> Inl e
      | Inr (None, db') \<Rightarrow> Inr (None, db')
      | Inr (Some u, db') \<Rightarrow>
          (case CompareHashAndPassword lib (u_Password u) password of
             Inl e \<Rightarrow> Inl e
           | Inr ok \<Rightarrow> Inr (if ok then Some u else None, db')))"

subsection \<open>Tokens\<close>

record simple_auth =
  sa_UserDatabase :: user_database
  sa_ttl :: duration

definition user_claims :: "user \<Rightarrow> claims" where
  "user_claims u = [''username'' \<mapsto> ClaimString (u_Username u), ''email'' \<mapsto> ClaimString (u_Email u),
     ''name'' \<mapsto> ClaimString (u_Name u), ''filter'' \<mapsto> ClaimString (u_Filter u), ''roles'' \<mapsto> ClaimNumber (u_Roles u)]"

text \<open>\<open>jwtauth.SetExpiryIn\<close> adds the whole seconds of the duration to the current second.\<close>

definition token_claims :: "gotime \<Rightarrow> duration \<Rightarrow> user \<Rightarrow> claims" where
  "token_claims now ttl u =
     (let c = (user_claims u)(''iat'' \<mapsto> ClaimNumber (Unix now))
      in if 0 < ttl then c(''exp'' \<mapsto> ClaimNumber (Unix now + ttl div Second)) else c)"

definition CreateToken ::
    "auth_lib \<Rightarrow> string list \<Rightarrow> gotime \<Rightarrow> user_file \<Rightarrow> string \<Rightarrow> string \<Rightarrow> simple_auth
       \<Rightarrow> auth_stop + (auth_error + string) \<times> simple_auth" where
  "CreateToken lib ks now file username password a =
     (case FindByPassword lib ks now file username password (sa_UserDatabase a) of
        Inl e \<Rightarrow> Inl e
      | Inr (u, db) \<Rightarrow>
          (let a' = a\<lparr>sa_UserDatabase := db\<rparr>
           in case u of
                None \<Rightarrow> Inr (Inl InvalidCredentials, a')
              | Some u' \<Rightarrow>
                  (case al_sign lib (token_claims now (sa_ttl a) u') of
                     None \<Rightarrow> Inr (Inl SigningError, a')
                   | Some token \<Rightarrow> Inr (Inr token, a'))))"

subsection \<open>Requests\<close>

text \<open>What a middleware leaves in the context of a request: the user of a trusted proxy, or the claims of a verified token.\<close>

record request =
  rq_Header :: "string \<Rightarrow> string"
  rq_token :: "string option"

record request_context =
  ctx_remoteUser :: "user option"
  ctx_claims :: "claims option"

record proxy_auth =
  headerUser :: string
  headerEmail :: string
  headerName :: string
  headerFilter :: string
  headerRoles :: string

definition simple_AuthMiddleware :: "auth_lib \<Rightarrow> gotime \<Rightarrow> request \<Rightarrow> request_context" where
  "simple_AuthMiddleware lib now r =
     \<lparr>ctx_remoteUser = None, ctx_claims = (case rq_token r of None \<Rightarrow> None | Some t \<Rightarrow> al_verify lib now t)\<rparr>"

text \<open>\<open>None\<close> is the answer \<open>400 Bad Request\<close>.\<close>

definition proxy_AuthMiddleware :: "auth_lib \<Rightarrow> proxy_auth \<Rightarrow> request \<Rightarrow> request_context option" where
  "proxy_AuthMiddleware lib p r =
     (if rq_Header r (headerUser p) \<noteq> [] then
        (case ParseContainerFilter (rq_Header r (headerFilter p)) of
           Inl _ \<Rightarrow> None
         | Inr labels \<Rightarrow>
             (let roles = (if TrimSpace (rq_Header r (headerRoles p)) \<noteq> [] then ParseRole (al_json lib) (rq_Header r (headerRoles p))
                           else Role_All)
              in Some \<lparr>ctx_remoteUser = Some (newUser (rq_Header r (headerUser p)) (rq_Header r (headerEmail p))
                         (rq_Header r (headerName p)) (Some labels) roles), ctx_claims = None\<rparr>))
      else Some \<lparr>ctx_remoteUser = None, ctx_claims = None\<rparr>)"

definition claim_string :: "claims \<Rightarrow> string \<Rightarrow> string option" where
  "claim_string c k = (case c k of Some (ClaimString s) \<Rightarrow> Some s | _ \<Rightarrow> None)"

definition UserFromContext :: "request_context \<Rightarrow> go_panic + user option" where
  "UserFromContext ctx =
     (case ctx_remoteUser ctx of
        Some u \<Rightarrow> Inr (Some u)
      | None \<Rightarrow>
          (case ctx_claims ctx of
             None \<Rightarrow> Inr None
           | Some c \<Rightarrow>
               (case claim_string c ''username'' of
                  None \<Rightarrow> Inr None
                | Some username \<Rightarrow>
                    (if username = [] then Inr None
                     else case (claim_string c ''email'', claim_string c ''name'') of
                            (Some email, Some name) \<Rightarrow>
                              (let roles = (case c ''roles'' of Some (ClaimNumber n) \<Rightarrow> n | _ \<Rightarrow> Role_None)
                               in case claim_string c ''filter'' of
                                    None \<Rightarrow> Inr (Some (newUser username email name (Some Map.empty) roles))
                                  | Some f \<Rightarrow>
                                      (case ParseContainerFilter f of
                                         Inl _ \<Rightarrow> Inr None
                                       | Inr labels \<Rightarrow> Inr (Some (newUser username email name (Some labels) roles))))
                          | _ \<Rightarrow> Inl TypeAssertion))))"

definition RequireAuthentication :: "request_context \<Rightarrow> go_panic + bool" where
  "RequireAuthentication ctx = (case UserFromContext ctx of Inl e \<Rightarrow> Inl e | Inr u \<Rightarrow> Inr (u \<noteq> None))"

subsection \<open>Roles mean what they say\<close>

lemmas role_values = Role_None_def Role_Shell_def Role_Actions_def Role_Download_def Role_All_def

definition valid_role :: "role \<Rightarrow> bool" where
  "valid_role r \<longleftrightarrow> r OR Role_All = Role_All"

lemma valid_role_cases: "valid_role r \<Longrightarrow> valid_role (r OR Role_Shell) \<and> valid_role (r OR Role_Actions) \<and> valid_role (r OR Role_Download)"
proof -
  assume "valid_role r"
  then have v: "r OR Role_All = Role_All" by (simp add: valid_role_def)
  have "b OR Role_All = Role_All \<Longrightarrow> (r OR b) OR Role_All = Role_All" for b using v by (metis or.assoc)
  moreover have "Role_Shell OR Role_All = Role_All" "Role_Actions OR Role_All = Role_All" "Role_Download OR Role_All = Role_All"
    by (simp_all add: role_values)
  ultimately show ?thesis unfolding valid_role_def by blast
qed

lemma role_loop_valid: "valid_role roles \<Longrightarrow> valid_role (role_loop rs roles)"
proof (induction rs roles rule: role_loop.induct)
  case (2 r rs roles)
  then show ?case using valid_role_cases [OF 2(5)] by (simp add: Let_def) (simp add: valid_role_def role_values)
qed simp

lemma ParseRole_valid: "valid_role (ParseRole parse_json input)"
proof -
  have "valid_role 0" "valid_role Role_None" by (simp_all add: valid_role_def role_values)
  then show ?thesis using role_loop_valid by (simp add: ParseRole_def split: option.splits)
qed

definition named :: "string \<Rightarrow> string \<Rightarrow> bool" where
  "named n r \<longleftrightarrow> TrimSpace (ToLower r) = n \<or> TrimSpace (ToLower r) = ''dozzle_'' @ n"

lemma role_step:
  "role_loop (r # rs) roles =
    (if named ''shell'' r then role_loop rs (roles OR Role_Shell)
     else if named ''actions'' r then role_loop rs (roles OR Role_Actions)
     else if named ''download'' r then role_loop rs (roles OR Role_Download)
     else if named ''none'' r then Role_None
     else if named ''all'' r then Role_All
     else role_loop rs roles)"
  by (simp add: named_def Let_def)

lemma Has_simps:
  "Has (r OR s) b \<longleftrightarrow> Has r b \<or> Has s b" if "b = Role_Shell \<or> b = Role_Actions \<or> b = Role_Download"
proof -
  have single: "Has x (push_bit n 1) \<longleftrightarrow> bit x n" for x :: int and n
    by (simp add: Has_def and_exp_eq_0_iff_not_bit push_bit_eq_mult)
  from that obtain n where "b = push_bit n 1" unfolding role_values by metis
  then show ?thesis by (simp only: single bit_or_iff)
qed

lemma Has_bits [simp]:
  "Has Role_Shell Role_Shell" "\<not> Has Role_Shell Role_Actions" "\<not> Has Role_Shell Role_Download"
  "\<not> Has Role_Actions Role_Shell" "Has Role_Actions Role_Actions" "\<not> Has Role_Actions Role_Download"
  "\<not> Has Role_Download Role_Shell" "\<not> Has Role_Download Role_Actions" "Has Role_Download Role_Download"
  "\<not> Has 0 b" "\<not> Has Role_None b" "Has Role_All Role_Shell" "Has Role_All Role_Actions" "Has Role_All Role_Download"
  by (simp_all add: Has_def role_values)

definition decisive :: "string \<Rightarrow> bool" where
  "decisive r \<longleftrightarrow> named ''none'' r \<or> named ''all'' r"

lemma named_excl:
  "named ''shell'' r \<Longrightarrow> \<not> named ''actions'' r \<and> \<not> named ''download'' r \<and> \<not> decisive r"
  "named ''actions'' r \<Longrightarrow> \<not> named ''download'' r \<and> \<not> decisive r"
  "named ''download'' r \<Longrightarrow> \<not> decisive r" "named ''none'' r \<Longrightarrow> \<not> named ''all'' r"
  by (auto simp: named_def decisive_def)

text \<open>What a word that is not decisive adds.\<close>

definition grant :: "string \<Rightarrow> role" where
  "grant r = (if named ''shell'' r then Role_Shell else if named ''actions'' r then Role_Actions
     else if named ''download'' r then Role_Download else 0)"

lemma role_loop_grant: "\<not> decisive r \<Longrightarrow> role_loop (r # rs) roles = role_loop rs (roles OR grant r)"
  unfolding role_step grant_def decisive_def by simp

lemma role_loop_decisive: "decisive r \<Longrightarrow> role_loop (r # rs) roles = (if named ''all'' r then Role_All else Role_None)"
  using named_excl [of r] unfolding role_step decisive_def by argo

lemma Has_grant:
  assumes "(b, n) \<in> {(Role_Shell, ''shell''), (Role_Actions, ''actions''), (Role_Download, ''download'')}"
  shows "Has (roles OR grant r) b \<longleftrightarrow> Has roles b \<or> named n r"
    and "Has Role_All b" and "\<not> Has Role_None b"
proof -
  have "Has (grant r) b \<longleftrightarrow> named n r"
    using assms named_excl(1,2) [of r] by (auto simp: grant_def)
  then show "Has (roles OR grant r) b \<longleftrightarrow> Has roles b \<or> named n r"
    using Has_simps [of b roles "grant r"] assms by auto
  show "Has Role_All b" "\<not> Has Role_None b" using assms by auto
qed

lemma role_loop_has:
  assumes "(b, n) \<in> {(Role_Shell, ''shell''), (Role_Actions, ''actions''), (Role_Download, ''download'')}"
  shows "Has (role_loop rs roles) b \<longleftrightarrow>
    (case dropWhile (\<lambda>r. \<not> decisive r) rs of [] \<Rightarrow> Has roles b \<or> (\<exists>r\<in>set rs. named n r) | d # _ \<Rightarrow> named ''all'' d)"
proof (induction rs arbitrary: roles)
  case (Cons r rs)
  show ?case
  proof (cases "decisive r")
    case True
    then show ?thesis using Has_grant(2,3) [OF assms] by (simp add: role_loop_decisive del: role_loop.simps)
  next
    case False
    then show ?thesis
      by (cases "dropWhile (\<lambda>r. \<not> decisive r) rs")
        (simp_all add: role_loop_grant Cons.IH Has_grant(1) [OF assms] del: role_loop.simps dropWhile_eq_Nil_conv)
  qed
qed simp

text \<open>A list of role names grants exactly the roles it names, each with or without the \<open>dozzle_\<close> prefix, in any case and order;
the first \<open>all\<close> or \<open>none\<close> decides alone.  No text grants anything beyond the three roles.\<close>

theorem roles_parsed_exactly:
  assumes "parse_json (TrimSpace input) = None" and "words = role_fields input"
    and "(b, n) \<in> {(Role_Shell, ''shell''), (Role_Actions, ''actions''), (Role_Download, ''download'')}"
  shows "(Has (ParseRole parse_json input) b \<longleftrightarrow>
      (case dropWhile (\<lambda>r. \<not> decisive r) words of [] \<Rightarrow> \<exists>r\<in>set words. named n r | d # _ \<Rightarrow> named ''all'' d))
    \<and> valid_role (ParseRole parse_json input)"
proof -
  have p: "ParseRole parse_json input = role_loop words 0" using assms(1,2) by (simp add: ParseRole_def)
  show ?thesis using role_loop_has [OF assms(3), of words 0] ParseRole_valid [of parse_json input]
    by (cases "dropWhile (\<lambda>r. \<not> decisive r) words") (simp_all add: p del: dropWhile_eq_Nil_conv)
qed

subsection \<open>Well-formed users\<close>

definition user_ok :: "string \<Rightarrow> user \<Rightarrow> bool" where
  "user_ok k u \<longleftrightarrow> u_Username u = k \<and> (length (u_Password u) = 60 \<or> length (u_Password u) = 64)
     \<and> (k \<noteq> [] \<longrightarrow> u_Name u \<noteq> []) \<and> valid_role (u_Roles u)"

definition users_ok :: "(string \<rightharpoonup> user option) \<Rightarrow> bool" where
  "users_ok us \<longleftrightarrow> (\<forall>k v. us k = Some v \<longrightarrow> (\<exists>u. v = Some u \<and> user_ok k u))"

lemma prepare_user_ok: "prepare_user lib k u = Inr u' \<Longrightarrow> user_ok k u'"
  by (auto simp: prepare_user_def user_ok_def Let_def ParseRole_valid split: if_splits)

lemma prepare_fold:
  assumes "foldE (prepare_step lib) us ks = Inr us'" and "\<forall>k v. us k = Some v \<and> k \<notin> set ks \<longrightarrow> (\<exists>u. v = Some u \<and> user_ok k u)"
  shows "users_ok us'"
  using assms
proof (induction ks arbitrary: us)
  case Nil
  then show ?case by (simp add: users_ok_def)
next
  case (Cons k ks)
  then obtain us1 where us1: "prepare_step lib us k = Inr us1" "foldE (prepare_step lib) us1 ks = Inr us'"
    by (auto split: sum.splits)
  have other: "k' \<noteq> k \<Longrightarrow> us1 k' = us k'" for k'
    using us1(1) by (auto simp: prepare_step_def split: option.splits sum.splits)
  have same: "us1 k = Some v \<Longrightarrow> \<exists>u. v = Some u \<and> user_ok k u" for v
    using us1(1) prepare_user_ok [of lib k] by (auto simp: prepare_step_def split: option.splits sum.splits)
  have "\<forall>k' v. us1 k' = Some v \<and> k' \<notin> set ks \<longrightarrow> (\<exists>u. v = Some u \<and> user_ok k' u)"
    using other same Cons.prems(2) by (metis set_ConsD)
  then show ?case using Cons.IH [OF us1(2)] by blast
qed

text \<open>\<open>ks\<close> covers the users of whatever the file holds.\<close>

definition visits_all :: "auth_lib \<Rightarrow> string list \<Rightarrow> user_file \<Rightarrow> bool" where
  "visits_all lib ks file \<longleftrightarrow> (\<forall>text us. uf_contents file = Some text \<and> al_yaml lib text = Some us \<longrightarrow> dom us \<subseteq> set ks)"

lemma decode_ok: "visits_all lib ks file \<Longrightarrow> decodeUsersFromFile lib ks file = Inr (Inr us) \<Longrightarrow> users_ok us"
  by (auto simp: decodeUsersFromFile_def visits_all_def split: option.splits sum.splits elim!: prepare_fold)

text \<open>The users are those the file holds now, each prepared from its entry.\<close>

definition users_of :: "auth_lib \<Rightarrow> user_file \<Rightarrow> (string \<rightharpoonup> user option) \<Rightarrow> bool" where
  "users_of lib file us \<longleftrightarrow> (\<exists>text ys. uf_contents file = Some text \<and> al_yaml lib text = Some ys
     \<and> (\<forall>k u. us k = Some (Some u) \<longrightarrow> (\<exists>y. ys k = Some (Some y) \<and> prepare_user lib k y = Inr u)))"

lemma prepare_user_twice:
  assumes "prepare_user lib k y = Inr u"
  shows "prepare_user lib k u = Inr u"
proof -
  define c where "c = (if TrimSpace (u_RolesConfigured y) = [] then ''all'' else u_RolesConfigured y)"
  have "TrimSpace ''all'' \<noteq> []" by code_simp
  then have c: "TrimSpace c \<noteq> []" by (simp add: c_def)
  have "u_Password y \<noteq> [] \<and> (length (u_Password y) = 64 \<or> length (u_Password y) = 60)
      \<and> u = y\<lparr>u_Username := k, u_Name := (if u_Name y = [] then k else u_Name y), u_RolesConfigured := c, u_Roles := ParseRole (al_json lib) c\<rparr>"
    using assms unfolding prepare_user_def c_def [symmetric] Let_def by (simp split: if_splits)
  then show ?thesis using c by (auto simp: prepare_user_def Let_def)
qed

lemma prepare_fold_entry:
  assumes "foldE (prepare_step lib) us ks = Inr us'" and "us' k = Some (Some u)"
  shows "\<exists>y. us k = Some (Some y) \<and> (prepare_user lib k y = Inr u \<or> (k \<notin> set ks \<and> y = u))"
  using assms
proof (induction ks arbitrary: us)
  case (Cons k' ks)
  then obtain us1 where us1: "prepare_step lib us k' = Inr us1" "foldE (prepare_step lib) us1 ks = Inr us'"
    by (auto split: sum.splits)
  obtain z where z: "us1 k = Some (Some z)" "prepare_user lib k z = Inr u \<or> (k \<notin> set ks \<and> z = u)"
    using Cons.IH [OF us1(2) Cons.prems(2)] by blast
  show ?case
  proof (cases "k = k' \<and> us k \<noteq> None")
    case True
    then obtain y where y: "us k = Some (Some y)" "prepare_user lib k y = Inr z"
      using us1(1) z(1) by (auto simp: prepare_step_def split: option.splits sum.splits)
    then have "z = u" using z(2) prepare_user_twice [OF y(2)] by auto
    then show ?thesis using y by blast
  next
    case False
    then have "us k = us1 k" using us1(1) by (auto simp: prepare_step_def split: option.splits sum.splits)
    then show ?thesis using z False by auto
  qed
qed simp

lemma decode_users_of:
  assumes "visits_all lib ks file" and "decodeUsersFromFile lib ks file = Inr (Inr us)"
  shows "users_of lib file us"
proof -
  obtain contents ys where f: "uf_contents file = Some contents" "al_yaml lib contents = Some ys" "foldE (prepare_step lib) ys ks = Inr us"
    using assms(2) by (auto simp: decodeUsersFromFile_def split: option.splits sum.splits)
  have "\<exists>y. ys k = Some (Some y) \<and> prepare_user lib k y = Inr u" if "us k = Some (Some u)" for k u
    using prepare_fold_entry [OF f(3) that] assms(1) f(1,2) by (auto simp: visits_all_def)
  then show ?thesis using f by (auto simp: users_of_def)
qed

text \<open>What is relied on of modification times: a file that is not newer than the last reading holds what was read.\<close>

definition unchanged_as_read :: "auth_lib \<Rightarrow> user_file \<Rightarrow> user_database \<Rightarrow> bool" where
  "unchanged_as_read lib file db \<longleftrightarrow> (\<forall>t. uf_mtime file = Some t \<and> t \<le> ud_LastRead db \<longrightarrow> users_of lib file (ud_Users db))"

lemma reload_current:
  assumes "readFileIfChanged lib ks now file db = Inr (Inr db')" and "visits_all lib ks file" and "unchanged_as_read lib file db"
    and "ud_Path db \<noteq> []"
  shows "users_of lib file (ud_Users db')"
  using assms by (auto simp: readFileIfChanged_def unchanged_as_read_def decode_users_of split: if_splits option.splits sum.splits)

text \<open>The users a server can ever have in memory: those of a file it read, then of the versions it reloaded.\<close>

inductive user_db :: "auth_lib \<Rightarrow> user_database \<Rightarrow> bool" for lib where
  started: "ReadUsersFromFile lib ks now path file = Inr (Inr db) \<Longrightarrow> visits_all lib ks file \<Longrightarrow> user_db lib db"
| looked_up: "user_db lib db \<Longrightarrow> Find_user lib ks now file name db = Inr (u, db') \<Longrightarrow> visits_all lib ks file \<Longrightarrow> user_db lib db'"

lemma reload_ok:
  assumes "readFileIfChanged lib ks now file db = Inr (Inr db')" and "visits_all lib ks file" and "users_ok (ud_Users db)"
  shows "users_ok (ud_Users db')"
  using assms by (auto simp: readFileIfChanged_def decode_ok split: if_splits option.splits sum.splits)

lemma user_db_ok:
  assumes "user_db lib db"
  shows "users_ok (ud_Users db)"
  using assms
proof (induction rule: user_db.induct)
  case (started ks now path f db)
  then show ?case by (auto simp: ReadUsersFromFile_def decode_ok split: sum.splits)
next
  case (looked_up db ks now f name u db')
  then show ?case using reload_ok [OF _ looked_up(3) looked_up.IH]
    by (auto simp: Find_user_def split: sum.splits)
qed

text \<open>C36. In memory every user is well formed, however often and however badly the file is edited: the name is its key, the password is
a hash of one of the two known lengths, there is a name to show, and the roles are among the three that exist.\<close>

theorem users_well_formed:
  assumes "user_db lib db" and "ud_Users db k = Some v"
  shows "\<exists>u. v = Some u \<and> user_ok k u"
  using user_db_ok [OF assms(1)] assms(2) by (simp add: users_ok_def)

subsection \<open>Logging in\<close>

text \<open>What is relied on of the token library: a token it signed is verified to the claims that were signed, from the second it was
issued and until the second it expires.\<close>

definition jwt_keeps :: "auth_lib \<Rightarrow> bool" where
  "jwt_keeps lib \<longleftrightarrow> (\<forall>c t now iat. al_sign lib c = Some t \<and> c ''iat'' = Some (ClaimNumber iat) \<and> iat \<le> Unix now \<longrightarrow>
     al_verify lib now t = (case c ''exp'' of Some (ClaimNumber e) \<Rightarrow> if Unix now < e then Some c else None | _ \<Rightarrow> Some c))"

definition with_token :: "string \<Rightarrow> request" where
  "with_token t = \<lparr>rq_Header = (\<lambda>_. []), rq_token = Some t\<rparr>"

lemma UserFromContext_claims:
  assumes "u_Username u \<noteq> []"
  shows "UserFromContext \<lparr>ctx_remoteUser = None, ctx_claims = Some (token_claims now ttl u)\<rparr>
    = (case ParseContainerFilter (u_Filter u) of
         Inl _ \<Rightarrow> Inr None
       | Inr labels \<Rightarrow> Inr (Some (newUser (u_Username u) (u_Email u) (u_Name u) (Some labels) (u_Roles u))))"
proof -
  have "claim_string (token_claims now ttl u) ''username'' = Some (u_Username u)"
    "claim_string (token_claims now ttl u) ''email'' = Some (u_Email u)"
    "claim_string (token_claims now ttl u) ''name'' = Some (u_Name u)"
    "claim_string (token_claims now ttl u) ''filter'' = Some (u_Filter u)"
    "token_claims now ttl u ''roles'' = Some (ClaimNumber (u_Roles u))"
    by (simp_all add: token_claims_def user_claims_def claim_string_def Let_def)
  then show ?thesis using assms by (simp add: UserFromContext_def split: sum.splits)
qed

lemma CreateToken_user:
  assumes "CreateToken lib ks now file username password a = Inr (Inr t, a')"
  obtains u db where "readFileIfChanged lib ks now file (sa_UserDatabase a) = Inr (Inr db)" and "ud_Users db username = Some (Some u)"
    and "length (u_Password u) = 60" and "al_bcrypt lib (u_Password u) password"
    and "al_sign lib (token_claims now (sa_ttl a) u) = Some t"
proof -
  obtain u db where f: "FindByPassword lib ks now file username password (sa_UserDatabase a) = Inr (Some u, db)"
    and t: "al_sign lib (token_claims now (sa_ttl a) u) = Some t"
    using assms(1) by (auto simp: CreateToken_def Let_def split: sum.splits option.splits)
  from f have fu: "Find_user lib ks now file username (sa_UserDatabase a) = Inr (Some u, db)"
    and c: "CompareHashAndPassword lib (u_Password u) password = Inr True"
    by (auto simp: FindByPassword_def split: sum.splits option.splits if_splits)
  from fu have "readFileIfChanged lib ks now file (sa_UserDatabase a) = Inr (Inr db)" "ud_Users db username = Some (Some u)"
    by (auto simp: Find_user_def split: sum.splits option.splits)
  then show thesis using that c t by (auto simp: CompareHashAndPassword_def split: if_splits)
qed

text \<open>C12. Logging in succeeds only with a user of the file as it is at that moment, whose hash there fits the password.  A request with the token
then acts as exactly that user, with the name, the roles and the container filter of the file, until the token expires and never after; when the
filter of the file cannot be parsed, the token stands for nobody.\<close>

theorem login_roundtrip:
  assumes "CreateToken lib ks now file username password a = Inr (Inr t, a')"
    and "unchanged_as_read lib file (sa_UserDatabase a)" and "ud_Path (sa_UserDatabase a) \<noteq> []"
    and "visits_all lib ks file" and "jwt_keeps lib" and "username \<noteq> []" and "now \<le> later"
  shows "\<exists>contents entries entry u. uf_contents file = Some contents \<and> al_yaml lib contents = Some entries
    \<and> entries username = Some (Some entry) \<and> prepare_user lib username entry = Inr u \<and> al_bcrypt lib (u_Password entry) password
    \<and> UserFromContext (simple_AuthMiddleware lib later (with_token t))
      = (if 0 < sa_ttl a \<and> Unix now + sa_ttl a div Second \<le> Unix later then Inr None
         else case ParseContainerFilter (u_Filter entry) of
                Inl _ \<Rightarrow> Inr None
              | Inr labels \<Rightarrow> Inr (Some (newUser username (u_Email entry) (u_Name u) (Some labels) (u_Roles u))))"
proof -
  obtain u db where u: "readFileIfChanged lib ks now file (sa_UserDatabase a) = Inr (Inr db)" "ud_Users db username = Some (Some u)"
    "al_bcrypt lib (u_Password u) password" "al_sign lib (token_claims now (sa_ttl a) u) = Some t"
    using CreateToken_user [OF assms(1)] by blast
  obtain contents entries entry where e: "uf_contents file = Some contents" "al_yaml lib contents = Some entries"
      "entries username = Some (Some entry)" "prepare_user lib username entry = Inr u"
    using reload_current [OF u(1) assms(4,2,3)] u(2) unfolding users_of_def by blast
  then have same: "u_Username u = username" "u_Password u = u_Password entry" "u_Filter u = u_Filter entry" "u_Email u = u_Email entry"
    by (auto simp: prepare_user_def Let_def split: if_splits)
  let ?c = "token_claims now (sa_ttl a) u"
  have "?c ''iat'' = Some (ClaimNumber (Unix now))" "Unix now \<le> Unix later"
    "?c ''exp'' = (if 0 < sa_ttl a then Some (ClaimNumber (Unix now + sa_ttl a div Second)) else None)"
    using assms(7) by (simp_all add: token_claims_def user_claims_def Let_def Unix_def zdiv_mono1)
  then have "al_verify lib later t = (if 0 < sa_ttl a \<and> Unix now + sa_ttl a div Second \<le> Unix later then None else Some ?c)"
    using assms(5) [unfolded jwt_keeps_def, rule_format, of ?c t "Unix now" later] u(4) by (simp add: not_less)
  then have "UserFromContext (simple_AuthMiddleware lib later (with_token t))
      = (if 0 < sa_ttl a \<and> Unix now + sa_ttl a div Second \<le> Unix later then Inr None
         else case ParseContainerFilter (u_Filter entry) of
                Inl _ \<Rightarrow> Inr None
              | Inr labels \<Rightarrow> Inr (Some (newUser username (u_Email entry) (u_Name u) (Some labels) (u_Roles u))))"
    using same UserFromContext_claims [of u now "sa_ttl a"] assms(6)
    by (auto simp: simple_AuthMiddleware_def with_token_def UserFromContext_def split: sum.splits)
  then show ?thesis using e u(3) same(2) by metis
qed

subsection \<open>A small user file\<close>

definition demo_user :: user where
  "demo_user = \<lparr>u_Username = [], u_Email = ''e'', u_Name = [], u_Password = replicate 60 CHR ''x'', u_Filter = ''label=a'',
     u_RolesConfigured = ''shell'', u_ContainerLabels = None, u_Roles = 0\<rparr>"

definition demo_known :: user where
  "demo_known = demo_user\<lparr>u_Username := ''ann'', u_Name := ''ann'', u_Roles := Role_Shell\<rparr>"

definition demo_auth :: auth_lib where
  "demo_auth = \<lparr>al_json = (\<lambda>_. None), al_yaml = (\<lambda>_. Some [''ann'' \<mapsto> Some demo_user]), al_bcrypt = (\<lambda>h p. p = ''s''),
     al_sign = (\<lambda>c. if c = token_claims 0 Hour demo_known then Some ''t'' else None),
     al_verify = (\<lambda>now t. if t = ''t'' \<and> Unix now < 3600 then Some (token_claims 0 Hour demo_known) else None)\<rparr>"

definition demo_file :: user_file where
  "demo_file = \<lparr>uf_contents = Some [], uf_mtime = Some 0\<rparr>"

definition demo_db :: user_database where
  "demo_db = \<lparr>ud_Users = [''ann'' \<mapsto> Some demo_known], ud_LastRead = 0, ud_Path = ''users.yml''\<rparr>"

lemma demo_shell: "TrimSpace ''shell'' = ''shell''" "role_fields ''shell'' = [''shell'']" "TrimSpace (ToLower ''shell'') = ''shell''"
  by code_simp+

lemma demo_read: "ReadUsersFromFile demo_auth [''ann''] 0 ''users.yml'' demo_file = Inr (Inr demo_db)"
proof -
  have "ParseRole (\<lambda>_. None) ''shell'' = Role_Shell" by (simp add: ParseRole_def demo_shell)
  then have "prepare_user demo_auth ''ann'' demo_user = Inr demo_known"
    by (simp add: prepare_user_def demo_known_def demo_user_def demo_auth_def demo_shell)
  then have "foldE (prepare_step demo_auth) [''ann'' \<mapsto> Some demo_user] [''ann''] = Inr [''ann'' \<mapsto> Some demo_known]"
    by (simp add: prepare_step_def)
  moreover have "al_yaml demo_auth [] = Some [''ann'' \<mapsto> Some demo_user]" "uf_contents demo_file = Some []"
    by (simp_all add: demo_auth_def demo_file_def)
  ultimately show ?thesis by (simp add: ReadUsersFromFile_def decodeUsersFromFile_def demo_db_def)
qed

lemma demo_visits: "visits_all demo_auth [''ann''] demo_file"
  by (auto simp: visits_all_def demo_auth_def split: if_splits)

lemma demo_user_db: "user_db demo_auth demo_db"
  by (rule started [OF demo_read demo_visits])

theorem roles_parsed_exactly_witness:
  "Has (ParseRole (\<lambda>_. None) ''shell'') Role_Shell"
  using roles_parsed_exactly [of "\<lambda>_. None" "''shell''" "[''shell'']" Role_Shell "''shell''"]
  by (simp add: demo_shell named_def decisive_def)

theorem users_well_formed_witness: "\<exists>u. Some demo_known = Some u \<and> user_ok ''ann'' u"
  using users_well_formed [OF demo_user_db, of "''ann''" "Some demo_known"] by (simp add: demo_db_def)

lemma demo_login:
  "CreateToken demo_auth [''ann''] 0 demo_file ''ann'' ''s'' \<lparr>sa_UserDatabase = demo_db, sa_ttl = Hour\<rparr>
    = Inr (Inr ''t'', \<lparr>sa_UserDatabase = demo_db, sa_ttl = Hour\<rparr>)"
  by (simp add: CreateToken_def FindByPassword_def Find_user_def readFileIfChanged_def demo_db_def demo_file_def
      CompareHashAndPassword_def) (simp add: demo_auth_def demo_known_def demo_user_def)

lemma demo_jwt: "jwt_keeps demo_auth"
  by (auto simp: jwt_keeps_def demo_auth_def token_claims_def user_claims_def Let_def Hour_def Second_def Unix_def split: if_splits)

lemma demo_current: "unchanged_as_read demo_auth demo_file demo_db"
proof -
  have "decodeUsersFromFile demo_auth [''ann''] demo_file = Inr (Inr (ud_Users demo_db))"
    using demo_read by (auto simp: ReadUsersFromFile_def demo_db_def split: sum.splits)
  then show ?thesis using decode_users_of [OF demo_visits] by (simp add: unchanged_as_read_def)
qed

theorem login_roundtrip_witness:
  "UserFromContext (simple_AuthMiddleware demo_auth (2 * Hour) (with_token ''t'')) = Inr None
    \<and> (\<exists>labels. UserFromContext (simple_AuthMiddleware demo_auth Second (with_token ''t''))
         = Inr (Some (newUser ''ann'' ''e'' ''ann'' (Some labels) Role_Shell)))"
proof -
  have p: "ud_Path demo_db \<noteq> []" by (simp add: demo_db_def)
  have shell: "ParseRole (\<lambda>_. None) ''shell'' = Role_Shell" by (simp add: ParseRole_def demo_shell)
  obtain labels where l: "ParseContainerFilter ''label=a'' = Inr labels"
  proof -
    have "\<not> isl (ParseContainerFilter ''label=a'')" by code_simp
    then show thesis using that by (cases "ParseContainerFilter ''label=a''") auto
  qed
  note login = login_roundtrip [OF demo_login _ _ demo_visits demo_jwt, unfolded simple_auth.simps, OF demo_current p]
  have e: "contents = [] \<and> entry = demo_user \<and> u = demo_known" if "uf_contents demo_file = Some contents" "al_yaml demo_auth contents = Some entries"
      "entries ''ann'' = Some (Some entry)" "prepare_user demo_auth ''ann'' entry = Inr u" for contents entries entry u
    using that by (auto simp: demo_file_def demo_auth_def prepare_user_def demo_user_def demo_known_def demo_shell shell)
  have "UserFromContext (simple_AuthMiddleware demo_auth (2 * Hour) (with_token ''t'')) = Inr None"
    using login [of "2 * Hour"] by (auto simp: Hour_def Second_def Unix_def)
  moreover have "UserFromContext (simple_AuthMiddleware demo_auth Second (with_token ''t''))
      = Inr (Some (newUser ''ann'' ''e'' ''ann'' (Some labels) Role_Shell))"
  proof -
    obtain contents entries entry u where x: "uf_contents demo_file = Some contents" "al_yaml demo_auth contents = Some entries"
        "entries ''ann'' = Some (Some entry)" "prepare_user demo_auth ''ann'' entry = Inr u"
      and c: "UserFromContext (simple_AuthMiddleware demo_auth Second (with_token ''t''))
        = (case ParseContainerFilter (u_Filter entry) of Inl _ \<Rightarrow> Inr None
           | Inr labels \<Rightarrow> Inr (Some (newUser ''ann'' (u_Email entry) (u_Name u) (Some labels) (u_Roles u))))"
      using login [of Second] by (auto simp: Hour_def Second_def Unix_def)
    then show ?thesis using e [OF x] l by (simp add: demo_user_def demo_known_def)
  qed
  ultimately show ?thesis by blast
qed

end
