(* ===== verification/LogEscape.thy ===== *)
theory LogEscape
  imports ContainerTypes
begin

text \<open>
  What happens to a log message on its way to the browser, which inserts it as HTML: \<open>internal/support/web\<close> with
  \<open>search.go\<close> and \<open>url.go\<close> (marking what a search or an address matched), \<open>regex.go\<close> (the marking) and \<open>escape.go\<close>
  (escaping, and turning the marks into tags).

  A compiled regular expression is given by the way it cuts a text: a list of segments, each with whether it is a match.
  \<open>MatchString\<close> asks for a match, \<open>ReplaceAllString\<close> with \<open>$0\<close> between markers puts the markers around the matches.
  Markers are the code points U+E000 to U+E003 in UTF-8.  \<open>show_num\<close> formats a number with \<open>%v\<close>.  Maps are updated entry
  by entry, so that the order in which they are visited does not matter.
\<close>

subsection \<open>Marking\<close>

type_synonym regexp = "string \<Rightarrow> (bool \<times> string) list"

record pattern_matcher =
  pm_Regex :: regexp
  pm_MarkerStart :: string
  pm_MarkerEnd :: string

definition marker :: "char \<Rightarrow> string" where "marker c = [CHR 0xEE, CHR 0x80, c]"

definition MarkerStart :: string where "MarkerStart = marker (CHR 0x80)"
definition MarkerEnd :: string where "MarkerEnd = marker (CHR 0x81)"
definition URLMarkerStart :: string where "URLMarkerStart = marker (CHR 0x82)"
definition URLMarkerEnd :: string where "URLMarkerEnd = marker (CHR 0x83)"

definition MatchString :: "regexp \<Rightarrow> string \<Rightarrow> bool" where
  "MatchString re s \<longleftrightarrow> list_ex fst (re s)"

definition replace_marked :: "pattern_matcher \<Rightarrow> string \<Rightarrow> string" where
  "replace_marked pm s = concat (map (\<lambda>(m, t). if m then pm_MarkerStart pm @ t @ pm_MarkerEnd pm else t) (pm_Regex pm s))"

definition markString :: "pattern_matcher \<Rightarrow> string \<Rightarrow> string \<times> bool" where
  "markString pm v = (if MatchString (pm_Regex pm) v then (replace_marked pm v, True) else (v, False))"

definition mark_formatted :: "pattern_matcher \<Rightarrow> string \<Rightarrow> json \<Rightarrow> json \<times> bool" where
  "mark_formatted pm formatted j =
     (if MatchString (pm_Regex pm) formatted then (JStr (replace_marked pm formatted), True) else (j, False))"

text \<open>\<open>markMap\<close> and \<open>markArray\<close> treat their values alike.\<close>

function mark_json :: "(real \<Rightarrow> string) \<Rightarrow> pattern_matcher \<Rightarrow> json \<Rightarrow> json \<times> bool" where
  "mark_json show_num pm JNull = (JNull, False)"
| "mark_json show_num pm (JBool b) = mark_formatted pm (if b then ''true'' else ''false'') (JBool b)"
| "mark_json show_num pm (JNum x) = mark_formatted pm (show_num x) (JNum x)"
| "mark_json show_num pm (JStr s) = (let (r, ok) = markString pm s in (JStr r, ok))"
| "mark_json show_num pm (JArr js) =
     (JArr (map (\<lambda>j. fst (mark_json show_num pm j)) js), list_ex (\<lambda>j. snd (mark_json show_num pm j)) js)"
| "mark_json show_num pm (JObj kvs) =
     (JObj (map (\<lambda>(k, j). (k, fst (mark_json show_num pm j))) kvs), list_ex (\<lambda>(k, j). snd (mark_json show_num pm j)) kvs)"
  by pat_completeness auto

termination by lexicographic_order

definition markMapString :: "pattern_matcher \<Rightarrow> ordered_map \<Rightarrow> ordered_map \<times> bool" where
  "markMapString pm m = (map (\<lambda>(k, v). (k, fst (markString pm v))) m, list_ex (\<lambda>(k, v). snd (markString pm v)) m)"

definition mark_fields :: "(real \<Rightarrow> string) \<Rightarrow> pattern_matcher \<Rightarrow> (string \<times> json) list \<Rightarrow> (string \<times> json) list \<times> bool" where
  "mark_fields show_num pm kvs =
     (map (\<lambda>(k, j). (k, fst (mark_json show_num pm j))) kvs, list_ex (\<lambda>(k, j). snd (mark_json show_num pm j)) kvs)"

definition MarkInLogEvent :: "(real \<Rightarrow> string) \<Rightarrow> pattern_matcher \<Rightarrow> log_event \<Rightarrow> log_event \<times> bool" where
  "MarkInLogEvent show_num pm e =
     (case le_Message e of
        MString s \<Rightarrow> (let (r, ok) = markString pm s in (e\<lparr>le_Message := MString r\<rparr>, ok))
      | MFragments fs \<Rightarrow> (e\<lparr>le_Message := MFragments (map (\<lambda>f. fst (markString pm f)) fs)\<rparr>, list_ex (\<lambda>f. snd (markString pm f)) fs)
      | MObject kvs \<Rightarrow> (let (r, ok) = mark_fields show_num pm kvs in (e\<lparr>le_Message := MObject r\<rparr>, ok))
      | MFields m \<Rightarrow> (let (r, ok) = markMapString pm m in (e\<lparr>le_Message := MFields r\<rparr>, ok))
      | MJson (JObj kvs) \<Rightarrow> (let (r, ok) = mark_fields show_num pm kvs in (e\<lparr>le_Message := MJson (JObj r)\<rparr>, ok))
      | MJson _ \<Rightarrow> (e, False))"

definition Search :: "(real \<Rightarrow> string) \<Rightarrow> regexp \<Rightarrow> log_event \<Rightarrow> log_event \<times> bool" where
  "Search show_num re e =
     MarkInLogEvent show_num \<lparr>pm_Regex = re, pm_MarkerStart = MarkerStart, pm_MarkerEnd = MarkerEnd\<rparr> e"

text \<open>\<open>compile\<close> is \<open>regexp.Compile\<close>.  A pattern without capital letters ignores case.\<close>

definition CreateRegex :: "(string \<Rightarrow> regexp option) \<Rightarrow> string \<Rightarrow> bool \<Rightarrow> regexp option" where
  "CreateRegex compile pattern caseInsensitive =
     compile ((if caseInsensitive \<or> pattern = ToLower pattern then ''(?i)'' else []) @ pattern)"

definition ParseRegex :: "(string \<Rightarrow> regexp option) \<Rightarrow> string \<Rightarrow> regexp option" where
  "ParseRegex compile search = CreateRegex compile search (search = ToLower search)"

text \<open>\<open>urlRegex\<close> is the compiled expression for addresses.\<close>

definition MarkURLs :: "(real \<Rightarrow> string) \<Rightarrow> regexp \<Rightarrow> log_event \<Rightarrow> log_event \<times> bool" where
  "MarkURLs show_num urlRegex e =
     MarkInLogEvent show_num \<lparr>pm_Regex = urlRegex, pm_MarkerStart = URLMarkerStart, pm_MarkerEnd = URLMarkerEnd\<rparr> e"

subsection \<open>Escaping\<close>

definition escape_char :: "char \<Rightarrow> string" where
  "escape_char c =
     (if c = CHR ''&'' then ''&amp;''
      else if c = CHR 0x27 then ''&#39;''
      else if c = CHR ''<'' then ''&lt;''
      else if c = CHR ''>'' then ''&gt;''
      else if c = CHR 0x22 then ''&#34;''
      else [c])"

definition EscapeString :: "string \<Rightarrow> string" where
  "EscapeString s = concat (map escape_char s)"

text \<open>\<open>strings.ReplaceAll\<close> for a text that is not empty.\<close>

function ReplaceAll :: "string \<Rightarrow> string \<Rightarrow> string \<Rightarrow> string" where
  "ReplaceAll old new [] = []"
| "ReplaceAll old new (c # s) =
     (if old \<noteq> [] \<and> has_prefix old (c # s) then new @ ReplaceAll old new (drop (length old) (c # s))
      else c # ReplaceAll old new s)"
  by pat_completeness auto

termination
  by (relation "measure (\<lambda>(old, new, s). length s)") auto

text \<open>\<open>(.*?)\<close> up to the end marker: the shortest text, on one line.\<close>

fun until_end :: "string \<Rightarrow> (string \<times> string) option" where
  "until_end [] = None"
| "until_end (c # s) =
     (if has_prefix URLMarkerEnd (c # s) then Some ([], drop (length URLMarkerEnd) (c # s))
      else if c = CHR 0x0A then None
      else map_option (\<lambda>(u, rest). (c # u, rest)) (until_end s))"

lemma until_end_shorter: "until_end s = Some (u, rest) \<Longrightarrow> length rest < length s"
  by (induction s arbitrary: u rest) (auto simp: URLMarkerEnd_def marker_def split: if_splits)

definition quote :: string where "quote = [CHR 0x22]"

definition link :: "string \<Rightarrow> string" where
  "link u = ''<a href='' @ quote @ u @ quote @ '' target='' @ quote @ ''_blank'' @ quote @ '' rel='' @ quote
     @ ''noopener noreferrer external'' @ quote @ ''>'' @ u @ ''</a>''"

function link_urls :: "string \<Rightarrow> string" where
  "link_urls [] = []"
| "link_urls (c # s) =
     (if has_prefix URLMarkerStart (c # s) then
        (case until_end (drop (length URLMarkerStart) (c # s)) of
           Some (u, rest) \<Rightarrow> link u @ link_urls rest
         | None \<Rightarrow> c # link_urls s)
      else c # link_urls s)"
  by pat_completeness auto

termination
  by (relation "measure length") (auto dest!: until_end_shorter)

definition escapeAndProcessMarkers :: "string \<Rightarrow> string" where
  "escapeAndProcessMarkers v = link_urls (ReplaceAll MarkerEnd ''</mark>'' (ReplaceAll MarkerStart ''<mark>'' (EscapeString v)))"

function escape_json :: "json \<Rightarrow> json" where
  "escape_json (JStr s) = JStr (escapeAndProcessMarkers s)"
| "escape_json (JArr js) = JArr (map escape_json js)"
| "escape_json (JObj kvs) = JObj (map (\<lambda>(k, j). (k, escape_json j)) kvs)"
| "escape_json JNull = JNull"
| "escape_json (JBool b) = JBool b"
| "escape_json (JNum x) = JNum x"
  by pat_completeness auto

termination by lexicographic_order

definition EscapeHTMLValues :: "(real \<Rightarrow> string) \<Rightarrow> regexp \<Rightarrow> log_event \<Rightarrow> log_event" where
  "EscapeHTMLValues show_num urlRegex e0 =
     (let e = fst (MarkURLs show_num urlRegex e0)
      in case le_Message e of
           MString s \<Rightarrow> e\<lparr>le_Message := MString (escapeAndProcessMarkers s)\<rparr>
         | MFragments fs \<Rightarrow> e\<lparr>le_Message := MFragments (map escapeAndProcessMarkers fs)\<rparr>
         | MObject kvs \<Rightarrow> e\<lparr>le_Message := MObject (map (\<lambda>(k, j). (k, escape_json j)) kvs)\<rparr>
         | MFields m \<Rightarrow> e\<lparr>le_Message := MFields (map (\<lambda>(k, v). (k, escapeAndProcessMarkers v)) m)\<rparr>
         | MJson (JObj kvs) \<Rightarrow> e\<lparr>le_Message := MJson (JObj (map (\<lambda>(k, j). (k, escape_json j)) kvs))\<rparr>
         | MJson _ \<Rightarrow> e)"

subsection \<open>Only the tags of Dozzle itself reach the browser\<close>

definition plain :: "char \<Rightarrow> bool" where
  "plain c \<longleftrightarrow> c \<noteq> CHR ''<'' \<and> c \<noteq> CHR ''>'' \<and> c \<noteq> CHR 0x22 \<and> c \<noteq> CHR 0x27"

definition link_attributes :: string where
  "link_attributes = quote @ '' target='' @ quote @ ''_blank'' @ quote @ '' rel='' @ quote @ ''noopener noreferrer external'' @ quote @ ''>''"

text \<open>A text the browser may insert as it is: plain characters, highlighting tags, and links whose address is closed by its own quote.\<close>

function html_ok :: "string \<Rightarrow> bool" where
  "html_ok [] = True"
| "html_ok (c # s) =
     (if has_prefix ''<mark>'' (c # s) then html_ok (drop 6 (c # s))
      else if has_prefix ''</mark>'' (c # s) then html_ok (drop 7 (c # s))
      else if has_prefix ''</a>'' (c # s) then html_ok (drop 4 (c # s))
      else if has_prefix (''<a href='' @ quote) (c # s) then
        (let rest = dropWhile (\<lambda>d. d \<noteq> CHR 0x22) (drop 9 (c # s))
         in has_prefix link_attributes rest \<and> html_ok (drop (length link_attributes) rest))
      else plain c \<and> html_ok s)"
  by pat_completeness auto

termination
proof (relation "measure length", goal_cases)
  case (5 c s rest)
  then have "length rest \<le> length (drop 9 (c # s))" using length_dropWhile_le by blast
  then show ?case by auto
qed auto

text \<open>Texts in which the highlighting marks have been replaced and the rest is escaped.\<close>

definition tag_open :: string where "tag_open = ''<mark>''"
definition tag_close :: string where "tag_close = ''</mark>''"

inductive marked :: "string \<Rightarrow> bool" where
  marked_Nil: "marked []"
| marked_plain: "plain c \<Longrightarrow> marked s \<Longrightarrow> marked (c # s)"
| marked_open: "marked s \<Longrightarrow> marked (tag_open @ s)"
| marked_close: "marked s \<Longrightarrow> marked (tag_close @ s)"

inductive_simps marked_Cons: "marked (c # s)"

lemma marked_tail: "marked (c # s) \<Longrightarrow> c \<noteq> CHR ''<'' \<Longrightarrow> plain c \<and> marked s"
  by (auto simp: marked_Cons tag_open_def tag_close_def)

lemma EscapeString_plain: "\<forall>c\<in>set (EscapeString s). plain c"
  by (auto simp: EscapeString_def escape_char_def plain_def)

lemma plain_marked: "\<forall>c\<in>set s. plain c \<Longrightarrow> marked s"
  by (induction s) (auto intro: marked.intros)

lemma marked_append: "marked s \<Longrightarrow> marked t \<Longrightarrow> marked (s @ t)"
  by (induction rule: marked.induct) (auto intro: marked.intros)

lemma marker_prefix:
  "has_prefix (marker x) (c # s) \<longleftrightarrow> c = CHR 0xEE \<and> (\<exists>r. s = CHR 0x80 # x # r)"
  by (cases s; cases "tl s") (auto simp: has_prefix_def marker_def)

lemma marker_plain: "plain (CHR 0xEE)" "plain (CHR 0x80)" "plain (CHR 0x81)" "plain (CHR 0x82)" "plain (CHR 0x83)"
  by (simp_all add: plain_def)

lemma marked_after_marker:
  assumes "marked (CHR 0xEE # CHR 0x80 # x # r)" and "x \<noteq> CHR ''<''"
  shows "marked r"
  using marked_tail [OF assms(1)] marked_tail [of "CHR 0x80" "x # r"] marked_tail [of x r] assms(2) by auto

lemma ReplaceAll_marked:
  assumes "marked s" and "marked new" and "\<And>t. marked t \<Longrightarrow> marked (new @ t)" and "x \<noteq> CHR ''<''"
  shows "marked (ReplaceAll (marker x) new s)"
  using assms(1)
proof (induction "length s" arbitrary: s rule: less_induct)
  case less
  show ?case using less.prems
  proof cases
    case (marked_plain c t)
    show ?thesis
    proof (cases "has_prefix (marker x) (c # t)")
      case True
      then obtain r where r: "c = CHR 0xEE" "t = CHR 0x80 # x # r" by (auto simp: marker_prefix)
      then have "marked r" using less.prems marked_plain(1) marked_after_marker [OF _ assms(4)] by simp
      then have "marked (ReplaceAll (marker x) new r)" using less.hyps [of r] marked_plain(1) r by simp
      then show ?thesis using True r marked_plain(1) assms(3) by (simp add: marker_def)
    next
      case False
      then show ?thesis using less.hyps [of t] marked_plain by (auto simp: marker_def intro: marked.marked_plain)
    qed
  next
    case (marked_open t)
    have "ReplaceAll (marker x) new (tag_open @ t) = tag_open @ ReplaceAll (marker x) new t"
      by (simp add: marker_prefix tag_open_def)
    then show ?thesis using less.hyps [of t] marked_open by (auto simp: tag_open_def [THEN arg_cong, of length] intro: marked.marked_open)
  next
    case (marked_close t)
    have "ReplaceAll (marker x) new (tag_close @ t) = tag_close @ ReplaceAll (marker x) new t"
      by (simp add: marker_prefix tag_close_def)
    then show ?thesis using less.hyps [of t] marked_close by (auto simp: tag_close_def [THEN arg_cong, of length] intro: marked.marked_close)
  qed (auto intro: marked.intros)
qed

lemma html_ok_tags [simp]:
  "html_ok (tag_open @ s) = html_ok s" "html_ok (tag_close @ s) = html_ok s"
  by (simp_all add: has_prefix_def tag_open_def tag_close_def)

lemma html_ok_plain: "plain c \<Longrightarrow> html_ok (c # s) = html_ok s"
  by (simp add: plain_def has_prefix_def)

lemma html_ok_marked: "marked u \<Longrightarrow> html_ok w \<Longrightarrow> html_ok (u @ w)"
  by (induction rule: marked.induct) (simp_all add: html_ok_plain del: html_ok.simps)

lemma marked_no_quote: "marked u \<Longrightarrow> CHR 0x22 \<notin> set u"
  by (induction rule: marked.induct) (auto simp: plain_def tag_open_def tag_close_def)

lemma marked_split:
  assumes "marked s" and "s = u @ CHR 0xEE # t"
  shows "marked u \<and> marked t"
  using assms
proof (induction arbitrary: u rule: marked.induct)
  case (marked_plain c s)
  then show ?case by (cases u) (auto intro: marked.intros)
next
  case (marked_open s)
  then obtain v where "u = tag_open @ v" "s = v @ CHR 0xEE # t"
    by (auto simp: append_eq_append_conv2 Cons_eq_append_conv tag_open_def)
  then show ?case using marked_open by (auto intro: marked.intros)
next
  case (marked_close s)
  then obtain v where "u = tag_close @ v" "s = v @ CHR 0xEE # t"
    by (auto simp: append_eq_append_conv2 Cons_eq_append_conv tag_close_def)
  then show ?case using marked_close by (auto intro: marked.intros)
qed simp

lemma until_end_split: "until_end s = Some (u, rest) \<Longrightarrow> s = u @ URLMarkerEnd @ rest"
proof (induction s arbitrary: u)
  case (Cons c s)
  then show ?case by (auto simp: has_prefix_iff split: if_splits)
qed simp

lemma link_eq: "link u @ w = ''<a href='' @ quote @ u @ link_attributes @ u @ ''</a>'' @ w"
  by (simp add: link_def link_attributes_def)

lemma dropWhile_to_quote: "CHR 0x22 \<notin> set u \<Longrightarrow> dropWhile (\<lambda>d. d \<noteq> CHR 0x22) (u @ link_attributes @ w) = link_attributes @ w"
  by (induction u) (auto simp: link_attributes_def quote_def)

lemma html_ok_link:
  assumes "marked u" and "html_ok w"
  shows "html_ok (link u @ w)"
proof -
  have inner: "html_ok (u @ ''</a>'' @ w)"
  proof (rule html_ok_marked [OF assms(1)])
    show "html_ok (''</a>'' @ w)" using assms(2) by (simp add: has_prefix_def)
  qed
  define rest where "rest = u @ link_attributes @ u @ ''</a>'' @ w"
  have "dropWhile (\<lambda>d. d \<noteq> CHR 0x22) rest = link_attributes @ u @ ''</a>'' @ w"
    unfolding rest_def by (rule dropWhile_to_quote [OF marked_no_quote [OF assms(1)]])
  moreover have "html_ok (''<a href='' @ quote @ rest) =
    (let r = dropWhile (\<lambda>d. d \<noteq> CHR 0x22) rest in has_prefix link_attributes r \<and> html_ok (drop (length link_attributes) r))"
    by (simp add: html_ok.simps(2) [of "CHR ''<''"] has_prefix_def quote_def del: html_ok.simps)
  ultimately show ?thesis using inner by (simp add: link_eq rest_def del: html_ok.simps)
qed

lemma link_urls_ok: "marked s \<Longrightarrow> html_ok (link_urls s)"
proof (induction "length s" arbitrary: s rule: less_induct)
  case less
  show ?case using less.prems
  proof cases
    case (marked_plain c t)
    show ?thesis
    proof (cases "has_prefix URLMarkerStart (c # t) \<and> until_end (drop (length URLMarkerStart) (c # t)) \<noteq> None")
      case True
      then obtain r u rest where r: "c = CHR 0xEE" "t = CHR 0x80 # CHR 0x82 # r" "until_end r = Some (u, rest)"
        by (auto simp: URLMarkerStart_def marker_prefix) (auto simp: marker_def)
      have "marked r" using less.prems marked_plain(1) r marked_after_marker [of "CHR 0x82" r] by simp
      then have m: "marked u" "marked (CHR 0x80 # CHR 0x83 # rest)"
        using marked_split [of r u "CHR 0x80 # CHR 0x83 # rest"] until_end_split [OF r(3)] by (auto simp: URLMarkerEnd_def marker_def)
      then have "marked rest" using marked_tail by blast
      moreover have "length rest < length s" using until_end_shorter [OF r(3)] marked_plain(1) r by simp
      ultimately have "html_ok (link_urls rest)" using less.hyps by blast
      then show ?thesis using r marked_plain(1) html_ok_link [OF m(1)] by (simp add: URLMarkerStart_def marker_def has_prefix_def)
    next
      case False
      then have "link_urls (c # t) = c # link_urls t" by (auto split: option.splits)
      then show ?thesis using less.hyps [of t] marked_plain html_ok_plain by simp
    qed
  next
    case (marked_open t)
    have "link_urls (tag_open @ t) = tag_open @ link_urls t" by (simp add: tag_open_def URLMarkerStart_def marker_prefix)
    then show ?thesis using less.hyps [of t] marked_open html_ok_tags(1) [of "link_urls t"] by (simp add: tag_open_def del: html_ok.simps)
  next
    case (marked_close t)
    have "link_urls (tag_close @ t) = tag_close @ link_urls t" by (simp add: tag_close_def URLMarkerStart_def marker_prefix)
    then show ?thesis using less.hyps [of t] marked_close html_ok_tags(2) [of "link_urls t"] by (simp add: tag_close_def del: html_ok.simps)
  qed simp
qed

lemma escaped_html_ok: "html_ok (escapeAndProcessMarkers v)"
proof -
  have "marked tag_open" "marked tag_close"
    using marked_open [OF marked_Nil] marked_close [OF marked_Nil] by simp_all
  moreover have "marked (EscapeString v)" by (rule plain_marked [OF EscapeString_plain])
  ultimately have "marked (ReplaceAll MarkerStart tag_open (EscapeString v))"
    unfolding MarkerStart_def by (intro ReplaceAll_marked marked_open) simp_all
  then have "marked (ReplaceAll MarkerEnd tag_close (ReplaceAll MarkerStart tag_open (EscapeString v)))"
    unfolding MarkerEnd_def using \<open>marked tag_close\<close> by (intro ReplaceAll_marked marked_close) simp_all
  then show ?thesis unfolding escapeAndProcessMarkers_def tag_open_def tag_close_def by (rule link_urls_ok)
qed

text \<open>The texts of a message.\<close>

function json_texts :: "json \<Rightarrow> string list" where
  "json_texts (JStr s) = [s]"
| "json_texts (JArr js) = concat (map json_texts js)"
| "json_texts (JObj kvs) = concat (map (\<lambda>(k, j). json_texts j) kvs)"
| "json_texts JNull = []"
| "json_texts (JBool b) = []"
| "json_texts (JNum x) = []"
  by pat_completeness auto

termination by lexicographic_order

fun message_texts :: "log_message \<Rightarrow> string list" where
  "message_texts (MString s) = [s]"
| "message_texts (MFragments fs) = fs"
| "message_texts (MObject kvs) = json_texts (JObj kvs)"
| "message_texts (MFields m) = map snd m"
| "message_texts (MJson j) = json_texts j"

lemma escape_json_ok: "\<forall>s\<in>set (json_texts (escape_json j)). html_ok s"
  by (induction j rule: escape_json.induct) (auto simp: escaped_html_ok simp del: html_ok.simps)

lemma escaped_message_ok:
  assumes "\<forall>j. le_Message e = MJson j \<longrightarrow> (\<exists>kvs. j = JObj kvs)"
  shows "\<forall>s\<in>set (message_texts (le_Message (EscapeHTMLValues show_num urlRegex e))). html_ok s"
proof (cases "le_Message e")
  case (MObject kvs)
  then show ?thesis using escape_json_ok [of "JObj (fst (mark_fields show_num
      \<lparr>pm_Regex = urlRegex, pm_MarkerStart = URLMarkerStart, pm_MarkerEnd = URLMarkerEnd\<rparr> kvs))"]
    by (simp add: EscapeHTMLValues_def MarkURLs_def MarkInLogEvent_def Let_def case_prod_beta comp_def)
next
  case (MJson j)
  then obtain kvs where "j = JObj kvs" using assms by blast
  then show ?thesis using MJson escape_json_ok [of "JObj (fst (mark_fields show_num
      \<lparr>pm_Regex = urlRegex, pm_MarkerStart = URLMarkerStart, pm_MarkerEnd = URLMarkerEnd\<rparr> kvs))"]
    by (simp add: EscapeHTMLValues_def MarkURLs_def MarkInLogEvent_def Let_def case_prod_beta comp_def)
qed (auto simp: EscapeHTMLValues_def MarkURLs_def MarkInLogEvent_def Let_def case_prod_beta escaped_html_ok markMapString_def
    simp del: html_ok.simps)




subsection \<open>Grouped lines from the log cache\<close>

text \<open>The cache keeps events as JSON; reading one back decodes its message into an \<open>any\<close>.\<close>

definition json_of_message :: "log_message \<Rightarrow> json" where
  "json_of_message m =
     (case m of
        MString s \<Rightarrow> JStr s
      | MFragments fs \<Rightarrow> JArr (map (\<lambda>f. JObj [(''m'', JStr f)]) fs)
      | MObject kvs \<Rightarrow> JObj kvs
      | MFields kvs \<Rightarrow> JObj (map (\<lambda>(k, v). (k, JStr v)) kvs)
      | MJson j \<Rightarrow> j)"

definition message_of_json :: "json \<Rightarrow> log_message" where
  "message_of_json j = (case j of JStr s \<Rightarrow> MString s | _ \<Rightarrow> MJson j)"

definition through_cache :: "log_event \<Rightarrow> log_event" where
  "through_cache e = e\<lparr>le_Message := message_of_json (json_of_message (le_Message e))\<rparr>"

text \<open>C20. A group of lines that comes from the log cache is sent to the browser as the container wrote it, with no escaping at all, and
no search ever finds it.\<close>

theorem cached_groups_unescaped:
  assumes "le_Message e = MFragments fs"
  shows "message_texts (le_Message (EscapeHTMLValues show_num urlRegex (through_cache e))) = fs
    \<and> \<not> snd (Search show_num re (through_cache e))"
  using assms
  by (simp add: through_cache_def message_of_json_def json_of_message_def EscapeHTMLValues_def MarkURLs_def Search_def
      MarkInLogEvent_def Let_def comp_def)

text \<open>All other events come back in a form that is escaped like the live ones.\<close>

lemma other_cached_safe:
  assumes "le_Message e = MString s \<or> le_Message e = MObject kvs \<or> le_Message e = MFields m"
  shows "\<forall>t\<in>set (message_texts (le_Message (EscapeHTMLValues show_num urlRegex (through_cache e)))). html_ok t"
  using assms by (intro escaped_message_ok) (auto simp: through_cache_def message_of_json_def json_of_message_def)

text \<open>The markers themselves are not escaped: a container that logs them makes a link of any text, whatever its scheme.\<close>

lemma forged_link:
  "escapeAndProcessMarkers (URLMarkerStart @ ''javascript:alert(1)'' @ URLMarkerEnd) = link ''javascript:alert(1)''"
  by code_simp

definition demo_script :: log_event where
  "demo_script = \<lparr>le_Type = LogTypeGroup, le_Message = MFragments [''<script>'', ''x''], le_RawMessage = [], le_Timestamp = 0,
     le_Id = 1, le_Level = ''info'', le_Stream = ''stdout'', le_ContainerID = ''c''\<rparr>"


theorem cached_groups_unescaped_witness:
  "message_texts (le_Message (EscapeHTMLValues (\<lambda>_. []) (\<lambda>s. [(False, s)]) (through_cache demo_script))) = [''<script>'', ''x'']
    \<and> \<not> html_ok ''<script>''"
proof -
  have "\<not> html_ok ''<script>''" by code_simp
  then show ?thesis using cached_groups_unescaped [of demo_script "[''<script>'', ''x'']"] by (simp add: demo_script_def)
qed

end
