(* ===== verification/WebAccess.thy ===== *)
theory WebAccess
  imports Auth LogEscape
begin

text \<open>
  Who may do what over HTTP: the router of \<open>internal/web/routes.go\<close> and the handlers that need a role, \<open>actions.go\<close>,
  \<open>terminal.go\<close>, the checks of \<open>download.go\<close>, with \<open>auth.go\<close>, \<open>index.go\<close> and the profile files of \<open>internal/profile\<close>.

  A request is its headers and token; a handler returns the status it answers with and what it did to containers.  A nil
  user that is dereferenced is a panic.  Upgrading to a web socket and opening an event stream may fail (\<open>upgraded\<close>,
  \<open>stream_ok\<close>); \<open>act\<close> tells whether the engine carries an action out.
\<close>

subsection \<open>Labels and roles of a request\<close>

datatype provider = NONE | SIMPLE | FORWARD_PROXY

record web_config =
  wc_Provider :: provider
  wc_proxy :: proxy_auth
  wc_TTL :: duration
  wc_LogoutUrl :: string
  wc_Labels :: label_arg
  wc_EnableActions :: bool
  wc_EnableShell :: bool

definition in_force :: "web_config \<Rightarrow> user \<Rightarrow> label_arg" where
  "in_force cfg u = (if labels_Exists (u_ContainerLabels u) then u_ContainerLabels u else wc_Labels cfg)"

definition request_user :: "request_context \<Rightarrow> go_panic + user" where
  "request_user ctx =
     (case UserFromContext ctx of Inl e \<Rightarrow> Inl e | Inr None \<Rightarrow> Inl NilDereference | Inr (Some u) \<Rightarrow> Inr u)"

definition resolveLabels :: "web_config \<Rightarrow> request_context \<Rightarrow> go_panic + label_arg" where
  "resolveLabels cfg ctx =
     (if wc_Provider cfg \<noteq> NONE then (case request_user ctx of Inl e \<Rightarrow> Inl e | Inr u \<Rightarrow> Inr (in_force cfg u))
      else Inr (wc_Labels cfg))"

text \<open>The beginning that the handlers with a role share: the labels in force and whether the role is granted.\<close>

definition permit :: "web_config \<Rightarrow> role \<Rightarrow> request_context \<Rightarrow> go_panic + label_arg \<times> bool" where
  "permit cfg r ctx =
     (if wc_Provider cfg \<noteq> NONE
      then (case request_user ctx of Inl e \<Rightarrow> Inl e | Inr u \<Rightarrow> Inr (in_force cfg u, Has (u_Roles u) r))
      else Inr (wc_Labels cfg, True))"

subsection \<open>Actions and shells\<close>

type_synonym finder = "string \<Rightarrow> client_answer option"

definition findContainerWithActions ::
    "web_config \<Rightarrow> request_context \<Rightarrow> finder \<Rightarrow> string \<Rightarrow> string \<Rightarrow> go_panic + int + container" where
  "findContainerWithActions cfg ctx fc h i =
     (case permit cfg Role_Actions ctx of
        Inl e \<Rightarrow> Inl e
      | Inr (labels, ok) \<Rightarrow>
          (if \<not> ok then Inr (Inl 403)
           else case mh_FindContainer fc h i labels of Inl _ \<Rightarrow> Inr (Inl 404) | Inr c \<Rightarrow> Inr (Inr c)))"

datatype deed = Acted container container_action | Updated container | Attached container | Executed container | Downloaded container

definition containerActions ::
    "web_config \<Rightarrow> request_context \<Rightarrow> finder \<Rightarrow> (container \<Rightarrow> container_action \<Rightarrow> bool) \<Rightarrow> string \<Rightarrow> string \<Rightarrow> string
       \<Rightarrow> go_panic + int \<times> deed list" where
  "containerActions cfg ctx fc act h i action =
     (case findContainerWithActions cfg ctx fc h i of
        Inl e \<Rightarrow> Inl e
      | Inr (Inl status) \<Rightarrow> Inr (status, [])
      | Inr (Inr c) \<Rightarrow>
          (case ParseContainerAction action of
             Inl _ \<Rightarrow> Inr (400, [])
           | Inr a \<Rightarrow> Inr (if act c a then 204 else 500, [Acted c a])))"

definition containerUpdate ::
    "web_config \<Rightarrow> request_context \<Rightarrow> finder \<Rightarrow> bool \<Rightarrow> string \<Rightarrow> string \<Rightarrow> go_panic + int \<times> deed list" where
  "containerUpdate cfg ctx fc stream_ok h i =
     (case findContainerWithActions cfg ctx fc h i of
        Inl e \<Rightarrow> Inl e
      | Inr (Inl status) \<Rightarrow> Inr (status, [])
      | Inr (Inr c) \<Rightarrow> Inr (if stream_ok then (200, [Updated c]) else (500, [])))"

text \<open>On a web socket there is no status; 101 stands for the upgrade, whatever is written to the socket afterwards.\<close>

definition open_shell ::
    "(container \<Rightarrow> deed) \<Rightarrow> web_config \<Rightarrow> request_context \<Rightarrow> finder \<Rightarrow> bool \<Rightarrow> string \<Rightarrow> string \<Rightarrow> go_panic + int \<times> deed list" where
  "open_shell deed cfg ctx fc upgraded h i =
     (if \<not> upgraded then Inr (400, [])
      else case permit cfg Role_Shell ctx of
             Inl e \<Rightarrow> Inl e
           | Inr (labels, ok) \<Rightarrow>
               (if \<not> ok then Inr (101, [])
                else case mh_FindContainer fc h i labels of Inl _ \<Rightarrow> Inr (101, []) | Inr c \<Rightarrow> Inr (101, [deed c])))"

definition attach :: "web_config \<Rightarrow> request_context \<Rightarrow> finder \<Rightarrow> bool \<Rightarrow> string \<Rightarrow> string \<Rightarrow> go_panic + int \<times> deed list" where
  "attach = open_shell Attached"

definition exec :: "web_config \<Rightarrow> request_context \<Rightarrow> finder \<Rightarrow> bool \<Rightarrow> string \<Rightarrow> string \<Rightarrow> go_panic + int \<times> deed list" where
  "exec = open_shell Executed"

subsection \<open>Downloads\<close>

record download_query =
  dq_stdout :: bool
  dq_stderr :: bool
  dq_filter :: "string option"

text \<open>All containers are looked up before anything is written.\<close>

fun find_all :: "finder \<Rightarrow> label_arg \<Rightarrow> string list \<Rightarrow> container list \<Rightarrow> int + container list" where
  "find_all fc labels [] found = Inr found"
| "find_all fc labels (hostId # rest) found =
     (case split_on CHR ''~'' hostId of
        [h, i] \<Rightarrow>
          (case mh_FindContainer fc h i labels of
             Inl _ \<Rightarrow> Inl 400
           | Inr c \<Rightarrow> find_all fc labels rest (found @ [c]))
      | _ \<Rightarrow> Inl 400)"

definition download_containers ::
    "web_config \<Rightarrow> (string \<Rightarrow> regexp option) \<Rightarrow> request_context \<Rightarrow> finder \<Rightarrow> download_query \<Rightarrow> string
       \<Rightarrow> go_panic + int \<times> deed list" where
  "download_containers cfg compile ctx fc q hostIds =
     (case permit cfg Role_Download ctx of
        Inl e \<Rightarrow> Inl e
      | Inr (labels, ok) \<Rightarrow>
          (if \<not> ok then Inr (403, [])
           else if \<not> dq_stdout q \<and> \<not> dq_stderr q then Inr (400, [])
           else if (case dq_filter q of None \<Rightarrow> False | Some f \<Rightarrow> ParseRegex compile f = None) then Inr (400, [])
           else case find_all fc labels (split_on CHR '','' hostIds) [] of
                  Inl status \<Rightarrow> Inr (status, [])
                | Inr cs \<Rightarrow> Inr (200, map Downloaded cs)))"

subsection \<open>Routes\<close>

datatype api_route =
    ActionRoute string string string
  | UpdateRoute string string
  | AttachRoute string string
  | ExecRoute string string
  | DownloadRoute download_query string

record web_world =
  ww_lib :: auth_lib
  ww_now :: gotime
  ww_find :: finder
  ww_act :: "container \<Rightarrow> container_action \<Rightarrow> bool"
  ww_upgraded :: bool
  ww_compile :: "string \<Rightarrow> regexp option"

text \<open>\<open>None\<close> is a request that the middleware has already answered with 400.\<close>

definition AuthMiddleware :: "web_config \<Rightarrow> web_world \<Rightarrow> request \<Rightarrow> request_context option" where
  "AuthMiddleware cfg w r =
     (case wc_Provider cfg of
        NONE \<Rightarrow> Some \<lparr>ctx_remoteUser = None, ctx_claims = None\<rparr>
      | SIMPLE \<Rightarrow> Some (simple_AuthMiddleware (ww_lib w) (ww_now w) r)
      | FORWARD_PROXY \<Rightarrow> proxy_AuthMiddleware (ww_lib w) (wc_proxy cfg) r)"

definition handle_route :: "web_config \<Rightarrow> web_world \<Rightarrow> request_context \<Rightarrow> api_route \<Rightarrow> go_panic + int \<times> deed list" where
  "handle_route cfg w ctx route =
     (case route of
        ActionRoute h i a \<Rightarrow>
          (if wc_EnableActions cfg then containerActions cfg ctx (ww_find w) (ww_act w) h i a else Inr (404, []))
      | UpdateRoute h i \<Rightarrow> (if wc_EnableActions cfg then containerUpdate cfg ctx (ww_find w) (ww_upgraded w) h i else Inr (404, []))
      | AttachRoute h i \<Rightarrow> (if wc_EnableShell cfg then attach cfg ctx (ww_find w) (ww_upgraded w) h i else Inr (404, []))
      | ExecRoute h i \<Rightarrow> (if wc_EnableShell cfg then exec cfg ctx (ww_find w) (ww_upgraded w) h i else Inr (404, []))
      | DownloadRoute q ids \<Rightarrow> download_containers cfg (ww_compile w) ctx (ww_find w) q ids)"

definition serve :: "web_config \<Rightarrow> web_world \<Rightarrow> request \<Rightarrow> api_route \<Rightarrow> go_panic + int \<times> deed list" where
  "serve cfg w r route =
     (case AuthMiddleware cfg w r of
        None \<Rightarrow> Inr (400, [])
      | Some ctx \<Rightarrow>
          (if wc_Provider cfg = NONE then handle_route cfg w ctx route
           else case RequireAuthentication ctx of
                  Inl e \<Rightarrow> Inl e
                | Inr False \<Rightarrow> Inr (401, [])
                | Inr True \<Rightarrow> handle_route cfg w ctx route))"

subsection \<open>Cookies and the start page\<close>

record cookie =
  ck_Value :: string
  ck_Secure :: bool
  ck_Expires :: gotime

text \<open>\<open>tls\<close> tells whether the connection itself is encrypted; \<open>strings.EqualFold\<close> compares without case.\<close>

definition isHTTPS :: "bool \<Rightarrow> request \<Rightarrow> bool" where
  "isHTTPS tls r \<longleftrightarrow> tls \<or> ToLower (rq_Header r ''X-Forwarded-Proto'') = ''https''"

definition createToken ::
    "web_config \<Rightarrow> web_world \<Rightarrow> string list \<Rightarrow> user_file \<Rightarrow> bool \<Rightarrow> request \<Rightarrow> string \<Rightarrow> string \<Rightarrow> simple_auth
       \<Rightarrow> auth_stop + (int \<times> cookie option) \<times> simple_auth" where
  "createToken cfg w ks f tls r username password a =
     (case CreateToken (ww_lib w) ks (ww_now w) f username password a of
        Inl e \<Rightarrow> Inl e
      | Inr (Inl _, a') \<Rightarrow> Inr ((401, None), a')
      | Inr (Inr token, a') \<Rightarrow>
          Inr ((200, Some \<lparr>ck_Value = token, ck_Secure = isHTTPS tls r,
                           ck_Expires = (if 0 < wc_TTL cfg then ww_now w + wc_TTL cfg else zero_time)\<rparr>), a'))"

definition deleteToken :: "bool \<Rightarrow> request \<Rightarrow> cookie" where
  "deleteToken tls r = \<lparr>ck_Value = [], ck_Secure = isHTTPS tls r, ck_Expires = 0\<rparr>"

datatype index_answer =
    UnauthorizedUser
  | RedirectToLogin
  | Page bool bool bool bool "user option" "string option"

text \<open>\<open>Page full enableShell enableActions enableDownload user logoutUrl\<close>; \<open>full\<close> tells whether hosts and version are included.\<close>

definition executeTemplate :: "web_config \<Rightarrow> request_context \<Rightarrow> string \<Rightarrow> go_panic + index_answer" where
  "executeTemplate cfg ctx path =
     (case UserFromContext ctx of
        Inl e \<Rightarrow> Inl e
      | Inr None \<Rightarrow>
          (case wc_Provider cfg of
             FORWARD_PROXY \<Rightarrow> Inr UnauthorizedUser
           | SIMPLE \<Rightarrow> (if path \<noteq> ''login'' then Inr RedirectToLogin else Inr (Page False False False False None None))
           | NONE \<Rightarrow> Inr (Page True (wc_EnableShell cfg) (wc_EnableActions cfg) True None None))
      | Inr (Some u) \<Rightarrow>
          Inr (Page True (wc_EnableShell cfg \<and> Has (u_Roles u) Role_Shell) (wc_EnableActions cfg \<and> Has (u_Roles u) Role_Actions)
                 (Has (u_Roles u) Role_Download) (Some u)
                 (if wc_Provider cfg = FORWARD_PROXY \<and> TrimSpace (wc_LogoutUrl cfg) \<noteq> [] then Some (TrimSpace (wc_LogoutUrl cfg)) else None)))"

subsection \<open>Nothing is done without the role for it\<close>

fun deed_role :: "deed \<Rightarrow> role" where
  "deed_role (Acted c a) = Role_Actions"
| "deed_role (Updated c) = Role_Actions"
| "deed_role (Attached c) = Role_Shell"
| "deed_role (Executed c) = Role_Shell"
| "deed_role (Downloaded c) = Role_Download"

fun deed_container :: "deed \<Rightarrow> container" where
  "deed_container (Acted c a) = c"
| "deed_container (Updated c) = c"
| "deed_container (Attached c) = c"
| "deed_container (Executed c) = c"
| "deed_container (Downloaded c) = c"

text \<open>A deed is allowed in a context when its role is granted and its container was found under the labels in force.\<close>

definition allowed :: "web_config \<Rightarrow> finder \<Rightarrow> request_context \<Rightarrow> deed \<Rightarrow> bool" where
  "allowed cfg fc ctx d \<longleftrightarrow> (\<exists>h i labels. permit cfg (deed_role d) ctx = Inr (labels, True) \<and> mh_FindContainer fc h i labels = Inr (deed_container d))"

lemma allowedI:
  "permit cfg (deed_role d) ctx = Inr (labels, True) \<Longrightarrow> mh_FindContainer fc h i labels = Inr (deed_container d) \<Longrightarrow> allowed cfg fc ctx d"
  by (auto simp: allowed_def)

lemma find_all_found:
  assumes "find_all fc labels ids found = Inr cs" and "\<forall>c\<in>set found. \<exists>h i. mh_FindContainer fc h i labels = Inr c"
  shows "\<forall>c\<in>set cs. \<exists>h i. mh_FindContainer fc h i labels = Inr c"
  using assms
proof (induction ids arbitrary: found)
  case (Cons x ids)
  from Cons.prems(1) obtain h i c where c: "mh_FindContainer fc h i labels = Inr c" "find_all fc labels ids (found @ [c]) = Inr cs"
    by (auto split: list.split_asm sum.split_asm)
  have "\<forall>c'\<in>set (found @ [c]). \<exists>h i. mh_FindContainer fc h i labels = Inr c'" using c(1) Cons.prems(2) by auto
  then show ?case by (rule Cons.IH [OF c(2)])
qed simp

lemma actions_allowed:
  "containerActions cfg ctx fc act h i a = Inr (st, ds) \<Longrightarrow> d \<in> set ds \<Longrightarrow> allowed cfg fc ctx d \<and> deed_role d = Role_Actions"
  "containerUpdate cfg ctx fc ok h i = Inr (st, ds) \<Longrightarrow> d \<in> set ds \<Longrightarrow> allowed cfg fc ctx d \<and> deed_role d = Role_Actions"
  by (auto simp: containerActions_def containerUpdate_def findContainerWithActions_def
      split: sum.splits prod.splits if_splits intro: allowedI)

lemma shells_allowed:
  "attach cfg ctx fc up h i = Inr (st, ds) \<Longrightarrow> d \<in> set ds \<Longrightarrow> allowed cfg fc ctx d \<and> deed_role d = Role_Shell"
  "exec cfg ctx fc up h i = Inr (st, ds) \<Longrightarrow> d \<in> set ds \<Longrightarrow> allowed cfg fc ctx d \<and> deed_role d = Role_Shell"
  by (auto simp: attach_def exec_def open_shell_def split: sum.splits prod.splits if_splits intro: allowedI)

lemma downloads_allowed:
  assumes "download_containers cfg compile ctx fc q ids = Inr (st, ds)" and "d \<in> set ds"
  shows "allowed cfg fc ctx d \<and> deed_role d = Role_Download"
proof -
  obtain labels cs where l: "permit cfg Role_Download ctx = Inr (labels, True)" "find_all fc labels (split_on CHR '','' ids) [] = Inr cs"
    "ds = map Downloaded cs"
    using assms by (auto simp: download_containers_def split: sum.splits prod.splits if_splits)
  then show ?thesis using find_all_found [OF l(2)] assms(2) by (auto simp: allowed_def)
qed

lemma route_allowed:
  assumes "handle_route cfg w ctx route = Inr (st, ds)" and "d \<in> set ds"
  shows "allowed cfg (ww_find w) ctx d \<and> (deed_role d = Role_Actions \<longrightarrow> wc_EnableActions cfg) \<and> (deed_role d = Role_Shell \<longrightarrow> wc_EnableShell cfg)"
proof -
  have roles: "Role_Actions \<noteq> Role_Shell" "Role_Shell \<noteq> Role_Actions" "Role_Download \<noteq> Role_Shell" "Role_Download \<noteq> Role_Actions"
    by (simp_all add: role_values)
  show ?thesis using assms roles actions_allowed [of cfg ctx "ww_find w"] shells_allowed [of cfg ctx "ww_find w"]
      downloads_allowed [of cfg "ww_compile w" ctx "ww_find w"]
    by (cases route; simp add: handle_route_def split: if_split_asm; metis)
qed

text \<open>C8. No request acts on, updates, opens a shell in or downloads the logs of a container unless the feature is switched on, the request
is authenticated, the user's roles include the one for it, and the container was found under the user's own filter, or the server's
where the user has none.\<close>

theorem deeds_need_role:
  assumes "serve cfg w r route = Inr (status, deeds)" and "d \<in> set deeds"
  shows "(deed_role d = Role_Actions \<longrightarrow> wc_EnableActions cfg) \<and> (deed_role d = Role_Shell \<longrightarrow> wc_EnableShell cfg)
    \<and> (\<exists>h i labels. mh_FindContainer (ww_find w) h i labels = Inr (deed_container d)
        \<and> (if wc_Provider cfg = NONE then labels = wc_Labels cfg
           else \<exists>ctx u. AuthMiddleware cfg w r = Some ctx \<and> UserFromContext ctx = Inr (Some u)
                  \<and> Has (u_Roles u) (deed_role d) \<and> labels = in_force cfg u))"
proof -
  obtain ctx where ctx: "AuthMiddleware cfg w r = Some ctx" "handle_route cfg w ctx route = Inr (status, deeds)"
    using assms by (auto simp: serve_def split: option.splits if_splits sum.splits bool.splits)
  have al: "allowed cfg (ww_find w) ctx d" "deed_role d = Role_Actions \<longrightarrow> wc_EnableActions cfg" "deed_role d = Role_Shell \<longrightarrow> wc_EnableShell cfg"
    using route_allowed [OF ctx(2) assms(2)] by simp_all
  then show ?thesis using ctx(1)
    by (auto simp: allowed_def permit_def request_user_def split: if_splits sum.splits option.splits)
qed

text \<open>Behind the check for authentication no handler meets a missing user.\<close>

lemma serve_no_nil_user:
  assumes "serve cfg w r route = Inl e"
  shows "e = TypeAssertion"
proof -
  have u: "UserFromContext ctx = Inl e' \<Longrightarrow> e' = TypeAssertion" for ctx e'
    by (auto simp: UserFromContext_def Let_def split: option.splits if_splits sum.splits)
  have p: "permit cfg x ctx = Inl e' \<Longrightarrow> wc_Provider cfg = NONE \<or> RequireAuthentication ctx = Inr True \<Longrightarrow> e' = TypeAssertion" for x ctx e'
    using u by (auto simp: permit_def request_user_def RequireAuthentication_def split: if_splits sum.splits option.splits)
  have "handle_route cfg w ctx route = Inl e \<Longrightarrow> \<exists>x. permit cfg x ctx = Inl e" for ctx
    by (auto simp: handle_route_def containerActions_def containerUpdate_def findContainerWithActions_def attach_def exec_def open_shell_def
        download_containers_def split: api_route.splits if_splits sum.splits prod.splits)
  moreover have "RequireAuthentication ctx = Inl e \<Longrightarrow> e = TypeAssertion" for ctx
    using u by (auto simp: RequireAuthentication_def split: sum.splits)
  ultimately show ?thesis using assms p
    by (auto simp: serve_def split: option.splits if_splits sum.splits bool.splits; metis)
qed

text \<open>The client of an engine answers from its container store.\<close>

definition store_find :: "engine_view \<Rightarrow> (nat \<Rightarrow> bool) \<Rightarrow> container_store \<Rightarrow> string \<Rightarrow> label_arg \<Rightarrow> container option" where
  "store_find eng gone s i l = (case fst (store_FindContainer eng gone i l s) of Inl _ \<Rightarrow> None | Inr c \<Rightarrow> Some c)"

definition store_client :: "client_answer \<Rightarrow> engine_view \<Rightarrow> bool" where
  "store_client a eng \<longleftrightarrow> truthful eng
     \<and> (\<exists>gone s A labels. cstore_step\<^sup>*\<^sup>* (NewContainerStore labels, {}) (s, A) \<and> ca_find a = store_find eng gone s)"

lemma store_client_find:
  assumes "store_client a eng" and "ca_find a i l = Some c" and "labels_Exists l"
  shows "c_ID c \<in> listed_ids eng l"
proof -
  obtain gone s A labels where e: "truthful eng" "cstore_step\<^sup>*\<^sup>* (NewContainerStore labels, {}) (s, A)" "ca_find a = store_find eng gone s"
    using assms(1) unfolding store_client_def by blast
  obtain s'' where s: "store_FindContainer eng gone i l s = (Inr c, s'')"
    using assms(2) e(3) by (cases "store_FindContainer eng gone i l s") (auto simp: store_find_def split: sum.splits)
  show ?thesis using find_by_id [OF e(2,1) s] find_listed [OF s assms(3)] by simp
qed

text \<open>C6. A user with a container filter never acts on, enters or downloads a container that its engine does not list for that filter,
whatever identifiers the request names: roles, filters, the host lookup and the container store together keep the user inside.\<close>

theorem deeds_stay_in_filter:
  assumes "serve cfg w r route = Inr (status, deeds)" and "d \<in> set deeds" and "wc_Provider cfg \<noteq> NONE"
    and "AuthMiddleware cfg w r = Some ctx" and "UserFromContext ctx = Inr (Some u)" and "labels_Exists (u_ContainerLabels u)"
    and "\<forall>h a. ww_find w h = Some a \<longrightarrow> (\<exists>eng. store_client a eng)"
  shows "\<exists>h a eng. ww_find w h = Some a \<and> store_client a eng \<and> c_ID (deed_container d) \<in> listed_ids eng (u_ContainerLabels u)"
proof -
  have "handle_route cfg w ctx route = Inr (status, deeds)"
    using assms(1-4) by (auto simp: serve_def split: option.splits if_splits sum.splits bool.splits)
  then have "allowed cfg (ww_find w) ctx d" using route_allowed [OF _ assms(2)] by blast
  then obtain h i where f: "mh_FindContainer (ww_find w) h i (u_ContainerLabels u) = Inr (deed_container d)"
    using assms(3,5,6) by (auto simp: allowed_def permit_def request_user_def in_force_def)
  then obtain a where a: "ww_find w h = Some a" "ca_find a i (u_ContainerLabels u) = Some (deed_container d)"
    by (auto simp: mh_FindContainer_def split: option.splits)
  then obtain eng where e: "store_client a eng" using assms(7) by blast
  have "c_ID (deed_container d) \<in> listed_ids eng (u_ContainerLabels u)" by (rule store_client_find [OF e a(2) assms(6)])
  then show ?thesis using a(1) e by blast
qed

subsection \<open>A user behind a proxy\<close>

definition door_proxy :: proxy_auth where
  "door_proxy = \<lparr>headerUser = ''User'', headerEmail = ''Email'', headerName = ''Name'', headerFilter = ''Filter'', headerRoles = ''Roles''\<rparr>"

definition door_config :: web_config where
  "door_config = \<lparr>wc_Provider = FORWARD_PROXY, wc_proxy = door_proxy, wc_TTL = 0, wc_LogoutUrl = [], wc_Labels = None,
     wc_EnableActions = False, wc_EnableShell = True\<rparr>"

definition door_client :: client_answer where
  "door_client = \<lparr>ca_host = undefined, ca_list = (\<lambda>_. None), ca_find = store_find home_engine (\<lambda>_. False) home_store\<rparr>"

definition door_world :: web_world where
  "door_world = \<lparr>ww_lib = demo_auth, ww_now = 0, ww_find = (\<lambda>_. Some door_client), ww_act = (\<lambda>_ _. True), ww_upgraded = True,
     ww_compile = (\<lambda>_. None)\<rparr>"

definition door_request :: request where
  "door_request = \<lparr>rq_Header = (\<lambda>k. if k = ''User'' then ''ann'' else if k = ''Filter'' then ''team=x'' else []), rq_token = None\<rparr>"

definition door_user :: user where
  "door_user = newUser ''ann'' [] [] (Some [''team'' \<mapsto> [''x'']]) Role_All"

definition door_context :: request_context where
  "door_context = \<lparr>ctx_remoteUser = Some door_user, ctx_claims = None\<rparr>"

lemma door_filter: "ParseContainerFilter ''team=x'' = Inr [''team'' \<mapsto> [''x'']]"
  by (simp add: ParseContainerFilter_def filter_step_def)

lemma door_enters: "AuthMiddleware door_config door_world door_request = Some door_context" "UserFromContext door_context = Inr (Some door_user)"
  by (simp_all add: AuthMiddleware_def door_config_def proxy_AuthMiddleware_def door_world_def door_request_def door_proxy_def door_filter
      TrimSpace_def door_context_def door_user_def UserFromContext_def)

lemma door_finds: "mh_FindContainer (ww_find door_world) ''h'' ''a'' (Some [''team'' \<mapsto> [''x'']]) = Inr sample_container"
proof -
  have "key_by_ID [sample_container] ''a'' = Some sample_container" by (simp add: key_by_ID_def sample_container_def)
  moreover have "labels_Exists (Some [''team'' \<mapsto> [''x'']])" by (simp add: labels_Exists_def label_map_def)
  ultimately have "store_FindContainer home_engine (\<lambda>_. False) ''a'' (Some [''team'' \<mapsto> [''x'']]) home_store = (Inr sample_container, home_store)"
    by (simp add: store_FindContainer_def home_engine_def home_store_eq) (simp add: sample_container_def)
  then show ?thesis by (simp add: mh_FindContainer_def door_world_def door_client_def store_find_def)
qed

lemma door_serves: "serve door_config door_world door_request (ExecRoute ''h'' ''a'') = Inr (101, [Executed sample_container])"
proof -
  have "permit door_config Role_Shell door_context = Inr (Some [''team'' \<mapsto> [''x'']], True)"
    by (simp add: permit_def door_config_def request_user_def door_enters in_force_def)
      (simp add: door_user_def newUser_def labels_Exists_def label_map_def)
  then have "handle_route door_config door_world door_context (ExecRoute ''h'' ''a'') = Inr (101, [Executed sample_container])"
    using door_finds by (simp add: handle_route_def exec_def open_shell_def) (simp add: door_config_def door_world_def)
  then show ?thesis by (simp add: serve_def door_enters RequireAuthentication_def)
qed

lemma door_store_client: "store_client door_client home_engine"
  unfolding store_client_def door_client_def using home_truthful home_reached by auto

theorem deeds_need_role_witness: "wc_EnableShell door_config"
  using deeds_need_role [OF door_serves, of "Executed sample_container"] by simp

theorem deeds_stay_in_filter_witness:
  "\<exists>h a eng. ww_find door_world h = Some a \<and> store_client a eng \<and> c_ID sample_container \<in> listed_ids eng (Some [''team'' \<mapsto> [''x'']])"
proof -
  note door_store_client
  moreover have "labels_Exists (u_ContainerLabels door_user)" "u_ContainerLabels door_user = Some [''team'' \<mapsto> [''x'']]"
    by (simp_all add: door_user_def newUser_def labels_Exists_def label_map_def)
  ultimately show ?thesis
    using deeds_stay_in_filter [OF door_serves, of "Executed sample_container" door_context door_user] door_enters
    by (auto simp: door_world_def door_config_def)
qed

end
