(* ===== verification/WebLogs.thy ===== *)
theory WebLogs
  imports WebAccess LogStoreReads RingBuf "HOL-Library.List_Lexorder" "HOL-Library.Char_ord"
begin

text \<open>
  Serving log lines: \<open>internal/web/logs.go\<close>, with the request for a range of time (\<open>fetchLogsBetweenDates\<close>), its paths through the
  log cache and to the engine, the background jobs that fill gaps of the cache, and the walk backwards that looks for
  matching lines when a filtered stream starts.

  The cache is seen through \<open>store_view\<close>, which \<open>view_of\<close> builds from the operations of the log store; \<open>sv_offered\<close> are the
  events a search hands to its matcher, newest first, for the matcher that keeps a cursor.  Answers of the engine are
  functions of the round and the range.  A deadline is a function of the round as well.  Times are exact, durations have 64
  bits: doubling one wraps around.
\<close>

subsection \<open>Queries\<close>

record log_query =
  lq_plainText :: bool
  lq_from :: gotime
  lq_to :: gotime
  lq_stdout :: bool
  lq_stderr :: bool
  lq_filter :: "string option"
  lq_inverse :: bool
  lq_jsonOnly :: bool
  lq_everything :: bool
  lq_min :: "string option"
  lq_maxStart :: "string option"
  lq_levels :: "string list"
  lq_lastSeenId :: "string option"
  lq_startId :: "string option"
  lq_cachedSearch :: bool
  lq_limit :: "string option"

record log_world =
  lw_show :: "real \<Rightarrow> string"
  lw_url :: regexp
  lw_compile :: "string \<Rightarrow> regexp option"
  lw_strip :: "string \<Rightarrow> string"
  lw_loc :: location
  lw_now :: gotime

text \<open>The parameters after parsing; \<open>None\<close> for \<open>lp_maxStart\<close> is \<open>math.MaxInt\<close>.\<close>

record log_params =
  lp_plainText :: bool
  lp_from :: gotime
  lp_to :: gotime
  lp_delta :: duration
  lp_regex :: "regexp option"
  lp_inverse :: bool
  lp_onlyComplex :: bool
  lp_everything :: bool
  lp_minimum :: int
  lp_size :: int
  lp_maxStart :: "int option"
  lp_levels :: "string list"
  lp_lastSeenId :: "32 word"
  lp_startId :: "32 word"
  lp_stdout :: bool
  lp_stderr :: bool

text \<open>\<open>strconv.ParseUint(s, 10, 32)\<close>.\<close>

definition ParseUint32 :: "string \<Rightarrow> 32 word option" where
  "ParseUint32 s =
     (if s \<noteq> [] \<and> list_all (\<lambda>c. digit_val c \<noteq> None) s
      then (let n = fst (scan_digits 0 s) in if n < 2 ^ 32 then Some (word_of_int n) else None)
      else None)"

definition optional :: "('a \<Rightarrow> 'b option) \<Rightarrow> 'b \<Rightarrow> 'a option \<Rightarrow> 'b option" where
  "optional f d x = (case x of None \<Rightarrow> Some d | Some s \<Rightarrow> f s)"

definition parse_min :: "string \<Rightarrow> int option" where
  "parse_min s = (case Atoi s of None \<Rightarrow> None | Some n \<Rightarrow> if n < 0 \<or> 500 < n then None else Some n)"

definition parse_max :: "int \<Rightarrow> string \<Rightarrow> int option" where
  "parse_max cap s = (case Atoi s of None \<Rightarrow> None | Some n \<Rightarrow> if n < 1 \<or> cap < n then None else Some n)"

text \<open>An inverted range is turned round; \<open>to.Sub(from)\<close> saturates.\<close>

definition query_range :: "log_query \<Rightarrow> gotime \<times> gotime" where
  "query_range q =
     (if \<not> IsZero (lq_from q) \<and> \<not> IsZero (lq_to q) \<and> lq_to q < lq_from q then (lq_to q, lq_from q) else (lq_from q, lq_to q))"

definition time_Sub :: "gotime \<Rightarrow> gotime \<Rightarrow> duration" where
  "time_Sub a b = max (- (2 ^ 63)) (min (2 ^ 63 - 1) (a - b))"

definition parse_log_query :: "log_world \<Rightarrow> log_query \<Rightarrow> log_params option" where
  "parse_log_query w q =
     (let (from0, to0) = query_range q;
          (from1, to1) = (if lq_everything q then (zero_time, lw_now w) else (from0, to0));
          cap = (case lq_min q of None \<Rightarrow> Some 500 | Some s \<Rightarrow> parse_min s)
      in case (optional (\<lambda>f. map_option Some (ParseRegex (lw_compile w) f)) None (lq_filter q), cap) of
           (Some re, Some n) \<Rightarrow>
             (case (optional (\<lambda>s. map_option Some (parse_max n s)) None (lq_maxStart q), optional ParseUint32 0 (lq_lastSeenId q),
                    optional ParseUint32 0 (lq_startId q)) of
                (Some mx, Some lastId, Some startId) \<Rightarrow>
                  Some \<lparr>lp_plainText = lq_plainText q,
                        lp_from = (if lq_startId q \<noteq> None then from1 - 50 * 1000000 else from1),
                        lp_to = (if lq_lastSeenId q \<noteq> None then to1 + 50 * 1000000 else to1),
                        lp_delta = max (time_Sub to0 from0) (3 * Second), lp_regex = re, lp_inverse = lq_inverse q,
                        lp_onlyComplex = lq_jsonOnly q, lp_everything = lq_everything q,
                        lp_minimum = (if lq_min q = None then 0 else n), lp_size = n, lp_maxStart = mx,
                        lp_levels = lq_levels q, lp_lastSeenId = lastId, lp_startId = startId,
                        lp_stdout = lq_stdout q, lp_stderr = lq_stderr q\<rparr>
              | _ \<Rightarrow> None)
         | _ \<Rightarrow> None)"

subsection \<open>Filters\<close>

text \<open>A search marks its hits in the event, whether or not the event is kept.\<close>

definition matchesFilter :: "log_world \<Rightarrow> log_params \<Rightarrow> log_event \<Rightarrow> log_event \<times> bool" where
  "matchesFilter w p e =
     (let level = lp_levels p = [] \<or> le_Level e \<in> set (lp_levels p)
      in case lp_regex p of
           None \<Rightarrow> (e, level)
         | Some re \<Rightarrow> (let (e', hit) = Search (lw_show w) re e in (e', lp_inverse p \<noteq> hit \<and> level)))"

definition matchesStdType :: "log_params \<Rightarrow> log_event \<Rightarrow> bool" where
  "matchesStdType p e =
     (if le_Stream e = ''stdout'' then lp_stdout p else if le_Stream e = ''stderr'' then lp_stderr p else True)"

definition escape_event :: "log_world \<Rightarrow> log_event \<Rightarrow> log_event" where
  "escape_event w e = EscapeHTMLValues (lw_show w) (lw_url w) e"

subsection \<open>Answers\<close>

record cache_gap =
  cg_ContainerID :: string
  cg_From :: gotime
  cg_To :: gotime
  cg_Next :: "(gotime \<times> gotime) option"

definition newCacheGapEvent :: "string \<Rightarrow> gotime \<Rightarrow> gotime \<Rightarrow> cache_gap" where
  "newCacheGapEvent i from to = \<lparr>cg_ContainerID = i, cg_From = from, cg_To = to, cg_Next = None\<rparr>"

definition newCacheGapEventWithNext :: "string \<Rightarrow> gotime \<Rightarrow> gotime \<Rightarrow> gotime \<Rightarrow> gotime \<Rightarrow> cache_gap" where
  "newCacheGapEventWithNext i from to nextFrom nextTo =
     (newCacheGapEvent i from to)\<lparr>cg_Next := (if \<not> IsZero nextFrom \<and> \<not> IsZero nextTo then Some (nextFrom, nextTo) else None)\<rparr>"

datatype log_line = Line log_event | PlainLine string | GapLine cache_gap

record log_answer =
  la_status :: int
  la_hasMore :: bool
  la_lines :: "log_line list"
  la_jobs :: "(gotime \<times> gotime) list"

definition answer :: "int \<Rightarrow> log_answer" where
  "answer status = \<lparr>la_status = status, la_hasMore = False, la_lines = [], la_jobs = []\<rparr>"

subsection \<open>Gaps of the cache\<close>

text \<open>A job is started only for a proper range of a container that exists, and not twice at the same time.\<close>

type_synonym gap_key = "string \<times> string \<times> gotime \<times> gotime \<times> bool \<times> bool"

definition scheduleCacheGapFill ::
    "container option \<Rightarrow> gotime \<Rightarrow> gotime \<Rightarrow> log_params \<Rightarrow> gap_key set \<Rightarrow> gap_key option \<times> gap_key set" where
  "scheduleCacheGapFill svc from to p jobs =
     (case svc of
        None \<Rightarrow> (None, jobs)
      | Some c \<Rightarrow>
          (if IsZero from \<or> IsZero to \<or> \<not> from < to then (None, jobs)
           else let key = (c_Host c, c_ID c, from, to, lp_stdout p, lp_stderr p)
                in if key \<in> jobs then (None, jobs) else (Some key, insert key jobs)))"

text \<open>What a job does to the store; it ends by giving its key back.\<close>

definition gap_fill ::
    "store_lib \<Rightarrow> store_faults \<Rightarrow> gotime \<Rightarrow> container \<Rightarrow> log_event list option \<Rightarrow> gap_key
       \<Rightarrow> log_store \<times> gap_key set \<Rightarrow> log_store \<times> gap_key set" where
  "gap_fill lib flt now c events key st =
     (let s = snd (RecordContainer lib flt now c (fst st))
      in (case events of
            None \<Rightarrow> s
          | Some es \<Rightarrow> fold (\<lambda>e s. snd (AppendForContainer lib flt c e s)) es s,
          snd st - {key}))"

subsection \<open>The cache as the handler sees it\<close>

record store_view =
  sv_HasLogs :: bool
  sv_Search :: "gotime \<Rightarrow> int \<Rightarrow> (log_event \<Rightarrow> bool) \<Rightarrow> store_error + log_event list \<times> bool"
  sv_offered :: "gotime \<Rightarrow> store_error + log_event list"
  sv_Between :: "gotime \<Rightarrow> gotime \<Rightarrow> store_error + log_event list"
  sv_Previous :: "gotime \<Rightarrow> store_error + (gotime \<times> gotime) option"

text \<open>More results than there can be: no file has more lines than bytes and one.\<close>

definition enough :: "store_lib \<Rightarrow> store_faults \<Rightarrow> gotime \<Rightarrow> chunk_key list \<Rightarrow> string \<Rightarrow> string \<Rightarrow> string \<Rightarrow> gotime \<Rightarrow> log_store \<Rightarrow> int" where
  "enough lib flt now ks h i ident before s0 =
     (case openDB lib flt (syncForRead lib flt now s0) of
        Inl _ \<Rightarrow> 1
      | Inr s \<Rightarrow> 1 + sum_list (map (\<lambda>p. case sto_disk s p of None \<Rightarrow> 0 | Some text \<Rightarrow> int (length text) + 1)
                  (search_files ks h i ident (if IsZero before then now else before) s)))"

definition offered ::
    "store_lib \<Rightarrow> store_faults \<Rightarrow> gotime \<Rightarrow> chunk_key list \<Rightarrow> string \<Rightarrow> string \<Rightarrow> string \<Rightarrow> gotime \<Rightarrow> log_store \<Rightarrow> store_error + log_event list" where
  "offered lib flt now ks h i ident before s0 =
     (case searchBefore lib flt now ks h i ident before (enough lib flt now ks h i ident before s0) None s0 of
        Inl e \<Rightarrow> Inl e | Inr r \<Rightarrow> Inr (fst r))"

definition view_of ::
    "store_lib \<Rightarrow> store_faults \<Rightarrow> gotime \<Rightarrow> chunk_key list \<Rightarrow> string \<Rightarrow> string \<Rightarrow> container option \<Rightarrow> log_store \<Rightarrow> store_view" where
  "view_of lib flt now ks h i svc s =
     (case svc of
        Some c \<Rightarrow>
          \<lparr>sv_HasLogs = HasLogs lib flt now ks h i s,
           sv_Search = (\<lambda>before limit f. SearchBeforeForContainer lib flt now ks c before limit (Some f) s),
           sv_offered = (\<lambda>before. offered lib flt now ks (c_Host c) (c_ID c) (LogIdentity c) before s),
           sv_Between = (\<lambda>from to. LogsBetweenDatesForContainer lib flt now ks c from to s),
           sv_Previous = (\<lambda>before. PreviousChunkRangeForContainer lib flt now ks c before s)\<rparr>
      | None \<Rightarrow>
          \<lparr>sv_HasLogs = HasLogs lib flt now ks h i s,
           sv_Search = (\<lambda>before limit f. SearchBefore lib flt now ks h i before limit (Some f) s),
           sv_offered = (\<lambda>before. offered lib flt now ks h i [] before s),
           sv_Between = (\<lambda>from to. store_LogsBetweenDates lib flt now ks h i from to s),
           sv_Previous = (\<lambda>before. PreviousChunkRange lib flt now ks h i before s)\<rparr>)"

subsection \<open>Searching the cache and the last two days\<close>

definition cachedSearchDirectWindow :: duration where "cachedSearchDirectWindow = 48 * Hour"

definition search_key :: "log_event \<Rightarrow> string" where
  "search_key e = le_ContainerID e @ '':'' @ show_int (le_Timestamp e) @ '':'' @ show_int (uint (le_Id e)) @ '':'' @ le_RawMessage e"

text \<open>The first event of each key.\<close>

fun first_of_key :: "string set \<Rightarrow> log_event list \<Rightarrow> log_event list" where
  "first_of_key seen [] = []"
| "first_of_key seen (e # es) =
     (if search_key e \<in> seen then first_of_key seen es else e # first_of_key (insert (search_key e) seen) es)"

text \<open>Newest first, then the larger identifier, then by text.\<close>

definition newest_first :: "log_event list \<Rightarrow> log_event list" where
  "newest_first es = sort_key (\<lambda>e. - le_Timestamp e) (sort_key (\<lambda>e. - uint (le_Id e)) (sort_key le_RawMessage es))"

definition mergeCachedSearchWithDirect ::
    "(container \<Rightarrow> gotime \<Rightarrow> gotime \<Rightarrow> log_event list option) \<Rightarrow> container option \<Rightarrow> gotime \<Rightarrow> int \<Rightarrow> (log_event \<Rightarrow> log_event \<times> bool)
       \<Rightarrow> log_event list \<Rightarrow> bool \<Rightarrow> log_event list \<times> bool" where
  "mergeCachedSearchWithDirect fetch svc before limit match cached cachedHasMore =
     (case svc of
        None \<Rightarrow> (cached, cachedHasMore)
      | Some c \<Rightarrow>
          (let from0 = before - cachedSearchDirectWindow;
               from = (if \<not> IsZero (c_Created c) \<and> from0 < c_Created c then c_Created c else from0)
           in if \<not> from < before then (cached, cachedHasMore)
              else case fetch c from before of
                     None \<Rightarrow> (cached, cachedHasMore)
                   | Some direct \<Rightarrow>
                       (let candidates = cached @ map fst (filter snd (map match direct));
                            merged = newest_first (first_of_key {} candidates)
                        in if candidates = [] then (cached, cachedHasMore)
                           else (take (nat limit) merged, cachedHasMore \<or> int (length merged) > limit))))"

definition cached_search ::
    "log_world \<Rightarrow> log_params \<Rightarrow> string option \<Rightarrow> (container \<Rightarrow> gotime \<Rightarrow> gotime \<Rightarrow> log_event list option) \<Rightarrow> store_view option
       \<Rightarrow> container option \<Rightarrow> log_answer" where
  "cached_search w p limit0 fetch view svc =
     (case view of
        None \<Rightarrow> answer 404
      | Some v \<Rightarrow>
          (case optional (\<lambda>s. case Atoi s of None \<Rightarrow> None | Some n \<Rightarrow> if n < 1 \<or> 500 < n then None else Some n) 200 limit0 of
             None \<Rightarrow> answer 400
           | Some limit \<Rightarrow>
               (let before = (if IsZero (lp_to p) then lw_now w else lp_to p);
                    match = (\<lambda>e. let (e', ok) = matchesFilter w p e in (e', matchesStdType p e \<and> ok))
                in case sv_Search v before limit (\<lambda>e. snd (match e)) of
                     Inl _ \<Rightarrow> answer 500
                   | Inr (hits, cachedMore) \<Rightarrow>
                       (let (events, hasMore) = mergeCachedSearchWithDirect fetch svc before limit match (map (\<lambda>e. fst (match e)) hits) cachedMore
                        in (answer 200)\<lparr>la_hasMore := hasMore, la_lines := map (\<lambda>e. Line (escape_event w e)) (rev events)\<rparr>))))"

subsection \<open>Scrolling back through the cache\<close>

text \<open>The matcher lets nothing pass until it has seen the cursor.\<close>

definition after_cursor :: "32 word \<Rightarrow> log_event list \<Rightarrow> log_event list" where
  "after_cursor lastSeenId es = (if lastSeenId = 0 then es else tl (dropWhile (\<lambda>e. le_Id e \<noteq> lastSeenId) es))"

definition gap_with_next :: "store_view \<Rightarrow> container \<Rightarrow> gotime \<Rightarrow> gotime \<Rightarrow> cache_gap" where
  "gap_with_next v c from to =
     (case sv_Previous v from of
        Inr (Some (nextFrom, nextTo)) \<Rightarrow> newCacheGapEventWithNext (c_ID c) nextTo to nextFrom nextTo
      | _ \<Rightarrow> newCacheGapEvent (c_ID c) from to)"

definition scroll_back :: "log_world \<Rightarrow> log_params \<Rightarrow> store_view \<Rightarrow> container option \<Rightarrow> log_answer" where
  "scroll_back w p v svc =
     (case sv_offered v (lp_to p) of
        Inl _ \<Rightarrow> answer 500
      | Inr offers \<Rightarrow>
          (let hits = map fst (filter snd (map (matchesFilter w p) (after_cursor (lp_lastSeenId p) offers)));
               events = take (nat (lp_minimum p)) hits; hasMore = nat (lp_minimum p) < length hits;
               lines = map (\<lambda>e. Line (escape_event w e)) (rev events)
           in if events = [] then
                (if offers \<noteq> [] then answer 200
                 else (answer 200)\<lparr>la_jobs := [(lp_from p, lp_to p)],
                   la_lines := (case svc of
                      Some c \<Rightarrow> (if \<not> lp_plainText p \<and> \<not> IsZero (lp_from p) \<and> lp_from p < lp_to p
                                 then [GapLine (gap_with_next v c (lp_from p) (lp_to p))] else [])
                    | None \<Rightarrow> [])\<rparr>)
              else case svc of
                     None \<Rightarrow> (answer 200)\<lparr>la_lines := lines\<rparr>
                   | Some c \<Rightarrow>
                       (let oldest = time_UnixMilli (le_Timestamp (last events))
                        in if \<not> hasMore \<and> lp_regex p = None \<and> lp_levels p = [] \<and> \<not> lp_plainText p \<and> \<not> IsZero (lp_from p)
                                \<and> lp_from p < oldest
                           then (answer 200)\<lparr>la_jobs := [(lp_from p, oldest)],
                                  la_lines := GapLine (newCacheGapEvent (c_ID c) (lp_from p) oldest) # lines\<rparr>
                           else (answer 200)\<lparr>la_lines := lines\<rparr>)))"

subsection \<open>Collecting a range\<close>

text \<open>The loop over the events of a range, with the cursors and the ring buffer; \<open>started\<close> tells whether the first identifier was seen.\<close>

fun collect ::
    "log_world \<Rightarrow> log_params \<Rightarrow> log_event list \<Rightarrow> bool \<Rightarrow> log_event ring_buffer \<Rightarrow> go_panic + bool \<times> log_event ring_buffer" where
  "collect w p [] started b = Inr (started, b)"
| "collect w p (e # es) started b =
     (let (e', ok) = matchesFilter w p e
      in if \<not> ok then collect w p es started b
         else if \<not> started then collect w p es (le_Id e' = lp_startId p) b
         else if lp_lastSeenId p \<noteq> 0 \<and> le_Id e' = lp_lastSeenId p then Inr (started, b)
         else if (case lp_maxStart p of None \<Rightarrow> False | Some mx \<Rightarrow> int (Len b) \<ge> mx) then Inr (started, b)
         else case Push b (escape_event w e') of
                Inl err \<Rightarrow> Inl err
              | Inr b' \<Rightarrow> collect w p es started b')"

text \<open>With \<open>everything\<close>, lines are written as they come; \<open>render\<close> gives one as text.\<close>

definition write_all :: "log_world \<Rightarrow> log_params \<Rightarrow> (log_event \<Rightarrow> string) \<Rightarrow> log_event list \<Rightarrow> log_line list" where
  "write_all w p render es =
     map (\<lambda>e. if lp_plainText p then PlainLine (render e) else Line e)
       (map fst (filter snd (map (matchesFilter w p)
          (filter (\<lambda>e. \<not> (lp_onlyComplex p \<and> (\<exists>s. le_Message e = MString s))) es))))"

definition buffer_lines :: "log_event ring_buffer \<Rightarrow> go_panic + log_line list" where
  "buffer_lines b = (case Data b of Inl e \<Rightarrow> Inl e | Inr es \<Rightarrow> Inr (map Line es))"

definition store_range :: "log_world \<Rightarrow> log_params \<Rightarrow> store_view \<Rightarrow> container option \<Rightarrow> go_panic + log_answer" where
  "store_range w p v svc =
     (case sv_Between v (if lp_everything p then AddDays (lw_loc w) (lw_now w) (- 4) else lp_from p) (lp_to p) of
        Inl _ \<Rightarrow> Inr (answer 404)
      | Inr [] \<Rightarrow>
          Inr ((answer 200)\<lparr>la_jobs := [(lp_from p, lp_to p)],
            la_lines := (case svc of
               Some c \<Rightarrow> (if \<not> lp_plainText p \<and> \<not> IsZero (lp_from p) \<and> \<not> IsZero (lp_to p) \<and> lp_from p < lp_to p
                          then [GapLine (gap_with_next v c (lp_from p) (lp_to p))] else [])
             | None \<Rightarrow> [])\<rparr>)
      | Inr (first # rest) \<Rightarrow>
          (if lp_everything p then Inr ((answer 200)\<lparr>la_lines := write_all w p le_RawMessage (first # rest)\<rparr>)
           else let firstTime = time_UnixMilli (le_Timestamp first);
                    gap = (case svc of
                       Some c \<Rightarrow> (if \<not> lp_plainText p \<and> \<not> IsZero (lp_from p) \<and> \<not> IsZero (lp_to p) \<and> lp_from p < lp_to p
                                    \<and> lp_from p < firstTime then Some (newCacheGapEvent (c_ID c) (lp_from p) firstTime) else None)
                     | None \<Rightarrow> None)
                in case NewRingBuffer (lp_size p) of
                     Inl e \<Rightarrow> Inl e
                   | Inr b0 \<Rightarrow>
                       (case collect w p (first # rest) (lp_startId p = 0) b0 of
                          Inl e \<Rightarrow> Inl e
                        | Inr (_, b) \<Rightarrow>
                            (case buffer_lines b of
                               Inl e \<Rightarrow> Inl e
                             | Inr lines \<Rightarrow>
                                 Inr ((answer 200)\<lparr>la_jobs := (case gap of None \<Rightarrow> [] | Some g \<Rightarrow> [(cg_From g, cg_To g)]),
                                        la_lines := (case gap of None \<Rightarrow> [] | Some g \<Rightarrow> [GapLine g]) @ lines\<rparr>)))))"

subsection \<open>Asking the engine\<close>

text \<open>
  Without a cache the range is widened backwards, twice as far each time, until there are enough lines.  \<open>late n\<close> tells
  whether the deadline has passed when round \<open>n\<close> begins, \<open>late_after n\<close> whether it has after a failed fetch.  The first argument
  is fuel; running out of it is \<open>None\<close>.
\<close>

record engine_answer =
  ea_late :: "nat \<Rightarrow> bool"
  ea_late_after :: "nat \<Rightarrow> bool"
  ea_fetch :: "nat \<Rightarrow> gotime \<Rightarrow> gotime \<Rightarrow> log_event list option"

definition send_buffer :: "log_line list \<Rightarrow> log_event ring_buffer \<Rightarrow> go_panic + log_answer" where
  "send_buffer written b =
     (case buffer_lines b of Inl e \<Rightarrow> Inl e | Inr lines \<Rightarrow> Inr ((answer 200)\<lparr>la_lines := written @ lines\<rparr>))"

fun fetch_loop ::
    "nat \<Rightarrow> log_world \<Rightarrow> log_params \<Rightarrow> engine_answer \<Rightarrow> gotime \<Rightarrow> nat \<Rightarrow> gotime \<Rightarrow> duration \<Rightarrow> bool \<Rightarrow> log_event ring_buffer
       \<Rightarrow> (go_panic + log_answer) option" where
  "fetch_loop 0 w p ea created n from delta started b = None"
| "fetch_loop (Suc fuel) w p ea created n from delta started b =
     (if 0 < lp_minimum p \<and> lp_minimum p \<le> int (Len b) then Some (send_buffer [] b)
      else if ea_late ea n then Some (send_buffer [] b)
      else case ea_fetch ea n from (lp_to p) of
             None \<Rightarrow> Some (if ea_late_after ea n then send_buffer [] (Clear b) else Inr (answer 500))
           | Some events \<Rightarrow>
               (if lp_everything p then Some (send_buffer (write_all w p (PlainText (lw_strip w)) events) (Clear b))
                else case collect w p events started (Clear b) of
                       Inl err \<Rightarrow> Some (Inl err)
                     | Inr (started', b') \<Rightarrow>
                         (if from < created \<or> lp_minimum p = 0 then Some (send_buffer [] b')
                          else fetch_loop fuel w p ea created (Suc n) (from - delta) (wrap64 (delta * 2)) started' b')))"

definition rounds :: nat where "rounds = 34"

definition fetch_direct :: "log_world \<Rightarrow> log_params \<Rightarrow> engine_answer \<Rightarrow> container \<Rightarrow> (go_panic + log_answer) option" where
  "fetch_direct w p ea c =
     (case NewRingBuffer (lp_size p) of
        Inl e \<Rightarrow> Some (Inl e)
      | Inr b \<Rightarrow> fetch_loop rounds w p ea (c_Created c) 0 (lp_from p) (lp_delta p) (lp_startId p = 0) b)"

subsection \<open>The handler\<close>

text \<open>\<open>found\<close> is what \<open>FindContainer\<close> gives for the labels of the request, \<open>view\<close> the cache, if there is one.\<close>

definition fetchLogsBetweenDates ::
    "log_world \<Rightarrow> (container option \<Rightarrow> store_view) option \<Rightarrow> (container \<Rightarrow> gotime \<Rightarrow> gotime \<Rightarrow> log_event list option) \<Rightarrow> engine_answer
       \<Rightarrow> host_error + container \<Rightarrow> log_query \<Rightarrow> (go_panic + log_answer) option" where
  "fetchLogsBetweenDates w store fetch ea found q =
     (if \<not> lq_stdout q \<and> \<not> lq_stderr q then Some (Inr (answer 400))
      else let svc = (case found of Inl _ \<Rightarrow> None | Inr c \<Rightarrow> Some c);
               view = map_option (\<lambda>f. f svc) store;
               usingStore = (case view of None \<Rightarrow> False | Some v \<Rightarrow> svc \<noteq> None \<or> sv_HasLogs v)
           in if svc = None \<and> \<not> usingStore then Some (Inr (answer 404))
              else case parse_log_query w q of
                     None \<Rightarrow> Some (Inr (answer 400))
                   | Some p \<Rightarrow>
                       (if lq_cachedSearch q then Some (Inr (cached_search w p (lq_limit q) fetch view svc))
                        else if usingStore then
                          (if \<not> lp_everything p \<and> 0 < lp_minimum p \<and> lp_maxStart p = None \<and> lp_startId p = 0 \<and> \<not> IsZero (lp_to p)
                           then Some (Inr (scroll_back w p (the view) svc))
                           else Some (store_range w p (the view) svc))
                        else fetch_direct w p ea (the svc)))"

text \<open>The whole request: the labels come from the user.\<close>

definition serve_logs ::
    "web_config \<Rightarrow> request_context \<Rightarrow> finder \<Rightarrow> log_world \<Rightarrow> (container option \<Rightarrow> store_view) option
       \<Rightarrow> (container \<Rightarrow> gotime \<Rightarrow> gotime \<Rightarrow> log_event list option) \<Rightarrow> engine_answer \<Rightarrow> string \<Rightarrow> string \<Rightarrow> log_query
       \<Rightarrow> (go_panic + log_answer) option" where
  "serve_logs cfg ctx fc w store fetch ea h i q =
     (case resolveLabels cfg ctx of
        Inl e \<Rightarrow> (if \<not> lq_stdout q \<and> \<not> lq_stderr q then Some (Inr (answer 400)) else Some (Inl e))
      | Inr labels \<Rightarrow> fetchLogsBetweenDates w store fetch ea (mh_FindContainer fc h i labels) q)"

subsection \<open>Looking back for matches when a filtered stream starts\<close>

text \<open>
  A filtered stream first looks for older matches, in windows that double, until it has fifty or no container is old enough.
  Each round asks every container; \<open>wc_missing n\<close> tells whether it is gone when round \<open>n\<close> asks.  The client stays connected.
\<close>

record walk_container =
  wk_missing :: "nat \<Rightarrow> bool"
  wk_created :: gotime
  wk_fetch :: "nat \<Rightarrow> gotime \<Rightarrow> gotime \<Rightarrow> log_event list option"

datatype walk_reason = Exhausted | Capped

record search_status =
  sw_ScannedTo :: gotime
  sw_Matches :: nat
  sw_Done :: "walk_reason option"

text \<open>\<open>None\<close> is an error, after which the walk returns; the flag tells whether a container was old enough to be asked.\<close>

fun walk_round ::
    "log_world \<Rightarrow> log_params \<Rightarrow> nat \<Rightarrow> gotime \<Rightarrow> duration \<Rightarrow> walk_container list \<Rightarrow> log_event list \<Rightarrow> bool
       \<Rightarrow> (log_event list \<times> bool) option" where
  "walk_round w p n to delta [] events running = Some (events, running)"
| "walk_round w p n to delta (c # cs) events running =
     (if wk_missing c n then None
      else if to < wk_created c then walk_round w p n to delta cs events running
      else case wk_fetch c n (to + delta) to of
             None \<Rightarrow> None
           | Some logs \<Rightarrow>
               walk_round w p n to delta cs (events @ map fst (filter snd (map (matchesFilter w p) logs))) True)"

fun walk_loop ::
    "nat \<Rightarrow> log_world \<Rightarrow> log_params \<Rightarrow> walk_container list \<Rightarrow> nat \<Rightarrow> int \<Rightarrow> nat \<Rightarrow> gotime \<Rightarrow> duration
       \<Rightarrow> (search_status list \<times> log_event list list) option" where
  "walk_loop 0 w p cs n minimum found to delta = None"
| "walk_loop (Suc fuel) w p cs n minimum found to delta =
     (if \<not> 0 < minimum then Some ([\<lparr>sw_ScannedTo = to, sw_Matches = found, sw_Done = Some Capped\<rparr>], [])
      else case walk_round w p n to delta cs [] False of
             None \<Rightarrow> Some ([\<lparr>sw_ScannedTo = to, sw_Matches = found, sw_Done = Some Exhausted\<rparr>], [])
           | Some (events, running) \<Rightarrow>
               (if \<not> running then Some ([\<lparr>sw_ScannedTo = to, sw_Matches = found, sw_Done = Some Exhausted\<rparr>], [])
                else let found' = found + length events; to' = to + delta
                     in case walk_loop fuel w p cs (Suc n) (minimum - int (length events)) found' to' (wrap64 (delta * 2)) of
                          None \<Rightarrow> None
                        | Some (statuses, batches) \<Rightarrow>
                            Some (\<lparr>sw_ScannedTo = to', sw_Matches = found', sw_Done = None\<rparr> # statuses,
                                  if events = [] then batches else sort_key le_Timestamp events # batches)))"

definition backfill_walk ::
    "log_world \<Rightarrow> log_params \<Rightarrow> walk_container list \<Rightarrow> gotime \<Rightarrow> (search_status list \<times> log_event list list) option" where
  "backfill_walk w p cs absoluteTime = walk_loop rounds w p cs 0 50 0 absoluteTime (- 10 * Second)"

subsection \<open>Both loops end by themselves\<close>

text \<open>A duration of 64 bits suffices to go back to the creation of a container.\<close>

definition reachable :: "gotime \<Rightarrow> gotime \<Rightarrow> duration \<Rightarrow> bool" where
  "reachable created t delta \<longleftrightarrow> t < created \<or> (0 < delta \<and> t - created + delta < 2 ^ 63)"

lemma reachable_step:
  assumes "reachable created t delta" and "\<not> t < created"
  shows "reachable created (t - delta) (wrap64 (delta * 2)) \<and> (t - delta < created \<or> wrap64 (delta * 2) = delta * 2)"
proof (cases "t - delta < created")
  case False
  then have "delta * 2 < 2 ^ 63" "0 < delta * 2" using assms by (auto simp: reachable_def)
  then have "wrap64 (delta * 2) = delta * 2" by (intro wrap64_id) (auto simp: in_int64_def)
  then show ?thesis using assms False by (auto simp: reachable_def)
qed (simp add: reachable_def)

lemma progress:
  assumes "t - created < delta * (2 ^ Suc k - 1)" and "\<not> t - delta < created" and "d' = delta * 2"
  shows "(t - delta) - created < d' * (2 ^ k - (1::int))"
  using assms by (simp add: algebra_simps)

lemma fetch_loop_ends:
  assumes "reachable created from delta" and "from - created < delta * (2 ^ fuel - 1) \<or> from < created"
  shows "\<exists>r. fetch_loop (Suc fuel) w p ea created n from delta started b = Some r"
  using assms
proof (induction fuel arbitrary: n "from" delta started b)
  case 0
  then show ?case by (auto split: option.splits sum.splits prod.splits)
next
  case (Suc fuel)
  show ?case
  proof (cases "from < created")
    case True
    then show ?thesis by (auto split: option.splits sum.splits prod.splits)
  next
    case False
    note st = reachable_step [OF Suc.prems(1) False]
    have "from - delta - created < wrap64 (delta * 2) * (2 ^ fuel - 1) \<or> from - delta < created"
      using progress [of "from" created delta fuel "wrap64 (delta * 2)"] st Suc.prems(2) False by auto
    then have "\<exists>r. fetch_loop (Suc fuel) w p ea created (Suc n) (from - delta) (wrap64 (delta * 2)) started' b' = Some r" for started' b'
      using Suc.IH st by blast
    then show ?thesis by (subst fetch_loop.simps) (auto simp del: fetch_loop.simps split: option.splits sum.splits prod.splits)
  qed
qed

lemma parsed_range:
  assumes "parse_log_query w q = Some p" and "\<not> lq_everything q"
  shows "lp_from p \<le> fst (query_range q)" and "lp_delta p = max (time_Sub (snd (query_range q)) (fst (query_range q))) (3 * Second)"
    and "\<not> lp_everything p"
  using assms by (auto simp: parse_log_query_def Let_def split: prod.splits option.splits if_splits)

lemma fetch_loop_everything: "lp_everything p \<Longrightarrow> \<exists>r. fetch_loop (Suc n) w p ea created m from delta started b = Some r"
  by (auto split: option.splits)

lemma fetch_direct_ends:
  assumes "parse_log_query w q = Some p"
    and "fst (query_range q) < c_Created c
      \<or> fst (query_range q) - c_Created c + max (time_Sub (snd (query_range q)) (fst (query_range q))) (3 * Second) < 2 ^ 63"
  shows "\<exists>r. fetch_direct w p ea c = Some r"
proof (cases "lp_everything p")
  case True
  have r: "rounds = Suc 33" by (simp add: rounds_def)
  show ?thesis
  proof (cases "NewRingBuffer (lp_size p) :: go_panic + log_event ring_buffer")
    case (Inr b)
    then show ?thesis using fetch_loop_everything [OF True, of 33 w ea "c_Created c" 0 "lp_from p" "lp_delta p" "lp_startId p = 0" b]
      unfolding fetch_direct_def r by (simp del: fetch_loop.simps)
  qed (simp add: fetch_direct_def)
next
  case False
  then have n: "\<not> lq_everything q" using assms(1) by (auto simp: parse_log_query_def Let_def split: prod.splits option.splits)
  note pr = parsed_range [OF assms(1) n]
  have d: "3 * Second \<le> lp_delta p" using pr(2) by simp
  then have d0: "0 < lp_delta p" by (simp add: Second_def)
  have re: "reachable (c_Created c) (lp_from p) (lp_delta p)"
    using assms(2) pr(1,2) d0 by (auto simp: reachable_def)
  have "lp_from p - c_Created c < lp_delta p * (2 ^ 33 - 1) \<or> lp_from p < c_Created c"
  proof (cases "lp_from p < c_Created c")
    case False
    then have "lp_from p - c_Created c < 2 ^ 63" using re d0 by (simp add: reachable_def)
    also have "(2 ^ 63 :: int) \<le> 3 * Second * (2 ^ 33 - 1)" by (simp add: Second_def)
    also have "\<dots> \<le> lp_delta p * (2 ^ 33 - 1)" using d by simp
    finally show ?thesis by blast
  qed simp
  then have "\<exists>r. fetch_loop (Suc 33) w p ea (c_Created c) 0 (lp_from p) (lp_delta p) started b = Some r" for started b
    using fetch_loop_ends [OF re] by blast
  moreover have "rounds = Suc 33" by (simp add: rounds_def)
  ultimately show ?thesis by (auto simp: fetch_direct_def simp del: fetch_loop.simps split: sum.splits)
qed

text \<open>C18. Every request for log lines is answered after at most 34 questions to the engine, whatever the engine answers and without
relying on the deadline, as long as the container was not created some 290 years before the range asked for: the widening of the
range reaches its creation before the doubled step overflows.\<close>

theorem log_request_ends:
  assumes "\<forall>c. found = Inr c \<longrightarrow> fst (query_range q) < c_Created c
      \<or> fst (query_range q) - c_Created c + max (time_Sub (snd (query_range q)) (fst (query_range q))) (3 * Second) < 2 ^ 63"
  shows "\<exists>r. fetchLogsBetweenDates w store fetch ea found q = Some r"
proof -
  have "\<exists>r. fetch_direct w p ea c = Some r" if "parse_log_query w q = Some p" "found = Inr c" for p c
    using fetch_direct_ends [OF that(1)] assms that(2) by blast
  then show ?thesis
    by (auto simp: fetchLogsBetweenDates_def Let_def split: option.splits sum.splits)
qed

lemma walk_round_running:
  "walk_round w p n to delta cs events running = Some (es, True) \<Longrightarrow> running \<or> (\<exists>c\<in>set cs. \<not> to < wk_created c)"
  by (induction cs arbitrary: events running) (auto split: if_splits option.splits)

lemma walk_loop_ends:
  assumes "\<forall>c\<in>set cs. reachable (wk_created c) to (- delta) \<and> (to - wk_created c < - delta * (2 ^ fuel - 1) \<or> to < wk_created c)"
  shows "\<exists>r. walk_loop (Suc fuel) w p cs n minimum found to delta = Some r"
  using assms
proof (induction fuel arbitrary: n minimum found to delta)
  case 0
  then have old: "\<not> (\<exists>c\<in>set cs. \<not> to < wk_created c)" by auto
  show ?case
  proof (cases "walk_round w p n to delta cs [] False")
    case (Some r)
    then have "\<not> snd r" using walk_round_running [of w p n to delta cs "[]" False "fst r"] old by (cases r) auto
    then show ?thesis using Some by (cases r) auto
  qed simp
next
  case (Suc fuel)
  show ?case
  proof (cases "walk_round w p n to delta cs [] False")
    case None
    then show ?thesis by simp
  next
    case (Some r)
    obtain es running where r: "r = (es, running)" by (cases r)
    have "\<exists>r. walk_loop (Suc fuel) w p cs (Suc n) m f (to + delta) (wrap64 (delta * 2)) = Some r" if run: running for m f
    proof (rule Suc.IH, rule ballI)
      fix c assume c: "c \<in> set cs"
      obtain c' where "c' \<in> set cs" "\<not> to < wk_created c'" using walk_round_running [of w p n to delta cs "[]" False es] Some r run by auto
      then have neg: "delta < 0" using Suc.prems by (auto simp: reachable_def)
      show "reachable (wk_created c) (to + delta) (- wrap64 (delta * 2))
        \<and> (to + delta - wk_created c < - wrap64 (delta * 2) * (2 ^ fuel - 1) \<or> to + delta < wk_created c)"
      proof (cases "to + delta < wk_created c")
        case False
        then have re: "to - wk_created c - delta < 2 ^ 63" "to - wk_created c < - delta * (2 ^ Suc fuel - 1)"
          using Suc.prems c neg by (auto simp: reachable_def)
        then have wrap: "wrap64 (delta * 2) = delta * 2" using False neg by (intro wrap64_id) (auto simp: in_int64_def)
        then show ?thesis using re False neg progress [of to "wk_created c" "- delta" fuel "- delta * 2"]
          by (auto simp: reachable_def)
      qed (simp add: reachable_def)
    qed
    then show ?thesis
      using Some r by (subst walk_loop.simps) (cases running; cases "0 < minimum"; auto simp: Let_def simp del: walk_loop.simps split: prod.splits option.splits)
  qed
qed

lemma walk_loop_result:
  assumes "walk_loop fuel w p cs n minimum found to delta = Some (sts, bs)"
  shows "\<exists>init l. sts = init @ [l] \<and> (\<forall>s\<in>set init. sw_Done s = None) \<and> sw_Done l \<noteq> None
    \<and> sw_Matches l = found + length (concat bs) \<and> (sw_Done l = Some Capped \<longleftrightarrow> minimum \<le> int (length (concat bs)))"
  using assms
proof (induction fuel arbitrary: n minimum found to delta sts bs)
  case (Suc fuel)
  show ?case
  proof (cases "0 < minimum")
    case False
    then show ?thesis using Suc.prems by auto
  next
    case True
    show ?thesis
    proof (cases "\<exists>es. walk_round w p n to delta cs [] False = Some (es, True)")
      case False
      then have "sts = [\<lparr>sw_ScannedTo = to, sw_Matches = found, sw_Done = Some Exhausted\<rparr>] \<and> bs = []"
        using Suc.prems True by (auto split: option.splits prod.splits if_splits)
      then show ?thesis using True by auto
    next
      case run: True
      then obtain es where es: "walk_round w p n to delta cs [] False = Some (es, True)" by blast
      obtain sts' bs' where rest: "walk_loop fuel w p cs (Suc n) (minimum - int (length es)) (found + length es) (to + delta) (wrap64 (delta * 2)) = Some (sts', bs')"
        "sts = \<lparr>sw_ScannedTo = to + delta, sw_Matches = found + length es, sw_Done = None\<rparr> # sts'"
        "bs = (if es = [] then bs' else sort_key le_Timestamp es # bs')"
        using Suc.prems True es by (auto simp: Let_def split: option.splits prod.splits)
      obtain init l where il: "sts' = init @ [l]" "\<forall>s\<in>set init. sw_Done s = None" "sw_Done l \<noteq> None"
        "sw_Matches l = found + length es + length (concat bs')" "sw_Done l = Some Capped \<longleftrightarrow> minimum - int (length es) \<le> int (length (concat bs'))"
        using Suc.IH [OF rest(1)] by blast
      have len: "length (concat bs) = length es + length (concat bs')" using rest(3) by (simp split: if_splits)
      have "sts = (\<lparr>sw_ScannedTo = to + delta, sw_Matches = found + length es, sw_Done = None\<rparr> # init) @ [l]"
        using rest(2) il(1) by simp
      moreover have "sw_Done l = Some Capped \<longleftrightarrow> minimum \<le> int (length (concat bs))" using il(5) len by auto
      ultimately show ?thesis using il(2-4) len by (intro exI [of _ "\<lparr>sw_ScannedTo = to + delta, sw_Matches = found + length es, sw_Done = None\<rparr> # init"] exI [of _ l]) auto
    qed
  qed
qed simp

text \<open>C27. The search for older matches always ends, after at most 34 rounds, and tells the browser so exactly once, last: with the number
of lines it sent, and as capped exactly when there are at least fifty of them.\<close>

theorem backfill_walk_ends:
  assumes "\<forall>c\<in>set cs. now < wk_created c \<or> now - wk_created c + 10 * Second < 2 ^ 63"
  shows "\<exists>init l batches. backfill_walk w p cs now = Some (init @ [l], batches) \<and> (\<forall>s\<in>set init. sw_Done s = None)
    \<and> sw_Done l = Some (if 50 \<le> length (concat batches) then Capped else Exhausted) \<and> sw_Matches l = length (concat batches)"
proof -
  have "\<forall>c\<in>set cs. reachable (wk_created c) now (- (- 10 * Second)) \<and> (now - wk_created c < - (- 10 * Second) * (2 ^ 33 - 1) \<or> now < wk_created c)"
    using assms by (fastforce simp: reachable_def Second_def)
  then obtain r where "walk_loop (Suc 33) w p cs 0 50 0 now (- 10 * Second) = Some r" using walk_loop_ends by blast
  then obtain sts bs where r: "backfill_walk w p cs now = Some (sts, bs)" by (cases r) (simp add: backfill_walk_def rounds_def)
  obtain init l where il: "sts = init @ [l]" "\<forall>s\<in>set init. sw_Done s = None" "sw_Done l \<noteq> None"
    "sw_Matches l = length (concat bs)" "sw_Done l = Some Capped \<longleftrightarrow> 50 \<le> int (length (concat bs))"
    using walk_loop_result [OF r [unfolded backfill_walk_def]] by auto
  have "sw_Done l = Some (if 50 \<le> length (concat bs) then Capped else Exhausted)"
  proof (cases "sw_Done l")
    case (Some a)
    then show ?thesis using il(5) by (cases a) auto
  qed (use il(3) in simp)
  then show ?thesis using r il by blast
qed

subsection \<open>The cache does not ask who is asking\<close>

text \<open>C15. A user whose filter hides a container still reads its logs once they are cached: when the lookup under the user's labels fails
but the cache has lines of that host and container, the newest of them are served, exactly as for a user who may see it.\<close>

theorem cached_logs_ignore_filter:
  assumes "resolveLabels cfg ctx = Inr labels" and "mh_FindContainer fc h i labels = Inl err"
    and "lq_stdout q \<or> lq_stderr q" and "parse_log_query w q = Some p" and "\<not> lq_cachedSearch q"
    and "\<not> lp_everything p" and "0 < lp_minimum p" and "lp_maxStart p = None" and "lp_startId p = 0" and "\<not> IsZero (lp_to p)"
    and "lp_regex p = None" and "lp_levels p = []" and "lp_lastSeenId p = 0"
    and "store = Some view" and "sv_HasLogs (view None)" and "sv_offered (view None) (lp_to p) = Inr events" and "events \<noteq> []"
  shows "serve_logs cfg ctx fc w store fetch ea h i q
    = Some (Inr ((answer 200)\<lparr>la_lines := map (\<lambda>e. Line (escape_event w e)) (rev (take (nat (lp_minimum p)) events))\<rparr>))"
proof -
  have all: "map fst (filter snd (map (matchesFilter w p) (after_cursor (lp_lastSeenId p) events))) = events"
    using assms(11-13) by (simp add: after_cursor_def matchesFilter_def comp_def)
  have "take (nat (lp_minimum p)) events \<noteq> []" using assms(7,17) by simp
  then have "scroll_back w p (view None) None
    = (answer 200)\<lparr>la_lines := map (\<lambda>e. Line (escape_event w e)) (rev (take (nat (lp_minimum p)) events))\<rparr>"
    using assms(16) all by (simp add: scroll_back_def Let_def)
  then show ?thesis using assms
    by (auto simp: serve_logs_def fetchLogsBetweenDates_def)
qed

text \<open>Asking for no lines at all (\<open>min=0\<close>) gives a ring buffer without places, and the first line of the range is a panic.\<close>

lemma min_zero_panics:
  assumes "lp_size p = 0" and "lp_maxStart p = None" and "lp_regex p = None" and "lp_levels p = []" and "lp_startId p = 0"
    and "lp_lastSeenId p = 0" and "\<not> lp_everything p" and "sv_Between v (lp_from p) (lp_to p) = Inr (e # es)"
  shows "store_range w p v svc = Inl IndexOutOfRange"
  using assms by (simp add: store_range_def NewRingBuffer_def matchesFilter_def Push_def Let_def)

subsection \<open>Searching the cache and the engine together\<close>

lemma first_of_key_props:
  "distinct (map search_key (first_of_key seen es)) \<and> search_key ` set (first_of_key seen es) = search_key ` set es - seen
    \<and> set (first_of_key seen es) \<subseteq> set es"
proof (induction es arbitrary: seen)
  case (Cons e es)
  show ?case using Cons.IH [of seen] Cons.IH [of "insert (search_key e) seen"] by (auto simp: image_iff)
qed simp

definition newer :: "log_event \<Rightarrow> log_event \<Rightarrow> bool" where
  "newer a b \<longleftrightarrow> le_Timestamp b \<le> le_Timestamp a"

lemma newest_first_sorted: "sorted_wrt newer (newest_first es)"
proof -
  have "sorted (map (\<lambda>e. - le_Timestamp e) (newest_first es))" by (simp add: newest_first_def)
  moreover have "newer = (\<lambda>x y. le_Timestamp y \<le> le_Timestamp x)" by (intro ext) (simp add: newer_def)
  ultimately show ?thesis by (simp add: sorted_map)
qed

lemma newest_first_set: "set (newest_first es) = set es" "length (newest_first es) = length es" "mset (newest_first es) = mset es"
  by (simp_all add: newest_first_def)

text \<open>A search that combines the cache with the last two days of the engine gives no line twice, newest first and at most as many
as asked for; a line is missing from a full answer only when it is no newer than all that are given, and then more is announced.\<close>

theorem merged_search_newest:
  assumes "mergeCachedSearchWithDirect fetch (Some c) before limit match cached cachedHasMore = (events, hasMore)"
    and "fetch c (if \<not> IsZero (c_Created c) \<and> before - cachedSearchDirectWindow < c_Created c then c_Created c else before - cachedSearchDirectWindow)
           before = Some direct"
    and "before - cachedSearchDirectWindow < before \<and> (IsZero (c_Created c) \<or> c_Created c < before)" and "0 < limit"
    and "candidates = cached @ map fst (filter snd (map match direct))" and "candidates \<noteq> []"
  shows "distinct (map search_key events) \<and> sorted_wrt newer events \<and> int (length events) \<le> limit \<and> set events \<subseteq> set candidates
    \<and> (\<forall>e\<in>set candidates. search_key e \<in> search_key ` set events
         \<or> hasMore \<and> int (length events) = limit \<and> (\<exists>e'\<in>set candidates. search_key e' = search_key e \<and> (\<forall>x\<in>set events. newer x e')))"
proof -
  define merged where "merged = newest_first (first_of_key {} candidates)"
  note f = first_of_key_props [of "{}" candidates] and ns = newest_first_set [of "first_of_key {} candidates"]
  let ?from = "if \<not> IsZero (c_Created c) \<and> before - cachedSearchDirectWindow < c_Created c then c_Created c else before - cachedSearchDirectWindow"
  have "?from < before" using assms(3) by auto
  then have "mergeCachedSearchWithDirect fetch (Some c) before limit match cached cachedHasMore
    = (take (nat limit) merged, cachedHasMore \<or> int (length merged) > limit)"
    using assms(2) assms(6) [unfolded assms(5)] by (auto simp: mergeCachedSearchWithDirect_def Let_def merged_def assms(5))
  then have ev: "events = take (nat limit) merged" "hasMore \<longleftrightarrow> cachedHasMore \<or> int (length merged) > limit"
    using assms(1) by simp_all
  have dm: "distinct (map search_key merged)"
    using f mset_eq_imp_distinct_iff [of "map search_key merged" "map search_key (first_of_key {} candidates)"] ns(3)
    by (simp add: merged_def)
  have sm: "sorted_wrt newer merged" unfolding merged_def by (rule newest_first_sorted)
  have "distinct (map search_key events)" using dm ev(1) by (metis distinct_take take_map)
  moreover have "sorted_wrt newer events" using sm ev(1) sorted_wrt_take by blast
  moreover have "int (length events) \<le> limit" using ev(1) assms(4) by simp
  moreover have "set events \<subseteq> set candidates" using ev(1) f ns(1) set_take_subset unfolding merged_def by fastforce
  moreover have "search_key e \<in> search_key ` set events
      \<or> hasMore \<and> int (length events) = limit \<and> (\<exists>e'\<in>set candidates. search_key e' = search_key e \<and> (\<forall>x\<in>set events. newer x e'))"
    if "e \<in> set candidates" for e
  proof -
    have "search_key e \<in> search_key ` set merged" using that f ns(1) unfolding merged_def by auto
    then obtain e' where e': "e' \<in> set merged" "search_key e' = search_key e" by auto
    show ?thesis
    proof (cases "e' \<in> set events")
      case False
      then have late: "e' \<in> set (drop (nat limit) merged)" using e'(1) ev(1) by (metis Un_iff append_take_drop_id set_append)
      then have more: "nat limit < length merged" by (metis drop_eq_Nil empty_iff list.set(1) not_le)
      have "\<forall>x\<in>set (take (nat limit) merged). \<forall>y\<in>set (drop (nat limit) merged). newer x y"
        using sm sorted_wrt_append [of newer "take (nat limit) merged" "drop (nat limit) merged"] unfolding append_take_drop_id by blast
      then have "\<forall>x\<in>set events. newer x e'" using late ev(1) by blast
      moreover have "e' \<in> set candidates" using e'(1) f ns(1) unfolding merged_def by auto
      ultimately show ?thesis using e'(2) more ev assms(4) by auto
    next
      case True
      then show ?thesis using e'(2) by (metis imageI)
    qed
  qed
  ultimately show ?thesis by blast
qed

subsection \<open>What a search is offered\<close>

lemma lines_backwards_filter: "lines_backwards lib from to (Some f) data = filter f (lines_backwards lib from to None data)"
proof -
  have "List.map_filter (reverse_line lib from to (Some f)) ls = filter f (List.map_filter (reverse_line lib from to None) ls)" for ls
    by (induction ls) (auto simp: List.map_filter_simps reverse_line_def Let_def split: option.splits if_splits)
  then show ?thesis by (simp add: lines_backwards_def)
qed

lemma lines_backwards_length: "length (lines_backwards lib from to match data) \<le> length data + 1"
proof -
  have "length (split_on d s) \<le> length s + 1" for d s by (induction s) (auto split: list.splits)
  then have "length (rev (split_on LogStore.newline data)) \<le> length data + 1" by simp
  moreover have "length (List.map_filter f ls) \<le> length ls" for f :: "string \<Rightarrow> log_event option" and ls
    by (induction ls) (auto simp: List.map_filter_simps split: option.splits)
  ultimately show ?thesis unfolding lines_backwards_def using le_trans by blast
qed

lemma offered_reference:
  assumes "openDB lib flt (syncForRead lib flt now s0) = Inr s" and "\<not> sf_query flt" and "\<not> IsZero before"
    and "list_all (readable flt s) (search_files ks h i ident before s)"
  shows "offered lib flt now ks h i ident before s0
    = Inr (concat (map (\<lambda>p. lines_backwards lib (before - retentionDays * 24 * Hour) before None (the (sto_disk s p)))
             (search_files ks h i ident before s)))"
proof -
  let ?ps = "search_files ks h i ident before s"
  let ?f = "\<lambda>p. lines_backwards lib (before - retentionDays * 24 * Hour) before None (the (sto_disk s p))"
  have len: "int (length (concat (map ?f ps))) \<le> sum_list (map (\<lambda>p. case sto_disk s p of None \<Rightarrow> 0 | Some t \<Rightarrow> int (length t) + 1) ps)"
    if "list_all (readable flt s) ps" for ps
    using that
  proof (induction ps)
    case (Cons p ps)
    then obtain t where "sto_disk s p = Some t" by (auto simp: readable_def)
    then show ?case using Cons lines_backwards_length [of lib "before - retentionDays * 24 * Hour" before None t] by auto
  qed simp
  have n: "enough lib flt now ks h i ident before s0
      = 1 + sum_list (map (\<lambda>p. case sto_disk s p of None \<Rightarrow> 0 | Some t \<Rightarrow> int (length t) + 1) ?ps)"
    using assms(1,3) by (simp add: enough_def)
  then have big: "int (length (concat (map ?f ?ps))) < enough lib flt now ks h i ident before s0" using len [OF assms(4)] by linarith
  then have pos: "0 < enough lib flt now ks h i ident before s0" by linarith
  have "searchBefore lib flt now ks h i ident before (enough lib flt now ks h i ident before s0) None s0
    = Inr (take (nat (enough lib flt now ks h i ident before s0)) (concat (map ?f ?ps)),
           length (concat (map ?f ?ps)) > nat (enough lib flt now ks h i ident before s0))"
    by (rule searchBefore_reference [OF assms(1-3) pos assms(4) refl])
  moreover have "take (nat (enough lib flt now ks h i ident before s0)) (concat (map ?f ?ps)) = concat (map ?f ?ps)"
    using big by (intro take_all) linarith
  ultimately show ?thesis by (simp add: offered_def)
qed

text \<open>A matcher without a cursor may look at the offered events one after the other: the search gives the same.\<close>

lemma offered_is_search:
  assumes "openDB lib flt (syncForRead lib flt now s0) = Inr s" and "\<not> sf_query flt" and "\<not> IsZero before"
    and "list_all (readable flt s) (search_files ks h i ident before s)" and "0 < limit"
    and "offered lib flt now ks h i ident before s0 = Inr events"
  shows "searchBefore lib flt now ks h i ident before limit (Some f) s0
    = Inr (take (nat limit) (filter f events), length (filter f events) > nat limit)"
proof -
  have "concat (map (\<lambda>p. lines_backwards lib (before - retentionDays * 24 * Hour) before (Some f) (the (sto_disk s p))) ps)
    = filter f (concat (map (\<lambda>p. lines_backwards lib (before - retentionDays * 24 * Hour) before None (the (sto_disk s p))) ps))" for ps
    by (induction ps) (simp_all add: lines_backwards_filter)
  then show ?thesis
    using searchBefore_reference [OF assms(1-3,5,4) refl, of "Some f"] offered_reference [OF assms(1-4)] assms(6) by simp
qed

subsection \<open>Requests at work\<close>

definition plain_world :: log_world where
  "plain_world = \<lparr>lw_show = (\<lambda>_. []), lw_url = (\<lambda>s. [(False, s)]), lw_compile = (\<lambda>_. None), lw_strip = (\<lambda>s. s),
     lw_loc = \<lparr>loc_name = ''UTC'', loc_offset = (\<lambda>_. 0)\<rparr>, lw_now = 24 * Hour\<rparr>"

definition plain_query :: log_query where
  "plain_query = \<lparr>lq_plainText = False, lq_from = 0, lq_to = 24 * Hour, lq_stdout = True, lq_stderr = True, lq_filter = None,
     lq_inverse = False, lq_jsonOnly = False, lq_everything = False, lq_min = Some ''1'', lq_maxStart = None, lq_levels = [],
     lq_lastSeenId = None, lq_startId = None, lq_cachedSearch = False, lq_limit = None\<rparr>"

definition plain_params :: log_params where
  "plain_params = \<lparr>lp_plainText = False, lp_from = 0, lp_to = 24 * Hour, lp_delta = 24 * Hour, lp_regex = None, lp_inverse = False,
     lp_onlyComplex = False, lp_everything = False, lp_minimum = 1, lp_size = 1, lp_maxStart = None, lp_levels = [], lp_lastSeenId = 0,
     lp_startId = 0, lp_stdout = True, lp_stderr = True\<rparr>"

lemma plain_parsed: "parse_log_query plain_world plain_query = Some plain_params"
proof -
  have "Atoi ''1'' = Some 1" by code_simp
  then show ?thesis
    by (simp add: parse_log_query_def plain_query_def plain_params_def query_range_def optional_def parse_min_def time_Sub_def
        Hour_def Second_def)
qed

definition silent_engine :: engine_answer where
  "silent_engine = \<lparr>ea_late = (\<lambda>_. False), ea_late_after = (\<lambda>_. False), ea_fetch = (\<lambda>_ _ _. Some [])\<rparr>"

theorem log_request_ends_witness:
  "\<exists>r. fetchLogsBetweenDates plain_world None (\<lambda>_ _ _. None) silent_engine (Inr sample_container) plain_query = Some r"
  by (rule log_request_ends)
    (simp add: sample_container_def plain_query_def query_range_def time_Sub_def IsZero_def zero_time_def Hour_def Second_def)

definition quiet_container :: walk_container where
  "quiet_container = \<lparr>wk_missing = (\<lambda>_. False), wk_created = 0, wk_fetch = (\<lambda>_ _ _. Some [])\<rparr>"

theorem backfill_walk_ends_witness:
  "\<exists>init l batches. backfill_walk plain_world plain_params [quiet_container] Hour = Some (init @ [l], batches)"
  using backfill_walk_ends [of "[quiet_container]" Hour plain_world plain_params]
  by (auto simp: quiet_container_def Hour_def Second_def)

lemma demo_offered:
  "offered demo_codec demo_calm 0 [(''h1'', ''web'', 0)] ''h1'' ''web'' [] (24 * Hour) demo_store = Inr [demo_event 2000, demo_event 1000]"
proof -
  have "list_all (readable demo_calm demo_opened) (search_files [(''h1'', ''web'', 0)] ''h1'' ''web'' [] (24 * Hour) demo_opened)"
    by (simp add: demo_hits) (simp add: readable_def demo_opened_eq)
  moreover have "\<not> IsZero (24 * Hour)" by (simp add: IsZero_def zero_time_def Hour_def Second_def)
  ultimately show ?thesis
    using offered_reference [OF demo_opens, of "24 * Hour" "[(''h1'', ''web'', 0)]" "''h1''" "''web''" "[]"] demo_hits by simp
qed

lemma demo_has: "HasLogs demo_codec demo_calm 0 [(''h1'', ''web'', 0)] ''h1'' ''web'' demo_store"
  using demo_opens by (simp add: HasLogs_def demo_opened_eq)

definition demo_cache :: "container option \<Rightarrow> store_view" where
  "demo_cache svc = view_of demo_codec demo_calm 0 [(''h1'', ''web'', 0)] ''h1'' ''web'' svc demo_store"

theorem cached_logs_ignore_filter_witness:
  "serve_logs door_config door_context (\<lambda>_. None) plain_world (Some demo_cache) (\<lambda>_ _ _. None) silent_engine ''h1'' ''web'' plain_query
     = Some (Inr ((answer 200)\<lparr>la_lines := [Line (escape_event plain_world (demo_event 2000))]\<rparr>))"
proof -
  have "resolveLabels door_config door_context = Inr (in_force door_config door_user)"
    by (simp add: resolveLabels_def request_user_def door_enters) (simp add: door_config_def)
  moreover have "mh_FindContainer (\<lambda>_. None) ''h1'' ''web'' (in_force door_config door_user) = Inl (HostNotFound ''h1'')"
    by (simp add: mh_FindContainer_def)
  moreover have "sv_HasLogs (demo_cache None)" "sv_offered (demo_cache None) (24 * Hour) = Inr [demo_event 2000, demo_event 1000]"
    using demo_has demo_offered by (simp_all add: demo_cache_def view_of_def)
  ultimately show ?thesis
    using cached_logs_ignore_filter [OF _ _ _ plain_parsed, of door_config door_context "in_force door_config door_user" "\<lambda>_. None" "''h1''" "''web''"
        "HostNotFound ''h1''" "Some demo_cache" demo_cache "[demo_event 2000, demo_event 1000]" "\<lambda>_ _ _. None" silent_engine]
    by (simp add: plain_params_def plain_query_def IsZero_def zero_time_def Hour_def Second_def)
qed

theorem merged_search_newest_witness:
  "distinct (map search_key (fst (mergeCachedSearchWithDirect (\<lambda>_ _ _. Some [demo_event 2000]) (Some sample_container) (24 * Hour) 1
     (\<lambda>e. (e, True)) [demo_event 1000] False)))"
  using merged_search_newest [of "\<lambda>_ _ _. Some [demo_event 2000]" sample_container "24 * Hour" 1 "\<lambda>e. (e, True)" "[demo_event 1000]" False _ _
      "[demo_event 2000]" "[demo_event 1000, demo_event 2000]"]
  by (auto simp: prod_eq_iff sample_container_def cachedSearchDirectWindow_def Hour_def Second_def)
end
