(* ===== verification/CacheWorker.thy ===== *)
theory CacheWorker
  imports MultiHost
begin

text \<open>
  The worker that keeps the log cache up to date in the background, \<open>internal/support/docker/log_cache_worker.go\<close>: its settings from
  the environment, the range of time it asks an engine for, and the jobs that do it, at most one for each container and a
  bounded number at once.

  \<open>env\<close> is the value of an environment variable, empty when unset; \<open>parse_duration\<close> is \<open>time.ParseDuration\<close>.  The goroutines are
  the steps of a relation: waiting for a place in the semaphore, running, and gone.
\<close>

subsection \<open>Settings\<close>

definition maxLogCacheBackfill :: duration where "maxLogCacheBackfill = 4 * 24 * Hour"
definition defaultLogCachePollInterval :: duration where "defaultLogCachePollInterval = Minute"
definition defaultLogCacheMaxBackfills :: int where "defaultLogCacheMaxBackfills = 2"

record log_cache_config =
  lc_initialBackfill :: duration
  lc_pollInterval :: duration
  lc_maxCatchup :: duration
  lc_maxBackfills :: int

definition durationEnv :: "(string \<Rightarrow> duration option) \<Rightarrow> string \<Rightarrow> duration \<Rightarrow> duration" where
  "durationEnv parse_duration v fallback =
     (if v = [] then fallback
      else case parse_duration v of None \<Rightarrow> fallback | Some d \<Rightarrow> if d \<le> 0 then fallback else d)"

definition boundedDurationEnv :: "(string \<Rightarrow> duration option) \<Rightarrow> string \<Rightarrow> duration \<Rightarrow> duration \<Rightarrow> duration" where
  "boundedDurationEnv parse_duration v fallback maxValue =
     (let d = durationEnv parse_duration v fallback in if maxValue < d then maxValue else d)"

definition intEnv :: "string \<Rightarrow> int \<Rightarrow> int" where
  "intEnv v fallback =
     (if v = [] then fallback
      else case Atoi v of None \<Rightarrow> fallback | Some n \<Rightarrow> if n \<le> 0 then fallback else n)"

definition loadLogCacheConfig :: "(string \<Rightarrow> duration option) \<Rightarrow> (string \<Rightarrow> string) \<Rightarrow> log_cache_config" where
  "loadLogCacheConfig parse_duration env =
     \<lparr>lc_initialBackfill = boundedDurationEnv parse_duration (env ''DOZZLE_LOG_CACHE_INITIAL_BACKFILL'') maxLogCacheBackfill maxLogCacheBackfill,
      lc_pollInterval = durationEnv parse_duration (env ''DOZZLE_LOG_CACHE_POLL_INTERVAL'') defaultLogCachePollInterval,
      lc_maxCatchup = boundedDurationEnv parse_duration (env ''DOZZLE_LOG_CACHE_MAX_CATCHUP'') maxLogCacheBackfill maxLogCacheBackfill,
      lc_maxBackfills = intEnv (env ''DOZZLE_LOG_CACHE_MAX_BACKFILLS'') defaultLogCacheMaxBackfills\<rparr>"

subsection \<open>One container\<close>

definition backfill_from :: "log_cache_config \<Rightarrow> gotime \<Rightarrow> gotime \<Rightarrow> gotime option \<Rightarrow> gotime" where
  "backfill_from cfg now startedAt lastCached =
     (let from0 = now - lc_initialBackfill cfg;
          from1 = (if from0 < startedAt then startedAt else from0);
          from2 = (case lastCached of None \<Rightarrow> from1 | Some t \<Rightarrow> t + 1000000)
      in if 0 < lc_maxCatchup cfg \<and> from2 < now - lc_maxCatchup cfg then now - lc_maxCatchup cfg else from2)"

text \<open>\<open>fetch\<close> asks the engine, \<open>None\<close> being an error.  A container that cannot be recorded and an event that cannot be appended are
passed over.\<close>

definition backfillCacheWindow ::
    "store_lib \<Rightarrow> store_faults \<Rightarrow> chunk_key list \<Rightarrow> log_cache_config \<Rightarrow> gotime
       \<Rightarrow> (gotime \<Rightarrow> gotime \<Rightarrow> log_event list option) \<Rightarrow> container \<Rightarrow> log_store \<Rightarrow> bool \<times> log_store" where
  "backfillCacheWindow lib flt ks cfg now fetch c s0 =
     (let s = snd (RecordContainer lib flt now c s0);
          from = backfill_from cfg now (c_StartedAt c) (LastTimestampForContainer lib flt now ks c s)
      in if \<not> from < now then (True, s)
         else case fetch from now of
                None \<Rightarrow> (False, s)
              | Some events \<Rightarrow> (True, fold (\<lambda>e s. snd (AppendForContainer lib flt c e s)) events s))"

subsection \<open>Jobs\<close>

record cache_jobs =
  cj_jobs :: "string set"
  cj_waiting :: "string list"
  cj_running :: "string list"

definition no_jobs :: cache_jobs where
  "no_jobs = \<lparr>cj_jobs = {}, cj_waiting = [], cj_running = []\<rparr>"

definition scheduleCacheBackfill :: "container \<Rightarrow> cache_jobs \<Rightarrow> cache_jobs" where
  "scheduleCacheBackfill c j =
     (let key = containerCacheKey c
      in if key \<in> cj_jobs j then j else j\<lparr>cj_jobs := insert key (cj_jobs j), cj_waiting := cj_waiting j @ [key]\<rparr>)"

text \<open>A host that cannot be asked, or whose list fails, is left out.\<close>

definition scheduleCacheBackfills :: "client_answer list \<Rightarrow> cache_jobs \<Rightarrow> cache_jobs" where
  "scheduleCacheBackfills clients j =
     fold (\<lambda>a j. if \<not> snd (ca_host a) then j
                  else case ca_list a Map.empty of
                         None \<Rightarrow> j
                       | Some cs \<Rightarrow> fold scheduleCacheBackfill (filter (\<lambda>c. c_State c = ''running'') cs) j)
       clients j"

definition scheduleCacheBackfillForStartedContainer :: "(string \<Rightarrow> client_answer option) \<Rightarrow> container \<Rightarrow> cache_jobs \<Rightarrow> cache_jobs" where
  "scheduleCacheBackfillForStartedContainer find_client c j =
     (case find_client (c_Host c) of
        None \<Rightarrow> j
      | Some a \<Rightarrow>
          (case ca_find a (c_ID c) None of
             None \<Rightarrow> j
           | Some d \<Rightarrow> if c_State d \<noteq> ''running'' then j else scheduleCacheBackfill d j))"

definition finish_job :: "string \<Rightarrow> cache_jobs \<Rightarrow> cache_jobs" where
  "finish_job key j = j\<lparr>cj_jobs := cj_jobs j - {key}\<rparr>"

inductive cache_step :: "log_cache_config \<Rightarrow> cache_jobs \<Rightarrow> cache_jobs \<Rightarrow> bool" for cfg where
  Polls: "cache_step cfg j (scheduleCacheBackfills clients j)"
| Starts: "cache_step cfg j (scheduleCacheBackfillForStartedContainer find_client c j)"
| Acquires: "cj_waiting j = w1 @ key # w2 \<Longrightarrow> int (length (cj_running j)) < lc_maxBackfills cfg
    \<Longrightarrow> cache_step cfg j (j\<lparr>cj_waiting := w1 @ w2, cj_running := key # cj_running j\<rparr>)"
| Finishes: "cj_running j = r1 @ key # r2 \<Longrightarrow> cache_step cfg j (finish_job key (j\<lparr>cj_running := r1 @ r2\<rparr>))"
| Cancelled: "cj_waiting j = w1 @ key # w2 \<Longrightarrow> cache_step cfg j (finish_job key (j\<lparr>cj_waiting := w1 @ w2\<rparr>))"

subsection \<open>What is asked for\<close>

text \<open>Whatever the environment says, the worker asks for at most the last four days, never again for what comes before the last
cached line, and without a gap after that line unless it is older than the catch-up time; a container without cached lines is
asked for since its start, as far as the limits allow.\<close>

theorem backfill_window_bounds:
  assumes "cfg = loadLogCacheConfig parse_duration env"
  shows "0 < lc_maxBackfills cfg \<and> 0 < lc_pollInterval cfg
    \<and> now - maxLogCacheBackfill \<le> backfill_from cfg now startedAt lastCached
    \<and> (case lastCached of
         None \<Rightarrow> backfill_from cfg now startedAt lastCached = max (now - lc_maxCatchup cfg) (max (now - lc_initialBackfill cfg) startedAt)
       | Some t \<Rightarrow> t < backfill_from cfg now startedAt lastCached
           \<and> (now - lc_maxCatchup cfg \<le> t + 1000000 \<longrightarrow> backfill_from cfg now startedAt lastCached = t + 1000000))"
proof -
  have pos: "0 < fb \<Longrightarrow> 0 < durationEnv parse_duration v fb" for v fb
    by (auto simp: durationEnv_def split: option.splits)
  have "0 < lc_pollInterval cfg" "0 < lc_maxBackfills cfg"
    using pos [of defaultLogCachePollInterval] assms
    by (auto simp: loadLogCacheConfig_def defaultLogCachePollInterval_def Minute_def Second_def intEnv_def defaultLogCacheMaxBackfills_def
        split: option.splits)
  moreover have "0 < lc_maxCatchup cfg" "lc_maxCatchup cfg \<le> maxLogCacheBackfill"
    using pos [of maxLogCacheBackfill "env ''DOZZLE_LOG_CACHE_MAX_CATCHUP''"] assms
    by (auto simp: loadLogCacheConfig_def boundedDurationEnv_def Let_def maxLogCacheBackfill_def Hour_def Second_def)
  ultimately show ?thesis by (auto simp: backfill_from_def Let_def split: option.splits)
qed

text \<open>Times are kept in milliseconds, and the next range begins a millisecond later: a line of the same millisecond as the last cached
one that was not there yet is never asked for.\<close>

lemma same_millisecond_skipped:
  assumes "t = time_UnixMilli ms" and "UnixMilli u = ms"
  shows "u < backfill_from cfg now startedAt (Some t)"
proof -
  have "u div 1000000 = ms" using assms(2) by (simp add: UnixMilli_def)
  moreover have "u mod 1000000 < 1000000" by simp
  ultimately have "u < ms * 1000000 + 1000000" using div_mult_mod_eq [of u 1000000] by linarith
  then have "u < t + 1000000" by (simp add: assms(1) time_UnixMilli_def)
  then show ?thesis by (auto simp: backfill_from_def Let_def)
qed

subsection \<open>Never too many jobs\<close>

definition jobs_inv :: "log_cache_config \<Rightarrow> cache_jobs \<Rightarrow> bool" where
  "jobs_inv cfg j \<longleftrightarrow> distinct (cj_waiting j @ cj_running j) \<and> set (cj_waiting j @ cj_running j) = cj_jobs j
     \<and> int (length (cj_running j)) \<le> lc_maxBackfills cfg"

lemma schedule_inv: "jobs_inv cfg j \<Longrightarrow> jobs_inv cfg (scheduleCacheBackfill c j)"
  by (auto simp: jobs_inv_def scheduleCacheBackfill_def Let_def)

lemma schedules_inv: "jobs_inv cfg j \<Longrightarrow> jobs_inv cfg (scheduleCacheBackfills clients j)"
  unfolding scheduleCacheBackfills_def
  by (rule fold_inv [of _ "jobs_inv cfg"]) (auto intro!: fold_inv [of _ "jobs_inv cfg"] schedule_inv split: option.splits)

lemma cache_step_inv: "cache_step cfg j j' \<Longrightarrow> jobs_inv cfg j \<Longrightarrow> jobs_inv cfg j'"
proof (induction rule: cache_step.induct)
  case (Polls j clients)
  then show ?case by (rule schedules_inv)
next
  case (Starts j find_client c)
  then show ?case
    by (auto simp: scheduleCacheBackfillForStartedContainer_def intro: schedule_inv split: option.splits)
qed (auto simp: jobs_inv_def finish_job_def)

text \<open>However polls, container starts and the jobs themselves interleave, a container never has two jobs, no more jobs run at once than
configured, and as soon as its job is over the container can be scheduled again.\<close>

theorem backfill_jobs_bounded:
  assumes "(cache_step cfg)\<^sup>*\<^sup>* no_jobs j" and "0 < lc_maxBackfills cfg"
  shows "distinct (cj_waiting j @ cj_running j) \<and> int (length (cj_running j)) \<le> lc_maxBackfills cfg
    \<and> (\<forall>c. containerCacheKey c \<notin> set (cj_waiting j @ cj_running j)
         \<longrightarrow> cj_waiting (scheduleCacheBackfill c j) = cj_waiting j @ [containerCacheKey c])"
proof -
  have "jobs_inv cfg j" using assms(1)
  proof (induction rule: rtranclp_induct)
    case base
    then show ?case using assms(2) by (simp add: jobs_inv_def no_jobs_def)
  qed (rule cache_step_inv)
  then show ?thesis by (auto simp: jobs_inv_def scheduleCacheBackfill_def Let_def)
qed

theorem backfill_window_bounds_witness:
  "backfill_from (loadLogCacheConfig (\<lambda>_. None) (\<lambda>_. [])) 0 0 (Some (- Hour)) = - Hour + 1000000"
  using backfill_window_bounds [OF refl, where env = "\<lambda>_. []" and parse_duration = "\<lambda>_. None" and now = 0 and startedAt = 0
      and lastCached = "Some (- Hour)"]
  by (auto simp: loadLogCacheConfig_def boundedDurationEnv_def durationEnv_def maxLogCacheBackfill_def Hour_def Second_def)

definition one_job :: cache_jobs where
  "one_job = scheduleCacheBackfill sample_container no_jobs"

theorem backfill_jobs_bounded_witness:
  "cj_waiting one_job = [containerCacheKey sample_container] \<and> distinct (cj_waiting one_job @ cj_running one_job)"
proof -
  let ?a = "\<lparr>ca_host = undefined, ca_list = (\<lambda>_. None), ca_find = (\<lambda>_ _. Some sample_container)\<rparr> :: client_answer"
  have "scheduleCacheBackfillForStartedContainer (\<lambda>_. Some ?a) sample_container no_jobs = one_job"
    by (simp add: scheduleCacheBackfillForStartedContainer_def one_job_def) (simp add: sample_container_def)
  then have "(cache_step (loadLogCacheConfig (\<lambda>_. None) (\<lambda>_. [])))\<^sup>*\<^sup>* no_jobs one_job"
    using Starts [of _ no_jobs "\<lambda>_. Some ?a" sample_container] by (metis r_into_rtranclp)
  moreover have "0 < lc_maxBackfills (loadLogCacheConfig (\<lambda>_. None) (\<lambda>_. []))"
    by (simp add: loadLogCacheConfig_def intEnv_def defaultLogCacheMaxBackfills_def)
  ultimately have "distinct (cj_waiting one_job @ cj_running one_job)"
    using backfill_jobs_bounded [of "loadLogCacheConfig (\<lambda>_. None) (\<lambda>_. [])" one_job] by blast
  moreover have "cj_waiting one_job = [containerCacheKey sample_container]"
    by (simp add: one_job_def scheduleCacheBackfill_def no_jobs_def Let_def)
  ultimately show ?thesis by blast
qed

end
