(* ===== verification/CloudTools.thy ===== *)
theory CloudTools
  imports WebAccess
begin

text \<open>
  The tools that Dozzle Cloud may call, \<open>internal/cloud/tools.go\<close> with \<open>tools_resolve.go\<close>, \<open>tools_containers.go\<close>,
  \<open>tools_actions.go\<close>, \<open>tools_logs.go\<close>, \<open>tools_notifications.go\<close> and \<open>tools_helpers.go\<close>, and the host service of
  \<open>main.go\<close> that restricts them to the local engines.

  The arguments of a call are the JSON value they parse to, \<open>None\<close> when they do not parse.  The host service is a record of
  its answers; the errors of single hosts are only logged.  Errors are values that carry what the text of the error shows.
  A time that is formatted as RFC 3339 is kept as its second.  Names are compared without case on ASCII letters.
\<close>

subsection \<open>Helpers\<close>

definition EqualFold :: "string \<Rightarrow> string \<Rightarrow> bool" where
  "EqualFold s t \<longleftrightarrow> ToLower s = ToLower t"

definition containsIgnoreCase :: "string \<Rightarrow> string \<Rightarrow> bool" where
  "containsIgnoreCase s substr = str_contains (ToLower substr) (ToLower s)"

record host_service =
  hs_ListAllContainers :: "label_arg \<Rightarrow> container list"
  hs_FindContainer :: "string \<Rightarrow> string \<Rightarrow> label_arg \<Rightarrow> host_error + container"
  hs_Hosts :: "host list"

definition buildHostNameMap :: "host list \<Rightarrow> string \<rightharpoonup> string" where
  "buildHostNameMap hosts = fold (\<lambda>h m. m(h_ID h \<mapsto> h_Name h)) hosts Map.empty"

definition resolveHostName :: "string \<Rightarrow> (string \<rightharpoonup> string) \<Rightarrow> string" where
  "resolveHostName hostID hostNames = (case hostNames hostID of Some name \<Rightarrow> name | None \<Rightarrow> hostID)"

definition formatTimeOrEmpty :: "gotime \<Rightarrow> int option" where
  "formatTimeOrEmpty t = (if IsZero t then None else Some (Unix t))"

record tool_container =
  ci_Id :: string
  ci_Name :: string
  ci_Image :: string
  ci_Command :: string
  ci_Created :: int
  ci_StartedAt :: int
  ci_FinishedAt :: "int option"
  ci_State :: string
  ci_Health :: string
  ci_HostName :: string
  ci_HostId :: string
  ci_Group :: string

definition containerToProto :: "container \<Rightarrow> (string \<rightharpoonup> string) \<Rightarrow> tool_container" where
  "containerToProto c hostNames =
     \<lparr>ci_Id = c_ID c, ci_Name = c_Name c, ci_Image = c_Image c, ci_Command = c_Command c, ci_Created = Unix (c_Created c),
      ci_StartedAt = Unix (c_StartedAt c), ci_FinishedAt = formatTimeOrEmpty (c_FinishedAt c), ci_State = c_State c,
      ci_Health = c_Health c, ci_HostName = resolveHostName (c_Host c) hostNames, ci_HostId = c_Host c, ci_Group = c_Group c\<rparr>"

definition mountStrings :: "mount list \<Rightarrow> string list" where
  "mountStrings mounts = map Mount_String mounts"

subsection \<open>The local engines\<close>

text \<open>
  \<open>first\<close> is what the engines answered when the host identifiers were resolved, which happens once.  An engine that failed
  then keeps the empty identifier.
\<close>

definition resolveHostIDs :: "host option list \<Rightarrow> string list" where
  "resolveHostIDs first = map (\<lambda>a. case a of None \<Rightarrow> [] | Some h \<Rightarrow> h_ID h) first"

definition local_Hosts :: "host option list \<Rightarrow> host list" where
  "local_Hosts answers = List.map_filter (map_option (\<lambda>h. h\<lparr>h_Available := True\<rparr>)) answers"

definition local_ListAllContainers :: "client_answer list \<Rightarrow> label_arg \<Rightarrow> container list" where
  "local_ListAllContainers services labels =
     concat (map (\<lambda>s. case ca_list s (label_map labels) of None \<Rightarrow> [] | Some cs \<Rightarrow> cs) services)"

fun local_find :: "(string \<times> client_answer) list \<Rightarrow> string \<Rightarrow> string \<Rightarrow> label_arg \<Rightarrow> host_error + container" where
  "local_find [] h i labels = Inl (HostNotFound h)"
| "local_find ((hid, s) # rest) h i labels =
     (if hid \<noteq> h then local_find rest h i labels
      else case ca_find s i labels of None \<Rightarrow> Inl ListFailed | Some c \<Rightarrow> Inr c)"

definition localCloudHostService :: "host option list \<Rightarrow> host option list \<Rightarrow> client_answer list \<Rightarrow> host_service" where
  "localCloudHostService first now services =
     \<lparr>hs_ListAllContainers = local_ListAllContainers services,
      hs_FindContainer = local_find (zip (resolveHostIDs first) services),
      hs_Hosts = local_Hosts now\<rparr>"

subsection \<open>Which container is meant\<close>

datatype tool_error =
    ParseFailed
  | ContainerIdRequired
  | NoHostMatching string
  | HostAmbiguous string "(string \<times> string) list"
  | NoContainerMatching string
  | ContainerAmbiguous string "(string \<times> string \<times> string \<times> string) list" bool
  | ContainerNotFound host_error
  | ActionFailed
  | UpdateFailed
  | InvalidStart
  | InvalidEnd
  | InvalidRegex
  | FetchFailed
  | NotificationsNotConfigured
  | FieldRequired string
  | CreatingSubscription compile_error
  | ActionsNotEnabled
  | UnknownAction string
  | UnknownTool string
  | ContextDone

definition matchesID :: "string \<Rightarrow> string \<Rightarrow> bool" where
  "matchesID i ref \<longleftrightarrow>
     i \<noteq> [] \<and> (let lid = ToLower i; lref = ToLower ref
                 in lid = lref \<or> 12 \<le> length lref \<and> has_prefix lref lid)"

fun host_loop :: "string \<Rightarrow> host list \<Rightarrow> host list \<Rightarrow> string + host list" where
  "host_loop ref [] byName = Inr byName"
| "host_loop ref (h # hosts) byName =
     (if h_ID h = ref then Inl (h_ID h)
      else host_loop ref hosts (if EqualFold (h_Name h) ref then byName @ [h] else byName))"

definition resolveHostRef :: "string \<Rightarrow> host list \<Rightarrow> tool_error + string" where
  "resolveHostRef hostRef hosts =
     (case host_loop hostRef hosts [] of
        Inl i \<Rightarrow> Inr i
      | Inr [] \<Rightarrow> Inl (NoHostMatching hostRef)
      | Inr [h] \<Rightarrow> Inr (h_ID h)
      | Inr byName \<Rightarrow> Inl (HostAmbiguous hostRef (map (\<lambda>h. (h_Name h, h_ID h)) byName)))"

definition isRunning :: "container \<Rightarrow> bool" where
  "isRunning c \<longleftrightarrow> EqualFold (c_State c) ''running''"

definition runningContainers :: "container list \<Rightarrow> container list" where
  "runningContainers cs = filter isRunning cs"

definition describeState :: "container \<Rightarrow> string" where
  "describeState c =
     (let state = (if c_State c = [] then ''unknown'' else c_State c)
      in if c_Health c \<noteq> [] then state @ '' ('' @ c_Health c @ '')'' else state)"

definition shortID :: "string \<Rightarrow> string" where
  "shortID i = (if 12 < length i then take 12 i else i)"

text \<open>The last component tells which hint the error ends with: only an identifier or a full name helps.\<close>

definition ambiguousError :: "string \<Rightarrow> string \<Rightarrow> container list \<Rightarrow> (string \<rightharpoonup> string) \<Rightarrow> tool_error" where
  "ambiguousError containerRef hostRef candidates hostNames =
     ContainerAmbiguous containerRef
       (map (\<lambda>c. (c_Name c, shortID (c_ID c), describeState c, resolveHostName (c_Host c) hostNames)) candidates)
       (hostRef \<noteq> [] \<or> list_all (\<lambda>c. c_Host c = c_Host (hd candidates)) candidates)"

record tool_deps =
  td_EnableActions :: bool
  td_HostService :: host_service
  td_Labels :: label_arg

definition tier_step ::
    "string \<Rightarrow> container \<Rightarrow> container list \<times> container list \<times> container list \<Rightarrow> container list \<times> container list \<times> container list" where
  "tier_step ref c t =
     (case t of (exactID, exactName, substring) \<Rightarrow>
        (if matchesID (c_ID c) ref then (exactID @ [c], exactName, substring)
         else if EqualFold (c_Name c) ref then (exactID, exactName @ [c], substring)
         else if containsIgnoreCase (c_Name c) ref then (exactID, exactName, substring @ [c])
         else (exactID, exactName, substring)))"

definition winning_tier :: "string \<Rightarrow> container list \<Rightarrow> container list" where
  "winning_tier ref cs =
     (case fold (tier_step ref) cs ([], [], []) of (exactID, exactName, substring) \<Rightarrow>
        (if exactID \<noteq> [] then exactID else if exactName \<noteq> [] then exactName else substring))"

text \<open>The containers a reference is looked up among and the host they are restricted to, empty when no host is named.\<close>

definition search_scope :: "string \<Rightarrow> tool_deps \<Rightarrow> tool_error + container list \<times> string" where
  "search_scope hostRef deps =
     (let containers = hs_ListAllContainers (td_HostService deps) (td_Labels deps)
      in if TrimSpace hostRef = [] then Inr (containers, [])
         else case resolveHostRef (TrimSpace hostRef) (hs_Hosts (td_HostService deps)) of
                Inl e \<Rightarrow> Inl e
              | Inr h \<Rightarrow> Inr (filter (\<lambda>c. c_Host c = h) containers, h))"

definition matchContainerTier :: "string \<Rightarrow> string \<Rightarrow> tool_deps \<Rightarrow> tool_error + container list \<times> string" where
  "matchContainerTier containerRef hostRef deps =
     (if TrimSpace containerRef = [] then Inl ContainerIdRequired
      else case search_scope hostRef deps of
             Inl e \<Rightarrow> Inl e
           | Inr (cs, h) \<Rightarrow> Inr (winning_tier (TrimSpace containerRef) cs, h))"

definition host_names :: "tool_deps \<Rightarrow> string \<rightharpoonup> string" where
  "host_names deps = buildHostNameMap (hs_Hosts (td_HostService deps))"

definition resolveContainerRef :: "string \<Rightarrow> string \<Rightarrow> tool_deps \<Rightarrow> tool_error + string \<times> string" where
  "resolveContainerRef containerRef hostRef deps =
     (case matchContainerTier containerRef hostRef deps of
        Inl e \<Rightarrow> Inl e
      | Inr ([], scoped) \<Rightarrow>
          (if scoped \<noteq> [] then Inr (scoped, TrimSpace containerRef) else Inl (NoContainerMatching (TrimSpace containerRef)))
      | Inr ([c], _) \<Rightarrow> Inr (c_Host c, c_ID c)
      | Inr (tier, _) \<Rightarrow>
          (case runningContainers tier of
             [c] \<Rightarrow> Inr (c_Host c, c_ID c)
           | _ \<Rightarrow> Inl (ambiguousError (TrimSpace containerRef) (TrimSpace hostRef) tier (host_names deps))))"

definition moreRelevant :: "container \<Rightarrow> container \<Rightarrow> bool" where
  "moreRelevant a b =
     (if isRunning a \<noteq> isRunning b then isRunning a
      else if c_StartedAt a \<noteq> c_StartedAt b then c_StartedAt b < c_StartedAt a
      else if c_FinishedAt a \<noteq> c_FinishedAt b then c_FinishedAt b < c_FinishedAt a
      else c_Created b < c_Created a)"

fun bestCandidate :: "container list \<Rightarrow> container option" where
  "bestCandidate [] = None"
| "bestCandidate (c # cs) = Some (fold (\<lambda>c best. if moreRelevant c best then c else best) cs c)"

datatype resolution_summary = NewestRunning nat | MostRecentStopped nat | OneOf nat

record resolution_note =
  rn_ref :: string
  rn_chosen :: string
  rn_state :: string
  rn_summary :: resolution_summary
  rn_others :: "(string \<times> string option) list"

definition resolutionNote :: "string \<Rightarrow> container \<Rightarrow> container list \<Rightarrow> (string \<rightharpoonup> string) \<Rightarrow> resolution_note" where
  "resolutionNote containerRef chosen candidates hostNames =
     (let running = length (runningContainers candidates);
          multiHost = list_ex (\<lambda>c. c_Host c \<noteq> c_Host chosen) candidates
      in \<lparr>rn_ref = containerRef, rn_chosen = c_Name chosen, rn_state = describeState chosen,
          rn_summary = (if 1 < running \<and> isRunning chosen then NewestRunning running
                        else if running = 0 then MostRecentStopped (length candidates)
                        else OneOf (length candidates)),
          rn_others = map (\<lambda>c. (c_Name c, if multiHost then Some (resolveHostName (c_Host c) hostNames) else None))
                        (filter (\<lambda>c. c_ID c \<noteq> c_ID chosen) candidates)\<rparr>)"

definition resolveContainerRefRead ::
    "string \<Rightarrow> string \<Rightarrow> tool_deps \<Rightarrow> tool_error + string \<times> string \<times> resolution_note option" where
  "resolveContainerRefRead containerRef hostRef deps =
     (case matchContainerTier containerRef hostRef deps of
        Inl e \<Rightarrow> Inl e
      | Inr ([], scoped) \<Rightarrow>
          (if scoped \<noteq> [] then Inr (scoped, TrimSpace containerRef, None)
           else Inl (NoContainerMatching (TrimSpace containerRef)))
      | Inr ([c], _) \<Rightarrow> Inr (c_Host c, c_ID c, None)
      | Inr (tier, _) \<Rightarrow>
          (case runningContainers tier of
             [c] \<Rightarrow> Inr (c_Host c, c_ID c, None)
           | _ \<Rightarrow>
               (let best = the (bestCandidate tier)
                in Inr (c_Host best, c_ID best, Some (resolutionNote (TrimSpace containerRef) best tier (host_names deps))))))"

subsection \<open>Arguments\<close>

text \<open>
  Decoding an object into a struct: a member names a field whatever the case of its letters, the last one wins, \<open>null\<close>
  leaves the field as it is and a value of another type is an error.
\<close>

definition decode_field :: "(json \<Rightarrow> 'a option) \<Rightarrow> string \<Rightarrow> 'a \<Rightarrow> (string \<times> json) list \<Rightarrow> tool_error + 'a" where
  "decode_field conv field dflt members =
     foldE (\<lambda>v (k, j). if EqualFold k field \<and> j \<noteq> JNull then (case conv j of None \<Rightarrow> Inl ParseFailed | Some w \<Rightarrow> Inr w) else Inr v)
       dflt members"

definition as_string :: "json \<Rightarrow> string option" where
  "as_string j = (case j of JStr s \<Rightarrow> Some s | _ \<Rightarrow> None)"

definition as_bool :: "json \<Rightarrow> bool option" where
  "as_bool j = (case j of JBool b \<Rightarrow> Some b | _ \<Rightarrow> None)"

definition as_int :: "json \<Rightarrow> int option" where
  "as_int j = (case j of JNum x \<Rightarrow> if x = of_int \<lfloor>x\<rfloor> \<and> in_int64 \<lfloor>x\<rfloor> then Some \<lfloor>x\<rfloor> else None | _ \<Rightarrow> None)"

definition members :: "json option \<Rightarrow> tool_error + (string \<times> json) list" where
  "members args = (case args of Some (JObj ms) \<Rightarrow> Inr ms | Some JNull \<Rightarrow> Inr [] | _ \<Rightarrow> Inl ParseFailed)"

definition string_field :: "json option \<Rightarrow> string \<Rightarrow> tool_error + string" where
  "string_field args field = (case members args of Inl e \<Rightarrow> Inl e | Inr ms \<Rightarrow> decode_field as_string field [] ms)"

definition bool_field :: "json option \<Rightarrow> string \<Rightarrow> tool_error + bool" where
  "bool_field args field = (case members args of Inl e \<Rightarrow> Inl e | Inr ms \<Rightarrow> decode_field as_bool field False ms)"

definition int_field :: "json option \<Rightarrow> string \<Rightarrow> tool_error + int" where
  "int_field args field = (case members args of Inl e \<Rightarrow> Inl e | Inr ms \<Rightarrow> decode_field as_int field 0 ms)"

definition andE :: "'e + 'a \<Rightarrow> ('a \<Rightarrow> 'e + 'b) \<Rightarrow> 'e + 'b" where
  "andE r f = (case r of Inl e \<Rightarrow> Inl e | Inr x \<Rightarrow> f x)"

definition containerActionArgs :: "json option \<Rightarrow> tool_error + string \<times> string" where
  "containerActionArgs args =
     andE (string_field args ''container_id'') (\<lambda>c. andE (string_field args ''host_id'') (\<lambda>h. Inr (c, h)))"

subsection \<open>Reading tools\<close>

record host_info =
  hi_Id :: string
  hi_Name :: string
  hi_NCpu :: int
  hi_MemTotal :: int
  hi_DockerVersion :: string
  hi_AgentVersion :: string
  hi_Type :: string
  hi_Available :: bool

record stat_entry =
  se_Id :: string
  se_Name :: string
  se_Host :: string
  se_HostId :: string
  se_CpuPercent :: real
  se_MemoryPercent :: real
  se_MemoryUsage :: real
  se_MaxCpu :: real
  se_MaxMemory :: real
  se_NetworkRxTotal :: "64 word"
  se_NetworkTxTotal :: "64 word"
  se_NetworkRx :: "64 word"
  se_NetworkTx :: "64 word"

record log_entry =
  lg_Timestamp :: int
  lg_Message :: string
  lg_Stream :: string
  lg_Level :: string

record inspect_result =
  ir_info :: tool_container
  ir_Labels :: "string \<rightharpoonup> string"
  ir_MemoryLimit :: "64 word"
  ir_CpuLimit :: real
  ir_Ports :: "string list"
  ir_Mounts :: "string list"
  ir_RestartPolicy :: string
  ir_NetworkMode :: string

record action_result =
  ar_ContainerId :: string
  ar_Action :: string
  ar_Message :: string

datatype tool_result =
    ListHosts "host_info list"
  | ListContainers "tool_container list"
  | ContainerStats "stat_entry list"
  | FetchLogs string "resolution_note option" "log_entry list"
  | InspectContainer inspect_result
  | ActionDone action_result
  | NotificationText string

definition executeListHosts :: "tool_deps \<Rightarrow> tool_result" where
  "executeListHosts deps =
     ListHosts (map (\<lambda>h. \<lparr>hi_Id = h_ID h, hi_Name = h_Name h, hi_NCpu = wrap32 (h_NCPU h), hi_MemTotal = h_MemTotal h,
         hi_DockerVersion = h_DockerVersion h, hi_AgentVersion = h_AgentVersion h, hi_Type = h_Type h,
         hi_Available = h_Available h\<rparr>) (hs_Hosts (td_HostService deps)))"

definition tool_containers :: "tool_deps \<Rightarrow> container list" where
  "tool_containers deps = hs_ListAllContainers (td_HostService deps) (td_Labels deps)"

text \<open>No arguments at all, the empty text, are no filters.\<close>

definition executeFindContainers :: "bool \<Rightarrow> json option \<Rightarrow> tool_deps \<Rightarrow> tool_error + tool_result" where
  "executeFindContainers blank args deps =
     (let field = (\<lambda>f. if blank then Inr [] else string_field args f)
      in andE (field ''name'') (\<lambda>name. andE (field ''image'') (\<lambda>image. andE (field ''state'') (\<lambda>state. andE (field ''health'') (\<lambda>health.
           Inr (ListContainers (map (\<lambda>c. containerToProto c (host_names deps)) (filter (\<lambda>c.
             (name = [] \<or> containsIgnoreCase (c_Name c) name) \<and> (image = [] \<or> containsIgnoreCase (c_Image c) image)
               \<and> (state = [] \<or> EqualFold (c_State c) state) \<and> (health = [] \<or> EqualFold (c_Health c) health))
             (tool_containers deps)))))))))"

definition executeListRunningContainers :: "tool_deps \<Rightarrow> tool_result" where
  "executeListRunningContainers deps =
     ListContainers (map (\<lambda>c. containerToProto c (host_names deps)) (filter (\<lambda>c. c_State c = ''running'') (tool_containers deps)))"

definition executeListAllContainers :: "tool_deps \<Rightarrow> tool_result" where
  "executeListAllContainers deps = ListContainers (map (\<lambda>c. containerToProto c (host_names deps)) (tool_containers deps))"

definition net_delta :: "64 word \<Rightarrow> 64 word \<Rightarrow> 64 word" where
  "net_delta newest oldest = (if oldest \<le> newest then newest - oldest else 0)"

text \<open>The latest and the first sample and the peaks, which start at zero.\<close>

definition stat_entry_of :: "(string \<rightharpoonup> string) \<Rightarrow> container \<Rightarrow> container_stat list \<Rightarrow> stat_entry" where
  "stat_entry_of hostNames c stats =
     (let newest = last stats; oldest = hd stats
      in \<lparr>se_Id = c_ID c, se_Name = c_Name c, se_Host = resolveHostName (c_Host c) hostNames, se_HostId = c_Host c,
          se_CpuPercent = st_CPUPercent newest, se_MemoryPercent = st_MemoryPercent newest, se_MemoryUsage = st_MemoryUsage newest,
          se_MaxCpu = fold (\<lambda>s m. max m (st_CPUPercent s)) stats 0, se_MaxMemory = fold (\<lambda>s m. max m (st_MemoryPercent s)) stats 0,
          se_NetworkRxTotal = st_NetworkRxTotal newest, se_NetworkTxTotal = st_NetworkTxTotal newest,
          se_NetworkRx = net_delta (st_NetworkRxTotal newest) (st_NetworkRxTotal oldest),
          se_NetworkTx = net_delta (st_NetworkTxTotal newest) (st_NetworkTxTotal oldest)\<rparr>)"

fun stat_entries :: "(string \<rightharpoonup> string) \<Rightarrow> container list \<Rightarrow> go_panic + stat_entry list" where
  "stat_entries hostNames [] = Inr []"
| "stat_entries hostNames (c # cs) =
     (case c_Stats c of
        Some rb \<Rightarrow>
          (if c_State c \<noteq> ''running'' \<or> Len rb = 0 then stat_entries hostNames cs
           else case Data rb of
                  Inl e \<Rightarrow> Inl e
                | Inr stats \<Rightarrow>
                    (case stat_entries hostNames cs of Inl e \<Rightarrow> Inl e | Inr es \<Rightarrow> Inr (stat_entry_of hostNames c stats # es)))
      | None \<Rightarrow> stat_entries hostNames cs)"

definition executeGetRunningContainerStats :: "tool_deps \<Rightarrow> go_panic + tool_result" where
  "executeGetRunningContainerStats deps =
     (case stat_entries (host_names deps) (tool_containers deps) of Inl e \<Rightarrow> Inl e | Inr es \<Rightarrow> Inr (ContainerStats es))"

definition find_for_tool :: "string \<Rightarrow> string \<Rightarrow> tool_deps \<Rightarrow> tool_error + container" where
  "find_for_tool h i deps =
     (case hs_FindContainer (td_HostService deps) h i (td_Labels deps) of Inl e \<Rightarrow> Inl (ContainerNotFound e) | Inr c \<Rightarrow> Inr c)"

definition executeInspectContainer :: "json option \<Rightarrow> tool_deps \<Rightarrow> tool_error + tool_result" where
  "executeInspectContainer args deps =
     andE (containerActionArgs args) (\<lambda>(cref, href). andE (resolveContainerRefRead cref href deps) (\<lambda>(h, i, _).
       andE (find_for_tool h i deps) (\<lambda>c.
         Inr (InspectContainer \<lparr>ir_info = (containerToProto c (host_names deps))\<lparr>ci_Group := []\<rparr>, ir_Labels = c_Labels c,
            ir_MemoryLimit = c_MemoryLimit c, ir_CpuLimit = c_CPULimit c, ir_Ports = c_Ports c, ir_Mounts = mountStrings (c_Mounts c),
            ir_RestartPolicy = c_RestartPolicy c, ir_NetworkMode = c_NetworkMode c\<rparr>))))"

subsection \<open>Fetching logs\<close>

text \<open>
  \<open>tl_parse\<close> is \<open>time.Parse\<close> for RFC 3339, \<open>tl_compile\<close> is \<open>regexp.Compile\<close>, \<open>tl_show\<close> formats a message with \<open>%v\<close> and
  \<open>tl_quote\<close> with \<open>%q\<close>.  The engine tells whether an action succeeds, whether an update replaced the container (\<open>None\<close> when it
  failed) and which log events lie between two instants.
\<close>

record tool_lib =
  tl_parse :: "string \<Rightarrow> gotime option"
  tl_compile :: "string \<Rightarrow> regexp option"
  tl_show :: "log_message \<Rightarrow> string"
  tl_quote :: "string \<Rightarrow> string"
  tl_now :: gotime

record tool_engine =
  te_Action :: "container \<Rightarrow> container_action \<Rightarrow> bool"
  te_Update :: "container \<Rightarrow> bool option"
  te_Logs :: "container \<Rightarrow> gotime \<Rightarrow> gotime \<Rightarrow> log_event list option"

record fetch_args =
  fa_ContainerID :: string
  fa_Host :: string
  fa_Start :: string
  fa_End :: string
  fa_Level :: string
  fa_Query :: string
  fa_Regex :: string
  fa_Inverse :: bool

definition fetchLogsArgs :: "json option \<Rightarrow> tool_error + fetch_args" where
  "fetchLogsArgs args =
     (let f = string_field args
      in andE (f ''container_id'') (\<lambda>c. andE (f ''host_id'') (\<lambda>h. andE (f ''start'') (\<lambda>s. andE (f ''end'') (\<lambda>e. andE (f ''level'') (\<lambda>l.
           andE (f ''query'') (\<lambda>q. andE (f ''regex'') (\<lambda>r. andE (bool_field args ''inverse'') (\<lambda>inv.
             Inr \<lparr>fa_ContainerID = c, fa_Host = h, fa_Start = s, fa_End = e, fa_Level = l, fa_Query = q, fa_Regex = r,
                  fa_Inverse = inv\<rparr>)))))))))"

definition matchesFilters :: "tool_lib \<Rightarrow> fetch_args \<Rightarrow> regexp option \<Rightarrow> log_event \<Rightarrow> string option" where
  "matchesFilters lib args re event =
     (let msg = (if le_RawMessage event = [] then tl_show lib (le_Message event) else le_RawMessage event)
      in if fa_Level args \<noteq> [] \<and> \<not> EqualFold (le_Level event) (fa_Level args) then None
         else if fa_Query args \<noteq> [] \<and> containsIgnoreCase msg (fa_Query args) = fa_Inverse args then None
         else case re of
                None \<Rightarrow> Some msg
              | Some r \<Rightarrow> if MatchString r msg = fa_Inverse args then None else Some msg)"

definition to_entry :: "log_event \<Rightarrow> string \<Rightarrow> log_entry" where
  "to_entry event msg = \<lparr>lg_Timestamp = le_Timestamp event, lg_Message = msg, lg_Stream = le_Stream event, lg_Level = le_Level event\<rparr>"

definition matched_entry :: "tool_lib \<Rightarrow> fetch_args \<Rightarrow> regexp option \<Rightarrow> log_event \<Rightarrow> log_entry option" where
  "matched_entry lib args re event = map_option (to_entry event) (matchesFilters lib args re event)"

definition maxLines :: nat where "maxLines = 100"

text \<open>The loop over the channel, which stops at \<open>maxLines\<close> entries.\<close>

fun collect_entries :: "(log_event \<Rightarrow> log_entry option) \<Rightarrow> log_entry list \<Rightarrow> log_event list \<Rightarrow> log_entry list" where
  "collect_entries f entries [] = entries"
| "collect_entries f entries (e # es) =
     (case f e of
        None \<Rightarrow> collect_entries f entries es
      | Some x \<Rightarrow>
          (if maxLines \<le> length (entries @ [x]) then entries @ [x] else collect_entries f (entries @ [x]) es))"

definition optional_time :: "tool_lib \<Rightarrow> tool_error \<Rightarrow> gotime \<Rightarrow> string \<Rightarrow> tool_error + gotime" where
  "optional_time lib err dflt s =
     (if s = [] then Inr dflt else case tl_parse lib s of None \<Rightarrow> Inl err | Some t \<Rightarrow> Inr t)"

definition optional_regex :: "tool_lib \<Rightarrow> string \<Rightarrow> tool_error + regexp option" where
  "optional_regex lib s = (if s = [] then Inr None else case tl_compile lib s of None \<Rightarrow> Inl InvalidRegex | Some r \<Rightarrow> Inr (Some r))"

definition executeFetchContainerLogs :: "tool_lib \<Rightarrow> tool_engine \<Rightarrow> json option \<Rightarrow> tool_deps \<Rightarrow> tool_error + tool_result" where
  "executeFetchContainerLogs lib eng argsJSON deps =
     andE (fetchLogsArgs argsJSON) (\<lambda>args. andE (resolveContainerRefRead (fa_ContainerID args) (fa_Host args) deps) (\<lambda>(h, i, note).
       andE (find_for_tool h i deps) (\<lambda>c.
         andE (optional_time lib InvalidStart (tl_now lib - Hour) (fa_Start args)) (\<lambda>start.
           andE (optional_time lib InvalidEnd (tl_now lib) (fa_End args)) (\<lambda>stop.
             andE (optional_regex lib (fa_Regex args)) (\<lambda>re.
               case te_Logs eng c start stop of
                 None \<Rightarrow> Inl FetchFailed
               | Some events \<Rightarrow> Inr (FetchLogs (c_Name c) note (collect_entries (matched_entry lib args re) [] events))))))))"

subsection \<open>Acting tools\<close>

definition resolveAction :: "string \<Rightarrow> tool_error + container_action" where
  "resolveAction name =
     (if name = ''start_container'' then Inr Action_Start
      else if name = ''stop_container'' then Inr Action_Stop
      else if name = ''restart_container'' then Inr Action_Restart
      else if name = ''remove_container'' then Inr Action_Remove
      else Inl (UnknownAction name))"

definition pastTense :: "container_action \<Rightarrow> string" where
  "pastTense a = (case a of Action_Start \<Rightarrow> ''started'' | Action_Stop \<Rightarrow> ''stopped'' | Action_Restart \<Rightarrow> ''restarted'' | Action_Remove \<Rightarrow> ''removed'')"

definition action_string :: "container_action \<Rightarrow> string" where
  "action_string a = (case a of Action_Start \<Rightarrow> ''start'' | Action_Stop \<Rightarrow> ''stop'' | Action_Restart \<Rightarrow> ''restart'' | Action_Remove \<Rightarrow> ''remove'')"

definition tool_target :: "json option \<Rightarrow> tool_deps \<Rightarrow> tool_error + container" where
  "tool_target args deps =
     andE (containerActionArgs args) (\<lambda>(cref, href). andE (resolveContainerRef cref href deps) (\<lambda>(h, i). find_for_tool h i deps))"

definition executeContainerAction ::
    "tool_engine \<Rightarrow> string \<Rightarrow> json option \<Rightarrow> tool_deps \<Rightarrow> (tool_error + tool_result) \<times> deed list" where
  "executeContainerAction eng name args deps =
     (case andE (containerActionArgs args) (\<lambda>_. resolveAction name) of
        Inl e \<Rightarrow> (Inl e, [])
      | Inr a \<Rightarrow>
          (case tool_target args deps of
             Inl e \<Rightarrow> (Inl e, [])
           | Inr c \<Rightarrow>
               (if te_Action eng c a
                then Inr (ActionDone \<lparr>ar_ContainerId = c_ID c, ar_Action = action_string a,
                            ar_Message = ''Successfully '' @ pastTense a @ '' container '' @ c_Name c @ ''.''\<rparr>)
                else Inl ActionFailed, [Acted c a])))"

definition executeUpdateContainer :: "tool_engine \<Rightarrow> json option \<Rightarrow> tool_deps \<Rightarrow> (tool_error + tool_result) \<times> deed list" where
  "executeUpdateContainer eng args deps =
     (case tool_target args deps of
        Inl e \<Rightarrow> (Inl e, [])
      | Inr c \<Rightarrow>
          (case te_Update eng c of
             None \<Rightarrow> Inl UpdateFailed
           | Some updated \<Rightarrow>
               Inr (ActionDone \<lparr>ar_ContainerId = c_ID c, ar_Action = ''update'',
                      ar_Message = (if updated then ''Successfully updated container '' @ c_Name c @ '' by pulling the latest image and recreating it.''
                                    else ''Container '' @ c_Name c @ '' is already running the latest image. No update was needed.'')\<rparr>),
           [Updated c]))"

subsection \<open>Notification tools\<close>

text \<open>
  The notification service is the service over all hosts: how it lists subscriptions and how it adds one.  An added
  subscription has the identifier that the counter of the manager reached.
\<close>

record notif_service =
  ns_Subscriptions :: "multi_host \<Rightarrow> subscription list"
  ns_AddSubscription :: "subscription \<Rightarrow> multi_host \<Rightarrow> compile_error option \<times> multi_host"

definition subscriptionKind :: "subscription \<Rightarrow> string" where
  "subscriptionKind s =
     (let kinds = (if LogExpression s \<noteq> [] then [''log''] else []) @ (if MetricExpression s \<noteq> [] then [''metric''] else [])
                  @ (if EventExpression s \<noteq> [] then [''event''] else [])
      in if kinds = [] then ''empty'' else str_join ''+'' kinds)"

definition list_line :: "tool_lib \<Rightarrow> subscription \<Rightarrow> string" where
  "list_line lib s =
     ''  - #'' @ show_int (sub_ID s) @ '' '' @ tl_quote lib (sub_Name s) @ '' ['' @ subscriptionKind s @ '', enabled=''
       @ (if sub_Enabled s then ''true'' else ''false'') @ '']'' @ [CHR 0x0A]
     @ (if ContainerExpression s \<noteq> [] then ''      container: '' @ ContainerExpression s @ [CHR 0x0A] else [])
     @ (if LogExpression s \<noteq> [] then ''      log:       '' @ LogExpression s @ [CHR 0x0A] else [])
     @ (if MetricExpression s \<noteq> []
        then ''      metric:    '' @ MetricExpression s @ '' (cooldown='' @ show_int (GetCooldownSeconds s) @ ''s, window=''
               @ show_int (GetSampleWindowSeconds s) @ ''s)'' @ [CHR 0x0A] else [])
     @ (if EventExpression s \<noteq> [] then ''      event:     '' @ EventExpression s @ [CHR 0x0A] else [])"

definition executeListNotifications :: "tool_lib \<Rightarrow> notif_service option \<Rightarrow> multi_host \<Rightarrow> tool_error + tool_result" where
  "executeListNotifications lib ns mh =
     (case ns of
        None \<Rightarrow> Inl NotificationsNotConfigured
      | Some n \<Rightarrow>
          (let subs = ns_Subscriptions n mh
           in Inr (NotificationText (''Subscriptions ('' @ show_nat (length subs) @ ''):'' @ [CHR 0x0A]
                @ (if subs = [] then ''  (none)'' @ [CHR 0x0A] else []) @ concat (map (list_line lib) subs)))))"

text \<open>The fields are visited in the order of a map, so that any of the missing ones may be named: \<open>pick\<close> chooses.\<close>

definition requireNonEmpty :: "(string list \<Rightarrow> string) \<Rightarrow> (string \<times> string) list \<Rightarrow> tool_error option" where
  "requireNonEmpty pick required =
     (let missing = map fst (filter (\<lambda>(_, v). v = []) required) in if missing = [] then None else Some (FieldRequired (pick missing)))"

definition addSubscriptionResponse ::
    "tool_lib \<Rightarrow> notif_service \<Rightarrow> subscription \<Rightarrow> multi_host \<Rightarrow> (tool_error + tool_result) \<times> multi_host" where
  "addSubscriptionResponse lib n sub mh =
     (case ns_AddSubscription n sub mh of
        (Some e, mh') \<Rightarrow> (Inl (CreatingSubscription e), mh')
      | (None, mh') \<Rightarrow>
          (Inr (NotificationText (''Created alert '' @ tl_quote lib (sub_Name sub) @ '' (id=''
                  @ show_int (m_subscriptionCounter (p_Manager (mh_persister mh'))) @ '').'')), mh'))"

definition create_notification ::
    "tool_lib \<Rightarrow> (string list \<Rightarrow> string) \<Rightarrow> notif_service option \<Rightarrow> (string \<times> string) list \<Rightarrow> subscription_config \<Rightarrow> multi_host
       \<Rightarrow> (tool_error + tool_result) \<times> multi_host" where
  "create_notification lib pick ns required cfg mh =
     (case ns of
        None \<Rightarrow> (Inl NotificationsNotConfigured, mh)
      | Some n \<Rightarrow>
          (case requireNonEmpty pick required of
             Some e \<Rightarrow> (Inl e, mh)
           | None \<Rightarrow> addSubscriptionResponse lib n (new_subscription cfg) mh))"

definition cloudDispatcherID :: int where "cloudDispatcherID = 0"

definition tool_alert :: "string \<Rightarrow> string \<Rightarrow> subscription_config" where
  "tool_alert name cexpr =
     zero_SubscriptionConfig\<lparr>sub_Name := name, DispatcherID := cloudDispatcherID, ContainerExpression := cexpr\<rparr>"

definition executeCreateLogNotification ::
    "tool_lib \<Rightarrow> (string list \<Rightarrow> string) \<Rightarrow> notif_service option \<Rightarrow> json option \<Rightarrow> multi_host \<Rightarrow> (tool_error + tool_result) \<times> multi_host" where
  "executeCreateLogNotification lib pick ns args mh =
     (case andE (string_field args ''name'') (\<lambda>n. andE (string_field args ''container_expression'') (\<lambda>c.
             andE (string_field args ''log_expression'') (\<lambda>x. Inr (n, c, x)))) of
        Inl e \<Rightarrow> (Inl (if ns = None then NotificationsNotConfigured else e), mh)
      | Inr (n, c, x) \<Rightarrow>
          create_notification lib pick ns [(''name'', n), (''container_expression'', c), (''log_expression'', x)]
            ((tool_alert n c)\<lparr>LogExpression := x\<rparr>) mh)"

definition executeCreateMetricNotification ::
    "tool_lib \<Rightarrow> (string list \<Rightarrow> string) \<Rightarrow> notif_service option \<Rightarrow> json option \<Rightarrow> multi_host \<Rightarrow> (tool_error + tool_result) \<times> multi_host" where
  "executeCreateMetricNotification lib pick ns args mh =
     (case andE (string_field args ''name'') (\<lambda>n. andE (string_field args ''container_expression'') (\<lambda>c.
             andE (string_field args ''metric_expression'') (\<lambda>x. andE (int_field args ''cooldown_seconds'') (\<lambda>cd.
               andE (int_field args ''sample_window_seconds'') (\<lambda>w. Inr (n, c, x, cd, w)))))) of
        Inl e \<Rightarrow> (Inl (if ns = None then NotificationsNotConfigured else e), mh)
      | Inr (n, c, x, cd, w) \<Rightarrow>
          create_notification lib pick ns [(''name'', n), (''container_expression'', c), (''metric_expression'', x)]
            ((tool_alert n c)\<lparr>MetricExpression := x, Cooldown := cd, SampleWindow := w\<rparr>) mh)"

definition executeCreateEventNotification ::
    "tool_lib \<Rightarrow> (string list \<Rightarrow> string) \<Rightarrow> notif_service option \<Rightarrow> json option \<Rightarrow> multi_host \<Rightarrow> (tool_error + tool_result) \<times> multi_host" where
  "executeCreateEventNotification lib pick ns args mh =
     (case andE (string_field args ''name'') (\<lambda>n. andE (string_field args ''container_expression'') (\<lambda>c.
             andE (string_field args ''event_expression'') (\<lambda>x. Inr (n, c, x)))) of
        Inl e \<Rightarrow> (Inl (if ns = None then NotificationsNotConfigured else e), mh)
      | Inr (n, c, x) \<Rightarrow>
          create_notification lib pick ns [(''name'', n), (''container_expression'', c), (''event_expression'', x)]
            ((tool_alert n c)\<lparr>EventExpression := x\<rparr>) mh)"

subsection \<open>Dispatch\<close>

record tool_definition =
  to_Name :: string
  to_ReadOnly :: bool

text \<open>The tools of \<open>AvailableTools\<close> without their descriptions and schemas.\<close>

definition AvailableTools :: "bool \<Rightarrow> tool_definition list" where
  "AvailableTools enableActions =
     map (\<lambda>n. \<lparr>to_Name = n, to_ReadOnly = True\<rparr>)
       [''list_hosts'', ''find_containers'', ''list_running_containers'', ''list_all_containers'', ''get_running_container_stats'',
        ''fetch_container_logs'', ''stream_logs'', ''list_notifications'', ''inspect_container'']
     @ (if enableActions
        then map (\<lambda>n. \<lparr>to_Name = n, to_ReadOnly = False\<rparr>)
               [''start_container'', ''stop_container'', ''restart_container'', ''remove_container'', ''update_container'',
                ''create_log_notification'', ''create_metric_notification'', ''create_event_notification'']
        else [])"

definition requiresActions :: "string list" where
  "requiresActions =
     [''start_container'', ''stop_container'', ''restart_container'', ''remove_container'', ''update_container'',
      ''create_log_notification'', ''create_metric_notification'', ''create_event_notification'']"

record tool_call =
  tc_Name :: string
  tc_blank :: bool
  tc_args :: "json option"

record tool_world =
  tw_lib :: tool_lib
  tw_engine :: tool_engine
  tw_pick :: "string list \<Rightarrow> string"
  tw_notifications :: "notif_service option"
  tw_deps :: tool_deps

text \<open>The outcome of a call: a panic, or its answer, what was done to containers and the settings afterwards.\<close>

type_synonym tool_outcome = "go_panic + (tool_error + tool_result) \<times> deed list \<times> multi_host"

definition executeTool :: "tool_world \<Rightarrow> bool \<Rightarrow> tool_call \<Rightarrow> multi_host \<Rightarrow> tool_outcome" where
  "executeTool w cancelled call mh =
     (let name = tc_Name call; args = tc_args call; deps = tw_deps w; lib = tw_lib w; ns = tw_notifications w; eng = tw_engine w;
          reads = (\<lambda>r. Inr (r, [], mh)); acts = (\<lambda>(r, ds). Inr (r, ds, mh)); notes = (\<lambda>(r, mh'). Inr (r, [], mh'))
      in if cancelled then reads (Inl ContextDone)
         else if name \<in> set requiresActions \<and> \<not> td_EnableActions deps then reads (Inl ActionsNotEnabled)
         else if name = ''list_hosts'' then reads (Inr (executeListHosts deps))
         else if name = ''find_containers'' then reads (executeFindContainers (tc_blank call) args deps)
         else if name = ''list_running_containers'' then reads (Inr (executeListRunningContainers deps))
         else if name = ''list_all_containers'' then reads (Inr (executeListAllContainers deps))
         else if name = ''get_running_container_stats''
              then (case executeGetRunningContainerStats deps of Inl p \<Rightarrow> Inl p | Inr r \<Rightarrow> reads (Inr r))
         else if name = ''fetch_container_logs'' then reads (executeFetchContainerLogs lib eng args deps)
         else if name = ''inspect_container'' then reads (executeInspectContainer args deps)
         else if name = ''list_notifications'' then reads (executeListNotifications lib ns mh)
         else if name \<in> {''start_container'', ''stop_container'', ''restart_container'', ''remove_container''}
              then acts (executeContainerAction eng name args deps)
         else if name = ''update_container'' then acts (executeUpdateContainer eng args deps)
         else if name = ''create_log_notification'' then notes (executeCreateLogNotification lib (tw_pick w) ns args mh)
         else if name = ''create_metric_notification'' then notes (executeCreateMetricNotification lib (tw_pick w) ns args mh)
         else if name = ''create_event_notification'' then notes (executeCreateEventNotification lib (tw_pick w) ns args mh)
         else reads (Inl (UnknownTool name)))"

record tool_answer =
  ta_Success :: bool
  ta_Error :: "tool_error option"
  ta_Result :: "tool_result option"

definition ExecuteTool :: "tool_world \<Rightarrow> bool \<Rightarrow> tool_call \<Rightarrow> multi_host \<Rightarrow> go_panic + tool_answer \<times> deed list \<times> multi_host" where
  "ExecuteTool w cancelled call mh =
     (case executeTool w cancelled call mh of
        Inl p \<Rightarrow> Inl p
      | Inr (Inl e, ds, mh') \<Rightarrow> Inr (\<lparr>ta_Success = False, ta_Error = Some e, ta_Result = None\<rparr>, ds, mh')
      | Inr (Inr r, ds, mh') \<Rightarrow> Inr (\<lparr>ta_Success = True, ta_Error = None, ta_Result = Some r\<rparr>, ds, mh'))"

subsection \<open>The tiers as ranks\<close>

text \<open>How well a reference fits a container: an identifier, the whole name, a part of the name, or not at all.\<close>

definition match_rank :: "string \<Rightarrow> container \<Rightarrow> nat" where
  "match_rank ref c =
     (if matchesID (c_ID c) ref then 0 else if EqualFold (c_Name c) ref then 1
      else if containsIgnoreCase (c_Name c) ref then 2 else 3)"

lemma tiers_by_rank:
  "fold (tier_step ref) cs (a, b, d)
     = (a @ filter (\<lambda>c. match_rank ref c = 0) cs, b @ filter (\<lambda>c. match_rank ref c = 1) cs, d @ filter (\<lambda>c. match_rank ref c = 2) cs)"
  by (induction cs arbitrary: a b d) (simp_all add: tier_step_def match_rank_def)

definition best_rank :: "string \<Rightarrow> container list \<Rightarrow> nat" where
  "best_rank ref cs = fold (\<lambda>c m. min m (match_rank ref c)) cs 3"

lemma fold_min_rank: "fold (\<lambda>c m. min m (match_rank ref c)) cs k = Min (insert k (match_rank ref ` set cs))"
proof (induction cs arbitrary: k)
  case (Cons c cs)
  then show ?case by (cases "set cs = {}") (simp_all add: min.commute min.left_commute insert_commute)
qed simp

lemma best_rank_le: "c \<in> set cs \<Longrightarrow> best_rank ref cs \<le> match_rank ref c"
  by (simp add: best_rank_def fold_min_rank)

lemma best_rank_in: "best_rank ref cs = 3 \<or> (\<exists>c\<in>set cs. match_rank ref c = best_rank ref cs)"
proof -
  have "best_rank ref cs \<in> insert 3 (match_rank ref ` set cs)" unfolding best_rank_def fold_min_rank by (intro Min_in) auto
  then show ?thesis by auto
qed

lemma best_rank_eqI:
  assumes "\<exists>c\<in>set cs. match_rank ref c = r" and "r < 3" and "\<And>q. q < r \<Longrightarrow> \<forall>c\<in>set cs. match_rank ref c \<noteq> q"
  shows "best_rank ref cs = r"
proof -
  have "best_rank ref cs \<le> r" using assms(1) best_rank_le by blast
  moreover have "\<not> best_rank ref cs < r" using assms(2,3) best_rank_in [of ref cs] by fastforce
  ultimately show ?thesis by simp
qed

lemma match_rank_le: "match_rank ref c \<le> 3" by (simp add: match_rank_def)

lemma best_rank_none: "best_rank ref cs = 3 \<longleftrightarrow> (\<forall>c\<in>set cs. match_rank ref c = 3)"
proof
  assume "best_rank ref cs = 3"
  then show "\<forall>c\<in>set cs. match_rank ref c = 3"
    using best_rank_le [of _ cs ref] match_rank_le [of ref] by (auto intro: antisym)
next
  assume "\<forall>c\<in>set cs. match_rank ref c = 3"
  then show "best_rank ref cs = 3" using best_rank_in [of ref cs] by fastforce
qed

lemma winning_tier_ranks:
  "winning_tier ref cs = (if best_rank ref cs = 3 then [] else filter (\<lambda>c. match_rank ref c = best_rank ref cs) cs)"
proof -
  let ?F = "\<lambda>r. filter (\<lambda>c. match_rank ref c = r) cs"
  have none: "?F r = [] \<longleftrightarrow> (\<forall>c\<in>set cs. match_rank ref c \<noteq> r)" for r by (simp add: filter_empty_conv)
  consider "?F 0 \<noteq> []" | "?F 0 = []" "?F 1 \<noteq> []" | "?F 0 = []" "?F 1 = []" "?F 2 \<noteq> []" | "?F 0 = []" "?F 1 = []" "?F 2 = []"
    by blast
  then show ?thesis
  proof cases
    case 1
    then have "best_rank ref cs = 0" by (intro best_rank_eqI) (auto simp: none)
    then show ?thesis using 1 by (simp add: winning_tier_def tiers_by_rank)
  next
    case 2
    then have "best_rank ref cs = 1" by (intro best_rank_eqI) (auto simp: none)
    then show ?thesis using 2 by (simp add: winning_tier_def tiers_by_rank)
  next
    case 3
    then have "best_rank ref cs = 2" by (intro best_rank_eqI) (auto simp: none less_Suc_eq numeral_2_eq_2)
    then show ?thesis using 3 by (simp add: winning_tier_def tiers_by_rank)
  next
    case 4
    then have "best_rank ref cs = 3" unfolding best_rank_none none by (auto simp: match_rank_def split: if_splits)
    then show ?thesis using 4 by (simp add: winning_tier_def tiers_by_rank)
  qed
qed

lemma in_winning_tier: "c \<in> set (winning_tier ref cs) \<longleftrightarrow> c \<in> set cs \<and> match_rank ref c < 3 \<and> match_rank ref c = best_rank ref cs"
  using best_rank_none [of ref cs] best_rank_le [of c cs ref] match_rank_le [of ref c] by (auto simp: winning_tier_ranks)

lemma winning_tier_empty: "winning_tier ref cs = [] \<longleftrightarrow> (\<forall>c\<in>set cs. match_rank ref c = 3)"
  using best_rank_none [of ref cs] best_rank_in [of ref cs] by (auto simp: winning_tier_ranks filter_empty_conv)

subsection \<open>The resolvers\<close>

text \<open>C13. A destructive tool never chooses between live containers: the container it resolves a reference to fits it, none in
scope fits it better, and every running container that fits it as well is that very container.  Only when nothing in scope fits
and a host was named, the reference itself is looked up on that host.\<close>

theorem write_tools_never_guess:
  assumes "resolveContainerRef cref href deps = Inr (h, i)" and "search_scope href deps = Inr (cs, scoped)"
  shows "(\<exists>c. c \<in> set cs \<and> c_Host c = h \<and> c_ID c = i \<and> match_rank (TrimSpace cref) c < 3
              \<and> (\<forall>d. d \<in> set cs \<longrightarrow> match_rank (TrimSpace cref) c \<le> match_rank (TrimSpace cref) d)
              \<and> (\<forall>d. d \<in> set cs \<longrightarrow> match_rank (TrimSpace cref) d = match_rank (TrimSpace cref) c \<longrightarrow> isRunning d
                    \<longrightarrow> c_Host d = h \<and> c_ID d = i))
       \<or> (\<forall>d. d \<in> set cs \<longrightarrow> match_rank (TrimSpace cref) d = 3) \<and> scoped \<noteq> [] \<and> h = scoped \<and> i = TrimSpace cref"
proof -
  define ref where "ref = TrimSpace cref"
  let ?T = "winning_tier ref cs"
  have tier: "matchContainerTier cref href deps = Inr (?T, scoped)"
    using assms by (auto simp: resolveContainerRef_def matchContainerTier_def ref_def split: if_splits)
  have hit: ?thesis if "c \<in> set ?T" "c_Host c = h" "c_ID c = i" and "\<And>d. d \<in> set ?T \<Longrightarrow> isRunning d \<Longrightarrow> d = c" for c
  proof (rule disjI1, rule exI [of _ c], intro conjI allI impI)
    have T: "c \<in> set cs" "match_rank ref c < 3" "match_rank ref c = best_rank ref cs" using that(1) by (auto simp: in_winning_tier)
    then show "c \<in> set cs" "match_rank (TrimSpace cref) c < 3" by (simp_all add: ref_def)
    show "match_rank (TrimSpace cref) c \<le> match_rank (TrimSpace cref) d" if "d \<in> set cs" for d
      using T(3) best_rank_le [OF that, of ref] by (simp add: ref_def)
    have same: "d = c" if "d \<in> set cs" "match_rank (TrimSpace cref) d = match_rank (TrimSpace cref) c" "isRunning d" for d
      using that T \<open>\<And>d. d \<in> set ?T \<Longrightarrow> isRunning d \<Longrightarrow> d = c\<close> by (simp add: in_winning_tier ref_def)
    show "c_Host d = h" "c_ID d = i"
      if "d \<in> set cs" "match_rank (TrimSpace cref) d = match_rank (TrimSpace cref) c" "isRunning d" for d
      using same [OF that] \<open>c_Host c = h\<close> \<open>c_ID c = i\<close> by simp_all
  qed (use that in simp_all)
  consider "?T = []" | c where "?T = [c]" | a b T where "?T = a # b # T" by (metis list.exhaust)
  then show ?thesis
  proof cases
    case 1
    then have none: "\<forall>d. d \<in> set cs \<longrightarrow> match_rank (TrimSpace cref) d = 3" using winning_tier_empty [of ref cs] by (simp add: ref_def)
    have "scoped \<noteq> [] \<and> h = scoped \<and> i = TrimSpace cref"
      using assms(1) tier 1 by (auto simp: resolveContainerRef_def split: if_splits)
    with none show ?thesis by blast
  next
    case 2
    then show ?thesis using assms(1) tier by (intro hit [of c]) (auto simp: resolveContainerRef_def)
  next
    case 3
    then obtain c where live: "runningContainers ?T = [c]" and c: "h = c_Host c" "i = c_ID c"
      using assms(1) tier by (auto simp: resolveContainerRef_def split: list.splits)
    have "set (runningContainers ?T) = {d \<in> set ?T. isRunning d}" by (auto simp: runningContainers_def)
    then show ?thesis using live c by (intro hit [of c]) auto
  qed
qed

text \<open>Relevance is a strict weak order, so that the fold over the candidates keeps one that no other one precedes.\<close>

lemma moreRelevant_trans: "moreRelevant a b \<Longrightarrow> \<not> moreRelevant c b \<Longrightarrow> moreRelevant a c"
  by (auto simp: moreRelevant_def split: if_splits)

lemma moreRelevant_asym: "moreRelevant a b \<Longrightarrow> \<not> moreRelevant b a"
  by (auto simp: moreRelevant_def split: if_splits)

lemma moreRelevant_irrefl: "\<not> moreRelevant a a" by (simp add: moreRelevant_def)

definition keep_best :: "container \<Rightarrow> container \<Rightarrow> container" where
  "keep_best c best = (if moreRelevant c best then c else best)"

lemma keep_best_props: "keep_best c b = c \<or> keep_best c b = b" "\<not> moreRelevant c (keep_best c b)" "\<not> moreRelevant b (keep_best c b)"
  by (auto simp: keep_best_def moreRelevant_irrefl dest: moreRelevant_asym)

lemma not_more_trans: "\<not> moreRelevant a b \<Longrightarrow> \<not> moreRelevant b c \<Longrightarrow> \<not> moreRelevant a c"
  using moreRelevant_trans by blast

lemma best_fold:
  "(fold keep_best cs c = c \<or> fold keep_best cs c \<in> set cs) \<and> \<not> moreRelevant c (fold keep_best cs c)
     \<and> (\<forall>d\<in>set cs. \<not> moreRelevant d (fold keep_best cs c))"
proof (induction cs arbitrary: c)
  case Nil
  then show ?case by (simp add: moreRelevant_irrefl)
next
  case (Cons a cs)
  let ?b = "fold keep_best cs (keep_best a c)"
  have "\<not> moreRelevant (keep_best a c) ?b" using Cons by blast
  then have "\<not> moreRelevant a ?b" "\<not> moreRelevant c ?b"
    by (rule not_more_trans [OF keep_best_props(2)], rule not_more_trans [OF keep_best_props(3)])
  moreover have "?b = keep_best a c \<or> ?b \<in> set cs" and "\<forall>d\<in>set cs. \<not> moreRelevant d ?b"
    using Cons [of "keep_best a c"] by blast+
  ultimately show ?case using keep_best_props(1) [of a c] by (simp only: fold.simps comp_def list.set) (elim disjE; simp)
qed

lemma bestCandidate_best: "bestCandidate cs = Some b \<Longrightarrow> b \<in> set cs \<and> (\<forall>d\<in>set cs. \<not> moreRelevant d b)"
  using best_fold by (cases cs) (auto simp: keep_best_def [abs_def])

text \<open>The resolver of the reading tools agrees with the strict one wherever that one answers, and where a name is ambiguous
it settles on a candidate than which none is more relevant, running ones first.\<close>

theorem read_resolver_refines:
  assumes "search_scope href deps = Inr (cs, scoped)"
  shows "(resolveContainerRef cref href deps = Inr (h, i) \<longrightarrow> resolveContainerRefRead cref href deps = Inr (h, i, None))
    \<and> (resolveContainerRefRead cref href deps = Inr (h, i, Some note) \<longrightarrow>
        (\<exists>b. b \<in> set (winning_tier (TrimSpace cref) cs) \<and> c_Host b = h \<and> c_ID b = i \<and> rn_chosen note = c_Name b
           \<and> list_all (\<lambda>d. \<not> moreRelevant d b) (winning_tier (TrimSpace cref) cs)))"
proof (intro conjI impI)
  show "resolveContainerRefRead cref href deps = Inr (h, i, None)" if "resolveContainerRef cref href deps = Inr (h, i)"
    using that by (auto simp: resolveContainerRef_def resolveContainerRefRead_def split: sum.splits list.splits if_splits)
next
  assume read: "resolveContainerRefRead cref href deps = Inr (h, i, Some note)"
  define T where "T = winning_tier (TrimSpace cref) cs"
  have tier: "matchContainerTier cref href deps = Inr (T, scoped)"
    using read assms by (auto simp: resolveContainerRefRead_def matchContainerTier_def T_def split: if_splits)
  obtain b where b: "bestCandidate T = Some b" "c_Host b = h" "c_ID b = i" "rn_chosen note = c_Name b"
    using read unfolding resolveContainerRefRead_def tier
    by (auto simp: Let_def resolutionNote_def split: list.splits if_splits)
  then show "\<exists>b. b \<in> set (winning_tier (TrimSpace cref) cs) \<and> c_Host b = h \<and> c_ID b = i \<and> rn_chosen note = c_Name b
      \<and> list_all (\<lambda>d. \<not> moreRelevant d b) (winning_tier (TrimSpace cref) cs)"
    using bestCandidate_best [OF b(1)] by (auto simp: T_def list_all_iff)
qed

subsection \<open>What a call may do\<close>

lemma andE_Inr [simp]: "andE r f = Inr y \<longleftrightarrow> (\<exists>x. r = Inr x \<and> f x = Inr y)"
  by (cases r) (auto simp: andE_def)

lemma find_for_tool_Inr [simp]:
  "find_for_tool h i deps = Inr c \<longleftrightarrow> hs_FindContainer (td_HostService deps) h i (td_Labels deps) = Inr c"
  by (simp add: find_for_tool_def split: sum.split)

lemma tool_target_Inr:
  "tool_target args deps = Inr c \<Longrightarrow>
     \<exists>cref href h i. resolveContainerRef cref href deps = Inr (h, i) \<and> hs_FindContainer (td_HostService deps) h i (td_Labels deps) = Inr c"
  by (auto simp: tool_target_def)

lemma action_deeds: "d \<in> set (snd (executeContainerAction eng name args deps)) \<Longrightarrow> tool_target args deps = Inr (deed_container d)"
  by (auto simp: executeContainerAction_def split: sum.splits)

lemma update_deeds: "d \<in> set (snd (executeUpdateContainer eng args deps)) \<Longrightarrow> tool_target args deps = Inr (deed_container d)"
  by (auto simp: executeUpdateContainer_def split: sum.splits option.splits)

lemma tool_deed_target:
  assumes "executeTool w cancelled call mh = Inr (r, ds, mh')" and "d \<in> set ds"
  shows "td_EnableActions (tw_deps w) \<and> \<not> cancelled \<and> tool_target (tc_args call) (tw_deps w) = Inr (deed_container d)"
proof -
  consider (act) "ds = snd (executeContainerAction (tw_engine w) (tc_Name call) (tc_args call) (tw_deps w))"
      "tc_Name call \<in> set requiresActions" "\<not> cancelled" "td_EnableActions (tw_deps w)"
    | (update) "ds = snd (executeUpdateContainer (tw_engine w) (tc_args call) (tw_deps w))"
      "tc_Name call \<in> set requiresActions" "\<not> cancelled" "td_EnableActions (tw_deps w)"
    | (quiet) "ds = []"
    using assms(1) by (auto simp: executeTool_def Let_def requiresActions_def split: if_splits sum.splits prod.splits)
  then show ?thesis using assms(2) action_deeds update_deeds by cases auto
qed

lemma tool_deed_kind:
  assumes "executeTool w cancelled call mh = Inr (r, ds, mh')" and "d \<in> set ds"
  shows "ds = [d] \<and> ((\<exists>a. resolveAction (tc_Name call) = Inr a \<and> d = Acted (deed_container d) a)
    \<or> (tc_Name call = ''update_container'' \<and> d = Updated (deed_container d)))"
proof -
  consider (act) "ds = snd (executeContainerAction (tw_engine w) (tc_Name call) (tc_args call) (tw_deps w))"
    | (update) "ds = snd (executeUpdateContainer (tw_engine w) (tc_args call) (tw_deps w))" "tc_Name call = ''update_container''"
    | (quiet) "ds = []"
    using assms(1) by (auto simp: executeTool_def Let_def split: if_splits sum.splits prod.splits)
  then show ?thesis
    using assms(2) by cases (auto simp: executeContainerAction_def executeUpdateContainer_def andE_def split: sum.splits option.splits)
qed

text \<open>C23. A call acts on at most one container, only when actions are enabled, only in the way its name says, and only on the container that the strict
resolver settles on for the \<open>container_id\<close> and \<open>host_id\<close> of the call and that the host service finds under the configured label filter.\<close>

theorem tool_deeds_resolved:
  assumes "executeTool w cancelled call mh = Inr (r, ds, mh')" and "d \<in> set ds"
  shows "td_EnableActions (tw_deps w) \<and> \<not> cancelled \<and> ds = [d]
    \<and> ((\<exists>a. resolveAction (tc_Name call) = Inr a \<and> d = Acted (deed_container d) a)
        \<or> (tc_Name call = ''update_container'' \<and> d = Updated (deed_container d)))
    \<and> (\<exists>cref href h i. string_field (tc_args call) ''container_id'' = Inr cref \<and> string_field (tc_args call) ''host_id'' = Inr href
          \<and> resolveContainerRef cref href (tw_deps w) = Inr (h, i)
          \<and> hs_FindContainer (td_HostService (tw_deps w)) h i (td_Labels (tw_deps w)) = Inr (deed_container d))"
  using tool_deed_target [OF assms] tool_deed_kind [OF assms] by (auto simp: tool_target_def containerActionArgs_def)

text \<open>What is advertised to the cloud is what calls do: a name that is not advertised, other than \<open>stream_logs\<close>, is refused
without any effect, and a tool advertised as read-only leaves containers and settings alone.\<close>

theorem advertised_tools_match_dispatch:
  assumes "executeTool w False call mh = Inr (r, ds, mh')"
  shows "(tc_Name call \<notin> to_Name ` set (AvailableTools (td_EnableActions (tw_deps w))) \<longrightarrow>
            (r = Inl (UnknownTool (tc_Name call)) \<or> r = Inl ActionsNotEnabled) \<and> ds = [] \<and> mh' = mh)
    \<and> (\<lparr>to_Name = tc_Name call, to_ReadOnly = True\<rparr> \<in> set (AvailableTools (td_EnableActions (tw_deps w))) \<longrightarrow> ds = [] \<and> mh' = mh)"
proof (intro conjI impI)
  assume "tc_Name call \<notin> to_Name ` set (AvailableTools (td_EnableActions (tw_deps w)))"
  then have n: "tc_Name call \<notin> {''list_hosts'', ''find_containers'', ''list_running_containers'', ''list_all_containers'',
        ''get_running_container_stats'', ''fetch_container_logs'', ''list_notifications'', ''inspect_container''}"
      "td_EnableActions (tw_deps w) \<Longrightarrow> tc_Name call \<notin> set requiresActions"
    by (auto simp: AvailableTools_def requiresActions_def image_Un split: if_splits)
  show "r = Inl (UnknownTool (tc_Name call)) \<or> r = Inl ActionsNotEnabled" "ds = []" "mh' = mh"
    using assms n by (auto simp: executeTool_def Let_def requiresActions_def split: if_splits)
next
  assume "\<lparr>to_Name = tc_Name call, to_ReadOnly = True\<rparr> \<in> set (AvailableTools (td_EnableActions (tw_deps w)))"
  then have n: "tc_Name call \<notin> set requiresActions" by (auto simp: AvailableTools_def requiresActions_def split: if_splits)
  show "ds = []" "mh' = mh"
    using assms n by (auto simp: executeTool_def Let_def requiresActions_def split: if_splits sum.splits)
qed

text \<open>The lines fetched are the first hundred that pass the filters, in their order.\<close>

lemma collect_entries_take:
  "length entries < maxLines \<Longrightarrow> collect_entries f entries es = take maxLines (entries @ List.map_filter f es)"
proof (induction es arbitrary: entries)
  case (Cons e es)
  show ?case
  proof (cases "f e")
    case (Some x)
    then show ?thesis using Cons.IH [of "entries @ [x]"] Cons.prems by (auto simp: List.map_filter_simps take_Cons')
  qed (use Cons in \<open>simp add: List.map_filter_simps\<close>)
qed (simp add: List.map_filter_simps)

lemma fetched_logs:
  assumes "executeFetchContainerLogs lib eng argsJSON deps = Inr (FetchLogs name note entries)" and "fetchLogsArgs argsJSON = Inr args"
  shows "\<exists>re c start stop events. te_Logs eng c start stop = Some events
    \<and> entries = take maxLines (List.map_filter (matched_entry lib args re) events)"
proof -
  from assms obtain re c start stop events where "te_Logs eng c start stop = Some events"
      "entries = collect_entries (matched_entry lib args re) [] events"
    by (auto simp: executeFetchContainerLogs_def split: option.splits)
  then show ?thesis by (intro exI [of _ re] exI [of _ c] exI [of _ start] exI [of _ stop] exI [of _ events])
      (simp add: collect_entries_take maxLines_def)
qed

subsection \<open>Alerts made by a tool\<close>

definition mh_notifications ::
    "env_lib \<Rightarrow> yaml_lib \<Rightarrow> disk \<Rightarrow> int list \<Rightarrow> int list \<Rightarrow> int list \<Rightarrow> notif_service" where
  "mh_notifications lib yl dk ks0 ks ds =
     \<lparr>ns_Subscriptions = (\<lambda>h. Subscriptions ks0 (p_Manager (mh_persister h))), ns_AddSubscription = mh_AddSubscription lib yl dk ks0 ks ds\<rparr>"

lemma added_subscription:
  assumes "AddSubscription lib ks sub m = (None, m')"
  shows "\<exists>s. m_subscriptions m' = (m_subscriptions m)(m_subscriptionCounter m' \<mapsto> s)
    \<and> m_subscriptionCounter m' = wrap32 (m_subscriptionCounter m + 1)
    \<and> sub_ID s = m_subscriptionCounter m' \<and> sub_Enabled s \<and> DispatcherID s = DispatcherID sub
    \<and> sub_Name s = sub_Name sub \<and> ContainerExpression s = ContainerExpression sub"
proof -
  let ?i = "wrap32 (m_subscriptionCounter m + 1)"
  from assms obtain s1 s where c: "CompileExpressions (compilers lib) s1 = (None, s)"
      and s1: "sub_ID s1 = ?i" "sub_Enabled s1" "DispatcherID s1 = DispatcherID sub" "sub_Name s1 = sub_Name sub"
        "ContainerExpression s1 = ContainerExpression sub"
      and m': "m' = updateListeners ks (m\<lparr>m_subscriptionCounter := ?i, m_subscriptions := (m_subscriptions m)(?i \<mapsto> s)\<rparr>)"
    by (auto simp: AddSubscription_def Let_def NormalizeDeliverySchedule_def split: prod.splits option.splits)
  have "subscription_config.truncate s = subscription_config.truncate s1" using compile_config [of "compilers lib" s1] c by simp
  then have "sub_ID s = ?i" "sub_Enabled s" "DispatcherID s = DispatcherID sub" "sub_Name s = sub_Name sub"
      "ContainerExpression s = ContainerExpression sub"
    using s1 by (simp_all add: subscription_config.defs)
  then show ?thesis using m' by (auto simp: updateListeners_def Let_def)
qed

text \<open>The text with which a tool reports a new alert.\<close>

definition created_text :: "tool_lib \<Rightarrow> 'a subscription_config_scheme \<Rightarrow> tool_result" where
  "created_text lib s = NotificationText (''Created alert '' @ tl_quote lib (sub_Name s) @ '' (id='' @ show_int (sub_ID s) @ '').'')"

lemma create_notification_adds:
  assumes "create_notification lib pick (Some (mh_notifications elib yl dk ks0 ks ds)) required cfg mh = (Inr r, mh')"
  shows "\<exists>s. m_subscriptions (p_Manager (mh_persister mh'))
        = (m_subscriptions (p_Manager (mh_persister mh)))(wrap32 (m_subscriptionCounter (p_Manager (mh_persister mh)) + 1) \<mapsto> s)
    \<and> sub_ID s = wrap32 (m_subscriptionCounter (p_Manager (mh_persister mh)) + 1) \<and> sub_Enabled s \<and> DispatcherID s = DispatcherID cfg
    \<and> sub_Name s = sub_Name cfg \<and> ContainerExpression s = ContainerExpression cfg \<and> r = created_text lib s"
proof -
  obtain m' where m': "AddSubscription elib ks0 (new_subscription cfg) (p_Manager (mh_persister mh)) = (None, m')"
      "p_Manager (mh_persister mh') = m'"
      and r: "r = NotificationText (''Created alert '' @ tl_quote lib (sub_Name cfg) @ '' (id='' @ show_int (m_subscriptionCounter m') @ '').'')"
    using assms
    by (auto simp: create_notification_def addSubscriptionResponse_def mh_notifications_def mh_AddSubscription_def saveNotificationConfig_def
        broadcastNotificationConfig_def save_files_def with_manager_def Let_def new_subscription_def subscription_config.defs
        split: option.splits prod.splits)
  have "DispatcherID (new_subscription cfg) = DispatcherID cfg" "sub_Name (new_subscription cfg) = sub_Name cfg"
      "ContainerExpression (new_subscription cfg) = ContainerExpression cfg"
    by (simp_all add: new_subscription_def subscription_config.defs)
  then show ?thesis using added_subscription [OF m'(1)] m'(2) r by (auto simp: created_text_def)
qed

lemma tool_alert_fields [simp]:
  "DispatcherID (tool_alert n c) = cloudDispatcherID" "sub_Name (tool_alert n c) = n" "ContainerExpression (tool_alert n c) = c"
  by (simp_all add: tool_alert_def)

text \<open>C39. A notification tool that reports success has added one subscription under the identifier and the name that its answer reports: enabled,
delivered through the cloud, with the name and the container expression of the call.  As long as no subscription has an identifier above the counter
and the counter can still be raised, it is a new entry beside those that were there.\<close>

theorem tool_alert_reaches_cloud:
  assumes "executeTool w False call mh = Inr (Inr r, ds, mh')"
    and "tc_Name call \<in> {''create_log_notification'', ''create_metric_notification'', ''create_event_notification''}"
    and "tw_notifications w = Some (mh_notifications elib yl dk ks0 ks dks)" and "m = p_Manager (mh_persister mh)"
    and "\<forall>i\<in>dom (m_subscriptions m). i \<le> m_subscriptionCounter m" and "0 \<le> m_subscriptionCounter m" and "m_subscriptionCounter m < 2 ^ 31 - 1"
  shows "\<exists>s. sub_ID s = m_subscriptionCounter m + 1 \<and> m_subscriptions m (sub_ID s) = None
    \<and> m_subscriptions (p_Manager (mh_persister mh')) = (m_subscriptions m)(sub_ID s \<mapsto> s) \<and> r = created_text (tw_lib w) s
    \<and> sub_Enabled s \<and> DispatcherID s = cloudDispatcherID
    \<and> string_field (tc_args call) ''name'' = Inr (sub_Name s) \<and> string_field (tc_args call) ''container_expression'' = Inr (ContainerExpression s)"
proof -
  obtain required cfg where cfg: "create_notification (tw_lib w) (tw_pick w) (Some (mh_notifications elib yl dk ks0 ks dks)) required cfg mh = (Inr r, mh')"
      "DispatcherID cfg = cloudDispatcherID" "string_field (tc_args call) ''name'' = Inr (sub_Name cfg)"
      "string_field (tc_args call) ''container_expression'' = Inr (ContainerExpression cfg)"
  proof -
    consider "executeCreateLogNotification (tw_lib w) (tw_pick w) (tw_notifications w) (tc_args call) mh = (Inr r, mh')"
      | "executeCreateMetricNotification (tw_lib w) (tw_pick w) (tw_notifications w) (tc_args call) mh = (Inr r, mh')"
      | "executeCreateEventNotification (tw_lib w) (tw_pick w) (tw_notifications w) (tc_args call) mh = (Inr r, mh')"
      using assms(1,2) by (auto simp: executeTool_def Let_def split: if_splits prod.splits)
    then show ?thesis
    proof cases
      case 1
      then show ?thesis unfolding executeCreateLogNotification_def assms(3) by (auto split: sum.splits intro!: that)
    next
      case 2
      then show ?thesis unfolding executeCreateMetricNotification_def assms(3) by (auto split: sum.splits intro!: that)
    next
      case 3
      then show ?thesis unfolding executeCreateEventNotification_def assms(3) by (auto split: sum.splits intro!: that)
    qed
  qed
  have "wrap32 (m_subscriptionCounter m + 1) = m_subscriptionCounter m + 1" using assms(6,7) by (simp add: wrap32_def)
  moreover have "m_subscriptions m (m_subscriptionCounter m + 1) = None" using assms(5) by (force simp: dom_def)
  ultimately show ?thesis using create_notification_adds [OF cfg(1)] cfg(2-4) unfolding assms(4) [symmetric] by auto
qed

text \<open>An engine that could not be asked when the identifiers were resolved stays unknown: its containers are listed but no tool can
reach them any more.\<close>

lemma late_engine_never_found:
  "h \<noteq> [] \<Longrightarrow> hs_FindContainer (localCloudHostService [None] now [s]) h i labels = Inl (HostNotFound h)"
  by (simp add: localCloudHostService_def resolveHostIDs_def)

subsection \<open>Samples\<close>

definition demo_live :: container where
  "demo_live = sample_container\<lparr>c_ID := ''b'', c_Name := ''web.1.b''\<rparr>"

definition demo_corpse :: container where
  "demo_corpse = sample_container\<lparr>c_ID := ''c'', c_Name := ''web.1.c'', c_State := ''exited''\<rparr>"

definition demo_deps :: tool_deps where
  "demo_deps = \<lparr>td_EnableActions = True,
     td_HostService = \<lparr>hs_ListAllContainers = (\<lambda>_. [demo_corpse, demo_live]), hs_FindContainer = (\<lambda>_ i _. if i = ''b'' then Inr demo_live else Inr demo_corpse),
                       hs_Hosts = []\<rparr>,
     td_Labels = None\<rparr>"

definition demo_env :: env_lib where
  "demo_env = office_env\<lparr>compilers := (compilers office_env)\<lparr>compile_container := (\<lambda>_. Some (\<lambda>_. ExprBool True))\<rparr>\<rparr>"

definition demo_world :: tool_world where
  "demo_world = \<lparr>tw_lib = \<lparr>tl_parse = (\<lambda>_. None), tl_compile = (\<lambda>_. None), tl_show = (\<lambda>_. []), tl_quote = (\<lambda>s. s), tl_now = 0\<rparr>,
     tw_engine = \<lparr>te_Action = (\<lambda>_ _. True), te_Update = (\<lambda>_. None), te_Logs = (\<lambda>_ _ _. None)\<rparr>,
     tw_pick = hd, tw_notifications = Some (mh_notifications demo_env saved_yaml quiet_disk [] [] []), tw_deps = demo_deps\<rparr>"

definition demo_stop :: tool_call where
  "demo_stop = \<lparr>tc_Name = ''stop_container'', tc_blank = False, tc_args = Some (JObj [(''container_id'', JStr ''web.1'')])\<rparr>"

definition demo_alert :: tool_call where
  "demo_alert = \<lparr>tc_Name = ''create_log_notification'', tc_blank = False,
     tc_args = Some (JObj [(''name'', JStr ''e''), (''container_expression'', JStr ''true''), (''log_expression'', JStr ''level'')])\<rparr>"

lemma demo_scope: "search_scope [] demo_deps = Inr ([demo_corpse, demo_live], [])"
  by (simp add: search_scope_def demo_deps_def)

lemma demo_resolved: "resolveContainerRef ''web.1'' [] demo_deps = Inr (''h'', ''b'')"
  unfolding demo_deps_def demo_corpse_def demo_live_def sample_container_def by code_simp

theorem write_tools_never_guess_witness:
  "\<exists>c. c \<in> {demo_corpse, demo_live} \<and> c_Host c = ''h'' \<and> c_ID c = ''b'' \<and> match_rank ''web.1'' c < 3"
proof -
  have trim: "TrimSpace ''web.1'' = ''web.1''" by code_simp
  show ?thesis using write_tools_never_guess [OF demo_resolved demo_scope] unfolding trim by auto
qed

theorem read_resolver_refines_witness: "resolveContainerRefRead ''web.1'' [] demo_deps = Inr (''h'', ''b'', None)"
  using read_resolver_refines [OF demo_scope, of "''web.1''" "''h''" "''b''" undefined] demo_resolved by blast

lemma demo_target: "tool_target (tc_args demo_stop) demo_deps = Inr demo_live"
proof -
  have "string_field (tc_args demo_stop) ''container_id'' = Inr ''web.1''" "string_field (tc_args demo_stop) ''host_id'' = Inr []"
    unfolding demo_stop_def by code_simp+
  then have "containerActionArgs (tc_args demo_stop) = Inr (''web.1'', [])" by (simp add: containerActionArgs_def)
  moreover have "find_for_tool ''h'' ''b'' demo_deps = Inr demo_live" by (simp add: demo_deps_def)
  ultimately show ?thesis using demo_resolved by (simp add: tool_target_def)
qed

lemma demo_stopped: "\<exists>r. executeTool demo_world False demo_stop demo_hosts = Inr (r, [Acted demo_live Action_Stop], demo_hosts)"
proof -
  have args: "\<exists>a. containerActionArgs (tc_args demo_stop) = Inr a" using demo_target by (auto simp: tool_target_def)
  have "resolveAction ''stop_container'' = Inr Action_Stop" by code_simp
  then have "snd (executeContainerAction eng ''stop_container'' (tc_args demo_stop) demo_deps) = [Acted demo_live Action_Stop]" for eng
    using args demo_target by (auto simp: executeContainerAction_def andE_def)
  then have "\<exists>r. executeContainerAction (tw_engine demo_world) ''stop_container'' (tc_args demo_stop) demo_deps = (r, [Acted demo_live Action_Stop])"
    by (metis prod.collapse)
  moreover have "executeTool demo_world False demo_stop demo_hosts
      = (case executeContainerAction (tw_engine demo_world) ''stop_container'' (tc_args demo_stop) demo_deps of (r, ds) \<Rightarrow> Inr (r, ds, demo_hosts))"
    by (simp add: executeTool_def demo_stop_def demo_world_def requiresActions_def) (simp add: demo_deps_def)
  ultimately show ?thesis by auto
qed

theorem tool_deeds_resolved_witness:
  "\<exists>h i. resolveContainerRef ''web.1'' [] demo_deps = Inr (h, i)
     \<and> hs_FindContainer (td_HostService demo_deps) h i (td_Labels demo_deps) = Inr demo_live"
proof -
  obtain r where "executeTool demo_world False demo_stop demo_hosts = Inr (r, [Acted demo_live Action_Stop], demo_hosts)"
    using demo_stopped by blast
  from tool_deeds_resolved [OF this, of "Acted demo_live Action_Stop"] obtain cref href h i where
    "string_field (tc_args demo_stop) ''container_id'' = Inr cref" "string_field (tc_args demo_stop) ''host_id'' = Inr href"
    "resolveContainerRef cref href demo_deps = Inr (h, i)"
    "hs_FindContainer (td_HostService demo_deps) h i (td_Labels demo_deps) = Inr demo_live"
    by (auto simp: demo_world_def)
  moreover have "string_field (tc_args demo_stop) ''container_id'' = Inr ''web.1''" "string_field (tc_args demo_stop) ''host_id'' = Inr []"
    unfolding demo_stop_def by code_simp+
  ultimately show ?thesis by auto
qed

theorem advertised_tools_match_dispatch_witness:
  "''prune'' \<notin> to_Name ` set (AvailableTools True)
    \<and> executeTool demo_world False (demo_stop\<lparr>tc_Name := ''prune''\<rparr>) demo_hosts = Inr (Inl (UnknownTool ''prune''), [], demo_hosts)"
proof -
  have ex: "executeTool demo_world False (demo_stop\<lparr>tc_Name := ''prune''\<rparr>) demo_hosts = Inr (Inl (UnknownTool ''prune''), [], demo_hosts)"
    by (simp add: executeTool_def demo_stop_def requiresActions_def)
  have "''prune'' \<notin> to_Name ` set (AvailableTools True)" by code_simp
  then show ?thesis using advertised_tools_match_dispatch [OF ex] ex by blast
qed

lemma demo_added:
  "fst (mh_AddSubscription demo_env saved_yaml quiet_disk [] [] []
     (new_subscription ((tool_alert ''e'' ''true'')\<lparr>LogExpression := ''level''\<rparr>)) demo_hosts) = None"
  by (simp add: mh_AddSubscription_def AddSubscription_def Let_def CompileExpressions_def and_then_def compile_container_block_def
      compile_log_block_def compile_metric_block_def compile_event_block_def compile_watchdog_block_def compile_regex_block_def
      tool_alert_def demo_env_def office_env_def NormalizeDeliverySchedule_def new_subscription_def subscription_config.defs
      zero_SubscriptionConfig_def sample_env_def)

lemma demo_created: "\<exists>r mh'. executeTool demo_world False demo_alert demo_hosts = Inr (Inr r, [], mh')"
proof -
  have "string_field (tc_args demo_alert) ''name'' = Inr ''e''" "string_field (tc_args demo_alert) ''container_expression'' = Inr ''true''"
      "string_field (tc_args demo_alert) ''log_expression'' = Inr ''level''"
    unfolding demo_alert_def by code_simp+
  then have "\<exists>r mh'. executeCreateLogNotification (tw_lib demo_world) (tw_pick demo_world) (tw_notifications demo_world) (tc_args demo_alert) demo_hosts
      = (Inr r, mh')"
    using demo_added by (auto simp: executeCreateLogNotification_def andE_def demo_world_def create_notification_def requireNonEmpty_def
        addSubscriptionResponse_def mh_notifications_def split: prod.splits)
  moreover have "executeTool demo_world False demo_alert demo_hosts
      = (case executeCreateLogNotification (tw_lib demo_world) (tw_pick demo_world) (tw_notifications demo_world) (tc_args demo_alert) demo_hosts of
           (r, mh') \<Rightarrow> Inr (r, [], mh'))"
    by (simp add: executeTool_def demo_alert_def requiresActions_def) (simp add: demo_world_def demo_deps_def)
  ultimately show ?thesis by auto
qed

theorem tool_alert_reaches_cloud_witness:
  "\<exists>mh' s. executeTool demo_world False demo_alert demo_hosts = Inr (Inr (created_text (tw_lib demo_world) s), [], mh')
     \<and> m_subscriptions (p_Manager (mh_persister mh')) = [1 \<mapsto> s] \<and> sub_ID s = 1 \<and> sub_Enabled s \<and> DispatcherID s = 0"
proof -
  obtain r mh' where ex: "executeTool demo_world False demo_alert demo_hosts = Inr (Inr r, [], mh')" using demo_created by blast
  have n: "tw_notifications demo_world = Some (mh_notifications demo_env saved_yaml quiet_disk [] [] [])" by (simp add: demo_world_def)
  have m: "m_subscriptions (p_Manager (mh_persister demo_hosts)) = Map.empty" "m_subscriptionCounter (p_Manager (mh_persister demo_hosts)) = 0"
    by (simp_all add: demo_hosts_def sample_manager_def NewManager_def Let_def)
  obtain s where s: "m_subscriptions (p_Manager (mh_persister mh')) = [sub_ID s \<mapsto> s]" "sub_ID s = 1" "r = created_text (tw_lib demo_world) s"
      "sub_Enabled s" "DispatcherID s = cloudDispatcherID"
    using tool_alert_reaches_cloud [OF ex _ n refl] m by (auto simp: demo_alert_def)
  then show ?thesis using ex by (auto simp: cloudDispatcherID_def)
qed

end
