(* ===== verification/CloudStream.thy ===== *)
theory CloudStream
  imports CloudTools
begin

text \<open>
  The connection to Dozzle Cloud: \<open>stream_logs\<close> of \<open>internal/cloud/tools_stream.go\<close>, the log streamer of
  \<open>log_streamer.go\<close> and the client of \<open>client.go\<close>, which answers requests and reconnects.

  What a loop over \<open>select\<close> takes next is its input, so that a run is a list of inputs.  Sending is the list of what was sent;
  \<open>ok n\<close> tells whether the send with number \<open>n\<close> succeeds.  The goroutines of a connection are steps of a relation.  gRPC itself is
  not modelled.
\<close>

subsection \<open>Streaming the logs of a container\<close>

definition parseStreamArgs :: "tool_lib \<Rightarrow> json option \<Rightarrow> tool_error + fetch_args \<times> regexp option" where
  "parseStreamArgs lib argsJSON =
     andE (fetchLogsArgs argsJSON) (\<lambda>args.
       if fa_ContainerID args = [] then Inl ContainerIdRequired
       else andE (optional_regex lib (fa_Regex args)) (\<lambda>re. Inr (args, re)))"

record stream_response =
  sr_note :: "resolution_note option"
  sr_EndStream :: bool
  sr_Entries :: "log_entry list"

datatype stream_input = Event log_event | Ticker | EventsClosed | Done

datatype stream_outcome = Streaming | Finished | SendFailed | Cancelled

record tool_stream =
  ts_batch :: "log_entry list"
  ts_noteSent :: bool
  ts_sent :: "stream_response list"
  ts_outcome :: stream_outcome

definition new_stream :: tool_stream where
  "new_stream = \<lparr>ts_batch = [], ts_noteSent = False, ts_sent = [], ts_outcome = Streaming\<rparr>"

definition batchSize :: nat where "batchSize = 50"

text \<open>\<open>sendBatch\<close> and \<open>flush\<close>; the batch is emptied only when it was sent.\<close>

definition stream_flush :: "(nat \<Rightarrow> bool) \<Rightarrow> resolution_note option \<Rightarrow> bool \<Rightarrow> tool_stream \<Rightarrow> bool \<times> tool_stream" where
  "stream_flush ok note endStream s =
     (if ts_batch s = [] \<and> \<not> endStream then (True, s)
      else let s1 = s\<lparr>ts_noteSent := True,
                      ts_sent := ts_sent s @ [\<lparr>sr_note = (if ts_noteSent s then None else note), sr_EndStream = endStream, sr_Entries = ts_batch s\<rparr>]\<rparr>
           in if ok (length (ts_sent s)) then (True, s1\<lparr>ts_batch := []\<rparr>) else (False, s1))"

definition flush_open :: "(nat \<Rightarrow> bool) \<Rightarrow> resolution_note option \<Rightarrow> tool_stream \<Rightarrow> tool_stream" where
  "flush_open ok note s =
     (case stream_flush ok note False s of (True, s') \<Rightarrow> s' | (False, s') \<Rightarrow> s'\<lparr>ts_outcome := SendFailed\<rparr>)"

definition stream_step ::
    "(nat \<Rightarrow> bool) \<Rightarrow> (log_event \<Rightarrow> log_entry option) \<Rightarrow> resolution_note option \<Rightarrow> tool_stream \<Rightarrow> stream_input \<Rightarrow> tool_stream" where
  "stream_step ok f note s inp =
     (case inp of
        Event e \<Rightarrow>
          (case f e of
             None \<Rightarrow> s
           | Some x \<Rightarrow>
               (let s1 = s\<lparr>ts_batch := ts_batch s @ [x]\<rparr>
                in if batchSize \<le> length (ts_batch s1) then flush_open ok note s1 else s1))
      | Ticker \<Rightarrow> if ts_batch s \<noteq> [] then flush_open ok note s else s
      | EventsClosed \<Rightarrow> (case stream_flush ok note True s of (r, s') \<Rightarrow> s'\<lparr>ts_outcome := (if r then Finished else SendFailed)\<rparr>)
      | Done \<Rightarrow> (snd (stream_flush ok note True s))\<lparr>ts_outcome := Cancelled\<rparr>)"

fun stream_run ::
    "(nat \<Rightarrow> bool) \<Rightarrow> (log_event \<Rightarrow> log_entry option) \<Rightarrow> resolution_note option \<Rightarrow> tool_stream \<Rightarrow> stream_input list \<Rightarrow> tool_stream" where
  "stream_run ok f note s [] = s"
| "stream_run ok f note s (i # is) = (if ts_outcome s = Streaming then stream_run ok f note (stream_step ok f note s i) is else s)"

definition executeStreamLogs ::
    "tool_lib \<Rightarrow> (nat \<Rightarrow> bool) \<Rightarrow> json option \<Rightarrow> tool_deps \<Rightarrow> stream_input list \<Rightarrow> tool_error + tool_stream" where
  "executeStreamLogs lib ok argsJSON deps inputs =
     andE (parseStreamArgs lib argsJSON) (\<lambda>(args, re).
       andE (resolveContainerRefRead (fa_ContainerID args) (fa_Host args) deps) (\<lambda>(h, i, note).
         andE (find_for_tool h i deps) (\<lambda>c. Inr (stream_run ok (matched_entry lib args re) note new_stream inputs))))"

subsection \<open>The log streamer\<close>

definition cloudMinLevelLabel :: string where "cloudMinLevelLabel = ''dev.dozzle.cloud.min_level''"

definition cloudLevelRank :: "string \<Rightarrow> int" where
  "cloudLevelRank l =
     (if l = ''trace'' then 1 else if l = ''debug'' then 2 else if l = ''info'' then 3 else if l = ''warn'' then 4
      else if l = ''error'' then 5 else if l = ''fatal'' then 6 else 0)"

text \<open>Rank, disabled, valid.\<close>

definition parseMinLevel :: "string \<Rightarrow> int \<times> bool \<times> bool" where
  "parseMinLevel v =
     (let v' = ToLower (TrimSpace v)
      in if v' = [] then (0, False, True)
         else if v' = ''disabled'' then (0, True, True)
         else if cloudLevelRank v' \<noteq> 0 then (cloudLevelRank v', False, True)
         else (0, False, False))"

record batch_entry =
  be_HostId :: string
  be_ContainerId :: string
  be_ContainerName :: string
  be_TimestampNs :: int
  be_Message :: string
  be_Stream :: string
  be_Level :: string
  be_LogId :: "32 word"

text \<open>\<open>json_text\<close> is \<open>json.Marshal\<close>, \<open>None\<close> when it fails.\<close>

definition messageToString :: "(log_message \<Rightarrow> string option) \<Rightarrow> log_message \<Rightarrow> string" where
  "messageToString to_json m =
     (case m of
        MString v \<Rightarrow> v
      | MJson JNull \<Rightarrow> []
      | _ \<Rightarrow> (case to_json m of None \<Rightarrow> [] | Some s \<Rightarrow> s))"

definition batch_entry_of :: "(log_message \<Rightarrow> string option) \<Rightarrow> gotime \<Rightarrow> container \<Rightarrow> int \<Rightarrow> log_event \<Rightarrow> batch_entry option" where
  "batch_entry_of to_json now c minRank ev =
     (if 0 < minRank \<and> 0 < cloudLevelRank (le_Level ev) \<and> cloudLevelRank (le_Level ev) < minRank then None
      else let msg = (if le_RawMessage ev = [] then messageToString to_json (le_Message ev) else le_RawMessage ev);
               ts = wrap64 (le_Timestamp ev * 1000000)
           in Some \<lparr>be_HostId = c_Host c, be_ContainerId = c_ID c, be_ContainerName = c_Name c, be_TimestampNs = (if ts = 0 then now else ts),
                    be_Message = msg, be_Stream = le_Stream ev, be_Level = (if le_Level ev = ''unknown'' then [] else le_Level ev),
                    be_LogId = le_Id ev\<rparr>)"

definition logBatchMaxEntries :: nat where "logBatchMaxEntries = 500"
definition logBatchMaxBytes :: nat where "logBatchMaxBytes = 262144"

record log_reader_state =
  lr_batch :: "batch_entry list"
  lr_batchBytes :: nat
  lr_sent :: "batch_entry list list"
  lr_failed :: bool
  lr_stopped :: bool

definition new_reader :: log_reader_state where
  "new_reader = \<lparr>lr_batch = [], lr_batchBytes = 0, lr_sent = [], lr_failed = False, lr_stopped = False\<rparr>"

text \<open>The batch is dropped whether or not it could be sent.\<close>

definition reader_flush :: "(nat \<Rightarrow> bool) \<Rightarrow> log_reader_state \<Rightarrow> log_reader_state" where
  "reader_flush ok s =
     (if lr_batch s = [] then s
      else s\<lparr>lr_sent := lr_sent s @ [lr_batch s], lr_batch := [], lr_batchBytes := 0, lr_failed := (lr_failed s \<or> \<not> ok (length (lr_sent s)))\<rparr>)"

text \<open>A failed send ends the loop; ending flushes what is left.\<close>

definition reader_stop :: "(nat \<Rightarrow> bool) \<Rightarrow> log_reader_state \<Rightarrow> log_reader_state" where
  "reader_stop ok s = (reader_flush ok s)\<lparr>lr_stopped := True\<rparr>"

definition flush_or_stop :: "(nat \<Rightarrow> bool) \<Rightarrow> log_reader_state \<Rightarrow> log_reader_state" where
  "flush_or_stop ok s = (let s1 = reader_flush ok s in if lr_failed s1 then reader_stop ok s1 else s1)"

definition reader_step ::
    "(nat \<Rightarrow> bool) \<Rightarrow> (log_event \<Rightarrow> batch_entry option) \<Rightarrow> log_reader_state \<Rightarrow> stream_input \<Rightarrow> log_reader_state" where
  "reader_step ok f s inp =
     (case inp of
        Event e \<Rightarrow>
          (case f e of
             None \<Rightarrow> s
           | Some x \<Rightarrow>
               (let s1 = s\<lparr>lr_batch := lr_batch s @ [x], lr_batchBytes := lr_batchBytes s + length (be_Message x)\<rparr>
                in if logBatchMaxEntries \<le> length (lr_batch s1) \<or> logBatchMaxBytes \<le> lr_batchBytes s1 then flush_or_stop ok s1 else s1))
      | Ticker \<Rightarrow> flush_or_stop ok s
      | EventsClosed \<Rightarrow> reader_stop ok s
      | Done \<Rightarrow> reader_stop ok s)"

fun runReader :: "(nat \<Rightarrow> bool) \<Rightarrow> (log_event \<Rightarrow> batch_entry option) \<Rightarrow> log_reader_state \<Rightarrow> stream_input list \<Rightarrow> log_reader_state" where
  "runReader ok f s [] = s"
| "runReader ok f s (i # is) = (if lr_stopped s then s else runReader ok f (reader_step ok f s i) is)"

subsection \<open>Batching\<close>

text \<open>
  Both loops collect entries and send them in batches.  What such a loop promises: no entry is lost, repeated or reordered as long as
  sends succeed, and nothing is left over when it ends.
\<close>

locale batcher =
  fixes step :: "'s \<Rightarrow> 'i \<Rightarrow> 's" and run :: "'s \<Rightarrow> 'i list \<Rightarrow> 's" and ended :: "'s \<Rightarrow> bool" and healthy :: "'s \<Rightarrow> bool"
    and pending :: "'s \<Rightarrow> 'e list" and sent :: "'s \<Rightarrow> 'e list" and entries :: "'i \<Rightarrow> 'e list" and closing :: "'i \<Rightarrow> bool"
  assumes run_Nil: "run s [] = s"
    and run_Cons: "run s (i # is) = (if ended s then s else run (step s i) is)"
    and healthy_back: "healthy (step s i) \<Longrightarrow> healthy s"
    and conserve: "healthy (step s i) \<Longrightarrow> \<not> ended s \<Longrightarrow> sent (step s i) @ pending (step s i) = sent s @ pending s @ entries i"
    and closes: "healthy (step s i) \<Longrightarrow> \<not> ended s \<Longrightarrow> closing i \<Longrightarrow> ended (step s i) \<and> pending (step s i) = [] \<and> entries i = []"
    and stays: "healthy (step s i) \<Longrightarrow> \<not> ended s \<Longrightarrow> \<not> closing i \<Longrightarrow> \<not> ended (step s i)"
begin

lemma run_ended: "ended s \<Longrightarrow> run s is = s"
  by (cases "is") (simp_all add: run_Nil run_Cons)

lemma run_healthy_back: "healthy (run s is) \<Longrightarrow> healthy s"
proof (induction "is" arbitrary: s)
  case (Cons i "is")
  then show ?case by (cases "ended s") (auto simp: run_Cons dest: healthy_back)
qed (simp add: run_Nil)

lemma run_conserves:
  "healthy (run s is) \<Longrightarrow> \<not> ended s \<Longrightarrow>
     sent (run s is) @ pending (run s is) = sent s @ pending s @ concat (map entries (takeWhile (\<lambda>i. \<not> closing i) is))"
proof (induction "is" arbitrary: s)
  case (Cons i "is")
  have h: "healthy (step s i)" using Cons.prems run_healthy_back by (simp add: run_Cons)
  note step = conserve [OF h Cons.prems(2)]
  show ?case
  proof (cases "closing i")
    case True
    then show ?thesis using Cons.prems step closes [OF h Cons.prems(2) True] by (simp add: run_Cons run_ended)
  next
    case False
    have "sent (step s i) @ pending (step s i) @ r = sent s @ pending s @ entries i @ r" for r
      using arg_cong [OF step, of "\<lambda>l. l @ r"] by simp
    moreover have "run s (i # is) = run (step s i) is" using Cons.prems(2) by (simp add: run_Cons)
    moreover have "sent (run (step s i) is) @ pending (run (step s i) is)
        = sent (step s i) @ pending (step s i) @ concat (map entries (takeWhile (\<lambda>i. \<not> closing i) is))"
      using Cons.prems(1) calculation(2) by (intro Cons.IH stays [OF h Cons.prems(2) False]) simp
    ultimately show ?thesis using False by simp
  qed
qed (simp add: run_Nil)

lemma run_drained: "healthy (run s is) \<Longrightarrow> \<not> ended s \<Longrightarrow> \<exists>i\<in>set is. closing i \<Longrightarrow> ended (run s is) \<and> pending (run s is) = []"
proof (induction "is" arbitrary: s)
  case (Cons i "is")
  have h: "healthy (step s i)" using Cons.prems run_healthy_back by (simp add: run_Cons)
  show ?case
  proof (cases "closing i")
    case True
    then show ?thesis using Cons.prems closes [OF h Cons.prems(2) True] by (simp add: run_Cons run_ended)
  next
    case False
    have "run s (i # is) = run (step s i) is" using Cons.prems(2) by (simp add: run_Cons)
    moreover have "\<exists>i\<in>set is. closing i" using Cons.prems(3) False by simp
    ultimately show ?thesis using Cons.IH [OF _ stays [OF h Cons.prems(2) False]] Cons.prems(1) by simp
  qed
qed simp

end

definition closes_stream :: "stream_input \<Rightarrow> bool" where
  "closes_stream i \<longleftrightarrow> i = EventsClosed \<or> i = Done"

definition input_entries :: "(log_event \<Rightarrow> 'e option) \<Rightarrow> stream_input \<Rightarrow> 'e list" where
  "input_entries f i = (case i of Event e \<Rightarrow> (case f e of None \<Rightarrow> [] | Some x \<Rightarrow> [x]) | _ \<Rightarrow> [])"

text \<open>The events that arrive before the channel is closed or the request cancelled.\<close>

fun arrived :: "stream_input list \<Rightarrow> log_event list" where
  "arrived [] = []"
| "arrived (Event e # is) = e # arrived is"
| "arrived (Ticker # is) = arrived is"
| "arrived (_ # is) = []"

lemma arrived_entries: "concat (map (input_entries f) (takeWhile (\<lambda>i. \<not> closes_stream i) is)) = List.map_filter f (arrived is)"
  by (induction "is" rule: arrived.induct)
     (auto simp: closes_stream_def input_entries_def List.map_filter_simps split: option.split)

definition stream_entries :: "tool_stream \<Rightarrow> log_entry list" where
  "stream_entries s = concat (map sr_Entries (ts_sent s))"

definition stream_healthy :: "(nat \<Rightarrow> bool) \<Rightarrow> tool_stream \<Rightarrow> bool" where
  "stream_healthy ok s \<longleftrightarrow> (\<forall>n. n < length (ts_sent s) \<longrightarrow> ok n)"

lemma stream_flush_healthy:
  assumes "stream_healthy ok (snd (stream_flush ok note b s))"
  shows "fst (stream_flush ok note b s)" "ts_batch (snd (stream_flush ok note b s)) = []"
    "stream_entries (snd (stream_flush ok note b s)) = stream_entries s @ ts_batch s"
    "ts_outcome (snd (stream_flush ok note b s)) = ts_outcome s" "stream_healthy ok s"
  using assms by (auto simp: stream_flush_def stream_healthy_def stream_entries_def Let_def split: if_splits)

lemma healthy_outcome [simp]: "stream_healthy ok (s\<lparr>ts_outcome := x\<rparr>) = stream_healthy ok s" "stream_healthy ok (s\<lparr>ts_batch := xs\<rparr>) = stream_healthy ok s"
    "stream_entries (s\<lparr>ts_outcome := x\<rparr>) = stream_entries s" "stream_entries (s\<lparr>ts_batch := xs\<rparr>) = stream_entries s"
  by (simp_all add: stream_healthy_def stream_entries_def)

lemma flush_open_healthy:
  assumes "stream_healthy ok (flush_open ok note s)"
  shows "ts_batch (flush_open ok note s) = []" "stream_entries (flush_open ok note s) = stream_entries s @ ts_batch s"
    "ts_outcome (flush_open ok note s) = ts_outcome s" "stream_healthy ok s"
proof -
  have h: "stream_healthy ok (snd (stream_flush ok note False s))"
    using assms by (auto simp: flush_open_def split: prod.splits bool.splits)
  have "flush_open ok note s = snd (stream_flush ok note False s)"
    using stream_flush_healthy(1) [OF h] by (auto simp: flush_open_def split: prod.splits bool.splits)
  then show "ts_batch (flush_open ok note s) = []" "stream_entries (flush_open ok note s) = stream_entries s @ ts_batch s"
    "ts_outcome (flush_open ok note s) = ts_outcome s" "stream_healthy ok s"
    using stream_flush_healthy [OF h] by simp_all
qed

text \<open>One step of a stream whose sends succeed.\<close>

lemma stream_step_healthy:
  assumes "stream_healthy ok (stream_step ok f note s i)"
  shows "stream_healthy ok s
    \<and> stream_entries (stream_step ok f note s i) @ ts_batch (stream_step ok f note s i) = stream_entries s @ ts_batch s @ input_entries f i
    \<and> (if closes_stream i then ts_outcome (stream_step ok f note s i) \<noteq> Streaming \<and> ts_batch (stream_step ok f note s i) = [] \<and> input_entries f i = []
       else ts_outcome (stream_step ok f note s i) = ts_outcome s)"
proof (cases i)
  case (Event e)
  show ?thesis
  proof (cases "f e")
    case (Some x)
    show ?thesis
      using assms Event Some flush_open_healthy [of ok "note" "s\<lparr>ts_batch := ts_batch s @ [x]\<rparr>"]
      by (cases "batchSize \<le> Suc (length (ts_batch s))") (simp_all add: stream_step_def input_entries_def closes_stream_def)
  qed (use assms Event in \<open>simp add: stream_step_def input_entries_def closes_stream_def\<close>)
next
  case Ticker
  then show ?thesis using assms flush_open_healthy [of ok "note" s]
    by (cases "ts_batch s = []") (simp_all add: stream_step_def input_entries_def closes_stream_def)
next
  case EventsClosed
  have "stream_healthy ok (snd (stream_flush ok note True s))" using assms EventsClosed by (simp add: stream_step_def split: prod.splits)
  from stream_flush_healthy [OF this] show ?thesis using EventsClosed
    by (cases "stream_flush ok note True s") (simp add: stream_step_def input_entries_def closes_stream_def)
next
  case Done
  have "stream_healthy ok (snd (stream_flush ok note True s))" using assms Done by (simp add: stream_step_def)
  from stream_flush_healthy [OF this] show ?thesis using Done by (simp add: stream_step_def input_entries_def closes_stream_def)
qed

interpretation stream: batcher "stream_step ok f note" "stream_run ok f note" "\<lambda>s. ts_outcome s \<noteq> Streaming" "stream_healthy ok"
    ts_batch stream_entries "input_entries f" closes_stream
  by unfold_locales (auto dest: stream_step_healthy)

lemma reader_flush_props:
  "lr_batch (reader_flush ok s) = []" "concat (lr_sent (reader_flush ok s)) = concat (lr_sent s) @ lr_batch s"
  "lr_stopped (reader_flush ok s) = lr_stopped s" "lr_failed s \<Longrightarrow> lr_failed (reader_flush ok s)"
  by (auto simp: reader_flush_def)

lemma reader_stop_props:
  "lr_batch (reader_stop ok s) = []" "concat (lr_sent (reader_stop ok s)) = concat (lr_sent s) @ lr_batch s"
  "lr_stopped (reader_stop ok s)" "lr_failed s \<Longrightarrow> lr_failed (reader_stop ok s)"
  by (simp_all add: reader_stop_def reader_flush_props)

lemma flush_or_stop_props:
  "lr_batch (flush_or_stop ok s) = []" "concat (lr_sent (flush_or_stop ok s)) = concat (lr_sent s) @ lr_batch s"
  "\<not> lr_failed (flush_or_stop ok s) \<Longrightarrow> lr_stopped (flush_or_stop ok s) = lr_stopped s" "lr_failed s \<Longrightarrow> lr_failed (flush_or_stop ok s)"
  by (auto simp: flush_or_stop_def reader_flush_props reader_stop_props Let_def)

lemma reader_step_healthy:
  assumes "\<not> lr_failed (reader_step ok f s i)"
  shows "\<not> lr_failed s
    \<and> concat (lr_sent (reader_step ok f s i)) @ lr_batch (reader_step ok f s i) = concat (lr_sent s) @ lr_batch s @ input_entries f i
    \<and> (if closes_stream i then lr_stopped (reader_step ok f s i) \<and> lr_batch (reader_step ok f s i) = [] \<and> input_entries f i = []
       else lr_stopped (reader_step ok f s i) = lr_stopped s)"
proof (cases i)
  case (Event e)
  show ?thesis
  proof (cases "f e")
    case (Some x)
    show ?thesis
      using assms Event Some flush_or_stop_props [where ok = ok and s = "s\<lparr>lr_batch := lr_batch s @ [x], lr_batchBytes := lr_batchBytes s + length (be_Message x)\<rparr>"]
      by (cases "logBatchMaxEntries \<le> Suc (length (lr_batch s)) \<or> logBatchMaxBytes \<le> lr_batchBytes s + length (be_Message x)")
         (auto simp: reader_step_def input_entries_def closes_stream_def)
  qed (use assms Event in \<open>simp add: reader_step_def input_entries_def closes_stream_def\<close>)
qed (use assms flush_or_stop_props [where ok = ok and s = s] reader_stop_props [where ok = ok and s = s] in \<open>auto simp: reader_step_def input_entries_def closes_stream_def\<close>)

interpretation reader: batcher "reader_step ok f" "runReader ok f" lr_stopped "\<lambda>s. \<not> lr_failed s"
    lr_batch "\<lambda>s. concat (lr_sent s)" "input_entries f" closes_stream
  by unfold_locales (auto dest: reader_step_healthy)

subsection \<open>What arrives in the cloud\<close>

text \<open>The shape of what a stream has sent: full batches at most, the end marked once and last, the note on the first batch only.\<close>

definition stream_shape :: "(nat \<Rightarrow> bool) \<Rightarrow> tool_stream \<Rightarrow> bool" where
  "stream_shape ok s \<longleftrightarrow> length (ts_batch s) \<le> batchSize \<and> (ts_outcome s = Streaming \<longrightarrow> length (ts_batch s) < batchSize)
     \<and> list_all (\<lambda>r. length (sr_Entries r) \<le> batchSize) (ts_sent s)
     \<and> list_all (\<lambda>r. \<not> sr_EndStream r) (butlast (ts_sent s))
     \<and> (ts_outcome s = Streaming \<longrightarrow> list_all (\<lambda>r. \<not> sr_EndStream r) (ts_sent s))
     \<and> (ts_outcome s \<in> {Finished, Cancelled} \<longrightarrow> ts_sent s \<noteq> [] \<and> sr_EndStream (last (ts_sent s)))
     \<and> (ts_outcome s = SendFailed \<longrightarrow> ts_sent s \<noteq> [] \<and> \<not> ok (length (ts_sent s) - 1))
     \<and> (ts_noteSent s \<longleftrightarrow> ts_sent s \<noteq> []) \<and> list_all (\<lambda>r. sr_note r = None) (tl (ts_sent s))"

lemma tl_snoc: "tl (xs @ [x]) = (if xs = [] then [] else tl xs @ [x])"
  by (cases xs) simp_all

lemma shape_streaming:
  assumes "stream_shape ok s" and "ts_outcome s = Streaming"
  shows "list_all (\<lambda>r. \<not> sr_EndStream r) (ts_sent s)" "ts_noteSent s \<longleftrightarrow> ts_sent s \<noteq> []"
    "list_all (\<lambda>r. length (sr_Entries r) \<le> batchSize) (ts_sent s)" "list_all (\<lambda>r. sr_note r = None) (tl (ts_sent s))"
    "length (ts_batch s) < batchSize" "0 < batchSize"
  using assms by (auto simp: stream_shape_def batchSize_def)

lemma shape_end:
  assumes "stream_shape ok s" and "ts_outcome s = Streaming" and "x = (if fst (stream_flush ok note True s) then Finished else SendFailed) \<or> x = Cancelled"
  shows "stream_shape ok ((snd (stream_flush ok note True s))\<lparr>ts_outcome := x\<rparr>)"
  using shape_streaming [OF assms(1,2)] assms(3) by (auto simp: stream_shape_def stream_flush_def Let_def tl_snoc)

lemma shape_flush_open:
  assumes "stream_shape ok s" and "ts_outcome s = Streaming" and "length b \<le> batchSize" and "b \<noteq> []"
  shows "stream_shape ok (flush_open ok note (s\<lparr>ts_batch := b\<rparr>))"
  using shape_streaming [OF assms(1,2)] assms(2-4)
  by (cases "ok (length (ts_sent s))")
     (auto simp: stream_shape_def flush_open_def stream_flush_def Let_def tl_snoc)

lemma shape_step:
  assumes "stream_shape ok s" and "ts_outcome s = Streaming"
  shows "stream_shape ok (stream_step ok f note s i)"
proof (cases i)
  case (Event e)
  show ?thesis
  proof (cases "f e")
    case (Some x)
    have "stream_shape ok (s\<lparr>ts_batch := ts_batch s @ [x]\<rparr>)" if "Suc (length (ts_batch s)) < batchSize"
      using assms that by (simp add: stream_shape_def)
    moreover have "stream_shape ok (flush_open ok note (s\<lparr>ts_batch := ts_batch s @ [x]\<rparr>))"
      using shape_streaming(5) [OF assms] by (intro shape_flush_open [OF assms]) simp_all
    ultimately show ?thesis using Event Some by (simp add: stream_step_def Let_def)
  qed (use assms Event in \<open>simp add: stream_step_def\<close>)
next
  case Ticker
  have "stream_shape ok (flush_open ok note (s\<lparr>ts_batch := ts_batch s\<rparr>))" if "ts_batch s \<noteq> []"
    using that shape_streaming(5) [OF assms] by (intro shape_flush_open [OF assms]) simp_all
  then show ?thesis using Ticker assms by (simp add: stream_step_def)
next
  case EventsClosed
  obtain r s' where f: "stream_flush ok note True s = (r, s')" by fastforce
  have "stream_shape ok (s'\<lparr>ts_outcome := (if r then Finished else SendFailed)\<rparr>)"
    using shape_end [OF assms, of "if r then Finished else SendFailed" "note"] f by simp
  then show ?thesis using EventsClosed f by (simp add: stream_step_def)
next
  case Done
  then show ?thesis using shape_end [OF assms, of Cancelled "note"] by (simp add: stream_step_def)
qed

lemma shape_run: "stream_shape ok s \<Longrightarrow> stream_shape ok (stream_run ok f note s is)"
  by (induction "is" arbitrary: s) (auto intro: shape_step)

text \<open>A tool call that streams logs loses, repeats or reorders no matching line while its sends succeed: what was sent and what is
still waiting are the matching events in their order.  Batches have at most fifty lines, the end is marked once, last, and leaves nothing
behind, and the note about an ambiguous name comes with the first batch only.\<close>

theorem streamed_logs_complete:
  assumes "s = stream_run ok f note new_stream inputs" and "stream_healthy ok s"
  shows "stream_entries s @ ts_batch s = List.map_filter f (arrived inputs)
    \<and> list_all (\<lambda>r. length (sr_Entries r) \<le> batchSize) (ts_sent s)
    \<and> list_all (\<lambda>r. \<not> sr_EndStream r) (butlast (ts_sent s)) \<and> list_all (\<lambda>r. sr_note r = None) (tl (ts_sent s))
    \<and> (EventsClosed \<in> set inputs \<or> Done \<in> set inputs \<longrightarrow> ts_batch s = [] \<and> sr_EndStream (last (ts_sent s)))"
proof -
  have shape: "stream_shape ok s" unfolding assms(1) by (rule shape_run) (simp add: stream_shape_def new_stream_def batchSize_def)
  have start: "\<not> ts_outcome new_stream \<noteq> Streaming" "stream_entries new_stream = []" "ts_batch new_stream = []"
    by (simp_all add: new_stream_def stream_entries_def)
  have "stream_entries s @ ts_batch s = List.map_filter f (arrived inputs)"
    using stream.run_conserves [OF assms(2)[unfolded assms(1)] start(1)] by (simp add: assms(1) start(2,3) arrived_entries)
  moreover have "ts_batch s = [] \<and> sr_EndStream (last (ts_sent s))" if "EventsClosed \<in> set inputs \<or> Done \<in> set inputs"
  proof -
    have "\<exists>i\<in>set inputs. closes_stream i" using that by (auto simp: closes_stream_def)
    then have end_: "ts_outcome s \<noteq> Streaming \<and> ts_batch s = []"
      using stream.run_drained [OF assms(2)[unfolded assms(1)] start(1)] by (simp add: assms(1))
    have "ts_outcome s \<noteq> SendFailed" using shape assms(2) by (auto simp: stream_shape_def stream_healthy_def)
    then show ?thesis using end_ shape by (cases "ts_outcome s") (auto simp: stream_shape_def)
  qed
  ultimately show ?thesis using shape by (simp add: stream_shape_def)
qed

definition batch_bytes :: "batch_entry list \<Rightarrow> nat" where
  "batch_bytes b = sum_list (map (\<lambda>x. length (be_Message x)) b)"

definition batch_ok :: "batch_entry list \<Rightarrow> bool" where
  "batch_ok b \<longleftrightarrow> b \<noteq> [] \<and> length b \<le> logBatchMaxEntries \<and> batch_bytes (butlast b) < logBatchMaxBytes"

definition reader_shape :: "log_reader_state \<Rightarrow> bool" where
  "reader_shape s \<longleftrightarrow> list_all batch_ok (lr_sent s) \<and> lr_batchBytes s = batch_bytes (lr_batch s)
     \<and> length (lr_batch s) < logBatchMaxEntries \<and> lr_batchBytes s < logBatchMaxBytes"

lemma batch_bytes_snoc [simp]: "batch_bytes (b @ [x]) = batch_bytes b + length (be_Message x)" "batch_bytes [] = 0"
  by (simp_all add: batch_bytes_def)

lemma reader_limits: "0 < logBatchMaxEntries" "0 < logBatchMaxBytes"
  by (simp_all add: logBatchMaxEntries_def logBatchMaxBytes_def)

lemma batch_bytes_butlast: "batch_bytes (butlast b) \<le> batch_bytes b"
  by (cases b rule: rev_cases) simp_all

lemma reader_shape_flush:
  assumes "list_all batch_ok (lr_sent s)" and "lr_batch s \<noteq> [] \<Longrightarrow> batch_ok (lr_batch s)" and "lr_batch s = [] \<Longrightarrow> lr_batchBytes s = 0"
  shows "reader_shape (reader_flush ok s)" "reader_shape (reader_stop ok s)" "reader_shape (flush_or_stop ok s)"
proof -
  show f: "reader_shape (reader_flush ok s)" using assms reader_limits by (auto simp: reader_flush_def reader_shape_def)
  have again: "reader_flush ok (reader_flush ok s) = reader_flush ok s" by (simp add: reader_flush_def)
  show "reader_shape (reader_stop ok s)" using f by (simp add: reader_stop_def reader_shape_def)
  show "reader_shape (flush_or_stop ok s)" using f again by (simp add: flush_or_stop_def reader_stop_def reader_shape_def Let_def)
qed

lemma reader_shape_pending: "reader_shape s \<Longrightarrow> lr_batch s \<noteq> [] \<Longrightarrow> batch_ok (lr_batch s)"
  using batch_bytes_butlast [of "lr_batch s"] by (auto simp: reader_shape_def batch_ok_def)

lemma reader_shape_flushes:
  assumes s: "reader_shape s"
  shows "reader_shape (flush_or_stop ok s)" "reader_shape (reader_stop ok s)"
proof -
  have "list_all batch_ok (lr_sent s)" "lr_batch s = [] \<Longrightarrow> lr_batchBytes s = 0" using s by (auto simp: reader_shape_def)
  then show "reader_shape (flush_or_stop ok s)" "reader_shape (reader_stop ok s)"
    using reader_shape_pending [OF s] by (auto intro: reader_shape_flush)
qed

lemma reader_shape_step: "reader_shape s \<Longrightarrow> reader_shape (reader_step ok f s i)"
proof (cases i)
  case (Event e)
  assume s: "reader_shape s"
  show ?thesis
  proof (cases "f e")
    case (Some x)
    let ?s = "s\<lparr>lr_batch := lr_batch s @ [x], lr_batchBytes := lr_batchBytes s + length (be_Message x)\<rparr>"
    have "batch_ok (lr_batch s @ [x])" using s by (simp add: batch_ok_def reader_shape_def)
    then have "reader_shape (flush_or_stop ok ?s)" using s by (intro reader_shape_flush(3)) (auto simp: reader_shape_def)
    moreover have "reader_shape ?s" if "\<not> (logBatchMaxEntries \<le> length (lr_batch ?s) \<or> logBatchMaxBytes \<le> lr_batchBytes ?s)"
      using s that by (simp add: reader_shape_def)
    ultimately show ?thesis using Event Some by (simp add: reader_step_def Let_def)
  qed (use s Event in \<open>simp add: reader_step_def\<close>)
qed (auto simp: reader_step_def intro: reader_shape_flushes)

lemma reader_shape_run: "reader_shape s \<Longrightarrow> reader_shape (runReader ok f s is)"
  by (induction "is" arbitrary: s) (auto intro: reader_shape_step)

text \<open>C31. The reader of a container sends to the cloud exactly the lines that are not below the minimum level of the container, in their
order and without loss or repetition while its sends succeed; a line without a known level always passes.  No batch is empty, none has more
than five hundred lines, and without its last line each is below 256 KiB.\<close>

theorem cloud_lines_complete:
  assumes "s = runReader ok (batch_entry_of to_json now c minRank) new_reader inputs"
  shows "(\<not> lr_failed s \<longrightarrow> concat (lr_sent s) @ lr_batch s
            = map (the \<circ> batch_entry_of to_json now c 0)
                (filter (\<lambda>e. cloudLevelRank (le_Level e) = 0 \<or> minRank \<le> cloudLevelRank (le_Level e)) (arrived inputs)))
    \<and> list_all (\<lambda>b. b \<noteq> [] \<and> length b \<le> logBatchMaxEntries \<and> batch_bytes (butlast b) < logBatchMaxBytes) (lr_sent s)
    \<and> (\<not> lr_failed s \<longrightarrow> EventsClosed \<in> set inputs \<or> Done \<in> set inputs \<longrightarrow> lr_batch s = [])"
proof -
  let ?f = "batch_entry_of to_json now c minRank"
  have start: "\<not> lr_stopped new_reader" "lr_batch new_reader = []" "lr_sent new_reader = []" by (simp_all add: new_reader_def)
  have "reader_shape s" unfolding assms by (rule reader_shape_run) (simp add: reader_shape_def new_reader_def reader_limits)
  then have shape: "list_all batch_ok (lr_sent s)" by (simp add: reader_shape_def)
  have rank: "0 \<le> cloudLevelRank l" for l by (simp add: cloudLevelRank_def)
  have keep: "?f e = (if cloudLevelRank (le_Level e) = 0 \<or> minRank \<le> cloudLevelRank (le_Level e)
      then batch_entry_of to_json now c 0 e else None)" for e
    using rank [of "le_Level e"] by (auto simp: batch_entry_of_def)
  moreover have some: "batch_entry_of to_json now c 0 e \<noteq> None" for e by (simp add: batch_entry_of_def Let_def)
  ultimately have sel: "?f e \<noteq> None \<longleftrightarrow> cloudLevelRank (le_Level e) = 0 \<or> minRank \<le> cloudLevelRank (le_Level e)" for e
    by (simp split: if_split)
  have f: "List.map_filter ?f es = map (the \<circ> batch_entry_of to_json now c 0)
      (filter (\<lambda>e. cloudLevelRank (le_Level e) = 0 \<or> minRank \<le> cloudLevelRank (le_Level e)) es)" for es
    unfolding List.map_filter_def sel by (rule map_cong [OF refl]) (auto simp: keep)
  have "concat (lr_sent s) @ lr_batch s = List.map_filter ?f (arrived inputs)" if "\<not> lr_failed s"
    using reader.run_conserves [OF that [unfolded assms] start(1)] by (simp add: assms start arrived_entries)
  moreover have "lr_batch s = []" if "\<not> lr_failed s" "EventsClosed \<in> set inputs \<or> Done \<in> set inputs"
  proof -
    have "\<exists>i\<in>set inputs. closes_stream i" using that(2) by (auto simp: closes_stream_def)
    then show ?thesis using reader.run_drained [OF that(1) [unfolded assms] start(1)] by (simp add: assms)
  qed
  ultimately show ?thesis using shape by (simp add: f batch_ok_def [abs_def])
qed

subsection \<open>Starting readers\<close>

text \<open>A reader that runs is its key with the minimum rank it filters by.\<close>

record log_streamer =
  ls_readers :: "string set"
  ls_running :: "(string \<times> container \<times> int) list"

definition newLogStreamer :: log_streamer where
  "newLogStreamer = \<lparr>ls_readers = {}, ls_running = []\<rparr>"

definition readerKey :: "string \<Rightarrow> string \<Rightarrow> string" where
  "readerKey hostID containerID = hostID @ ''|'' @ containerID"

definition startReader :: "tool_deps \<Rightarrow> container \<Rightarrow> log_streamer \<Rightarrow> log_streamer" where
  "startReader deps c ls =
     (case parseMinLevel (map_get (c_Labels c) cloudMinLevelLabel) of (minRank, disabled, valid) \<Rightarrow>
        (let key = readerKey (c_Host c) (c_ID c)
         in if disabled \<or> key \<in> ls_readers ls then ls
            else case hs_FindContainer (td_HostService deps) (c_Host c) (c_ID c) (td_Labels deps) of
                   Inl _ \<Rightarrow> ls
                 | Inr cs \<Rightarrow> ls\<lparr>ls_readers := insert key (ls_readers ls), ls_running := ls_running ls @ [(key, cs, minRank)]\<rparr>))"

definition start_if_running :: "tool_deps \<Rightarrow> container \<Rightarrow> log_streamer \<Rightarrow> log_streamer" where
  "start_if_running deps c ls = (if c_State c \<noteq> ''running'' then ls else startReader deps c ls)"

definition start_existing :: "tool_deps \<Rightarrow> log_streamer \<Rightarrow> log_streamer" where
  "start_existing deps ls = fold (start_if_running deps) (hs_ListAllContainers (td_HostService deps) (td_Labels deps)) ls"

text \<open>The end of the reader at a position of the list.\<close>

definition reader_ended :: "nat \<Rightarrow> log_streamer \<Rightarrow> log_streamer" where
  "reader_ended n ls =
     (if n < length (ls_running ls)
      then ls\<lparr>ls_readers := ls_readers ls - {fst (ls_running ls ! n)}, ls_running := take n (ls_running ls) @ drop (Suc n) (ls_running ls)\<rparr>
      else ls)"

text \<open>A connection begins with the running containers; then containers start and readers end in any order.  The services answer
differently from call to call.\<close>

inductive streamer_step :: "log_streamer \<Rightarrow> log_streamer \<Rightarrow> bool" where
  Appears: "streamer_step ls (start_if_running deps c ls)"
| Ends: "streamer_step ls (reader_ended n ls)"

definition enabled_for_cloud :: "container \<Rightarrow> bool" where
  "enabled_for_cloud c \<longleftrightarrow> ToLower (TrimSpace (map_get (c_Labels c) cloudMinLevelLabel)) \<noteq> ''disabled''"

subsection \<open>The client\<close>

definition initialBackoff :: duration where "initialBackoff = Second"
definition maxBackoff :: duration where "maxBackoff = 30 * Second"
definition unauthenticatedPause :: duration where "unauthenticatedPause = Hour"

definition cloud_target :: "string \<Rightarrow> bool \<times> string" where
  "cloud_target env =
     (let url = (if env = [] then ''https://agent.doligence.dozzle.dev'' else env);
          plaintext = has_prefix ''http://'' url;
          trim = (\<lambda>p s. if has_prefix p s then drop (length p) s else s);
          target = trim ''http://'' (trim ''https://'' url)
      in (plaintext, if str_contains '':'' target then target else target @ (if plaintext then '':80'' else '':443'')))"

text \<open>A gRPC error is the list of the status codes on its chain of causes, \<open>None\<close> for a cause without one.\<close>

datatype grpc_code = PermissionDenied | Unauthenticated | OtherCode

definition hasGRPCCode :: "grpc_code option list \<Rightarrow> grpc_code \<Rightarrow> bool" where
  "hasGRPCCode err code = list_ex (\<lambda>c. c = Some code) err"

datatype pause = WaitForSignal | WaitTimer duration

text \<open>
  One round of \<open>Run\<close> after a connection ended: how long it waits and the backoff afterwards, where \<open>woken\<close> tells that a signal
  ended the wait before the timer did.
\<close>

definition run_pause :: "duration \<Rightarrow> duration \<Rightarrow> bool \<Rightarrow> grpc_code option list \<Rightarrow> bool \<Rightarrow> pause \<times> duration" where
  "run_pause jitter backoff wasConnected err woken =
     (let b = (if wasConnected then initialBackoff else backoff)
      in if hasGRPCCode err PermissionDenied then (WaitForSignal, initialBackoff)
         else if hasGRPCCode err Unauthenticated then (WaitTimer unauthenticatedPause, initialBackoff)
         else (WaitTimer (b + jitter), min ((if woken then initialBackoff else b) * 2) maxBackoff))"

fun run_rounds :: "duration \<Rightarrow> (duration \<times> bool \<times> grpc_code option list \<times> bool) list \<Rightarrow> pause list" where
  "run_rounds b [] = []"
| "run_rounds b ((jitter, wasConnected, err, woken) # rs) =
     (case run_pause jitter b wasConnected err woken of (p, b') \<Rightarrow> p # run_rounds b' rs)"

text \<open>
  A connection: the log streams that run, with the identifiers of their requests, the identifiers that can be cancelled and the
  stream each stands for, the tool calls that wait for the semaphore and those that hold it.
\<close>

definition maxConcurrent :: nat where "maxConcurrent = 5"
definition maxConcurrentStreams :: nat where "maxConcurrentStreams = 10"

record connection =
  cn_streams :: "(nat \<times> string) list"
  cn_active :: "string \<rightharpoonup> nat"
  cn_cancelled :: "nat set"
  cn_next :: nat
  cn_waiting :: "(string \<times> tool_call) list"
  cn_calls :: "(string \<times> tool_call) list"
  cn_refused :: "string list"

definition new_connection :: connection where
  "new_connection = \<lparr>cn_streams = [], cn_active = Map.empty, cn_cancelled = {}, cn_next = 0, cn_waiting = [], cn_calls = [], cn_refused = []\<rparr>"

datatype cloud_request = CancelStream string | CallTool string tool_call | ListToolsRequest string

definition receive_request :: "cloud_request \<Rightarrow> connection \<Rightarrow> connection" where
  "receive_request req cn =
     (case req of
        CancelStream r \<Rightarrow>
          (case cn_active cn r of
             None \<Rightarrow> cn
           | Some n \<Rightarrow> cn\<lparr>cn_active := (cn_active cn)(r := None), cn_cancelled := insert n (cn_cancelled cn)\<rparr>)
      | CallTool r call \<Rightarrow>
          (if tc_Name call = ''stream_logs''
           then (if maxConcurrentStreams \<le> length (cn_streams cn) then cn\<lparr>cn_refused := cn_refused cn @ [r]\<rparr>
                 else cn\<lparr>cn_streams := cn_streams cn @ [(cn_next cn, r)], cn_active := (cn_active cn)(r \<mapsto> cn_next cn), cn_next := cn_next cn + 1\<rparr>)
           else cn\<lparr>cn_waiting := cn_waiting cn @ [(r, call)]\<rparr>)
      | ListToolsRequest r \<Rightarrow> cn)"

definition stream_over :: "nat \<Rightarrow> connection \<Rightarrow> connection" where
  "stream_over n cn =
     (case map_of (cn_streams cn) n of
        None \<Rightarrow> cn
      | Some r \<Rightarrow> cn\<lparr>cn_streams := filter (\<lambda>s. fst s \<noteq> n) (cn_streams cn), cn_active := (cn_active cn)(r := None), cn_cancelled := insert n (cn_cancelled cn)\<rparr>)"

text \<open>The end of a connection cancels every stream and waits for all of them.\<close>

inductive connection_step :: "connection \<Rightarrow> connection \<Rightarrow> bool" where
  Receives: "connection_step cn (receive_request req cn)"
| StreamOver: "connection_step cn (stream_over n cn)"
| Acquires: "i < length (cn_waiting cn) \<Longrightarrow> length (cn_calls cn) < maxConcurrent \<Longrightarrow>
    connection_step cn (cn\<lparr>cn_waiting := take i (cn_waiting cn) @ drop (Suc i) (cn_waiting cn), cn_calls := cn_calls cn @ [cn_waiting cn ! i]\<rparr>)"
| Answers: "i < length (cn_calls cn) \<Longrightarrow>
    connection_step cn (cn\<lparr>cn_calls := take i (cn_calls cn) @ drop (Suc i) (cn_calls cn)\<rparr>)"
| Drops: "connection_step cn (new_connection\<lparr>cn_next := cn_next cn\<rparr>)"

datatype cloud_answer = ToolsAnswer string "tool_definition list" string | CallAnswer string tool_answer

text \<open>The answer to a request, what it did to containers and the settings afterwards.\<close>

definition handleRequest ::
    "tool_world \<Rightarrow> string \<Rightarrow> bool \<Rightarrow> cloud_request \<Rightarrow> multi_host \<Rightarrow> go_panic + cloud_answer option \<times> deed list \<times> multi_host" where
  "handleRequest w version cancelled req mh =
     (case req of
        ListToolsRequest r \<Rightarrow> Inr (Some (ToolsAnswer r (AvailableTools (td_EnableActions (tw_deps w))) version), [], mh)
      | CallTool r call \<Rightarrow>
          (case ExecuteTool w cancelled call mh of Inl p \<Rightarrow> Inl p | Inr (a, ds, mh') \<Rightarrow> Inr (Some (CallAnswer r a), ds, mh'))
      | CancelStream r \<Rightarrow> Inr (None, [], mh))"

subsection \<open>One reader per container\<close>

definition readers_inv :: "log_streamer \<Rightarrow> bool" where
  "readers_inv ls \<longleftrightarrow> distinct (map fst (ls_running ls)) \<and> ls_readers ls = set (map fst (ls_running ls))"

lemma start_readers_inv: "readers_inv ls \<Longrightarrow> readers_inv (start_if_running deps c ls)"
  by (auto simp: readers_inv_def start_if_running_def startReader_def Let_def split: prod.splits sum.splits)

lemma ended_readers_inv: "readers_inv ls \<Longrightarrow> readers_inv (reader_ended n ls)"
proof (cases "n < length (ls_running ls)")
  case True
  assume inv: "readers_inv ls"
  define a b x where "a = take n (ls_running ls)" and "b = drop (Suc n) (ls_running ls)" and "x = ls_running ls ! n"
  have "ls_running ls = a @ x # b" using True unfolding a_def b_def x_def by (rule id_take_nth_drop)
  then show ?thesis using inv True unfolding readers_inv_def reader_ended_def a_def [symmetric] b_def [symmetric] x_def [symmetric] by auto
qed (simp add: reader_ended_def)

lemma streamer_inv: "streamer_step\<^sup>*\<^sup>* newLogStreamer ls \<Longrightarrow> readers_inv ls"
proof (induction rule: rtranclp_induct)
  case base
  show ?case by (simp add: readers_inv_def newLogStreamer_def)
next
  case (step ls ls')
  then show ?case by (auto elim!: streamer_step.cases intro: start_readers_inv ended_readers_inv)
qed

text \<open>However containers appear and readers end, no container of a host has two readers at a time, which would send its lines twice, and a
reader that ended leaves room for the next one; a container whose label says \<open>disabled\<close> gets none.\<close>

theorem one_reader_per_container:
  assumes "streamer_step\<^sup>*\<^sup>* newLogStreamer ls"
  shows "distinct (map fst (ls_running ls)) \<and> ls_readers ls = set (map fst (ls_running ls))
    \<and> (\<not> enabled_for_cloud c \<longrightarrow> startReader deps c ls = ls)
    \<and> (enabled_for_cloud c \<longrightarrow> readerKey (c_Host c) (c_ID c) \<notin> set (map fst (ls_running ls)) \<longrightarrow>
        hs_FindContainer (td_HostService deps) (c_Host c) (c_ID c) (td_Labels deps) = Inr d \<longrightarrow>
        readerKey (c_Host c) (c_ID c) \<in> set (map fst (ls_running (startReader deps c ls))))"
proof -
  have "readers_inv ls" using assms by (rule streamer_inv)
  then show ?thesis
    by (auto simp: readers_inv_def startReader_def enabled_for_cloud_def parseMinLevel_def Let_def split: prod.splits if_splits)
qed

subsection \<open>The limits of a connection\<close>

definition connection_inv :: "connection \<Rightarrow> bool" where
  "connection_inv cn \<longleftrightarrow> length (cn_streams cn) \<le> maxConcurrentStreams \<and> length (cn_calls cn) \<le> maxConcurrent
     \<and> distinct (map fst (cn_streams cn)) \<and> (\<forall>n r. (n, r) \<in> set (cn_streams cn) \<longrightarrow> n < cn_next cn)
     \<and> (\<forall>r n. cn_active cn r = Some n \<longrightarrow> (n, r) \<in> set (cn_streams cn))"

lemma connection_inv_receive: "connection_inv cn \<Longrightarrow> connection_inv (receive_request req cn)"
  by (cases req) (auto simp: connection_inv_def receive_request_def less_Suc_eq split: option.splits if_splits)

lemma connection_inv_over: "connection_inv cn \<Longrightarrow> connection_inv (stream_over n cn)"
proof (cases "map_of (cn_streams cn) n")
  case (Some r)
  assume inv: "connection_inv cn"
  have len: "length (filter (\<lambda>s. fst s \<noteq> n) (cn_streams cn)) \<le> length (cn_streams cn)" by (rule length_filter_le)
  have same: "r' = r" if "(n, r') \<in> set (cn_streams cn)" for r'
    using inv that Some by (auto simp: connection_inv_def dest: map_of_is_SomeI)
  let ?cn = "stream_over n cn"
  have over: "cn_streams ?cn = filter (\<lambda>s. fst s \<noteq> n) (cn_streams cn)" "cn_active ?cn = (cn_active cn)(r := None)"
      "cn_calls ?cn = cn_calls cn" "cn_next ?cn = cn_next cn"
    using Some by (simp_all add: stream_over_def)
  have active: "(m, q) \<in> set (cn_streams ?cn)" if "cn_active ?cn q = Some m" for q m
  proof -
    have "q \<noteq> r" "(m, q) \<in> set (cn_streams cn)" using that inv by (auto simp: over connection_inv_def split: if_splits)
    then show ?thesis using same by (auto simp: over)
  qed
  show ?thesis unfolding connection_inv_def
  proof (intro conjI allI impI)
    show "distinct (map fst (cn_streams ?cn))" using inv by (simp add: over connection_inv_def distinct_map_filter)
    show "length (cn_streams ?cn) \<le> maxConcurrentStreams" using inv len unfolding over connection_inv_def by linarith
  qed (use inv len active in \<open>auto simp: over connection_inv_def\<close>)
qed (simp add: stream_over_def)

lemma connection_inv_step: "connection_step cn cn' \<Longrightarrow> connection_inv cn \<Longrightarrow> connection_inv cn'"
proof (induction rule: connection_step.induct)
  case (Receives cn req)
  then show ?case by (rule connection_inv_receive)
next
  case (StreamOver cn n)
  then show ?case by (rule connection_inv_over)
qed (auto simp: connection_inv_def new_connection_def)

text \<open>However requests, streams and calls interleave, a connection never runs more than ten log streams or five calls at once, and a
request that can be cancelled stands for a stream that runs.\<close>

theorem cloud_connection_bounded:
  assumes "connection_step\<^sup>*\<^sup>* new_connection cn"
  shows "length (cn_streams cn) \<le> 10 \<and> length (cn_calls cn) \<le> 5
    \<and> (\<forall>r n. cn_active cn r = Some n \<longrightarrow> (n, r) \<in> set (cn_streams cn) \<and> n \<in> cn_cancelled (receive_request (CancelStream r) cn))"
proof -
  have "connection_inv cn" using assms
  proof (induction rule: rtranclp_induct)
    case base
    show ?case by (simp add: connection_inv_def new_connection_def)
  next
    case (step a b)
    then show ?case using connection_inv_step by blast
  qed
  then show ?thesis by (auto simp: connection_inv_def maxConcurrent_def maxConcurrentStreams_def receive_request_def)
qed

text \<open>When the cloud uses the identifier of a stream again, the end of the first stream takes away the means to cancel the second.\<close>

lemma repeated_request_uncancellable:
  assumes "length (cn_streams cn) < 9" and "tc_Name call = ''stream_logs''" and "connection_inv cn"
  shows "cn_active (stream_over (cn_next cn) (receive_request (CallTool r call) (receive_request (CallTool r call) cn))) r = None"
proof -
  have "map_of (cn_streams cn) (cn_next cn) = None"
    using assms(3) by (auto simp: connection_inv_def map_of_eq_None_iff)
  then show ?thesis using assms by (simp add: receive_request_def stream_over_def maxConcurrentStreams_def map_add_def)
qed

subsection \<open>Reconnecting\<close>

lemma run_rounds_failing:
  "n < length js \<Longrightarrow> run_rounds (min (2 ^ k) 30 * Second) (map (\<lambda>j. (j, False, [], False)) js) ! n = WaitTimer (min (2 ^ (k + n)) 30 * Second + js ! n)"
proof (induction js arbitrary: n k)
  case (Cons j js)
  have "min (min (2 ^ k) 30 * Second * 2) (30 * Second) = min (2 ^ Suc k) 30 * Second" for k :: nat
    by (cases "(2::int) ^ k \<le> 15"; cases "(2::int) ^ k \<le> 30") (simp_all add: Second_def min_def)
  then have "run_rounds (min (2 ^ k) 30 * Second) (map (\<lambda>j. (j, False, [], False)) (j # js))
      = WaitTimer (min (2 ^ k) 30 * Second + j) # run_rounds (min (2 ^ Suc k) 30 * Second) (map (\<lambda>j. (j, False, [], False)) js)"
    by (simp add: run_pause_def hasGRPCCode_def maxBackoff_def)
  then show ?case using Cons.IH [of "n - 1" "Suc k"] Cons.prems by (cases n) simp_all
qed simp

text \<open>While the cloud cannot be reached, the attempts are one, two, four, eight and sixteen seconds apart and then always thirty, each with
its jitter on top.\<close>

theorem reconnect_waits_exact:
  assumes "n < length jitters"
  shows "run_rounds initialBackoff (map (\<lambda>j. (j, False, [], False)) jitters) ! n = WaitTimer (min (2 ^ n) 30 * Second + jitters ! n)"
  using run_rounds_failing [OF assms, of 0] by (simp add: initialBackoff_def)

subsection \<open>Samples\<close>

definition demo_line :: log_event where
  "demo_line = \<lparr>le_Type = LogTypeSingle, le_Message = MString ''x'', le_RawMessage = ''x'', le_Timestamp = 1, le_Id = 1, le_Level = ''error'',
     le_Stream = ''stdout'', le_ContainerID = ''b''\<rparr>"

definition demo_inputs :: "stream_input list" where
  "demo_inputs = [Event demo_line, Event (demo_line\<lparr>le_Level := ''debug''\<rparr>), Ticker, Event demo_line, EventsClosed]"

lemma demo_inputs_simps: "arrived demo_inputs = [demo_line, demo_line\<lparr>le_Level := ''debug''\<rparr>, demo_line]" "EventsClosed \<in> set demo_inputs"
  by (simp_all add: demo_inputs_def)

theorem streamed_logs_complete_witness:
  "stream_entries (stream_run (\<lambda>_. True) (\<lambda>e. Some (to_entry e (le_RawMessage e))) None new_stream demo_inputs)
     = map (\<lambda>e. to_entry e (le_RawMessage e)) [demo_line, demo_line\<lparr>le_Level := ''debug''\<rparr>, demo_line]"
  using streamed_logs_complete [OF refl, of "\<lambda>_. True" "\<lambda>e. Some (to_entry e (le_RawMessage e))" None demo_inputs]
  by (auto simp: stream_healthy_def demo_inputs_simps List.map_filter_simps)

lemma demo_reader_ok: "\<not> lr_failed (runReader (\<lambda>_. True) f new_reader inputs)"
proof -
  have "\<not> lr_failed s \<Longrightarrow> \<not> lr_failed (runReader (\<lambda>_. True) f s inputs)" for s
  proof (induction inputs arbitrary: s)
    case (Cons i "is")
    have "\<not> lr_failed (reader_step (\<lambda>_. True) f s i)" using Cons.prems
      by (auto simp: reader_step_def flush_or_stop_def reader_stop_def reader_flush_def Let_def split: stream_input.splits option.splits)
    then show ?case using Cons by simp
  qed simp
  then show ?thesis by (simp add: new_reader_def)
qed

theorem cloud_lines_complete_witness:
  "map be_Level (concat (lr_sent (runReader (\<lambda>_. True) (batch_entry_of (\<lambda>_. None) 0 demo_live 4) new_reader demo_inputs))) = [''error'', ''error'']"
  using cloud_lines_complete [OF refl, of "\<lambda>_. True" "\<lambda>_. None" 0 demo_live 4 demo_inputs] demo_reader_ok
  by (auto simp: demo_inputs_simps demo_line_def cloudLevelRank_def batch_entry_of_def Let_def)

theorem one_reader_per_container_witness:
  "ls_running (startReader demo_deps demo_live (startReader demo_deps demo_live newLogStreamer)) = [(''h|b'', demo_live, 0)]
     \<and> distinct (map fst (ls_running (startReader demo_deps demo_live (startReader demo_deps demo_live newLogStreamer))))"
proof -
  have labels: "c_State demo_live = ''running''" "c_Host demo_live = ''h''" "c_ID demo_live = ''b''" "c_Labels demo_live = Map.empty"
    by (simp_all add: demo_live_def sample_container_def)
  have "start_if_running demo_deps demo_live ls = startReader demo_deps demo_live ls" for ls by (simp add: start_if_running_def labels)
  then have "streamer_step ls (startReader demo_deps demo_live ls)" for ls using Appears by metis
  then have "streamer_step\<^sup>*\<^sup>* newLogStreamer (startReader demo_deps demo_live (startReader demo_deps demo_live newLogStreamer))"
    by (meson rtranclp.rtrancl_into_rtrancl rtranclp.rtrancl_refl)
  then have "distinct (map fst (ls_running (startReader demo_deps demo_live (startReader demo_deps demo_live newLogStreamer))))"
    using one_reader_per_container by blast
  moreover have "ls_running (startReader demo_deps demo_live (startReader demo_deps demo_live newLogStreamer)) = [(''h|b'', demo_live, 0)]"
    by (simp add: startReader_def newLogStreamer_def labels map_get_def parseMinLevel_def TrimSpace_def ToLower_def readerKey_def demo_deps_def Let_def)
  ultimately show ?thesis by blast
qed

theorem cloud_connection_bounded_witness:
  "length (cn_streams (receive_request (CallTool ''r'' \<lparr>tc_Name = ''stream_logs'', tc_blank = False, tc_args = None\<rparr>) new_connection)) = 1
    \<and> (0, ''r'') \<in> set (cn_streams (receive_request (CallTool ''r'' \<lparr>tc_Name = ''stream_logs'', tc_blank = False, tc_args = None\<rparr>) new_connection))"
proof -
  let ?req = "CallTool ''r'' \<lparr>tc_Name = ''stream_logs'', tc_blank = False, tc_args = None\<rparr>"
  have "connection_step\<^sup>*\<^sup>* new_connection (receive_request ?req new_connection)" by (rule r_into_rtranclp) (rule Receives)
  from cloud_connection_bounded [OF this]
  have b: "\<forall>r n. cn_active (receive_request ?req new_connection) r = Some n \<longrightarrow> (n, r) \<in> set (cn_streams (receive_request ?req new_connection))" by blast
  have "cn_active (receive_request ?req new_connection) ''r'' = Some 0"
    by (simp add: receive_request_def new_connection_def maxConcurrentStreams_def)
  with b show ?thesis by (auto simp: receive_request_def new_connection_def maxConcurrentStreams_def)
qed

theorem reconnect_waits_exact_witness:
  "run_rounds initialBackoff (map (\<lambda>j. (j, False, [], False)) [0, 1, 2, 3, 4, 5]) ! 5 = WaitTimer (30 * Second + 5)"
  using reconnect_waits_exact [of 5 "[0, 1, 2, 3, 4, 5]"] by (simp add: nth_Cons numeral_eq_Suc)

end
