(* ===== verification/Spec2Isabelle.thy ===== *)
theory Spec2Isabelle
  imports RingBuf LogFmt GoTime EventGen QuietSummary Dispatchers DeliverySteps Cooldowns NotifConfig Listeners LogStoreReads LogStoreWrites DockerUpdate WebLogs CacheWorker CloudStream
begin

text \<open>
  Dozzle shows the logs of containers in a browser, keeps them, and alerts on what they say.  This development models the Go server of
  the repository and proves what makes its parts correct.  File names are those under \<open>src/\<close>.

  \<^bold>\<open>Parts and how they interact.\<close>  An engine client (\<open>internal/docker\<close>) lists containers, reads their logs and statistics; a container
  store (\<open>internal/container\<close>) keeps what the engine reported; client managers and the service over all hosts
  (\<open>internal/support/docker\<close>) put the stores of several engines and agents together.  Log bytes become events in the event generator.
  A log store (\<open>internal/log_storage\<close>) keeps events on disk, filled by a background worker.  The notification manager
  (\<open>internal/notification\<close>) hears log lines, statistics and container events through three listeners, matches them with subscriptions and
  sends, holds back or summarises notifications through dispatchers and a persistent queue.  The web layer (\<open>internal/web\<close>,
  \<open>internal/auth\<close>, \<open>internal/support/web\<close>) decides who may do what and serves logs as HTML; Dozzle Cloud calls tools over one connection
  (\<open>internal/cloud\<close>).

  \<^bold>\<open>Theories.\<close>
  \<^item> \<open>Prelude\<close>: error folds, suffixes of lists, enumerated maps, strings and numbers as Go prints them, with the lemmas all parts share.
  \<^item> \<open>RingBuf\<close> (\<open>utils/ring_buffer.go\<close>): refinement of a ring buffer to the last elements pushed; locale \<open>bounded_window\<close>.
  \<^item> \<open>GoTime\<close>: instants as nanoseconds, zones as functions, \<open>time.Date\<close>, \<open>%d\<close> scanning, 64-bit wrap-around.
  \<^item> \<open>LogFmt\<close> (\<open>container/logfmt.go\<close>): the parser never reads out of range and inverts printing.
  \<^item> \<open>ContainerTypes\<close> (\<open>container/types.go\<close>, \<open>host.go\<close>): containers, events, log events, the agent protocol and label filters.
  \<^item> \<open>EventGen\<close> (\<open>container/event_generator.go\<close>): grouping is a partition of the events that came in.
  \<^item> \<open>NotifTypes\<close>, \<open>Subscription\<close>, \<open>AlertModifiers\<close> (\<open>notification/types.go\<close>, \<open>modifiers.go\<close>): rules, metric windows, bursts, unique keys;
    locale \<open>cooldown\<close> for the five cooldowns.
  \<^item> \<open>QuietHours\<close>, \<open>QuietSummary\<close> (\<open>processing.go\<close>, \<open>quiet_summary.go\<close>): windows over midnight, their end, and what a summary counts.
  \<^item> \<open>NotifQueue\<close> (\<open>notification/queue\<close>): the tables of the queue; locale \<open>once_queue\<close>: what was settled is never handed out again, which \<open>DeliverySteps\<close> shows of the manager.
  \<^item> \<open>Dispatchers\<close> (\<open>notification/dispatcher\<close>): webhooks, ntfy, the cloud and its circuit breaker, addresses that are refused.
  \<^item> \<open>NotifManager\<close>, \<open>AlertProcessing\<close>, \<open>Delivery\<close>, \<open>DeliverySteps\<close>, \<open>Cooldowns\<close>: the manager's handlers, then its runs as steps: at most
    three deliveries of a queued notification but for status updates that fail, none after a delivery that was recorded, the retry schedule of a direct one, cooldowns that survive a restart.
  \<^item> \<open>NotifConfig\<close> (\<open>config.go\<close>, \<open>persist.go\<close>, \<open>cloud_config.go\<close>): saved settings load again; an agent replaces its settings.
  \<^item> \<open>Listeners\<close> (\<open>*_listener.go\<close>, \<open>ttl_cache.go\<close>, \<open>cache/expire.go\<close>): one stream per container, metadata that is fresh enough; locale \<open>ttl_lookup\<close>.
  \<^item> \<open>LogStore\<close>, \<open>LogStoreReads\<close>, \<open>LogStoreWrites\<close> (\<open>log_storage/store.go\<close>): files, index, retention; reading backwards equals a
    reference search, the index accounts for every line whatever fails, written lines are read back.
  \<^item> \<open>ContainerStore\<close> (\<open>container_store.go\<close>, \<open>volume_monitor.go\<close>): labels limit what is given out.
  \<^item> \<open>DockerEngine\<close>, \<open>DockerUpdate\<close> (\<open>docker/*.go\<close>, \<open>docker_service.go\<close>): figures, log frames, the statistics collector, updating a container.
  \<^item> \<open>ClientManagers\<close>, \<open>MultiHost\<close> (\<open>support/docker\<close>): retries of agents, swarm replicas, settings passed on; locale \<open>client_registry\<close>.
  \<^item> \<open>Auth\<close> (\<open>internal/auth\<close>), \<open>WebAccess\<close> (\<open>routes.go\<close>, \<open>actions.go\<close>, \<open>terminal.go\<close>, \<open>download.go\<close>, \<open>auth.go\<close>, \<open>index.go\<close>): users, roles, filters and
    what a request may do.
  \<^item> \<open>LogEscape\<close> (\<open>support/web\<close>), \<open>WebLogs\<close> (\<open>web/logs.go\<close>), \<open>CacheWorker\<close> (\<open>log_cache_worker.go\<close>): HTML of log lines, the log requests, the filling of the cache.
  \<^item> \<open>CloudTools\<close>, \<open>CloudStream\<close> (\<open>internal/cloud\<close>, the local host service of \<open>main.go\<close>): tools, how they find a container, streams and the
    connection; locale \<open>batcher\<close> for the two loops that send lines in batches.

  \<^bold>\<open>How code becomes definitions.\<close>  Structs are records, tagged values datatypes, errors and panics values of sum types, and a definition keeps
  the name of the function it translates.  A handler that holds a lock or runs in one goroutine is one function on the state; handlers,
  timers, workers and failures interleave as steps of inductive relations, and invariants are shown for every reachable state.  One reading
  of the clock, \<open>now\<close>, serves a handler.  A Go map is a map, the order in which it is visited a list of keys; a nil map is \<open>None\<close>.  Counters
  of 32 bits wrap (\<open>wrap32\<close>), and so do durations that are computed from settings or doubled (\<open>wrap64\<close>, \<open>time_Seconds\<close>); instants do not.  Byte and network counters are words.  Strings are bytes, and case is that of ASCII letters.

  \<^bold>\<open>What is not under \<open>src/\<close>.\<close>  Expression programs and regular expressions (\<open>expr_lib\<close>, \<open>regexp\<close>), time zones (\<open>tz_db\<close>), text and JSON
  formatting (\<open>env_lib\<close>, \<open>web_lib\<close>, \<open>tool_lib\<close>), YAML and files (\<open>yaml_lib\<close>, \<open>disk\<close>), the database (\<open>faults\<close>, \<open>store_faults\<close>), HTTP exchanges, the engine
  (\<open>engine_view\<close>, \<open>engine_answers\<close>, \<open>client_answer\<close>, \<open>engine_answer\<close>) and password hashes and tokens (\<open>auth_lib\<close>) are arguments.  What a property needs
  of them is a hypothesis of its theorem, met by a sample in its witness.

  \<^bold>\<open>Loops.\<close>  Most recurse on data or on a decreasing measure.  The search for enough log lines (\<open>fetch_loop\<close>, \<open>walk_loop\<close>) widens its range until it meets the
  creation of the container; it runs with fuel \<open>rounds\<close>, 34, and since the step doubles until it passes any range that 64 bits can hold, the theorems show that the
  fuel is never used up.

  \<^bold>\<open>Not modelled.\<close>  The Kubernetes client and compose deployments, which are calls into their libraries; the gRPC servers and clients around generated code; server-sent
  events, static pages, profiles and the command line, which are input and output; the level guesser, a set of regular expressions whose result is an argument; the
  front end.
\<close>

section \<open>Properties across components\<close>

lemma local_find_service:
  "local_find sides h i labels = Inr c \<Longrightarrow> \<exists>hid a. (hid, a) \<in> set sides \<and> hid = h \<and> ca_find a i labels = Some c"
  by (induction sides h i labels rule: local_find.induct) (auto split: if_splits option.splits)

text \<open>C10. Dozzle Cloud cannot reach past the container filter of the server: whatever a call names, the container it acts on is one that an
engine of this process lists for that filter.  Tools, resolver, local host service and container store together keep it so.\<close>

theorem cloud_deeds_stay_in_filter:
  assumes "executeTool w cancelled call mh = Inr (r, ds, mh')" and "d \<in> set ds"
    and "td_HostService (tw_deps w) = localCloudHostService first now services"
    and "labels_Exists (td_Labels (tw_deps w))" and "\<forall>a\<in>set services. \<exists>eng. store_client a eng"
  shows "\<exists>a eng. a \<in> set services \<and> store_client a eng \<and> c_ID (deed_container d) \<in> listed_ids eng (td_Labels (tw_deps w))"
proof -
  have "tool_target (tc_args call) (tw_deps w) = Inr (deed_container d)" using tool_deed_target [OF assms(1,2)] by blast
  then obtain h i where "hs_FindContainer (td_HostService (tw_deps w)) h i (td_Labels (tw_deps w)) = Inr (deed_container d)"
    using tool_target_Inr by blast
  then obtain hid a where a: "(hid, a) \<in> set (zip (resolveHostIDs first) services)" "ca_find a i (td_Labels (tw_deps w)) = Some (deed_container d)"
    using local_find_service unfolding assms(3) localCloudHostService_def by fastforce
  from a(1) have "a \<in> set services" by (rule set_zip_rightD)
  then obtain eng where "store_client a eng" using assms(5) by blast
  then show ?thesis using store_client_find [OF _ a(2) assms(4)] \<open>a \<in> set services\<close> by blast
qed

definition gate_host :: host where
  "gate_host = zero_host\<lparr>h_ID := ''h'', h_Name := ''home''\<rparr>"

definition gate_client :: client_answer where
  "gate_client = door_client\<lparr>ca_list := (\<lambda>_. Some [sample_container])\<rparr>"

definition gate_world :: tool_world where
  "gate_world = demo_world\<lparr>tw_deps := \<lparr>td_EnableActions = True,
     td_HostService = localCloudHostService [Some gate_host] [Some gate_host] [gate_client], td_Labels = Some [''team'' \<mapsto> [''x'']]\<rparr>\<rparr>"

definition gate_call :: tool_call where
  "gate_call = \<lparr>tc_Name = ''restart_container'', tc_blank = False, tc_args = Some (JObj [(''container_id'', JStr ''n'')])\<rparr>"

lemma gate_target: "tool_target (tc_args gate_call) (tw_deps gate_world) = Inr sample_container"
proof -
  have "string_field (tc_args gate_call) ''container_id'' = Inr ''n''" "string_field (tc_args gate_call) ''host_id'' = Inr []"
    unfolding gate_call_def by code_simp+
  then have args: "containerActionArgs (tc_args gate_call) = Inr (''n'', [])" by (simp add: containerActionArgs_def)
  have listed: "hs_ListAllContainers (td_HostService (tw_deps gate_world)) l = [sample_container]" for l
    by (simp add: gate_world_def localCloudHostService_def local_ListAllContainers_def gate_client_def)
  have "\<not> matchesID ''a'' ''n''" "EqualFold ''n'' ''n''" by code_simp+
  then have "winning_tier ''n'' [sample_container] = [sample_container]"
    by (simp add: winning_tier_def tier_step_def) (simp add: sample_container_def)
  moreover have "TrimSpace ''n'' = ''n''" by code_simp
  ultimately have "matchContainerTier ''n'' [] (tw_deps gate_world) = Inr ([sample_container], [])"
    by (simp add: matchContainerTier_def search_scope_def listed)
  then have "resolveContainerRef ''n'' [] (tw_deps gate_world) = Inr (''h'', ''a'')"
    by (simp add: resolveContainerRef_def) (simp add: sample_container_def)
  moreover have "find_for_tool ''h'' ''a'' (tw_deps gate_world) = Inr sample_container"
    using door_finds by (simp add: gate_world_def localCloudHostService_def resolveHostIDs_def gate_host_def gate_client_def
        mh_FindContainer_def door_world_def door_client_def split: option.splits)
  ultimately show ?thesis using args by (simp add: tool_target_def)
qed

lemma gate_restarts: "\<exists>r. executeTool gate_world False gate_call demo_hosts = Inr (r, [Acted sample_container Action_Restart], demo_hosts)"
proof -
  have "\<exists>a. containerActionArgs (tc_args gate_call) = Inr a" using gate_target by (auto simp: tool_target_def)
  moreover have "resolveAction ''restart_container'' = Inr Action_Restart" by code_simp
  ultimately have "snd (executeContainerAction eng ''restart_container'' (tc_args gate_call) (tw_deps gate_world)) = [Acted sample_container Action_Restart]" for eng
    using gate_target by (auto simp: executeContainerAction_def andE_def)
  then obtain r where "executeContainerAction (tw_engine gate_world) ''restart_container'' (tc_args gate_call) (tw_deps gate_world)
      = (r, [Acted sample_container Action_Restart])" by (metis prod.collapse)
  moreover have "td_EnableActions (tw_deps gate_world)" by (simp add: gate_world_def)
  ultimately show ?thesis by (simp add: executeTool_def gate_call_def requiresActions_def)
qed

theorem cloud_deeds_stay_in_filter_witness:
  "\<exists>eng. store_client gate_client eng \<and> c_ID sample_container \<in> listed_ids eng (Some [''team'' \<mapsto> [''x'']])"
proof -
  obtain r where ex: "executeTool gate_world False gate_call demo_hosts = Inr (r, [Acted sample_container Action_Restart], demo_hosts)"
    using gate_restarts by blast
  have "store_client gate_client home_engine" using door_store_client by (simp add: store_client_def gate_client_def)
  then show ?thesis
    using cloud_deeds_stay_in_filter [OF ex, of "Acted sample_container Action_Restart" "[Some gate_host]" "[Some gate_host]" "[gate_client]"]
    by (auto simp: gate_world_def labels_Exists_def label_map_def)
qed

end
